(* ===== verification/OpsPrelude.thy ===== *)
theory OpsPrelude
  imports Complex_Main "HOL-Library.AList"
begin

text \<open>
  Shared vocabulary of the development: type synonyms for identifiers and times, the JSON value
  type exchanged between the control plane and the node agent, Python's truthiness and
  \<open>dict\<close> behaviour on association lists, and the generic lemmas on keyed tables (lists of rows
  with a primary key) that every component uses.
\<close>

section \<open>Names and time\<close>

text \<open>
  A \<open>uuid.UUID\<close> is its 128-bit integer value. Its text form is a fixed-width lower-case
  hexadecimal rendering, so comparing \<open>str(u)\<close> is comparing the integers.
  A \<open>datetime\<close> is its number of microseconds since the epoch; a duration in seconds is
  turned into microseconds by \<open>seconds\<close>.
\<close>

type_synonym uuid = nat
type_synonym timestamp = int

definition seconds :: "int \<Rightarrow> int" where
  "seconds n = n * 1000000"

lemma seconds_pos: "1 \<le> n \<Longrightarrow> 0 < seconds n"
  by (simp add: seconds_def)

section \<open>JSON values\<close>

text \<open>
  The values that \<open>dict[str, Any]\<close> fields carry. A finite Python \<open>float\<close> is the rational it
  denotes (both sides reject NaN and infinities: \<open>allow_nan=False\<close>, \<open>allow_inf_nan=False\<close>);
  an object is an insertion-ordered association list, as a Python \<open>dict\<close> is.
\<close>

datatype json =
    JNull
  | JBool bool
  | JInt int
  | JFloat rat
  | JStr string
  | JArr "json list"
  | JObj "(string \<times> json) list"

type_synonym json_obj = "(string \<times> json) list"

fun is_jstr :: "json \<Rightarrow> bool" where
  "is_jstr (JStr _) = True"
| "is_jstr _ = False"

section \<open>Python truthiness of optional strings\<close>

text \<open>\<open>a or b\<close> where \<open>a\<close> is \<open>str | None\<close>: the empty string is false.\<close>

fun truthy_str :: "string option \<Rightarrow> bool" where
  "truthy_str None = False"
| "truthy_str (Some s) = (s \<noteq> [])"

fun or_str :: "string option \<Rightarrow> string option \<Rightarrow> string option" where
  "or_str a b = (if truthy_str a then a else b)"

section \<open>Keyed tables\<close>

text \<open>
  A database table is the list of its rows in storage order; \<open>key\<close> is the primary key.
\<close>

definition lookup_by :: "('r \<Rightarrow> 'k) \<Rightarrow> 'k \<Rightarrow> 'r list \<Rightarrow> 'r option" where
  "lookup_by key k rs = find (\<lambda>r. key r = k) rs"

definition replace_by :: "('r \<Rightarrow> 'k) \<Rightarrow> 'r \<Rightarrow> 'r list \<Rightarrow> 'r list" where
  "replace_by key v rs = map (\<lambda>r. if key r = key v then v else r) rs"

definition delete_by :: "('r \<Rightarrow> 'k) \<Rightarrow> 'k \<Rightarrow> 'r list \<Rightarrow> 'r list" where
  "delete_by key k rs = filter (\<lambda>r. key r \<noteq> k) rs"

definition keyed :: "('r \<Rightarrow> 'k) \<Rightarrow> 'r list \<Rightarrow> bool" where
  "keyed key rs \<longleftrightarrow> distinct (map key rs)"

named_theorems table_simps

lemma lookup_by_Some_iff:
  "keyed key rs \<Longrightarrow> lookup_by key k rs = Some r \<longleftrightarrow> r \<in> set rs \<and> key r = k"
proof (induction rs)
  case Nil
  then show ?case by (simp add: lookup_by_def)
next
  case (Cons x rs)
  then show ?case by (auto simp: lookup_by_def keyed_def image_iff)
qed

lemma lookup_by_SomeD: "lookup_by key k rs = Some r \<Longrightarrow> r \<in> set rs \<and> key r = k"
  by (induction rs) (auto simp: lookup_by_def split: if_splits)

lemma lookup_by_None_iff: "lookup_by key k rs = None \<longleftrightarrow> (\<forall>r \<in> set rs. key r \<noteq> k)"
  by (auto simp: lookup_by_def find_None_iff)

lemma map_key_replace_by [table_simps]: "map key (replace_by key v rs) = map key rs"
  by (simp add: replace_by_def)

lemma keyed_replace_by [table_simps]: "keyed key (replace_by key v rs) = keyed key rs"
  by (simp add: keyed_def map_key_replace_by)

lemma keyed_delete_by: "keyed key rs \<Longrightarrow> keyed key (delete_by key k rs)"
  by (auto simp: keyed_def delete_by_def distinct_map inj_on_def)

lemma set_replace_by:
  "r \<in> set (replace_by key v rs) \<longleftrightarrow>
     (r = v \<and> (\<exists>x \<in> set rs. key x = key v)) \<or> (r \<in> set rs \<and> key r \<noteq> key v)"
  by (auto simp: replace_by_def)

lemma set_delete_by [table_simps]: "set (delete_by key k rs) = {r \<in> set rs. key r \<noteq> k}"
  by (auto simp: delete_by_def)

lemma lookup_by_replace_by:
  "lookup_by key k (replace_by key v rs) =
     (if key v = k then map_option (\<lambda>_. v) (lookup_by key k rs) else lookup_by key k rs)"
  by (induction rs) (auto simp: lookup_by_def replace_by_def)

lemma lookup_by_delete_by:
  "lookup_by key k (delete_by key j rs) = (if j = k then None else lookup_by key k rs)"
  by (induction rs) (auto simp: lookup_by_def delete_by_def)

lemma lookup_by_append:
  "lookup_by key k (rs @ qs) = (case lookup_by key k rs of None \<Rightarrow> lookup_by key k qs | Some x \<Rightarrow> Some x)"
  by (induction rs) (simp_all add: lookup_by_def)

lemma lookup_by_single: "lookup_by key k [r] = (if key r = k then Some r else None)"
  by (simp add: lookup_by_def)

lemma lookup_by_map:
  "(\<And>r. key (f r) = key r) \<Longrightarrow> lookup_by key k (map f rs) = map_option f (lookup_by key k rs)"
  by (induction rs) (simp_all add: lookup_by_def)

text \<open>
  The storage interface the clients of a table rely on: reading back a written row, rows of other
  keys untouched, deletion. Every keyed table of the model is an instance.
\<close>

locale row_store =
  fixes get :: "'k \<Rightarrow> 's \<Rightarrow> 'r option"
    and put :: "'r \<Rightarrow> 's \<Rightarrow> 's"
    and del :: "'k \<Rightarrow> 's \<Rightarrow> 's"
    and key :: "'r \<Rightarrow> 'k"
  assumes get_key: "get k s = Some r \<Longrightarrow> key r = k"
    and get_put: "get k (put r s) = (if key r = k then map_option (\<lambda>_. r) (get k s) else get k s)"
    and get_del: "get k (del j s) = (if j = k then None else get k s)"
begin

lemma get_put_same: "get (key r) s = Some r' \<Longrightarrow> get (key r) (put r s) = Some r"
  by (simp add: get_put)

lemma get_put_other: "key r \<noteq> k \<Longrightarrow> get k (put r s) = get k s"
  by (simp add: get_put)

lemma put_put: "key r = key r' \<Longrightarrow> get k (put r (put r' s)) = get k (put r s)"
  by (simp add: get_put option.map_comp comp_def)

lemma put_keeps_dom: "get k (put r s) = None \<longleftrightarrow> get k s = None"
  by (simp add: get_put)

end

interpretation keyed_rows: row_store "lookup_by key" "replace_by key" "delete_by key" key
  for key :: "'r \<Rightarrow> 'k"
  by unfold_locales (auto simp: lookup_by_replace_by lookup_by_delete_by dest: lookup_by_SomeD)

section \<open>Insertion-ordered dictionaries\<close>

text \<open>
  \<open>d[k] = v\<close> on a Python \<open>dict\<close> keeps the position of an existing key and appends a new one:
  \<open>AList.update\<close>. \<open>d.get(k)\<close> is \<open>map_of d k\<close>.
\<close>

abbreviation dict_set :: "'k \<Rightarrow> 'v \<Rightarrow> ('k \<times> 'v) list \<Rightarrow> ('k \<times> 'v) list" where
  "dict_set \<equiv> AList.update"

lemma dict_get_set: "map_of (dict_set k v d) k' = (if k' = k then Some v else map_of d k')"
  by (simp add: update_conv')

lemma set_dict_set: "set (dict_set k v d) \<subseteq> insert (k, v) (set d)"
  by (induction d) auto

lemma distinct_dict_set: "distinct (map fst d) \<Longrightarrow> distinct (map fst (dict_set k v d))"
  by (rule distinct_update)

section \<open>Lists\<close>

lemma distinct_map_filter_key: "distinct (map f xs) \<Longrightarrow> distinct (map f (filter P xs))"
  by (simp add: distinct_map_filter)

lemma sorted_distinct_eq:
  assumes "sorted xs" "sorted ys" "distinct xs" "distinct ys" "set xs = set ys"
  shows "xs = ys"
  using assms by (intro sorted_distinct_set_unique) auto

lemma hd_sort_min: "xs \<noteq> [] \<Longrightarrow> x \<in> set xs \<Longrightarrow> hd (sort xs) \<le> (x :: 'a :: linorder)"
proof -
  assume "xs \<noteq> []" and "x \<in> set xs"
  then have "x \<in> set (sort xs)" and "sorted (sort xs)" by simp_all
  then show ?thesis by (cases "sort xs") auto
qed

lemma set_filter_eq_self: "(\<And>x. x \<in> set xs \<Longrightarrow> P x) \<Longrightarrow> filter P xs = xs"
  by (simp add: filter_id_conv)

end
