(* ===== verification/Entities.thy ===== *)
theory Entities
  imports OpsPrelude
begin

text \<open>
  The control plane's data model: the enumerations of \<open>backend/app/models/enums.py\<close> and the
  rows of \<open>backend/app/models/entities.py\<close> that the scheduler, the reconciler and the routes
  read or write. The columns shared by the three workload tables are one record that the three
  rows extend; the database is the record of the tables. The \<open>updated_at\<close> column, which the
  database maintains and no code reads back, is left out.
\<close>

section \<open>Enumerations\<close>

datatype model_source_type = HUGGINGFACE | MODELSCOPE | SFTP | MANUAL | TRAINED
datatype model_kind = BASE | INSTRUCT | EMBEDDING
datatype evaluation_template = TEMPLATE_BASE | TEMPLATE_INSTRUCT
datatype asset_status = ASSET_IMPORTING | ASSET_READY | ASSET_FAILED
datatype dataset_type = DATASET_CPT | DATASET_SFT | DATASET_EVALUATION
datatype dataset_status = DATASET_VALIDATING | DATASET_READY | DATASET_INVALID
datatype deployment_task_type = GENERATE | TASK_EMBEDDING
datatype desired_service_state = SERVICE_RUNNING | SERVICE_STOPPED

datatype deployment_state =
    D_CREATED | D_QUEUED | D_STARTING | D_RUNNING | D_STOPPING | D_STOPPED | D_FAILED

datatype training_stage = CPT | SFT
datatype training_algorithm = FREEZE | LORA | QLORA
datatype desired_job_state = JOB_RUNNING | JOB_TERMINATED

datatype job_state =
    J_CREATED | J_QUEUED | J_STARTING | J_RUNNING | J_CANCELING | J_CANCELED | J_SUCCEEDED | J_FAILED

datatype lease_owner_type = DEPLOYMENT | TRAINING | EVALUATION

text \<open>The string values of \<open>LeaseOwnerType\<close>; Python compares them lexicographically.\<close>

fun owner_type_value :: "lease_owner_type \<Rightarrow> string" where
  "owner_type_value DEPLOYMENT = ''deployment''"
| "owner_type_value TRAINING = ''training''"
| "owner_type_value EVALUATION = ''evaluation''"

fun stage_value :: "training_stage \<Rightarrow> string" where
  "stage_value CPT = ''cpt''"
| "stage_value SFT = ''sft''"

fun algorithm_value :: "training_algorithm \<Rightarrow> string" where
  "algorithm_value FREEZE = ''freeze''"
| "algorithm_value LORA = ''lora''"
| "algorithm_value QLORA = ''qlora''"

fun task_type_value :: "deployment_task_type \<Rightarrow> string" where
  "task_type_value GENERATE = ''generate''"
| "task_type_value TASK_EMBEDDING = ''embedding''"

section \<open>Messages\<close>

text \<open>
  Text that reaches \<open>error_message\<close>. \<open>AgentSaid\<close> is text received from the node agent; the
  other constructors are the fixed (Chinese) sentences of the source, one constructor per
  sentence, with the values the source interpolates.
\<close>

datatype notice =
    AgentSaid string
  | CallFailed string            \<comment> \<open>\<open>str(exc)\<close> of a \<open>NodeAgentError\<close>\<close>
  | AgentRefusedStart            \<comment> \<open>the agent explicitly refused the start\<close>
  | AgentRejectedDeployment      \<comment> \<open>refused, with an absent container\<close>
  | DeploymentRequeued           \<comment> \<open>no running instance found, queued again\<close>
  | InferenceExited              \<comment> \<open>the inference instance exited\<close>
  | InstanceVanished             \<comment> \<open>the instance disappeared, recreate the task by hand\<close>
  | TrainingRunFailed
  | EvaluationRunFailed
  | TrainingTerminalMetadata string   \<comment> \<open>metadata of a terminal state rejected\<close>
  | TrainingStatusMetadata string     \<comment> \<open>metadata of a live state rejected\<close>
  | TrainingArtifacts string          \<comment> \<open>artifacts of a success rejected\<close>
  | EvaluationArtifacts string
  | TrainingPreflight string          \<comment> \<open>check before start failed\<close>
  | EvaluationPreflight string
  | AssetSoftDeleted

section \<open>Workload rows\<close>

record workload_row =
  row_id :: uuid
  row_name :: string
  created_at :: timestamp
  gpu_ids :: "int list"
  started_at :: "timestamp option"
  error_message :: "notice option"
  queued_at :: "timestamp option"
  state_version :: int
  runtime_generation :: int

record deployment = workload_row +
  served_model_name :: string
  dep_model_asset_id :: uuid
  task_type :: deployment_task_type
  dep_desired :: desired_service_state
  dep_actual :: deployment_state
  tensor_parallel_size :: int
  port :: "int option"
  internal_url :: "string option"
  simplified_config :: json
  vllm_args :: json
  health_status :: "string option"

text \<open>The columns that \<open>TrainingJob\<close> and \<open>EvaluationRun\<close> share beyond the common ones.\<close>

record job_row = workload_row +
  job_desired :: desired_job_state
  job_actual :: job_state
  finished_at :: "timestamp option"

record training_job = job_row +
  train_model_asset_id :: uuid
  dataset_id :: uuid
  stage :: training_stage
  algorithm :: training_algorithm
  progress :: rat
  current_step :: "int option"
  total_steps :: "int option"
  train_metrics :: json_obj
  training_config :: json_obj
  train_output_dir :: string
  checkpoint_path :: "string option"
  adapter_path :: "string option"
  merged_model_path :: "string option"
  published_model_asset_id :: "uuid option"

record evaluation_run = job_row +
  base_model_asset_id :: uuid
  candidate_model_asset_id :: uuid
  custom_dataset_id :: "uuid option"
  builtin_datasets :: "string list"
  base_template :: evaluation_template
  candidate_template :: evaluation_template
  eval_output_dir :: string
  eval_tensor_parallel_size :: int
  gpu_memory_utilization :: rat
  concurrency :: int
  max_tokens :: int
  eval_metrics :: json_obj
  comparison :: json_obj
  result_path :: "string option"
  dataset_manifest_path :: "string option"
  warnings :: "string list"

section \<open>Leases, assets, data sets\<close>

record lease =
  gpu_index :: int
  lease_group_id :: uuid
  owner_type :: lease_owner_type
  owner_id :: uuid
  owner_name :: string
  generation :: int
  acquired_at :: timestamp
  heartbeat_at :: timestamp
  expires_at :: timestamp

record model_asset =
  asset_id :: uuid
  asset_name :: string
  source_type :: model_source_type
  source_uri :: "string option"
  asset_revision :: "string option"
  local_path :: string
  asset_kind :: model_kind
  asset_format :: string
  asset_status :: asset_status
  family :: "string option"
  parameter_count :: "int option"
  asset_size_bytes :: "int option"
  asset_checksum :: "string option"
  asset_error :: "notice option"
  metadata_json :: json_obj
  deleted_at :: "timestamp option"

record dataset =
  ds_id :: uuid
  ds_name :: string
  ds_type :: dataset_type
  ds_status :: dataset_status
  ds_file_name :: string
  ds_local_path :: string
  record_count :: "int option"
  size_bytes :: "int option"
  sha256 :: "string option"
  schema_summary :: json_obj
  validation_errors :: "json list"
  ds_description :: "string option"

section \<open>The database\<close>

record db =
  deployments :: "deployment list"
  training_jobs :: "training_job list"
  evaluation_runs :: "evaluation_run list"
  gpu_leases :: "lease list"
  model_assets :: "model_asset list"
  datasets :: "dataset list"

text \<open>A row of one of the three workload tables, as \<open>Deployment | TrainingJob | EvaluationRun\<close>.\<close>

datatype row =
    DeploymentRow deployment
  | TrainingRow training_job
  | EvaluationRow evaluation_run

fun row_type :: "row \<Rightarrow> lease_owner_type" where
  "row_type (DeploymentRow _) = DEPLOYMENT"
| "row_type (TrainingRow _) = TRAINING"
| "row_type (EvaluationRow _) = EVALUATION"

fun rid :: "row \<Rightarrow> uuid" where
  "rid (DeploymentRow d) = row_id d"
| "rid (TrainingRow t) = row_id t"
| "rid (EvaluationRow e) = row_id e"

fun rname :: "row \<Rightarrow> string" where
  "rname (DeploymentRow d) = row_name d"
| "rname (TrainingRow t) = row_name t"
| "rname (EvaluationRow e) = row_name e"

fun rgpus :: "row \<Rightarrow> int list" where
  "rgpus (DeploymentRow d) = gpu_ids d"
| "rgpus (TrainingRow t) = gpu_ids t"
| "rgpus (EvaluationRow e) = gpu_ids e"

fun rgen :: "row \<Rightarrow> int" where
  "rgen (DeploymentRow d) = runtime_generation d"
| "rgen (TrainingRow t) = runtime_generation t"
| "rgen (EvaluationRow e) = runtime_generation e"

fun rversion :: "row \<Rightarrow> int" where
  "rversion (DeploymentRow d) = state_version d"
| "rversion (TrainingRow t) = state_version t"
| "rversion (EvaluationRow e) = state_version e"

fun rqueued :: "row \<Rightarrow> timestamp option" where
  "rqueued (DeploymentRow d) = queued_at d"
| "rqueued (TrainingRow t) = queued_at t"
| "rqueued (EvaluationRow e) = queued_at e"

fun rcreated :: "row \<Rightarrow> timestamp" where
  "rcreated (DeploymentRow d) = created_at d"
| "rcreated (TrainingRow t) = created_at t"
| "rcreated (EvaluationRow e) = created_at e"

fun set_rgen :: "int \<Rightarrow> row \<Rightarrow> row" where
  "set_rgen g (DeploymentRow d) = DeploymentRow (d\<lparr>runtime_generation := g\<rparr>)"
| "set_rgen g (TrainingRow t) = TrainingRow (t\<lparr>runtime_generation := g\<rparr>)"
| "set_rgen g (EvaluationRow e) = EvaluationRow (e\<lparr>runtime_generation := g\<rparr>)"

fun set_rerror :: "notice option \<Rightarrow> row \<Rightarrow> row" where
  "set_rerror m (DeploymentRow d) = DeploymentRow (d\<lparr>error_message := m\<rparr>)"
| "set_rerror m (TrainingRow t) = TrainingRow (t\<lparr>error_message := m\<rparr>)"
| "set_rerror m (EvaluationRow e) = EvaluationRow (e\<lparr>error_message := m\<rparr>)"

lemma set_rgen_simps [simp]:
  "row_type (set_rgen g r) = row_type r" "rid (set_rgen g r) = rid r"
  "rname (set_rgen g r) = rname r" "rgpus (set_rgen g r) = rgpus r"
  "rgen (set_rgen g r) = g" "rversion (set_rgen g r) = rversion r"
  by (cases r; simp)+

lemma set_rerror_simps [simp]:
  "row_type (set_rerror m r) = row_type r" "rid (set_rerror m r) = rid r"
  "rname (set_rerror m r) = rname r" "rgpus (set_rerror m r) = rgpus r"
  "rgen (set_rerror m r) = rgen r" "rversion (set_rerror m r) = rversion r"
  by (cases r; simp)+

section \<open>Row access: \<open>session.get\<close>, attribute writes, \<open>session.delete\<close>\<close>

text \<open>
  \<open>get_row\<close> reads a row by its table and primary key, \<open>put_row\<close> flushes the changed
  attributes of a loaded row, \<open>del_row\<close> deletes one. The key of a row is its table together
  with its primary key.
\<close>

type_synonym row_key = "lease_owner_type \<times> uuid"

definition row_key :: "row \<Rightarrow> row_key" where
  "row_key r = (row_type r, rid r)"

fun get_row :: "row_key \<Rightarrow> db \<Rightarrow> row option" where
  "get_row (DEPLOYMENT, i) s = map_option DeploymentRow (lookup_by row_id i (deployments s))"
| "get_row (TRAINING, i) s = map_option TrainingRow (lookup_by row_id i (training_jobs s))"
| "get_row (EVALUATION, i) s = map_option EvaluationRow (lookup_by row_id i (evaluation_runs s))"

fun put_row :: "row \<Rightarrow> db \<Rightarrow> db" where
  "put_row (DeploymentRow d) s = s\<lparr>deployments := replace_by row_id d (deployments s)\<rparr>"
| "put_row (TrainingRow t) s = s\<lparr>training_jobs := replace_by row_id t (training_jobs s)\<rparr>"
| "put_row (EvaluationRow e) s = s\<lparr>evaluation_runs := replace_by row_id e (evaluation_runs s)\<rparr>"

fun del_row :: "row_key \<Rightarrow> db \<Rightarrow> db" where
  "del_row (DEPLOYMENT, i) s = s\<lparr>deployments := delete_by row_id i (deployments s)\<rparr>"
| "del_row (TRAINING, i) s = s\<lparr>training_jobs := delete_by row_id i (training_jobs s)\<rparr>"
| "del_row (EVALUATION, i) s = s\<lparr>evaluation_runs := delete_by row_id i (evaluation_runs s)\<rparr>"

definition all_rows :: "db \<Rightarrow> row list" where
  "all_rows s = map DeploymentRow (deployments s) @ map TrainingRow (training_jobs s)
     @ map EvaluationRow (evaluation_runs s)"

text \<open>Primary keys are unique in each table.\<close>

definition keys_ok :: "db \<Rightarrow> bool" where
  "keys_ok s \<longleftrightarrow> keyed row_id (deployments s) \<and> keyed row_id (training_jobs s)
     \<and> keyed row_id (evaluation_runs s)"

lemma get_row_key: "get_row k s = Some r \<Longrightarrow> row_key r = k"
  by (cases "(k, s)" rule: get_row.cases) (auto simp: row_key_def dest: lookup_by_SomeD)

lemma get_row_put_row:
  "get_row k (put_row r s) = (if row_key r = k then map_option (\<lambda>_. r) (get_row k s) else get_row k s)"
  by (cases "(k, s)" rule: get_row.cases; cases r)
     (auto simp: row_key_def lookup_by_replace_by option.map_comp comp_def)

lemma get_row_del_row: "get_row k (del_row j s) = (if j = k then None else get_row k s)"
  by (cases "(k, s)" rule: get_row.cases; cases "(j, s)" rule: get_row.cases)
     (auto simp: lookup_by_delete_by)

interpretation rows: row_store get_row put_row del_row row_key
  by unfold_locales (auto simp: get_row_put_row get_row_del_row dest: get_row_key)

lemma get_row_iff: "keys_ok s \<Longrightarrow> get_row k s = Some r \<longleftrightarrow> r \<in> set (all_rows s) \<and> row_key r = k"
  by (cases "(k, s)" rule: get_row.cases)
     (auto simp: keys_ok_def all_rows_def row_key_def lookup_by_Some_iff)

lemma put_row_leases [simp]: "gpu_leases (put_row r s) = gpu_leases s"
  by (cases r) auto

lemma del_row_leases [simp]: "gpu_leases (del_row k s) = gpu_leases s"
  by (cases "(k, s)" rule: get_row.cases) auto

lemma get_row_leases [simp]: "get_row k (s\<lparr>gpu_leases := L\<rparr>) = get_row k s"
  by (cases "(k, s)" rule: get_row.cases) auto

lemma put_row_leases_commute: "put_row r (s\<lparr>gpu_leases := L\<rparr>) = (put_row r s)\<lparr>gpu_leases := L\<rparr>"
  by (cases r) auto

lemma all_rows_leases [simp]: "all_rows (s\<lparr>gpu_leases := L\<rparr>) = all_rows s"
  by (simp add: all_rows_def)

lemma keys_ok_leases [simp]: "keys_ok (s\<lparr>gpu_leases := L\<rparr>) = keys_ok s"
  by (simp add: keys_ok_def)

lemma keys_ok_put_row [simp]: "keys_ok (put_row r s) = keys_ok s"
  by (cases r) (auto simp: keys_ok_def table_simps)

lemma keys_ok_del_row: "keys_ok s \<Longrightarrow> keys_ok (del_row k s)"
  by (cases "(k, s)" rule: get_row.cases) (auto simp: keys_ok_def keyed_delete_by)

lemma all_rows_put_row:
  "r' \<in> set (all_rows (put_row r s)) \<longleftrightarrow>
     (r' = r \<and> (\<exists>x \<in> set (all_rows s). row_key x = row_key r))
     \<or> (r' \<in> set (all_rows s) \<and> row_key r' \<noteq> row_key r)"
  by (cases r) (auto simp: all_rows_def row_key_def set_replace_by image_iff Bex_def)

lemma all_rows_del_row:
  "r' \<in> set (all_rows (del_row k s)) \<longleftrightarrow> r' \<in> set (all_rows s) \<and> row_key r' \<noteq> k"
  by (cases "(k, s)" rule: get_row.cases) (auto simp: all_rows_def row_key_def table_simps)

end
