(* ===== verification/PyStrings.thy ===== *)
theory PyStrings
  imports OpsPrelude
begin

text \<open>
  The parts of Python's \<open>str\<close>, \<open>bytes\<close> and \<open>int\<close> that the program uses. A character is a
  code point below 256, which covers ASCII text and the Latin-1 decoded header values a server
  hands to the application; a byte string is a list of the same 256 values.
\<close>

abbreviation code :: "char \<Rightarrow> nat" where
  "code c \<equiv> of_char c"

section \<open>Case, white space, splitting\<close>

definition lower_char :: "char \<Rightarrow> char" where
  "lower_char c =
     (if 65 \<le> code c \<and> code c \<le> 90 \<or> 192 \<le> code c \<and> code c \<le> 222 \<and> code c \<noteq> 215
      then char_of (code c + 32) else c)"

definition lower :: "string \<Rightarrow> string" where
  "lower s = map lower_char s"

definition is_space :: "char \<Rightarrow> bool" where
  "is_space c \<longleftrightarrow> 9 \<le> code c \<and> code c \<le> 13 \<or> 28 \<le> code c \<and> code c \<le> 32
     \<or> code c = 133 \<or> code c = 160"

definition strip :: "string \<Rightarrow> string" where
  "strip s = rev (dropWhile is_space (rev (dropWhile is_space s)))"

definition replace_char :: "char \<Rightarrow> char \<Rightarrow> string \<Rightarrow> string" where
  "replace_char a b s = map (\<lambda>c. if c = a then b else c) s"

fun split_on :: "char \<Rightarrow> string \<Rightarrow> string list" where
  "split_on d [] = [[]]"
| "split_on d (c # cs) =
     (if c = d then [] # split_on d cs
      else (case split_on d cs of [] \<Rightarrow> [[c]] | w # ws \<Rightarrow> (c # w) # ws))"

fun join_with :: "char \<Rightarrow> string list \<Rightarrow> string" where
  "join_with d [] = []"
| "join_with d [w] = w"
| "join_with d (w # ws) = w @ d # join_with d ws"

definition is_ascii :: "string \<Rightarrow> bool" where
  "is_ascii s \<longleftrightarrow> (\<forall>c \<in> set s. code c < 128)"

text \<open>\<open>str.encode()\<close> on code points below 256: UTF-8.\<close>

definition utf8_char :: "char \<Rightarrow> string" where
  "utf8_char c = (if code c < 128 then [c]
     else [char_of (192 + code c div 64), char_of (128 + code c mod 64)])"

definition encode_utf8 :: "string \<Rightarrow> string" where
  "encode_utf8 s = concat (map utf8_char s)"

lemma encode_utf8_ascii: "is_ascii s \<Longrightarrow> encode_utf8 s = s"
  by (induction s) (auto simp: is_ascii_def encode_utf8_def utf8_char_def)

lemma split_on_ne [simp]: "split_on d s \<noteq> []"
  by (cases s) (auto split: list.splits)

lemma split_on_no_sep: "d \<notin> set s \<Longrightarrow> split_on d s = [s]"
  by (induction s) auto

lemma split_on_append: "d \<notin> set w \<Longrightarrow> split_on d (w @ d # s) = w # split_on d s"
  by (induction w) auto

lemma split_join:
  "ws \<noteq> [] \<Longrightarrow> \<forall>w \<in> set ws. d \<notin> set w \<Longrightarrow> split_on d (join_with d ws) = ws"
  by (induction d ws rule: join_with.induct) (auto simp: split_on_no_sep split_on_append)

lemma join_with_inj:
  assumes "join_with d ws = join_with d vs" "ws \<noteq> []" "vs \<noteq> []"
    and "\<forall>w \<in> set ws. d \<notin> set w" "\<forall>w \<in> set vs. d \<notin> set w"
  shows "ws = vs"
  using assms split_join by metis

section \<open>Decimal integers\<close>

definition is_dec :: "char \<Rightarrow> bool" where
  "is_dec c \<longleftrightarrow> 48 \<le> code c \<and> code c \<le> 57"

text \<open>\<open>str.isdigit()\<close> also accepts the Latin-1 superscript digits, which \<open>int()\<close> rejects.\<close>

definition isdigit :: "string \<Rightarrow> bool" where
  "isdigit s \<longleftrightarrow> s \<noteq> [] \<and> (\<forall>c \<in> set s. is_dec c \<or> code c \<in> {178, 179, 185})"

definition digit_char :: "nat \<Rightarrow> char" where
  "digit_char n = char_of (48 + n)"

fun str_nat :: "nat \<Rightarrow> string" where
  "str_nat n = (if n < 10 then [digit_char n] else str_nat (n div 10) @ [digit_char (n mod 10)])"

declare str_nat.simps [simp del]

definition str_int :: "int \<Rightarrow> string" where
  "str_int i = (if i < 0 then CHR ''-'' # str_nat (nat (- i)) else str_nat (nat i))"

text \<open>The digits of \<open>int(s)\<close>: groups of digits separated by single underscores.\<close>

fun dec_digits :: "string \<Rightarrow> int \<Rightarrow> bool \<Rightarrow> int option" where
  "dec_digits [] acc after_digit = (if after_digit then Some acc else None)"
| "dec_digits (c # cs) acc after_digit =
     (if is_dec c then dec_digits cs (10 * acc + int (code c - 48)) True
      else if c = CHR ''_'' \<and> after_digit then dec_digits cs acc False
      else None)"

definition py_int :: "string \<Rightarrow> int option" where
  "py_int s =
     (case strip s of
        [] \<Rightarrow> None
      | c # cs \<Rightarrow>
          (if c = CHR ''-'' then map_option uminus (dec_digits cs 0 False)
           else if c = CHR ''+'' then dec_digits cs 0 False
           else dec_digits (c # cs) 0 False))"

lemma code_digit_char: "n < 10 \<Longrightarrow> code (digit_char n) = 48 + n"
  by (simp add: digit_char_def)

lemma is_dec_digit_char: "n < 10 \<Longrightarrow> is_dec (digit_char n)"
  by (simp add: is_dec_def code_digit_char)

lemma dec_digits_append:
  "\<forall>c \<in> set cs. is_dec c \<Longrightarrow>
     dec_digits (cs @ ds) acc p = dec_digits ds (foldl (\<lambda>a c. 10 * a + int (code c - 48)) acc cs)
       (if cs = [] then p else True)"
  by (induction cs arbitrary: acc p) auto

lemma str_nat_digits: "c \<in> set (str_nat n) \<Longrightarrow> is_dec c"
proof (induction n rule: str_nat.induct)
  case (1 n)
  then show ?case
    by (subst (asm) (2) str_nat.simps) (auto simp: is_dec_digit_char split: if_splits)
qed

lemma str_nat_ne [simp]: "str_nat n \<noteq> []"
  by (subst str_nat.simps) simp

lemma dec_digits_str_nat: "foldl (\<lambda>a c. 10 * a + int (code c - 48)) 0 (str_nat n) = int n"
proof (induction n rule: str_nat.induct)
  case (1 n)
  show ?case
  proof (cases "n < 10")
    case True
    then show ?thesis by (subst str_nat.simps) (simp add: code_digit_char)
  next
    case False
    have "10 * int (n div 10) + int (n mod 10) = int n" by presburger
    with False 1 show ?thesis by (subst str_nat.simps) (simp add: code_digit_char)
  qed
qed

lemma dec_not_space: "is_dec c \<Longrightarrow> \<not> is_space c"
  by (auto simp: is_dec_def is_space_def)

lemma strip_id:
  assumes "s \<noteq> []" and "\<not> is_space (hd s)" and "\<not> is_space (last s)"
  shows "strip s = s"
proof -
  have "dropWhile is_space s = s" using assms(1,2) by (cases s) auto
  moreover have "dropWhile is_space (rev s) = rev s"
    using assms(1,3) by (cases s rule: rev_cases) auto
  ultimately show ?thesis by (simp add: strip_def)
qed

lemma py_int_str_nat: "py_int (str_nat n) = Some (int n)"
proof -
  have d: "\<forall>c \<in> set (str_nat n). is_dec c" using str_nat_digits by blast
  then have s: "strip (str_nat n) = str_nat n"
    by (intro strip_id) (auto simp: dec_not_space)
  obtain c cs where c: "str_nat n = c # cs" by (cases "str_nat n") (use str_nat_ne in blast)+
  have "c \<noteq> CHR ''-''" "c \<noteq> CHR ''+''" using d c by (auto simp: is_dec_def)
  moreover have "dec_digits (str_nat n) 0 False = Some (int n)"
    using dec_digits_append [OF d, of "[]" 0 False] dec_digits_str_nat [of n] by simp
  ultimately show ?thesis using s c by (simp add: py_int_def)
qed

lemma py_int_str_int: "py_int (str_int i) = Some i"
proof (cases "i < 0")
  case False
  then show ?thesis by (simp add: str_int_def py_int_str_nat)
next
  case True
  let ?n = "str_nat (nat (- i))"
  have d: "\<forall>c \<in> set ?n. is_dec c" using str_nat_digits by blast
  have "\<not> is_space (CHR ''-'')" by (simp add: is_space_def)
  moreover have "\<not> is_space (last ?n)" using d dec_not_space by (meson last_in_set str_nat_ne)
  ultimately have s: "strip (CHR ''-'' # ?n) = CHR ''-'' # ?n" by (intro strip_id) auto
  have "dec_digits ?n 0 False = Some (- i)"
    using dec_digits_append [OF d, of "[]" 0 False] dec_digits_str_nat [of "nat (- i)"] True by simp
  with True s show ?thesis by (simp add: str_int_def py_int_def)
qed

lemma str_int_chars: "c \<in> set (str_int i) \<Longrightarrow> is_dec c \<or> c = CHR ''-''"
  by (auto simp: str_int_def str_nat_digits split: if_splits)

lemma str_int_ne [simp]: "str_int i \<noteq> []"
  by (simp add: str_int_def)

lemma str_int_inj: "str_int i = str_int j \<Longrightarrow> i = j"
  by (metis option.inject py_int_str_int)

lemma str_int_ascii: "is_ascii (str_int i)"
  unfolding is_ascii_def
proof
  fix c assume "c \<in> set (str_int i)"
  then show "code c < 128" using str_int_chars [of c i] by (auto simp: is_dec_def)
qed

text \<open>\<open>hmac.compare_digest\<close> on two \<open>str\<close>: a \<open>TypeError\<close> (None) unless both are ASCII.\<close>

definition compare_digest :: "string \<Rightarrow> string \<Rightarrow> bool option" where
  "compare_digest a b = (if is_ascii a \<and> is_ascii b then Some (a = b) else None)"

end
