(* ===== verification/CanonicalJson.thy ===== *)
theory CanonicalJson
  imports PyStrings "HOL-Library.List_Lexorder" "HOL-Library.Char_ord"
begin

text \<open>
  \<open>canonical_json\<close>, written identically in \<open>backend/app/services/node_agent.py\<close> and
  \<open>agent/openllmops_agent/agent_contract.py\<close>: \<open>json.dumps\<close> with sorted keys, no white space and
  raw non-ASCII text, encoded as UTF-8. \<open>canon\<close> sorts the keys of every object, \<open>dump\<close> prints a
  value in the order it has; the bytes determine the value up to the order of object keys. The
  text of a \<open>float\<close> (the shortest decimal that reads back as the same double) is the argument \<open>fr\<close>.
\<close>

section \<open>Writing\<close>

definition hex_char :: "nat \<Rightarrow> char" where
  "hex_char n = (if n < 10 then char_of (48 + n) else char_of (87 + n))"

definition hex_value :: "char \<Rightarrow> nat" where
  "hex_value c = (if code c < 58 then code c - 48 else code c - 87)"

definition escape :: "char \<Rightarrow> string" where
  "escape c =
     (if c = CHR 0x22 then [CHR 0x5C, CHR 0x22]
      else if c = CHR 0x5C then [CHR 0x5C, CHR 0x5C]
      else if c = CHR 0x0A then [CHR 0x5C, CHR ''n'']
      else if c = CHR 0x0D then [CHR 0x5C, CHR ''r'']
      else if c = CHR 0x09 then [CHR 0x5C, CHR ''t'']
      else if c = CHR 0x0C then [CHR 0x5C, CHR ''f'']
      else if c = CHR 0x08 then [CHR 0x5C, CHR ''b'']
      else if code c < 32
        then [CHR 0x5C, CHR ''u'', CHR ''0'', CHR ''0'', hex_char (code c div 16), hex_char (code c mod 16)]
      else [c])"

definition dump_str :: "string \<Rightarrow> string" where
  "dump_str s = CHR 0x22 # concat (map escape s) @ [CHR 0x22]"

fun dump :: "(rat \<Rightarrow> string) \<Rightarrow> json \<Rightarrow> string"
  and dump_items :: "(rat \<Rightarrow> string) \<Rightarrow> json list \<Rightarrow> string"
  and dump_members :: "(rat \<Rightarrow> string) \<Rightarrow> (string \<times> json) list \<Rightarrow> string" where
  "dump fr JNull = ''null''"
| "dump fr (JBool b) = (if b then ''true'' else ''false'')"
| "dump fr (JInt i) = str_int i"
| "dump fr (JFloat q) = fr q"
| "dump fr (JStr s) = dump_str s"
| "dump fr (JArr []) = ''[]''"
| "dump fr (JArr (x # xs)) = CHR ''['' # dump fr x @ dump_items fr xs"
| "dump fr (JObj []) = ''{}''"
| "dump fr (JObj ((k, x) # xs)) =
     CHR ''{'' # dump_str k @ CHR '':'' # dump fr x @ dump_members fr xs"
| "dump_items fr [] = '']''"
| "dump_items fr (x # xs) = CHR '','' # dump fr x @ dump_items fr xs"
| "dump_members fr [] = ''}''"
| "dump_members fr ((k, x) # xs) =
     CHR '','' # dump_str k @ CHR '':'' # dump fr x @ dump_members fr xs"

text \<open>\<open>sort_keys=True\<close>, at every level.\<close>

fun canon :: "json \<Rightarrow> json" where
  "canon (JArr xs) = JArr (map canon xs)"
| "canon (JObj ms) = JObj (sort_key fst (map (\<lambda>(k, v). (k, canon v)) ms))"
| "canon v = v"

definition canonical_json :: "(rat \<Rightarrow> string) \<Rightarrow> json \<Rightarrow> string" where
  "canonical_json fr v = encode_utf8 (dump fr (canon v))"

section \<open>Reading back one escape, one string, one number\<close>

fun unescape :: "string \<Rightarrow> (char \<times> string) option" where
  "unescape (c # r) =
     (if c = CHR 0x5C then
        (case r of
           d # r' \<Rightarrow>
             (if d = CHR 0x22 \<or> d = CHR 0x5C then Some (d, r')
              else if d = CHR ''n'' then Some (CHR 0x0A, r')
              else if d = CHR ''r'' then Some (CHR 0x0D, r')
              else if d = CHR ''t'' then Some (CHR 0x09, r')
              else if d = CHR ''f'' then Some (CHR 0x0C, r')
              else if d = CHR ''b'' then Some (CHR 0x08, r')
              else (case r' of
                 _ # _ # h # l # r'' \<Rightarrow> Some (char_of (16 * hex_value h + hex_value l), r'')
               | _ \<Rightarrow> None))
         | [] \<Rightarrow> None)
      else Some (c, r))"
| "unescape [] = None"

lemma hex_value_char: "n < 16 \<Longrightarrow> hex_value (hex_char n) = n"
  by (auto simp: hex_value_def hex_char_def)

lemma unescape_escape: "unescape (escape c @ r) = Some (c, r)"
proof (cases "code c < 32")
  case True
  then have "code c div 16 < 16" "code c mod 16 < 16" "char_of (code c) = c" by simp_all
  moreover have "16 * (code c div 16) + code c mod 16 = code c" by simp
  ultimately have "(char_of (16 * hex_value (hex_char (code c div 16)) + hex_value (hex_char (code c mod 16))) :: char) = c"
    by (simp only: hex_value_char)
  then show ?thesis by (simp add: escape_def)
next
  case False
  then show ?thesis by (auto simp: escape_def)
qed

lemma escape_inj: "escape c @ r = escape d @ r' \<Longrightarrow> c = d \<and> r = r'"
  by (metis unescape_escape option.inject prod.inject)

lemma escape_hd: "escape c \<noteq> [] \<and> hd (escape c) \<noteq> CHR 0x22"
  by (auto simp: escape_def)

lemma escape_not_quote: "escape c @ r \<noteq> CHR 0x22 # r'"
  using escape_hd [of c] by (cases "escape c") auto

lemma escaped_Cons:
  "concat (map escape (c # s)) @ r = escape c @ concat (map escape s) @ r"
  by simp

lemma escaped_inj:
  "concat (map escape s) @ CHR 0x22 # r = concat (map escape t) @ CHR 0x22 # r' \<Longrightarrow> s = t \<and> r = r'"
proof (induction s arbitrary: t)
  case n: Nil
  show ?case
  proof (cases t)
    case Nil
    with n show ?thesis by simp
  next
    case (Cons d u)
    from n have "CHR 0x22 # r = escape d @ concat (map escape u) @ CHR 0x22 # r'"
      unfolding Cons escaped_Cons by simp
    then show ?thesis using escape_not_quote by metis
  qed
next
  case c: (Cons c s)
  show ?case
  proof (cases t)
    case Nil
    from c.prems have "escape c @ concat (map escape s) @ CHR 0x22 # r = CHR 0x22 # r'"
      unfolding Nil escaped_Cons by simp
    then show ?thesis using escape_not_quote by metis
  next
    case (Cons d u)
    from c.prems have "escape c @ concat (map escape s) @ CHR 0x22 # r
        = escape d @ concat (map escape u) @ CHR 0x22 # r'"
      unfolding Cons escaped_Cons .
    then have "c = d" "concat (map escape s) @ CHR 0x22 # r = concat (map escape u) @ CHR 0x22 # r'"
      using escape_inj by blast+
    then show ?thesis using Cons c.IH by blast
  qed
qed

lemma dump_str_inj: "dump_str s @ r = dump_str t @ r' \<Longrightarrow> s = t \<and> r = r'"
  by (rule escaped_inj) (simp add: dump_str_def)

definition num_char :: "char \<Rightarrow> bool" where
  "num_char c \<longleftrightarrow> is_dec c \<or> c \<in> {CHR ''-'', CHR ''+'', CHR ''.'', CHR ''e''}"

text \<open>What is used of the text of a float: it reads back, and it does not look like an integer.\<close>

definition float_text :: "(rat \<Rightarrow> string) \<Rightarrow> bool" where
  "float_text fr \<longleftrightarrow> inj fr \<and> (\<forall>q. fr q \<noteq> [] \<and> (\<forall>c \<in> set (fr q). num_char c)
     \<and> (CHR ''.'' \<in> set (fr q) \<or> CHR ''e'' \<in> set (fr q)))"

definition delimited :: "string \<Rightarrow> bool" where
  "delimited r \<longleftrightarrow> r = [] \<or> hd r \<in> {CHR '','', CHR '']'', CHR ''}''}"

lemma delimited_simps [simp]:
  "delimited []" "delimited (CHR '','' # r)" "delimited (CHR '']'' # r)" "delimited (CHR ''}'' # r)"
  by (simp_all add: delimited_def)

lemma delimited_items [simp]: "delimited (dump_items fr xs @ r)"
  by (cases xs) auto

lemma delimited_members [simp]: "delimited (dump_members fr ms @ r)"
  by (cases ms) auto

lemma not_num_delimited: "delimited r \<Longrightarrow> r = [] \<or> \<not> num_char (hd r)"
  by (auto simp: delimited_def num_char_def is_dec_def)

lemma number_inj:
  assumes "s @ r = t @ r'" and "\<forall>c \<in> set s. num_char c" and "\<forall>c \<in> set t. num_char c"
    and "delimited r" and "delimited r'"
  shows "s = t \<and> r = r'"
proof -
  have tw: "takeWhile num_char (u @ v) = u" if "\<forall>c \<in> set u. num_char c" "delimited v" for u v
    using that not_num_delimited [of v] by (cases v) (auto simp: takeWhile_append2)
  have "s = t" using tw [OF assms(2,4)] tw [OF assms(3,5)] assms(1) by simp
  with assms(1) show ?thesis by simp
qed

lemma str_int_num: "c \<in> set (str_int i) \<Longrightarrow> num_char c"
  using str_int_chars by (auto simp: num_char_def)

lemma str_int_not_float: "float_text fr \<Longrightarrow> str_int i \<noteq> fr q"
proof
  assume f: "float_text fr" and e: "str_int i = fr q"
  have "CHR ''.'' \<in> set (fr q) \<or> CHR ''e'' \<in> set (fr q)" using f unfolding float_text_def by blast
  then have "CHR ''.'' \<in> set (str_int i) \<or> CHR ''e'' \<in> set (str_int i)" by (simp only: e)
  moreover have "\<not> is_dec (CHR ''.'')" "\<not> is_dec (CHR ''e'')" by (simp_all add: is_dec_def)
  ultimately show False using str_int_chars [of _ i] by blast
qed

section \<open>The bytes determine the value\<close>

text \<open>The first character tells the kind of a value.\<close>

fun kind :: "json \<Rightarrow> nat" where
  "kind JNull = 0"
| "kind (JBool b) = (if b then 1 else 2)"
| "kind (JInt _) = 3"
| "kind (JFloat _) = 3"
| "kind (JStr _) = 4"
| "kind (JArr _) = 5"
| "kind (JObj _) = 6"

definition kind_of_char :: "char \<Rightarrow> nat" where
  "kind_of_char c = (if c = CHR ''n'' then 0 else if c = CHR ''t'' then 1 else if c = CHR ''f'' then 2
     else if c = CHR 0x22 then 4 else if c = CHR ''['' then 5 else if c = CHR ''{'' then 6 else if num_char c then 3 else 7)"

lemma num_char_kind: "num_char c \<Longrightarrow> kind_of_char c = 3"
  by (auto simp: num_char_def kind_of_char_def is_dec_def)

lemma number_kind: "s \<noteq> [] \<Longrightarrow> \<forall>c \<in> set s. num_char c \<Longrightarrow> kind_of_char (hd (s @ r)) = 3"
  by (cases s) (auto simp: num_char_kind)

lemma dump_kind:
  assumes "float_text fr"
  shows "dump fr v @ r \<noteq> [] \<and> kind_of_char (hd (dump fr v @ r)) = kind v"
proof (cases v)
  case (JInt i)
  then show ?thesis using number_kind [of "str_int i" r] str_int_num by simp
next
  case (JFloat q)
  then show ?thesis using number_kind [of "fr q" r] assms by (simp add: float_text_def)
next
  case (JArr xs)
  then show ?thesis by (cases xs) (auto simp: kind_of_char_def)
next
  case (JObj ms)
  then show ?thesis by (cases ms) (auto simp: kind_of_char_def)
qed (auto simp: kind_of_char_def dump_str_def)

lemma dump_items_inj_Nil: "dump_items fr xs @ r = CHR '']'' # r' \<Longrightarrow> xs = [] \<and> r = r'"
  by (cases xs) auto

lemma dump_members_inj_Nil: "dump_members fr ms @ r = CHR ''}'' # r' \<Longrightarrow> ms = [] \<and> r = r'"
  by (cases "(fr, ms)" rule: dump_members.cases) auto

definition dump_inj :: "(rat \<Rightarrow> string) \<Rightarrow> json \<Rightarrow> bool" where
  "dump_inj fr v \<longleftrightarrow> (\<forall>w r r'. dump fr v @ r = dump fr w @ r' \<longrightarrow> delimited r \<longrightarrow> delimited r' \<longrightarrow>
     v = w \<and> r = r')"

lemma dump_items_inj:
  "\<forall>x \<in> set xs. dump_inj fr x \<Longrightarrow> dump_items fr xs @ r = dump_items fr ys @ r' \<Longrightarrow> xs = ys \<and> r = r'"
proof (induction xs arbitrary: ys)
  case Nil
  then show ?case using dump_items_inj_Nil [of fr ys r' r] by auto
next
  case (Cons x xs)
  then obtain y zs where y: "ys = y # zs" by (cases ys) auto
  then have "dump fr x @ dump_items fr xs @ r = dump fr y @ dump_items fr zs @ r'"
    using Cons.prems by simp
  then have "x = y" "dump_items fr xs @ r = dump_items fr zs @ r'"
    using Cons.prems(1) unfolding dump_inj_def by fastforce+
  then show ?case using y Cons by auto
qed

lemma dump_members_inj:
  "\<forall>m \<in> set ms. dump_inj fr (snd m) \<Longrightarrow> dump_members fr ms @ r = dump_members fr ns @ r' \<Longrightarrow>
     ms = ns \<and> r = r'"
proof (induction ms arbitrary: ns)
  case Nil
  then show ?case using dump_members_inj_Nil [of fr ns r' r] by auto
next
  case (Cons m ms)
  obtain k x where m: "m = (k, x)" by (cases m)
  with Cons.prems obtain l y zs where n: "ns = (l, y) # zs"
    by (cases "(fr, ns)" rule: dump_members.cases) auto
  then have "dump_str k @ CHR '':'' # dump fr x @ dump_members fr ms @ r
      = dump_str l @ CHR '':'' # dump fr y @ dump_members fr zs @ r'"
    using Cons.prems m by simp
  then have k: "k = l" and e: "dump fr x @ dump_members fr ms @ r = dump fr y @ dump_members fr zs @ r'"
    using dump_str_inj by blast+
  have "dump_inj fr x" using Cons.prems(1) m by simp
  with e have "x = y" "dump_members fr ms @ r = dump_members fr zs @ r'"
    unfolding dump_inj_def by fastforce+
  then show ?case using n k m Cons by auto
qed

lemma dump_kinds:
  assumes "float_text fr" and "dump fr v @ r = dump fr w @ r'"
  shows "kind v = kind w"
  using assms dump_kind [of fr v r] dump_kind [of fr w r'] by metis

lemma kind_cases:
  "kind w = 0 \<Longrightarrow> w = JNull" "kind w = 1 \<Longrightarrow> w = JBool True" "kind w = 2 \<Longrightarrow> w = JBool False"
  "kind w = 3 \<Longrightarrow> (\<exists>i. w = JInt i) \<or> (\<exists>q. w = JFloat q)" "kind w = 4 \<Longrightarrow> \<exists>s. w = JStr s"
  "kind w = 5 \<Longrightarrow> \<exists>xs. w = JArr xs" "kind w = 6 \<Longrightarrow> \<exists>ms. w = JObj ms"
  by (cases w; simp split: if_splits)+

lemma number_dump_inj:
  assumes "float_text fr" and "dump fr v @ r = dump fr w @ r'" and "kind v = 3"
    and "delimited r" and "delimited r'"
  shows "v = w \<and> r = r'"
proof -
  have num: "(\<forall>c \<in> set (dump fr x). num_char c)" if "kind x = 3" for x
    using kind_cases(4) [OF that] str_int_num assms(1) by (auto simp: float_text_def)
  have w: "kind w = 3" using dump_kinds [OF assms(1,2)] assms(3) by simp
  have e: "dump fr v = dump fr w" "r = r'"
    using number_inj [OF assms(2) num [OF assms(3)] num [OF w] assms(4,5)] by simp_all
  from kind_cases(4) [OF assms(3)] kind_cases(4) [OF w] have "v = w"
  proof (elim disjE exE)
    fix i j assume "v = JInt i" "w = JInt j"
    with e(1) show ?thesis using str_int_inj by simp
  next
    fix i q assume "v = JInt i" "w = JFloat q"
    with e(1) show ?thesis using str_int_not_float [OF assms(1)] by simp
  next
    fix i q assume "v = JFloat q" "w = JInt i"
    with e(1) show ?thesis using str_int_not_float [OF assms(1), of i q] by simp
  next
    fix p q assume "v = JFloat p" "w = JFloat q"
    with e(1) assms(1) show ?thesis by (simp add: float_text_def inj_eq)
  qed
  with e(2) show ?thesis by simp
qed

lemma dump_not_close:
  assumes "float_text fr"
  shows "dump fr v @ r \<noteq> CHR '']'' # r'"
proof
  assume "dump fr v @ r = CHR '']'' # r'"
  then have "kind v = 7" using dump_kind [OF assms, of v r] by (simp add: kind_of_char_def num_char_def is_dec_def)
  then show False by (cases v) (auto split: if_splits)
qed

lemma dump_array:
  assumes "float_text fr" and "dump fr (JArr xs) @ r = dump fr (JArr ys) @ r'"
  shows "dump_items fr xs @ r = dump_items fr ys @ r'"
  using assms(2) dump_not_close [OF assms(1)]
  by (cases xs; cases ys) (auto, metis+)

lemma dump_object:
  assumes "dump fr (JObj ms) @ r = dump fr (JObj ns) @ r'"
  shows "dump_members fr ms @ r = dump_members fr ns @ r'"
  using assms
  by (cases "(fr, ms)" rule: dump_members.cases; cases "(fr, ns)" rule: dump_members.cases)
     (auto simp: dump_str_def)

lemma dump_inj: "float_text fr \<Longrightarrow> dump_inj fr v"
proof (induction v)
  case (JInt i)
  then show ?case using number_dump_inj [OF JInt, of "JInt i"] unfolding dump_inj_def by fastforce
next
  case (JFloat q)
  then show ?case using number_dump_inj [OF JFloat, of "JFloat q"] unfolding dump_inj_def by fastforce
next
  case (JStr s)
  show ?case unfolding dump_inj_def
  proof (intro allI impI)
    fix w r r' assume e: "dump fr (JStr s) @ r = dump fr w @ r'"
    have "kind w = 4" using dump_kinds [OF JStr.prems e] by simp
    then obtain t where w: "w = JStr t" using kind_cases by blast
    with e have "dump_str s @ r = dump_str t @ r'" by simp
    then show "JStr s = w \<and> r = r'" using dump_str_inj w by blast
  qed
next
  case (JArr xs)
  then have xs: "\<forall>x \<in> set xs. dump_inj fr x" by simp
  show ?case unfolding dump_inj_def
  proof (intro allI impI)
    fix w r r' assume e: "dump fr (JArr xs) @ r = dump fr w @ r'"
    have "kind w = 5" using dump_kinds [OF JArr.prems e] by simp
    then obtain ys where w: "w = JArr ys" using kind_cases by blast
    from e [unfolded w] have "dump_items fr xs @ r = dump_items fr ys @ r'"
      by (rule dump_array [OF JArr.prems])
    from dump_items_inj [OF xs this] show "JArr xs = w \<and> r = r'" by (simp add: w)
  qed
next
  case (JObj ms)
  have ms: "\<forall>m \<in> set ms. dump_inj fr (snd m)"
  proof
    fix m assume "m \<in> set ms"
    then show "dump_inj fr (snd m)" using JObj.IH [of m "snd m"] JObj.prems by (simp add: snds.intros)
  qed
  show ?case unfolding dump_inj_def
  proof (intro allI impI)
    fix w r r' assume e: "dump fr (JObj ms) @ r = dump fr w @ r'"
    have "kind w = 6" using dump_kinds [OF JObj.prems e] by simp
    then obtain ns where w: "w = JObj ns" using kind_cases by blast
    from e [unfolded w] have "dump_members fr ms @ r = dump_members fr ns @ r'" by (rule dump_object)
    from dump_members_inj [OF ms this] show "JObj ms = w \<and> r = r'" by (simp add: w)
  qed
next
  case JNull
  show ?case unfolding dump_inj_def
  proof (intro allI impI)
    fix w r r' assume e: "dump fr JNull @ r = dump fr w @ r'"
    have "kind w = 0" using dump_kinds [OF JNull.prems e] by simp
    then have "w = JNull" by (rule kind_cases)
    then show "JNull = w \<and> r = r'" using e by simp
  qed
next
  case (JBool b)
  show ?case unfolding dump_inj_def
  proof (intro allI impI)
    fix w r r' assume e: "dump fr (JBool b) @ r = dump fr w @ r'"
    have "kind w = (if b then 1 else 2)" using dump_kinds [OF JBool.prems e] by simp
    then have "w = JBool b" using kind_cases(2,3) by (cases b) simp_all
    then show "JBool b = w \<and> r = r'" using e by (cases b) simp_all
  qed
qed

section \<open>UTF-8\<close>

fun utf8_decode1 :: "string \<Rightarrow> (char \<times> string) option" where
  "utf8_decode1 [] = None"
| "utf8_decode1 (a # r) =
     (if code a < 128 then Some (a, r)
      else (case r of [] \<Rightarrow> None | b # r' \<Rightarrow> Some (char_of (64 * (code a - 192) + (code b - 128)), r')))"

lemma utf8_decode1_char: "utf8_decode1 (utf8_char c @ r) = Some (c, r)"
proof (cases "code c < 128")
  case True
  then show ?thesis by (simp add: utf8_char_def)
next
  case False
  have "code c < 64 * 4" using nat_of_char_less_256 [of c] by simp
  then have "code c div 64 < 4" by (simp add: div_less_iff_less_mult)
  then have a: "192 + code c div 64 < 256" "128 + code c mod 64 < 256" by simp_all
  have s: "64 * (code c div 64) + code c mod 64 = code c" by simp
  have "code (char_of (192 + code c div 64)) = 192 + code c div 64"
    "code (char_of (128 + code c mod 64)) = 128 + code c mod 64"
    using a by simp_all
  with False s show ?thesis by (simp add: utf8_char_def)
qed

lemma encode_utf8_inj: "encode_utf8 s = encode_utf8 t \<Longrightarrow> s = t"
proof (induction s arbitrary: t)
  case Nil
  then show ?case by (cases t) (auto simp: encode_utf8_def utf8_char_def split: if_splits)
next
  case (Cons c s)
  then obtain d u where t: "t = d # u"
    by (cases t) (auto simp: encode_utf8_def utf8_char_def split: if_splits)
  then have "utf8_char c @ encode_utf8 s = utf8_char d @ encode_utf8 u"
    using Cons.prems by (simp add: encode_utf8_def)
  then have "c = d \<and> encode_utf8 s = encode_utf8 u"
    by (metis utf8_decode1_char option.inject prod.inject)
  then show ?case using Cons.IH t by blast
qed

lemma canonical_json_iff:
  assumes "float_text fr"
  shows "canonical_json fr v = canonical_json fr w \<longleftrightarrow> canon v = canon w"
proof
  assume "canonical_json fr v = canonical_json fr w"
  then have "dump fr (canon v) = dump fr (canon w)"
    unfolding canonical_json_def by (rule encode_utf8_inj)
  then have "dump fr (canon v) @ [] = dump fr (canon w) @ []" by simp
  then show "canon v = canon w"
    using dump_inj [OF assms, of "canon v"] unfolding dump_inj_def by (meson delimited_simps(1))
qed (simp add: canonical_json_def)

section \<open>Properties\<close>

text \<open>
  The canonical bytes are exactly as fine as the value: two JSON values have the same
  canonical bytes if and only if they are equal after sorting the keys of every object. A
  signature over the bytes is a signature over the value.
\<close>

theorem canonical_json_determines_value:
  assumes "float_text fr"
  shows "canonical_json fr v = canonical_json fr w \<longleftrightarrow> canon v = canon w"
  by (rule canonical_json_iff [OF assms])

definition demo_float :: "rat \<Rightarrow> string" where
  "demo_float q = str_int (fst (quotient_of q)) @ CHR ''e'' # str_int (snd (quotient_of q))"

lemma demo_float_text: "float_text demo_float"
proof -
  have ne: "c \<noteq> CHR ''e''" if "c \<in> set (str_int i)" for c i
    using str_int_chars [OF that] by (auto simp: is_dec_def)
  have split: "split_on (CHR ''e'') (demo_float q)
      = [str_int (fst (quotient_of q)), str_int (snd (quotient_of q))]" for q
    unfolding demo_float_def using ne by (subst split_on_append; blast?) (subst split_on_no_sep; blast?)+
  have "inj demo_float"
  proof
    fix p q assume "demo_float p = demo_float q"
    then have "split_on (CHR ''e'') (demo_float p) = split_on (CHR ''e'') (demo_float q)" by simp
    then have "quotient_of p = quotient_of q" unfolding split using str_int_inj by (auto intro: prod_eqI)
    then show "p = q" by (rule quotient_of_inject_eq [THEN iffD1])
  qed
  moreover have "\<forall>c \<in> set (demo_float q). num_char c" for q
    using str_int_num by (auto simp: demo_float_def num_char_def)
  ultimately show ?thesis by (auto simp: float_text_def demo_float_def)
qed

lemma canonical_json_determines_value_witness:
  "canonical_json demo_float (JObj [(''b'', JInt 1), (''a'', JNull)])
     = canonical_json demo_float (JObj [(''a'', JNull), (''b'', JInt 1)])
   \<and> canonical_json demo_float (JInt 1) \<noteq> canonical_json demo_float (JStr ''1'')"
  unfolding canonical_json_determines_value [OF demo_float_text]
  by (simp add: less_eq_char_def)

end
