(* ===== verification/AgentContract.thy ===== *)
theory AgentContract
  imports Entities CanonicalJson
begin

text \<open>
  The signed contract between control plane and node agent:
  \<open>agent/openllmops_agent/agent_contract.py\<close> (messages, \<open>HMACSigner\<close>, \<open>NonceReplayCache\<close>),
  the client \<open>backend/app/services/node_agent.py\<close> and the command endpoint of
  \<open>agent/openllmops_agent/main.py\<close>. HMAC-SHA256, the pydantic parsers and the text of floats and
  times are the fields of the parameter record \<open>codec\<close>.
\<close>

section \<open>Messages\<close>

datatype agent_action = START | STOP | STATUS

datatype agent_workload_state = ABSENT | STARTING | RUNNING | STOPPING | SUCCEEDED | FAILED

fun action_value :: "agent_action \<Rightarrow> string" where
  "action_value START = ''start''"
| "action_value STOP = ''stop''"
| "action_value STATUS = ''status''"

fun workload_state_value :: "agent_workload_state \<Rightarrow> string" where
  "workload_state_value ABSENT = ''absent''"
| "workload_state_value STARTING = ''starting''"
| "workload_state_value RUNNING = ''running''"
| "workload_state_value STOPPING = ''stopping''"
| "workload_state_value SUCCEEDED = ''succeeded''"
| "workload_state_value FAILED = ''failed''"

record agent_owner =
  ag_type :: lease_owner_type
  ag_id :: uuid
  ag_name :: string
  ag_generation :: int

record agent_command =
  request_id :: uuid
  cmd_action :: agent_action
  cmd_owner :: agent_owner
  cmd_gpu_ids :: "int list"
  execution :: json_obj

record agent_response =
  res_request_id :: uuid
  accepted :: bool
  observed_state :: agent_workload_state
  observed_at :: timestamp
  res_message :: "string option"
  error_code :: "string option"
  metadata :: json_obj

text \<open>The \<open>Field\<close> constraints: name of 1 to 128 characters, generation at least 1, one GPU.\<close>

definition command_fields_ok :: "agent_command \<Rightarrow> bool" where
  "command_fields_ok c \<longleftrightarrow>
     1 \<le> length (ag_name (cmd_owner c)) \<and> length (ag_name (cmd_owner c)) \<le> 128
     \<and> 1 \<le> ag_generation (cmd_owner c) \<and> cmd_gpu_ids c \<noteq> []"

text \<open>
  What \<open>AgentCommand.model_validate_json\<close> makes of a body: a \<open>ValidationError\<close>, a command, or a
  command whose \<open>execution\<close> holds a value that \<open>canonical_json\<close> cannot encode (not a finite number,
  a lone surrogate), of which only the request id is used.
\<close>

datatype parsed_command =
    NotACommand
  | Unencodable uuid
  | Parsed agent_command

record codec =
  float_repr :: "rat \<Rightarrow> string"
  time_repr :: "timestamp \<Rightarrow> string"
  hmac_sha256 :: "string \<Rightarrow> string \<Rightarrow> string"
  parse_command :: "string \<Rightarrow> parsed_command"
  parse_response :: "string \<Rightarrow> agent_response option"

section \<open>\<open>model_dump(mode="json")\<close> and the canonical bytes\<close>

definition uuid_hex :: "nat \<Rightarrow> uuid \<Rightarrow> string" where
  "uuid_hex n u = map (\<lambda>i. hex_char (u div 16 ^ i mod 16)) (rev [0..<n])"

definition uuid_str :: "uuid \<Rightarrow> string" where
  "uuid_str u = (let h = uuid_hex 32 u in
     take 8 h @ ''-'' @ take 4 (drop 8 h) @ ''-'' @ take 4 (drop 12 h) @ ''-''
       @ take 4 (drop 16 h) @ ''-'' @ drop 20 h)"

lemma length_uuid_str [simp]: "length (uuid_str u) = 36"
  by (simp add: uuid_str_def Let_def uuid_hex_def)

fun opt_str :: "string option \<Rightarrow> json" where
  "opt_str None = JNull"
| "opt_str (Some s) = JStr s"

definition command_json :: "agent_command \<Rightarrow> json" where
  "command_json c = JObj
     [(''contract_version'', JStr ''1''),
      (''request_id'', JStr (uuid_str (request_id c))),
      (''action'', JStr (action_value (cmd_action c))),
      (''owner'', JObj
         [(''type'', JStr (owner_type_value (ag_type (cmd_owner c)))),
          (''id'', JStr (uuid_str (ag_id (cmd_owner c)))),
          (''name'', JStr (ag_name (cmd_owner c))),
          (''generation'', JInt (ag_generation (cmd_owner c)))]),
      (''resources'', JObj [(''gpu_ids'', JArr (map JInt (cmd_gpu_ids c)))]),
      (''execution'', JObj (execution c))]"

definition response_json :: "(timestamp \<Rightarrow> string) \<Rightarrow> agent_response \<Rightarrow> json" where
  "response_json tr r = JObj
     [(''contract_version'', JStr ''1''),
      (''request_id'', JStr (uuid_str (res_request_id r))),
      (''accepted'', JBool (accepted r)),
      (''observed_state'', JStr (workload_state_value (observed_state r))),
      (''observed_at'', JStr (tr (observed_at r))),
      (''message'', opt_str (res_message r)),
      (''error_code'', opt_str (error_code r)),
      (''metadata'', JObj (metadata r))]"

definition command_bytes :: "codec \<Rightarrow> agent_command \<Rightarrow> string" where
  "command_bytes cx c = canonical_json (float_repr cx) (command_json c)"

definition response_bytes :: "codec \<Rightarrow> agent_response \<Rightarrow> string" where
  "response_bytes cx r = canonical_json (float_repr cx) (response_json (time_repr cx) r)"

section \<open>The bytes of a message determine its fields\<close>

lemma uuid_hex_Suc: "uuid_hex (Suc n) u = hex_char (u div 16 ^ n mod 16) # uuid_hex n u"
  by (simp add: uuid_hex_def)

lemma uuid_hex_value:
  "foldl (\<lambda>a c. 16 * a + hex_value c) a (uuid_hex n u) = a * 16 ^ n + u mod 16 ^ n"
proof (induction n arbitrary: a)
  case 0
  then show ?case by (simp add: uuid_hex_def)
next
  case (Suc n)
  let ?d = "u div 16 ^ n mod 16"
  have m: "u mod 16 ^ Suc n = 16 ^ n * ?d + u mod 16 ^ n"
    using mod_mult2_eq [of u "16 ^ n" 16] by (simp add: mult.commute)
  have "foldl (\<lambda>a c. 16 * a + hex_value c) a (uuid_hex (Suc n) u) = (16 * a + ?d) * 16 ^ n + u mod 16 ^ n"
    by (simp add: uuid_hex_Suc Suc.IH hex_value_char)
  also have "\<dots> = a * 16 ^ Suc n + u mod 16 ^ Suc n" unfolding m by (simp add: algebra_simps)
  finally show ?case .
qed

lemma hex_char_not_dash: "n < 16 \<Longrightarrow> hex_char n \<noteq> CHR ''-''"
proof -
  assume "n < 16"
  then have "48 \<le> code (hex_char n)" by (auto simp: hex_char_def)
  then show ?thesis by auto
qed

lemma uuid_hex_no_dash: "filter (\<lambda>c. c \<noteq> CHR ''-'') (uuid_hex n u) = uuid_hex n u"
  by (auto simp: uuid_hex_def filter_id_conv hex_char_not_dash)

lemma uuid_str_no_dash: "filter (\<lambda>c. c \<noteq> CHR ''-'') (uuid_str u) = uuid_hex 32 u"
proof -
  let ?h = "uuid_hex 32 u"
  let ?P = "\<lambda>c. c \<noteq> CHR ''-''"
  have P: "\<forall>x \<in> set ?h. ?P x" using uuid_hex_no_dash [of 32 u] by (simp only: filter_id_conv)
  have "filter ?P (take i ?h) = take i ?h" "filter ?P (drop i ?h) = drop i ?h"
    "filter ?P (take i (drop j ?h)) = take i (drop j ?h)" for i j
    using P unfolding filter_id_conv by (blast dest: in_set_takeD in_set_dropD)+
  then have "filter ?P (uuid_str u)
      = take 8 ?h @ take 4 (drop 8 ?h) @ take 4 (drop 12 ?h) @ take 4 (drop 16 ?h) @ drop 20 ?h"
    by (simp add: uuid_str_def Let_def)
  also have "take 4 (drop 16 ?h) @ drop 20 ?h = drop 16 ?h"
    using append_take_drop_id [of 4 "drop 16 ?h"] by simp
  also have "take 4 (drop 12 ?h) @ drop 16 ?h = drop 12 ?h"
    using append_take_drop_id [of 4 "drop 12 ?h"] by simp
  also have "take 4 (drop 8 ?h) @ drop 12 ?h = drop 8 ?h"
    using append_take_drop_id [of 4 "drop 8 ?h"] by simp
  finally show ?thesis by simp
qed

lemma uuid_str_inj: "uuid_str u = uuid_str v \<Longrightarrow> u < 2 ^ 128 \<Longrightarrow> v < 2 ^ 128 \<Longrightarrow> u = v"
proof -
  assume "uuid_str u = uuid_str v" and b: "u < 2 ^ 128" "v < 2 ^ 128"
  then have "uuid_hex 32 u = uuid_hex 32 v" using uuid_str_no_dash by metis
  then have "u mod 16 ^ 32 = v mod 16 ^ 32"
    using uuid_hex_value [of 0 32 u] uuid_hex_value [of 0 32 v] by simp
  then show ?thesis using b by simp
qed

lemma value_inj [simp]:
  "action_value a = action_value b \<longleftrightarrow> a = b"
  "owner_type_value t = owner_type_value u \<longleftrightarrow> t = u"
  "workload_state_value s = workload_state_value r \<longleftrightarrow> s = r"
  by ((cases a; cases b; simp), (cases t; cases u; simp), (cases s; cases r; simp))

lemma opt_str_inj [simp]: "opt_str a = opt_str b \<longleftrightarrow> a = b"
  by (cases a; cases b) auto

lemma canon_opt_str [simp]: "canon (opt_str a) = opt_str a"
  by (cases a) auto

lemma map_JInt_inj [simp]: "map JInt a = map JInt b \<longleftrightarrow> a = b"
  by (simp add: inj_map_eq_map inj_def)

section \<open>\<open>HMACSigner\<close>\<close>

datatype signature_error =
    HeadersIncomplete
  | TimestampInvalid
  | SignatureExpired
  | NonceReused
  | SignatureMismatch
  | NonceLengthInvalid
  | SignatureTypeError  \<comment> \<open>\<open>TypeError\<close> of \<open>hmac.compare_digest\<close>; not a \<open>SignatureVerificationError\<close>\<close>

record hmac_signer =
  secret :: string
  max_skew :: int

definition make_signer :: "string \<Rightarrow> int \<Rightarrow> hmac_signer option" where
  "make_signer sec skew =
     (if length (encode_utf8 sec) < 16 then None
      else Some \<lparr>secret = encode_utf8 sec, max_skew = skew\<rparr>)"

abbreviation newline :: char where
  "newline \<equiv> CHR 0x0A"

definition signing_input :: "string \<Rightarrow> string \<Rightarrow> string \<Rightarrow> string" where
  "signing_input body ts nonce = join_with newline [''v1'', encode_utf8 ts, encode_utf8 nonce, body]"

definition signature_of :: "codec \<Rightarrow> hmac_signer \<Rightarrow> string \<Rightarrow> string \<Rightarrow> string \<Rightarrow> string" where
  "signature_of cx sg body ts nonce = ''v1='' @ hmac_sha256 cx (secret sg) (signing_input body ts nonce)"

type_synonym headers = "(string \<times> string) list"

definition signature_header :: string where "signature_header = ''X-OpenLLMOps-Signature''"
definition timestamp_header :: string where "timestamp_header = ''X-OpenLLMOps-Timestamp''"
definition nonce_header :: string where "nonce_header = ''X-OpenLLMOps-Nonce''"

definition sign :: "codec \<Rightarrow> hmac_signer \<Rightarrow> string \<Rightarrow> int \<Rightarrow> string \<Rightarrow> headers" where
  "sign cx sg body ts nonce =
     [(timestamp_header, str_int ts), (nonce_header, nonce),
      (signature_header, signature_of cx sg body (str_int ts) nonce)]"

text \<open>\<open>{key.lower(): value}\<close>, the last of several equal keys; \<open>.get(name.lower())\<close>.\<close>

definition header :: "string \<Rightarrow> headers \<Rightarrow> string option" where
  "header name hs = map_of (map (\<lambda>(k, v). (lower k, v)) (rev hs)) (lower name)"

definition verify ::
  "codec \<Rightarrow> hmac_signer \<Rightarrow> string \<Rightarrow> headers \<Rightarrow> int \<Rightarrow> string set option
     \<Rightarrow> signature_error + string set option" where
  "verify cx sg body hs now seen =
     (case (header timestamp_header hs, header nonce_header hs, header signature_header hs) of
        (Some ts, Some nonce, Some sig) \<Rightarrow>
          (if ts = [] \<or> nonce = [] \<or> sig = [] then Inl HeadersIncomplete
           else (case py_int ts of
             None \<Rightarrow> Inl TimestampInvalid
           | Some signed_at \<Rightarrow>
               (if abs (now - signed_at) > max_skew sg then Inl SignatureExpired
                else if (case seen of None \<Rightarrow> False | Some S \<Rightarrow> nonce \<in> S) then Inl NonceReused
                else (case compare_digest sig (signature_of cx sg body ts nonce) of
                  None \<Rightarrow> Inl SignatureTypeError
                | Some False \<Rightarrow> Inl SignatureMismatch
                | Some True \<Rightarrow> Inr (map_option (insert nonce) seen)))))
      | _ \<Rightarrow> Inl HeadersIncomplete)"

section \<open>\<open>NonceReplayCache\<close>\<close>

type_synonym nonce_cache = "(string \<times> int) list"

definition retention_seconds :: "int \<Rightarrow> int" where
  "retention_seconds skew = max 60 (2 * skew + 1)"

definition cache_verify ::
  "codec \<Rightarrow> hmac_signer \<Rightarrow> int \<Rightarrow> nonce_cache \<Rightarrow> string \<Rightarrow> headers \<Rightarrow> int
     \<Rightarrow> nonce_cache \<times> (signature_error + unit)" where
  "cache_verify cx sg retention cache body hs now =
     (let nonce = (case header nonce_header hs of Some n \<Rightarrow> n | None \<Rightarrow> []) in
      if \<not> (8 \<le> length nonce \<and> length nonce \<le> 256) then (cache, Inl NonceLengthInvalid)
      else
        (let live = filter (\<lambda>(n, expiry). expiry > now) cache in
         case verify cx sg body hs now (Some (fst ` set live)) of
           Inl e \<Rightarrow> (live, Inl e)
         | Inr _ \<Rightarrow> (dict_set nonce (now + retention) live, Inr ())))"

section \<open>Signing input and headers\<close>

lemma utf8_char_high: "\<not> code c < 128 \<Longrightarrow> d \<in> set (utf8_char c) \<Longrightarrow> 128 \<le> code d"
proof -
  assume high: "\<not> code c < 128" and d: "d \<in> set (utf8_char c)"
  have "code c < 64 * 4" using nat_of_char_less_256 [of c] by simp
  then have "code c div 64 < 4" by (simp add: div_less_iff_less_mult)
  then have "192 + code c div 64 < 256" "128 + code c mod 64 < 256" by simp_all
  then show ?thesis using high d by (auto simp: utf8_char_def)
qed

lemma newline_utf8: "newline \<in> set (encode_utf8 s) \<longleftrightarrow> newline \<in> set s"
proof -
  have "newline \<in> set (utf8_char c) \<longleftrightarrow> c = newline" for c
    using utf8_char_high [of c newline] by (cases "code c < 128") (auto simp: utf8_char_def)
  then show ?thesis by (auto simp: encode_utf8_def)
qed

lemma signing_input_inj:
  assumes "signing_input body ts nonce = signing_input body' ts' nonce'"
    and "newline \<notin> set ts" "newline \<notin> set nonce" "newline \<notin> set ts'" "newline \<notin> set nonce'"
  shows "body = body' \<and> ts = ts' \<and> nonce = nonce'"
proof -
  have sep: "u = u' \<and> v = v'" if "u @ newline # v = u' @ newline # v'" "newline \<notin> set u" "newline \<notin> set u'"
    for u v u' v' :: string
  proof -
    have tw: "takeWhile (\<lambda>c. c \<noteq> newline) (x @ newline # y) = x" if "newline \<notin> set x" for x y
      using that by (induction x) auto
    have "u = u'" using tw [OF that(2), of v] tw [OF that(3), of v'] unfolding that(1) by simp
    with that(1) show ?thesis by simp
  qed
  have "encode_utf8 ts @ newline # encode_utf8 nonce @ newline # body
      = encode_utf8 ts' @ newline # encode_utf8 nonce' @ newline # body'"
    using assms(1) by (simp add: signing_input_def)
  then have t: "encode_utf8 ts = encode_utf8 ts'"
    and r: "encode_utf8 nonce @ newline # body = encode_utf8 nonce' @ newline # body'"
    using sep newline_utf8 assms by blast+
  have "encode_utf8 nonce = encode_utf8 nonce'" "body = body'"
    using sep [OF r] newline_utf8 assms by blast+
  with t show ?thesis using encode_utf8_inj by blast
qed

lemma header_sign:
  "header timestamp_header (sign cx sg body ts nonce) = Some (str_int ts)"
  "header nonce_header (sign cx sg body ts nonce) = Some nonce"
  "header signature_header (sign cx sg body ts nonce) = Some (signature_of cx sg body (str_int ts) nonce)"
  by (simp_all add: header_def sign_def timestamp_header_def nonce_header_def signature_header_def
      lower_def lower_char_def)

lemma verify_Inr:
  "verify cx sg body hs now seen = Inr seen' \<longleftrightarrow>
     (\<exists>ts nonce signed_at. header timestamp_header hs = Some ts \<and> header nonce_header hs = Some nonce
        \<and> header signature_header hs = Some (signature_of cx sg body ts nonce)
        \<and> is_ascii (signature_of cx sg body ts nonce)
        \<and> ts \<noteq> [] \<and> nonce \<noteq> [] \<and> py_int ts = Some signed_at \<and> abs (now - signed_at) \<le> max_skew sg
        \<and> (\<forall>S. seen = Some S \<longrightarrow> nonce \<notin> S) \<and> seen' = map_option (insert nonce) seen)"
proof (cases "(header timestamp_header hs, header nonce_header hs, header signature_header hs)")
  case h: (fields t n g)
  show ?thesis
  proof (cases t; cases n; cases g)
    fix ts nonce sig assume e: "t = Some ts" "n = Some nonce" "g = Some sig"
    have ne: "signature_of cx sg body ts nonce \<noteq> []" by (simp add: signature_of_def)
    have c: "compare_digest a b = Some True \<longleftrightarrow> a = b \<and> is_ascii b" for a b
      by (auto simp: compare_digest_def)
    show ?thesis
    proof (cases "py_int ts")
      case None
      then show ?thesis using h e by (auto simp: verify_def)
    next
      case (Some k)
      then show ?thesis
        using h e ne c [of sig "signature_of cx sg body ts nonce"]
        by (cases "compare_digest sig (signature_of cx sg body ts nonce)")
           (auto simp: verify_def split: bool.split option.split)
    qed
  qed (use h in \<open>simp_all add: verify_def\<close>)
qed

lemma verify_sign:
  assumes "is_ascii (hmac_sha256 cx (secret sg) (signing_input body (str_int ts) nonce))"
    and "abs (now - ts) \<le> max_skew sg" and "nonce \<noteq> []" and "\<forall>S. seen = Some S \<longrightarrow> nonce \<notin> S"
  shows "verify cx sg body (sign cx sg body ts nonce) now seen = Inr (map_option (insert nonce) seen)"
  using assms
  by (auto simp: verify_Inr header_sign py_int_str_int signature_of_def is_ascii_def)

section \<open>The nonce cache\<close>

record timed_request =
  rq_body :: string
  rq_headers :: headers
  rq_time :: int

definition accepts :: "codec \<Rightarrow> hmac_signer \<Rightarrow> nonce_cache \<Rightarrow> timed_request \<Rightarrow> bool" where
  "accepts cx sg cache q \<longleftrightarrow>
     snd (cache_verify cx sg (retention_seconds (max_skew sg)) cache (rq_body q) (rq_headers q) (rq_time q))
       = Inr ()"

definition cache_after :: "codec \<Rightarrow> hmac_signer \<Rightarrow> nonce_cache \<Rightarrow> timed_request \<Rightarrow> nonce_cache" where
  "cache_after cx sg cache q =
     fst (cache_verify cx sg (retention_seconds (max_skew sg)) cache (rq_body q) (rq_headers q) (rq_time q))"

fun cache_run :: "codec \<Rightarrow> hmac_signer \<Rightarrow> nonce_cache \<Rightarrow> timed_request list \<Rightarrow> nonce_cache" where
  "cache_run cx sg cache [] = cache"
| "cache_run cx sg cache (q # qs) = cache_run cx sg (cache_after cx sg cache q) qs"

lemma dict_set_keeps: "(n, e) \<in> set d \<Longrightarrow> n \<noteq> k \<Longrightarrow> (n, e) \<in> set (dict_set k v d)"
  by (induction d) auto

lemma dict_set_entry: "(k, v) \<in> set (dict_set k v d)"
  by (induction d) auto

lemma accepts_verify:
  assumes "accepts cx sg cache q"
  shows "\<exists>nonce. header nonce_header (rq_headers q) = Some nonce
    \<and> nonce \<notin> fst ` {(n, e) \<in> set cache. e > rq_time q}
    \<and> (nonce, rq_time q + retention_seconds (max_skew sg)) \<in> set (cache_after cx sg cache q)
    \<and> (\<exists>ts t. header timestamp_header (rq_headers q) = Some ts \<and> py_int ts = Some t
        \<and> abs (rq_time q - t) \<le> max_skew sg)"
proof -
  let ?live = "filter (\<lambda>(n, expiry). expiry > rq_time q) cache"
  let ?v = "verify cx sg (rq_body q) (rq_headers q) (rq_time q) (Some (fst ` set ?live))"
  obtain seen where v: "?v = Inr seen"
    using assms unfolding accepts_def cache_verify_def Let_def
    by (cases ?v) (auto split: if_splits option.splits)
  obtain ts nonce t where h: "header timestamp_header (rq_headers q) = Some ts"
      "header nonce_header (rq_headers q) = Some nonce" "py_int ts = Some t"
      "abs (rq_time q - t) \<le> max_skew sg" "nonce \<notin> fst ` set ?live"
    using v unfolding verify_Inr by blast
  have "cache_after cx sg cache q = dict_set nonce (rq_time q + retention_seconds (max_skew sg)) ?live"
    using assms v h(2) unfolding accepts_def cache_after_def cache_verify_def Let_def
    by (auto split: if_splits)
  then show ?thesis using h dict_set_entry by (auto simp: case_prod_unfold)
qed

lemma cache_after_keeps:
  assumes "(n, e) \<in> set cache" and "rq_time q < e"
  shows "(n, e) \<in> set (cache_after cx sg cache q)"
proof -
  let ?live = "filter (\<lambda>(n, expiry). expiry > rq_time q) cache"
  let ?v = "verify cx sg (rq_body q) (rq_headers q) (rq_time q) (Some (fst ` set ?live))"
  have live: "(n, e) \<in> set ?live" using assms by simp
  show ?thesis
  proof (cases ?v)
    case (Inl x)
    then show ?thesis using assms live unfolding cache_after_def cache_verify_def Let_def by auto
  next
    case (Inr seen)
    then obtain nonce where h: "header nonce_header (rq_headers q) = Some nonce" "nonce \<notin> fst ` set ?live"
      unfolding verify_Inr by blast
    have "n \<noteq> nonce" using h(2) live by force
    then show ?thesis
      using Inr h(1) assms(1) dict_set_keeps [OF live]
      unfolding cache_after_def cache_verify_def Let_def by simp
  qed
qed

lemma cache_run_keeps:
  "(n, e) \<in> set cache \<Longrightarrow> \<forall>q \<in> set qs. rq_time q < e \<Longrightarrow> (n, e) \<in> set (cache_run cx sg cache qs)"
  by (induction qs arbitrary: cache) (auto simp: cache_after_keeps)

section \<open>Properties of the signature\<close>

text \<open>
  What one side signs the other side accepts: within the clock skew, with a nonce that was
  not seen, verify accepts the output of sign and records the nonce.
\<close>

theorem signed_message_verifies:
  assumes "is_ascii (hmac_sha256 cx (secret sg) (signing_input body (str_int ts) nonce))"
    and "abs (now - ts) \<le> max_skew sg" and "nonce \<noteq> []" and "nonce \<notin> S"
  shows "verify cx sg body (sign cx sg body ts nonce) now (Some S) = Inr (Some (insert nonce S))"
  using verify_sign [OF assms(1-3), of "Some S"] assms(4) by simp

text \<open>A concrete codec for the witnesses: the authenticator is the hexadecimal text of its input.\<close>

definition demo_hmac :: "string \<Rightarrow> string \<Rightarrow> string" where
  "demo_hmac k m = concat (map (\<lambda>c. [hex_char (code c div 16), hex_char (code c mod 16)]) m)"

definition demo_codec :: codec where
  "demo_codec = \<lparr>float_repr = demo_float, time_repr = str_int, hmac_sha256 = demo_hmac,
     parse_command = (\<lambda>_. NotACommand), parse_response = (\<lambda>_. None)\<rparr>"

definition demo_signer :: hmac_signer where
  "demo_signer = \<lparr>secret = ''0123456789abcdef'', max_skew = 30\<rparr>"

lemma hex_char_ascii: "n < 16 \<Longrightarrow> code (hex_char n) < 128"
  by (auto simp: hex_char_def)

lemma nibbles: "code c div 16 < 16" "code c mod 16 < 16" for c :: char
proof -
  have "code c < 16 * 16" using nat_of_char_less_256 [of c] by simp
  then show "code c div 16 < 16" by (simp add: div_less_iff_less_mult)
qed simp

lemma demo_hmac_ascii: "is_ascii (demo_hmac k m)"
  by (auto simp: is_ascii_def demo_hmac_def hex_char_ascii nibbles)

lemma signed_message_verifies_witness:
  "verify demo_codec demo_signer ''{}'' (sign demo_codec demo_signer ''{}'' 100 ''nonce-01'') 130 (Some {})
     = Inr (Some {''nonce-01''})"
  by (rule signed_message_verifies) (auto simp: demo_codec_def demo_hmac_ascii demo_signer_def)

text \<open>
  C17. A signature binds body, time stamp and nonce: if a message is accepted with a signature that
  was made for some other body, time or nonce, then, unless the two inputs collide under the
  authenticator, nothing was changed. The header values must not contain a line feed, which HTTP
  header values never do.
\<close>

theorem altered_message_is_rejected:
  assumes "verify cx sg body hs now seen = Inr seen'"
    and "header timestamp_header hs = Some ts" and "header nonce_header hs = Some nonce"
    and "header signature_header hs = Some (signature_of cx sg body' ts' nonce')"
    and "newline \<notin> set ts" "newline \<notin> set nonce" "newline \<notin> set ts'" "newline \<notin> set nonce'"
    and "hmac_sha256 cx (secret sg) (signing_input body ts nonce)
           = hmac_sha256 cx (secret sg) (signing_input body' ts' nonce')
         \<Longrightarrow> signing_input body ts nonce = signing_input body' ts' nonce'"
  shows "body = body' \<and> ts = ts' \<and> nonce = nonce'"
proof -
  have "signature_of cx sg body' ts' nonce' = signature_of cx sg body ts nonce"
    using assms(1-4) unfolding verify_Inr by auto
  then have "signing_input body ts nonce = signing_input body' ts' nonce'"
    using assms(9) by (simp add: signature_of_def)
  then show ?thesis by (rule signing_input_inj [OF _ assms(5-8)])
qed

lemma demo_hmac_inj: "demo_hmac k m = demo_hmac k m' \<Longrightarrow> m = m'"
proof (induction m arbitrary: m')
  case Nil
  then show ?case by (cases m') (auto simp: demo_hmac_def)
next
  case (Cons c m)
  from Cons.prems obtain d n where m': "m' = d # n" by (cases m') (auto simp: demo_hmac_def)
  with Cons.prems have e: "hex_char (code c div 16) = hex_char (code d div 16)"
      "hex_char (code c mod 16) = hex_char (code d mod 16)" "demo_hmac k m = demo_hmac k n"
    by (auto simp: demo_hmac_def)
  then have "code c div 16 = code d div 16" "code c mod 16 = code d mod 16"
    using hex_value_char nibbles by metis+
  then have "code c = code d" by (metis div_mult_mod_eq)
  then have "c = d" by simp
  with e(3) m' Cons.IH show ?case by simp
qed

lemma altered_message_is_rejected_witness:
  "verify demo_codec demo_signer ''[]'' (sign demo_codec demo_signer ''{}'' 100 ''nonce-01'') 100 None
     \<noteq> Inr None"
proof
  assume v: "verify demo_codec demo_signer ''[]'' (sign demo_codec demo_signer ''{}'' 100 ''nonce-01'') 100 None
     = Inr None"
  have "newline \<notin> set (str_int 100)" using str_int_chars [of newline 100] by (auto simp: is_dec_def)
  moreover have "newline \<notin> set ''nonce-01''" by simp
  ultimately have "''[]'' = ''{}''"
    using altered_message_is_rejected [OF v header_sign] demo_hmac_inj
    by (simp add: demo_codec_def)
  then show False by simp
qed

text \<open>
  C3. Replay protection: whatever the cache held before, once a request has been accepted no later
  request with the same nonce and time stamp is accepted, however many requests come between and
  whatever they are, as long as the clock does not run backwards. The retention is long enough
  that the nonce is forgotten only after its time stamp has left the signature window.
\<close>

theorem replayed_request_is_rejected:
  assumes "accepts cx sg cache a"
    and "sorted (map rq_time (a # between @ [b]))"
    and "header nonce_header (rq_headers b) = header nonce_header (rq_headers a)"
    and "header timestamp_header (rq_headers b) = header timestamp_header (rq_headers a)"
  shows "\<not> accepts cx sg (cache_run cx sg cache (a # between)) b"
proof
  assume b: "accepts cx sg (cache_run cx sg cache (a # between)) b"
  let ?e = "rq_time a + retention_seconds (max_skew sg)"
  obtain nonce ts t where a: "header nonce_header (rq_headers a) = Some nonce"
      "(nonce, ?e) \<in> set (cache_after cx sg cache a)"
      "header timestamp_header (rq_headers a) = Some ts" "py_int ts = Some t"
      "abs (rq_time a - t) \<le> max_skew sg"
    using accepts_verify [OF assms(1)] by auto
  have b': "abs (rq_time b - t) \<le> max_skew sg"
    and fresh: "nonce \<notin> fst ` {(n, e) \<in> set (cache_run cx sg cache (a # between)). e > rq_time b}"
    using accepts_verify [OF b] assms(3,4) a by auto
  have late: "rq_time b < ?e" using a(5) b' by (simp add: retention_seconds_def)
  then have "\<forall>q \<in> set between. rq_time q < ?e" using assms(2) by (auto simp: sorted_append)
  then have "(nonce, ?e) \<in> set (cache_run cx sg cache (a # between))"
    using cache_run_keeps [OF a(2)] by simp
  with fresh late show False by force
qed

definition demo_request :: "int \<Rightarrow> timed_request" where
  "demo_request now = \<lparr>rq_body = ''{}'', rq_headers = sign demo_codec demo_signer ''{}'' 100 ''nonce-01'',
     rq_time = now\<rparr>"

lemma demo_request_accepted: "accepts demo_codec demo_signer [] (demo_request 100)"
  using verify_sign [of demo_codec demo_signer "''{}''" 100 "''nonce-01''" 100 "Some {}"]
  by (simp add: accepts_def cache_verify_def demo_request_def header_sign demo_codec_def demo_hmac_ascii
      demo_signer_def)

lemma replayed_request_is_rejected_witness:
  "accepts demo_codec demo_signer [] (demo_request 100)
   \<and> \<not> accepts demo_codec demo_signer
       (cache_run demo_codec demo_signer [] [demo_request 100, demo_request 120]) (demo_request 130)"
  using replayed_request_is_rejected [OF demo_request_accepted, of "[demo_request 120]" "demo_request 130"]
    demo_request_accepted by (simp add: demo_request_def)

end
