(* ===== verification/AgentEndpoint.thy ===== *)
theory AgentEndpoint
  imports AgentContract
begin

text \<open>
  The two ends of a command: the client \<open>backend/app/services/node_agent.py\<close>
  (\<open>NodeAgentHTTPClient.execute\<close>) and the endpoint \<open>execute_command\<close> of
  \<open>agent/openllmops_agent/main.py\<close>, with what the one may conclude from the other's reply.
\<close>

section \<open>\<open>NodeAgentHTTPClient.execute\<close>\<close>

record http_reply =
  reply_status :: int
  reply_body :: string
  reply_headers :: headers

text \<open>What \<open>client.post\<close> gives: an \<open>httpx.HTTPError\<close> (time-out, lost connection) or a reply.\<close>

datatype transport = NoReply | Reply http_reply

datatype failure_cause =
    TransportFailed
  | SignatureRejected signature_error
  | NotAResponse
  | NotADefiniteRefusal
  | BadStatus int

datatype client_error =
    NodeAgentCallFailed failure_cause
  | RequestIdMismatch
  | UncaughtTypeError  \<comment> \<open>\<open>TypeError\<close> of \<open>compare_digest\<close>, outside the \<open>except\<close> clause\<close>

definition is_client_error :: "int \<Rightarrow> bool" where
  "is_client_error st \<longleftrightarrow> 400 \<le> st \<and> st \<le> 499"

definition is_success :: "int \<Rightarrow> bool" where
  "is_success st \<longleftrightarrow> 200 \<le> st \<and> st \<le> 299"

definition definite_refusal :: "agent_response \<Rightarrow> bool" where
  "definite_refusal r \<longleftrightarrow>
     \<not> (accepted r \<or> observed_state r \<notin> {ABSENT, FAILED} \<or> \<not> truthy_str (error_code r))"

definition interpret_reply ::
  "codec \<Rightarrow> hmac_signer \<Rightarrow> int \<Rightarrow> agent_command \<Rightarrow> transport \<Rightarrow> client_error + agent_response" where
  "interpret_reply cx sg now cmd t =
     (case t of
        NoReply \<Rightarrow> Inl (NodeAgentCallFailed TransportFailed)
      | Reply rep \<Rightarrow>
          (case verify cx sg (reply_body rep) (reply_headers rep) now None of
             Inl SignatureTypeError \<Rightarrow> Inl UncaughtTypeError
           | Inl e \<Rightarrow> Inl (NodeAgentCallFailed (SignatureRejected e))
           | Inr _ \<Rightarrow>
               (case parse_response cx (reply_body rep) of
                  None \<Rightarrow> Inl (NodeAgentCallFailed NotAResponse)
                | Some result \<Rightarrow>
                    (if is_client_error (reply_status rep) \<and> \<not> definite_refusal result
                     then Inl (NodeAgentCallFailed NotADefiniteRefusal)
                     else if \<not> is_client_error (reply_status rep) \<and> \<not> is_success (reply_status rep)
                     then Inl (NodeAgentCallFailed (BadStatus (reply_status rep)))
                     else if res_request_id result \<noteq> request_id cmd then Inl RequestIdMismatch
                     else Inr result))))"

text \<open>The request the client posts: the signed canonical bytes.\<close>

definition client_request ::
  "codec \<Rightarrow> hmac_signer \<Rightarrow> agent_command \<Rightarrow> int \<Rightarrow> string \<Rightarrow> string \<times> headers" where
  "client_request cx sg cmd now nonce =
     (let body = command_bytes cx cmd in
      (body, (''Content-Type'', ''application/json'') # sign cx sg body now nonce))"

section \<open>\<open>execute_command\<close>: the agent's endpoint\<close>

datatype execution_error =
    RunnerFailed string   \<comment> \<open>\<open>RunnerError\<close>, \<open>DockerException\<close>, \<open>OSError\<close>, \<open>RuntimeError\<close>; its message\<close>
  | UnexpectedException

record command_outcome =
  out_response :: agent_response
  out_status :: int

definition max_command_body_bytes :: nat where
  "max_command_body_bytes = 2 * 1024 * 1024"

definition null_request_id :: uuid where
  "null_request_id = 0"

definition signed_contract_response ::
  "codec \<Rightarrow> hmac_signer \<Rightarrow> int \<Rightarrow> string \<Rightarrow> agent_response \<Rightarrow> int \<Rightarrow> http_reply" where
  "signed_contract_response cx sg now nonce r st =
     \<lparr>reply_status = st, reply_body = response_bytes cx r,
      reply_headers = sign cx sg (response_bytes cx r) now nonce\<rparr>"

text \<open>A fixed (Chinese) sentence of the source is stood for by a short ASCII label.\<close>

definition contract_error :: "uuid \<Rightarrow> timestamp \<Rightarrow> string \<Rightarrow> string \<Rightarrow> agent_response" where
  "contract_error rq dt text err =
     \<lparr>res_request_id = rq, accepted = False, observed_state = FAILED, observed_at = dt,
      res_message = Some text, error_code = Some err, metadata = []\<rparr>"

definition first_header :: "string \<Rightarrow> headers \<Rightarrow> string option" where
  "first_header name hs = map_of (map (\<lambda>(k, v). (lower k, v)) hs) (lower name)"

fun signature_message :: "signature_error \<Rightarrow> string" where
  "signature_message HeadersIncomplete = ''incomplete HMAC headers''"
| "signature_message TimestampInvalid = ''invalid timestamp''"
| "signature_message SignatureExpired = ''signature expired''"
| "signature_message NonceReused = ''nonce reused''"
| "signature_message SignatureMismatch = ''signature mismatch''"
| "signature_message NonceLengthInvalid = ''invalid nonce length''"
| "signature_message SignatureTypeError = []"

text \<open>
  \<open>process\<close> is \<open>CommandProcessor.execute\<close> on the agent's state; \<open>answer_command\<close> is the part of the
  handler behind the signature check.
\<close>

definition outcome_reply ::
  "uuid \<Rightarrow> timestamp \<Rightarrow> execution_error + command_outcome \<Rightarrow> agent_response \<times> int" where
  "outcome_reply rq dt x =
     (case x of
        Inl (RunnerFailed msg) \<Rightarrow> (contract_error rq dt msg ''runner_unavailable'', 503)
      | Inl UnexpectedException \<Rightarrow> (contract_error rq dt ''internal error'' ''internal_error'', 500)
      | Inr out \<Rightarrow> (out_response out, out_status out))"

definition answer_command ::
  "codec \<Rightarrow> ('s \<Rightarrow> agent_command \<Rightarrow> 's \<times> (execution_error + command_outcome))
     \<Rightarrow> 's \<Rightarrow> string \<Rightarrow> timestamp \<Rightarrow> 's \<times> agent_response \<times> int" where
  "answer_command cx process s body dt =
     (case parse_command cx body of
        NotACommand \<Rightarrow>
          (s, contract_error null_request_id dt ''not an AgentCommand'' ''invalid_command'', 422)
      | Unencodable rq \<Rightarrow> (s, contract_error rq dt ''unencodable field'' ''invalid_command'', 422)
      | Parsed c \<Rightarrow>
          (if command_bytes cx c \<noteq> body
           then (s, contract_error (request_id c) dt ''body is not canonical'' ''non_canonical_json'', 422)
           else (let (s', x) = process s c in (s', outcome_reply (request_id c) dt x))))"

text \<open>The outer None is an exception that leaves the handler: the framework answers it, unsigned.\<close>

definition execute_command ::
  "codec \<Rightarrow> hmac_signer \<Rightarrow> int \<Rightarrow> ('s \<Rightarrow> agent_command \<Rightarrow> 's \<times> (execution_error + command_outcome))
     \<Rightarrow> 's \<times> nonce_cache \<Rightarrow> string \<Rightarrow> headers \<Rightarrow> int \<Rightarrow> timestamp \<Rightarrow> string
     \<Rightarrow> ('s \<times> nonce_cache) \<times> http_reply option" where
  "execute_command cx sg retention process st body hs now dt nonce =
     (let (s, cache) = st;
          reply = (\<lambda>r st. Some (signed_contract_response cx sg now nonce r st));
          too_large = reply (contract_error null_request_id dt ''body exceeds 2 MiB'' ''body_too_large'') 413;
          declared = (case first_header ''content-length'' hs of
             Some l \<Rightarrow> (if isdigit l then Some (py_int l) else None)
           | None \<Rightarrow> None) in
      (case declared of
         Some None \<Rightarrow> (st, None)
       | _ \<Rightarrow>
         (if (case declared of Some (Some l) \<Rightarrow> l > int max_command_body_bytes | _ \<Rightarrow> False)
            then (st, too_large)
          else if length body > max_command_body_bytes then (st, too_large)
          else
            (case cache_verify cx sg retention cache body hs now of
               (cache', Inl SignatureTypeError) \<Rightarrow> ((s, cache'), None)
             | (cache', Inl e) \<Rightarrow> ((s, cache'),
                 reply (contract_error null_request_id dt (signature_message e) ''invalid_signature'') 401)
             | (cache', Inr _) \<Rightarrow>
                 (let (s', r, st) = answer_command cx process s body dt
                  in ((s', cache'), reply r st))))))"

section \<open>Properties of the client\<close>

lemma interpret_reply_iff:
  "interpret_reply cx sg now cmd t = Inr r \<longleftrightarrow>
     (\<exists>rep. t = Reply rep
        \<and> verify cx sg (reply_body rep) (reply_headers rep) now None = Inr None
        \<and> parse_response cx (reply_body rep) = Some r
        \<and> res_request_id r = request_id cmd
        \<and> (is_success (reply_status rep)
           \<or> is_client_error (reply_status rep) \<and> \<not> accepted r
              \<and> observed_state r \<in> {ABSENT, FAILED} \<and> truthy_str (error_code r)))"
proof (cases t)
  case (Reply rep)
  have ex: "\<not> (is_success c \<and> is_client_error c)" for c by (auto simp: is_success_def is_client_error_def)
  show ?thesis
  proof (cases "verify cx sg (reply_body rep) (reply_headers rep) now None")
    case (Inl e)
    then show ?thesis using Reply by (cases e) (auto simp: interpret_reply_def)
  next
    case (Inr s)
    then have "s = None" by (auto simp: verify_Inr)
    then show ?thesis using Reply Inr ex [of "reply_status rep"]
      by (cases "parse_response cx (reply_body rep)") (auto simp: interpret_reply_def definite_refusal_def)
  qed
qed (simp add: interpret_reply_def)


section \<open>The bytes of a message determine its fields\<close>

text \<open>An object is read by key: what \<open>canon\<close> keeps of it.\<close>

lemma map_of_insort:
  "k \<notin> fst ` set ms \<Longrightarrow> map_of (insort_key fst (k, v) ms) = (map_of ms)(k \<mapsto> v)"
  by (induction ms) (auto simp: fun_upd_twist)

lemma map_of_sort: "distinct (map fst ms) \<Longrightarrow> map_of (sort_key fst ms) = map_of ms"
proof (induction ms)
  case (Cons m ms)
  then show ?case by (cases m) (simp add: map_of_insort)
qed simp

lemma canon_fields:
  assumes "canon (JObj ms) = canon (JObj ns)" and "distinct (map fst ms)" and "distinct (map fst ns)"
  shows "map_option canon (map_of ms k) = map_option canon (map_of ns k)"
proof -
  let ?c = "map (\<lambda>(k, v). (k, canon v))"
  have f: "map fst (?c xs) = map fst xs" for xs :: json_obj by (induction xs) auto
  have "map_of (sort_key fst (?c ms)) = map_of (sort_key fst (?c ns))" using assms(1) by simp
  moreover have "distinct (map fst (?c ms))" "distinct (map fst (?c ns))" using assms(2,3) by (simp_all only: f)
  ultimately have "map_of (?c ms) = map_of (?c ns)" by (simp only: map_of_sort)
  moreover have "map_of (?c xs) k = map_option canon (map_of xs k)" for xs
    by (induction xs) auto
  ultimately show ?thesis by metis
qed

text \<open>
  C16. The agent may trust the canonical bytes: two commands with the same bytes agree in the
  request id, the action, the owner with its generation, the GPUs, and, up to the order of object
  keys, in the execution parameters.
\<close>

theorem command_bytes_determine_command:
  assumes "float_text (float_repr cx)" and "command_bytes cx c = command_bytes cx d"
    and "request_id c < 2 ^ 128" "request_id d < 2 ^ 128"
    and "ag_id (cmd_owner c) < 2 ^ 128" "ag_id (cmd_owner d) < 2 ^ 128"
  shows "request_id c = request_id d \<and> cmd_action c = cmd_action d \<and> cmd_owner c = cmd_owner d
    \<and> cmd_gpu_ids c = cmd_gpu_ids d \<and> canon (JObj (execution c)) = canon (JObj (execution d))"
proof -
  note [simp del] = canon.simps(2)
  have e: "canon (command_json c) = canon (command_json d)"
    using assms(2) canonical_json_iff [OF assms(1)] by (simp add: command_bytes_def)
  note f = canon_fields [OF e [unfolded command_json_def]]
  have "uuid_str (request_id c) = uuid_str (request_id d)" using f [of "''request_id''"] by simp
  moreover have "cmd_action c = cmd_action d" using f [of "''action''"] by simp
  moreover have "canon (JObj (execution c)) = canon (JObj (execution d))" using f [of "''execution''"] by simp
  moreover have "cmd_gpu_ids c = cmd_gpu_ids d"
  proof -
    have "canon (JObj [(''gpu_ids'', JArr (map JInt (cmd_gpu_ids c)))])
        = canon (JObj [(''gpu_ids'', JArr (map JInt (cmd_gpu_ids d)))])"
      using f [of "''resources''"] by simp
    then show ?thesis using canon_fields [of _ _ "''gpu_ids''"] by (fastforce simp: comp_def)
  qed
  moreover have "cmd_owner c = cmd_owner d"
  proof -
    let ?o = "\<lambda>c. [(''type'', JStr (owner_type_value (ag_type (cmd_owner c)))),
          (''id'', JStr (uuid_str (ag_id (cmd_owner c)))),
          (''name'', JStr (ag_name (cmd_owner c))),
          (''generation'', JInt (ag_generation (cmd_owner c)))]"
    have "canon (JObj (?o c)) = canon (JObj (?o d))" using f [of "''owner''"] by simp
    note g = canon_fields [OF this]
    have "ag_type (cmd_owner c) = ag_type (cmd_owner d)" using g [of "''type''"] by simp
    moreover have "uuid_str (ag_id (cmd_owner c)) = uuid_str (ag_id (cmd_owner d))"
      using g [of "''id''"] by simp
    moreover have "ag_name (cmd_owner c) = ag_name (cmd_owner d)" using g [of "''name''"] by simp
    moreover have "ag_generation (cmd_owner c) = ag_generation (cmd_owner d)"
      using g [of "''generation''"] by simp
    ultimately show ?thesis using uuid_str_inj assms(5,6) by (simp add: agent_owner.equality)
  qed
  ultimately show ?thesis using uuid_str_inj assms(3,4) by blast
qed

definition demo_command :: "json_obj \<Rightarrow> agent_command" where
  "demo_command ex = \<lparr>request_id = 5, cmd_action = START,
     cmd_owner = \<lparr>ag_type = TRAINING, ag_id = 9, ag_name = ''job'', ag_generation = 2\<rparr>,
     cmd_gpu_ids = [0, 1], execution = ex\<rparr>"

lemma demo_command_bytes:
  "command_bytes demo_codec (demo_command [(''b'', JInt 1), (''a'', JNull)])
     = command_bytes demo_codec (demo_command [(''a'', JNull), (''b'', JInt 1)])"
  by (simp add: command_bytes_def demo_codec_def canonical_json_iff [OF demo_float_text] command_json_def
      demo_command_def less_eq_char_def)

lemma command_bytes_determine_command_witness:
  "canon (JObj (execution (demo_command [(''b'', JInt 1), (''a'', JNull)])))
     = canon (JObj (execution (demo_command [(''a'', JNull), (''b'', JInt 1)])))"
  using command_bytes_determine_command [OF _ demo_command_bytes]
  by (simp add: demo_codec_def demo_float_text demo_command_def)

lemma response_bytes_fields:
  assumes "float_text (float_repr cx)" and "response_bytes cx r = response_bytes cx r'"
    and "res_request_id r < 2 ^ 128" "res_request_id r' < 2 ^ 128"
  shows "res_request_id r = res_request_id r' \<and> accepted r = accepted r'
    \<and> observed_state r = observed_state r' \<and> error_code r = error_code r'
    \<and> res_message r = res_message r' \<and> canon (JObj (metadata r)) = canon (JObj (metadata r'))"
proof -
  note [simp del] = canon.simps(2)
  have e: "canon (response_json (time_repr cx) r) = canon (response_json (time_repr cx) r')"
    using assms(2) canonical_json_iff [OF assms(1)] by (simp add: response_bytes_def)
  note f = canon_fields [OF e [unfolded response_json_def]]
  have "uuid_str (res_request_id r) = uuid_str (res_request_id r')" using f [of "''request_id''"] by simp
  moreover have "accepted r = accepted r'" using f [of "''accepted''"] by simp
  moreover have "observed_state r = observed_state r'" using f [of "''observed_state''"] by simp
  moreover have "error_code r = error_code r'" using f [of "''error_code''"] by simp
  moreover have "res_message r = res_message r'" using f [of "''message''"] by simp
  moreover have "canon (JObj (metadata r)) = canon (JObj (metadata r'))" using f [of "''metadata''"] by simp
  ultimately show ?thesis using uuid_str_inj assms(3,4) by blast
qed

section \<open>The endpoint, branch by branch\<close>

definition authentic ::
  "codec \<Rightarrow> hmac_signer \<Rightarrow> int \<Rightarrow> nonce_cache \<Rightarrow> string \<Rightarrow> headers \<Rightarrow> int \<Rightarrow> bool" where
  "authentic cx sg retention cache body hs now \<longleftrightarrow>
     length body \<le> max_command_body_bytes \<and> snd (cache_verify cx sg retention cache body hs now) = Inr ()"

lemma answer_command_cases:
  assumes "answer_command cx process s body dt = (s', r, st)"
  obtains
    (anonymous) msg err where "s' = s" "r = contract_error null_request_id dt msg err" "st = 422"
  | (refused) rq msg err where "s' = s" "r = contract_error rq dt msg err" "st = 422"
      "parse_command cx body = Unencodable rq
       \<or> (\<exists>c. parse_command cx body = Parsed c \<and> request_id c = rq \<and> command_bytes cx c \<noteq> body)"
  | (executed) c where "parse_command cx body = Parsed c" "command_bytes cx c = body"
      "s' = fst (process s c)" "(r, st) = outcome_reply (request_id c) dt (snd (process s c))"
  using assms that
  by (auto simp: answer_command_def split: parsed_command.splits if_splits prod.splits)

lemma execute_command_cases:
  assumes "execute_command cx sg retention process (s, cache) body hs now dt nonce = ((s', cache'), rep)"
  obtains
    (unhandled) "s' = s" "rep = None"
  | (anonymous) msg err st where "s' = s"
      "rep = Some (signed_contract_response cx sg now nonce (contract_error null_request_id dt msg err) st)"
  | (answered) r st where "authentic cx sg retention cache body hs now"
      "answer_command cx process s body dt = (s', r, st)"
      "rep = Some (signed_contract_response cx sg now nonce r st)"
proof -
  define declared where "declared = (case first_header ''content-length'' hs of
     Some l \<Rightarrow> (if isdigit l then Some (py_int l) else None) | None \<Rightarrow> None)"
  note d = assms [unfolded execute_command_def, folded declared_def, simplified Let_def prod.case]
  consider (bad) "declared = Some None"
    | (large) "declared \<noteq> Some None"
        "(case declared of Some (Some l) \<Rightarrow> l > int max_command_body_bytes | _ \<Rightarrow> False)
         \<or> length body > max_command_body_bytes"
    | (ok) "declared \<noteq> Some None"
        "\<not> (case declared of Some (Some l) \<Rightarrow> l > int max_command_body_bytes | _ \<Rightarrow> False)"
        "length body \<le> max_command_body_bytes"
    by linarith
  then show thesis
  proof cases
    case bad
    then show ?thesis using d unhandled by simp
  next
    case large
    then show ?thesis using d anonymous by (auto split: option.splits if_splits)
  next
    case ok
    obtain c2 v where v: "cache_verify cx sg retention cache body hs now = (c2, v)"
      by (cases "cache_verify cx sg retention cache body hs now")
    show ?thesis
    proof (cases v)
      case (Inl e)
      with ok d v unhandled anonymous show ?thesis
        by (cases "e = SignatureTypeError") (auto split: option.splits signature_error.splits)
    next
      case (Inr u)
      obtain s2 r st where a: "answer_command cx process s body dt = (s2, r, st)"
        by (cases "answer_command cx process s body dt")
      have "s' = s2 \<and> rep = Some (signed_contract_response cx sg now nonce r st)"
        using ok d v Inr a by (auto split: option.splits)
      moreover have "authentic cx sg retention cache body hs now"
        using ok(3) v Inr by (simp add: authentic_def)
      ultimately show ?thesis using a answered by blast
    qed
  qed
qed

text \<open>A concrete link for the witnesses: the agent counts the commands it runs.\<close>

definition demo_response :: agent_response where
  "demo_response = \<lparr>res_request_id = 5, accepted = True, observed_state = STARTING, observed_at = 1,
     res_message = None, error_code = None, metadata = []\<rparr>"

definition link_codec :: codec where
  "link_codec = demo_codec
     \<lparr>parse_command := (\<lambda>b. if b = command_bytes demo_codec (demo_command []) then Parsed (demo_command [])
        else NotACommand),
      parse_response := (\<lambda>b. if b = response_bytes demo_codec demo_response then Some demo_response
        else None)\<rparr>"

definition demo_process :: "nat \<Rightarrow> agent_command \<Rightarrow> nat \<times> (execution_error + command_outcome)" where
  "demo_process s c = (Suc s, Inr \<lparr>out_response = demo_response\<lparr>res_request_id := request_id c\<rparr>,
     out_status = 200\<rparr>)"

definition demo_body :: string where
  "demo_body = command_bytes demo_codec (demo_command [])"

definition demo_headers :: headers where
  "demo_headers = snd (client_request link_codec demo_signer (demo_command []) 100 ''nonce-01'')"

lemma link_codec_bytes [simp]:
  "command_bytes link_codec = command_bytes demo_codec" "response_bytes link_codec = response_bytes demo_codec"
  "hmac_sha256 link_codec = demo_hmac"
  by (simp_all add: fun_eq_iff command_bytes_def response_bytes_def link_codec_def demo_codec_def)

lemma demo_headers_simps:
  "header timestamp_header demo_headers = Some (str_int 100)"
  "header nonce_header demo_headers = Some ''nonce-01''"
  "header signature_header demo_headers = Some (signature_of link_codec demo_signer demo_body (str_int 100) ''nonce-01'')"
  "first_header ''content-length'' demo_headers = None"
  by (simp_all add: demo_headers_def client_request_def Let_def demo_body_def header_def first_header_def
      sign_def timestamp_header_def nonce_header_def signature_header_def lower_def lower_char_def)

lemma demo_link_verify:
  "snd (cache_verify link_codec demo_signer 61 [] demo_body demo_headers 100) = Inr ()"
proof -
  have "verify link_codec demo_signer demo_body demo_headers 100 (Some {}) = Inr (Some {''nonce-01''})"
    by (auto simp: verify_Inr demo_headers_simps py_int_str_int signature_of_def is_ascii_def demo_signer_def
        demo_hmac_ascii [unfolded is_ascii_def, rule_format])
  then show ?thesis by (simp add: cache_verify_def demo_headers_simps)
qed

lemma length_encode_utf8: "length (encode_utf8 s) \<le> 2 * length s"
  by (induction s) (auto simp: encode_utf8_def utf8_char_def)

lemma length_dump_str: "length (dump_str s) \<le> 6 * length s + 2"
proof -
  have "length (escape c) \<le> 6" for c by (simp add: escape_def)
  then have "length (concat (map escape s)) \<le> 6 * length s"
    by (induction s) (auto simp: add_mono)
  then show ?thesis by (simp add: dump_str_def)
qed

lemma demo_body_length: "length demo_body \<le> 4000"
proof -
  let ?d = "dump demo_float (canon (command_json (demo_command [])))"
  have n: "length (str_int 0) = 1" "length (str_int 1) = 1" "length (str_int 2) = 1"
    by (simp_all add: str_int_def str_nat.simps)
  have "length ?d \<le> 2000"
    using length_dump_str [of "uuid_str 5"] length_dump_str [of "uuid_str 9"]
      length_dump_str [of "''action''"] length_dump_str [of "''start''"]
      length_dump_str [of "''contract_version''"] length_dump_str [of "''1''"]
      length_dump_str [of "''execution''"] length_dump_str [of "''owner''"]
      length_dump_str [of "''generation''"] length_dump_str [of "''id''"]
      length_dump_str [of "''name''"] length_dump_str [of "''job''"]
      length_dump_str [of "''type''"] length_dump_str [of "''training''"]
      length_dump_str [of "''request_id''"] length_dump_str [of "''resources''"]
      length_dump_str [of "''gpu_ids''"]
    by (simp add: command_json_def demo_command_def less_eq_char_def n)
  then show ?thesis
    using length_encode_utf8 [of ?d]
    by (simp add: demo_body_def command_bytes_def canonical_json_def demo_codec_def)
qed

definition demo_run :: "(nat \<times> nonce_cache) \<times> http_reply option" where
  "demo_run = execute_command link_codec demo_signer 61 demo_process (0, []) demo_body demo_headers 100 1
     ''nonce-02''"

lemma demo_run_result:
  "\<exists>cache'. demo_run = ((1, cache'),
     Some (signed_contract_response link_codec demo_signer 100 ''nonce-02'' demo_response 200))"
proof -
  obtain c2 where v: "cache_verify link_codec demo_signer 61 [] demo_body demo_headers 100 = (c2, Inr ())"
    using demo_link_verify by (cases "cache_verify link_codec demo_signer 61 [] demo_body demo_headers 100") auto
  have "answer_command link_codec demo_process 0 demo_body 1 = (1, demo_response, 200)"
    by (simp add: answer_command_def link_codec_def demo_body_def demo_process_def outcome_reply_def
        command_bytes_def demo_codec_def) (simp add: demo_response_def demo_command_def)
  then show ?thesis
    using demo_body_length v
    by (simp add: demo_run_def execute_command_def demo_headers_simps max_command_body_bytes_def)
qed

section \<open>Properties of the endpoint\<close>

text \<open>
  C14. The agent's state changes only by running an authentic command: a body within the limit whose
  signature is valid, fresh and not replayed, that parses as a command and is byte for byte that
  command's canonical form.
\<close>

theorem endpoint_runs_only_authentic_commands:
  assumes "execute_command cx sg retention process (s, cache) body hs now dt nonce = ((s', cache'), rep)"
    and "s' \<noteq> s"
  shows "\<exists>c. length body \<le> 2097152
    \<and> snd (cache_verify cx sg retention cache body hs now) = Inr ()
    \<and> parse_command cx body = Parsed c \<and> body = command_bytes cx c \<and> s' = fst (process s c)"
  using assms(1)
proof (cases rule: execute_command_cases)
  case (answered r st)
  from answered(2) assms(2) answered(1) show ?thesis
    by (cases rule: answer_command_cases) (auto simp: authentic_def max_command_body_bytes_def)
qed (use assms(2) in auto)

lemma endpoint_runs_only_authentic_commands_witness:
  "\<exists>c. parse_command link_codec demo_body = Parsed c \<and> fst (fst demo_run) = fst (demo_process 0 c)"
proof -
  obtain cache' where r: "demo_run = ((1, cache'),
     Some (signed_contract_response link_codec demo_signer 100 ''nonce-02'' demo_response 200))"
    using demo_run_result by blast
  show ?thesis
    using endpoint_runs_only_authentic_commands [OF r [unfolded demo_run_def]] by (auto simp: r)
qed

text \<open>
  Every answer the handler gives, refusals and internal errors included, carries a signature the
  client accepts within the clock skew.
\<close>

theorem endpoint_answers_are_signed:
  assumes "execute_command cx sg retention process (s, cache) body hs now dt nonce = ((s', cache'), Some rep)"
    and "\<forall>m. is_ascii (hmac_sha256 cx (secret sg) m)" and "nonce \<noteq> []"
    and "abs (later - now) \<le> max_skew sg"
  shows "verify cx sg (reply_body rep) (reply_headers rep) later None = Inr None"
proof -
  have "\<exists>r st. rep = signed_contract_response cx sg now nonce r st"
    using assms(1) by (cases rule: execute_command_cases) auto
  then obtain r st where rep: "rep = signed_contract_response cx sg now nonce r st" by blast
  show ?thesis
    unfolding rep signed_contract_response_def using verify_sign [where seen = None] assms(2-4) by simp
qed

lemma endpoint_answers_are_signed_witness:
  "\<exists>rep. snd demo_run = Some rep
     \<and> verify link_codec demo_signer (reply_body rep) (reply_headers rep) 110 None = Inr None"
proof -
  obtain cache' where r: "demo_run = ((1, cache'),
     Some (signed_contract_response link_codec demo_signer 100 ''nonce-02'' demo_response 200))"
    using demo_run_result by blast
  show ?thesis
    using endpoint_answers_are_signed [OF r [unfolded demo_run_def], of 110]
    by (simp add: r demo_hmac_ascii demo_signer_def)
qed

text \<open>
  What the client's conclusions rest on: the parsers give 128-bit ids, and a response parsed from
  the bytes of a response has that response's id, verdict, state and error code.
\<close>

definition same_verdict :: "agent_response \<Rightarrow> agent_response \<Rightarrow> bool" where
  "same_verdict r r' \<longleftrightarrow> res_request_id r = res_request_id r' \<and> accepted r = accepted r'
     \<and> observed_state r = observed_state r' \<and> error_code r = error_code r'"

definition codec_laws :: "codec \<Rightarrow> bool" where
  "codec_laws cx \<longleftrightarrow>
     (\<forall>b c. parse_command cx b = Parsed c \<longrightarrow> request_id c < 2 ^ 128)
     \<and> (\<forall>b rq. parse_command cx b = Unencodable rq \<longrightarrow> rq < 2 ^ 128)
     \<and> (\<forall>r r'. res_request_id r < 2 ^ 128 \<longrightarrow> parse_response cx (response_bytes cx r) = Some r'
          \<longrightarrow> same_verdict r r')"


lemma link_codec_laws: "codec_laws link_codec"
proof -
  have f: "float_text (float_repr demo_codec)" by (simp add: demo_codec_def demo_float_text)
  have "same_verdict r demo_response"
    if "response_bytes demo_codec r = response_bytes demo_codec demo_response" "res_request_id r < 2 ^ 128" for r
    using response_bytes_fields [OF f that] by (simp add: same_verdict_def demo_response_def)
  then show ?thesis
    by (auto simp: codec_laws_def link_codec_def demo_command_def response_bytes_def demo_codec_def
        split: if_splits)
qed


end
