(* ===== verification/GpuScheduler.thy ===== *)
theory GpuScheduler
  imports Entities
begin

text \<open>
  \<open>backend/app/services/gpu_scheduler.py\<close>: whole-card, all-or-nothing GPU leases.
  The table \<open>gpu_leases\<close> is the list of its rows; every operation takes it and returns it
  updated. \<open>lease_inv\<close> is the invariant every operation keeps; \<open>lease_service\<close> is the contract
  the reconciler relies on, interpreted below on the operations of this file.
\<close>

section \<open>Owners, outcomes, errors\<close>

datatype sched_error =
    EmptyGpuRequest          \<comment> \<open>\<open>ValueError\<close>: at least one GPU\<close>
  | InvalidGpuIds            \<comment> \<open>\<open>ValueError\<close>: distinct non-negative numbers\<close>
  | InvalidTtl               \<comment> \<open>\<open>ValueError\<close>: the TTL is positive\<close>
  | UnsupportedDialect string  \<comment> \<open>\<open>RuntimeError\<close>\<close>
  | LeaseInvariantError

record lease_owner =
  own_type :: lease_owner_type
  own_id :: uuid
  own_name :: string
  own_generation :: int

record lease_acquisition =
  acquired :: bool
  acq_gpu_ids :: "int list"
  acq_group_id :: "uuid option"
  blocking_owner :: "lease_owner option"
  idempotent :: bool

type_synonym lease_key = "lease_owner_type \<times> uuid \<times> int"

definition owner_key :: "lease_owner \<Rightarrow> lease_key" where
  "owner_key ow = (own_type ow, own_id ow, own_generation ow)"

definition lease_key_of :: "lease \<Rightarrow> lease_key" where
  "lease_key_of l = (owner_type l, owner_id l, generation l)"

definition owner_of_lease :: "lease \<Rightarrow> lease_owner" where
  "owner_of_lease l = \<lparr>own_type = owner_type l, own_id = owner_id l, own_name = owner_name l,
     own_generation = generation l\<rparr>"

section \<open>\<open>GPULeaseManager\<close>\<close>

definition lease_manager_ttl :: "int \<Rightarrow> sched_error + int" where
  "lease_manager_ttl ttl_seconds =
     (if ttl_seconds < 1 then Inl InvalidTtl else Inr (seconds ttl_seconds))"

definition normalize_gpu_ids :: "int list \<Rightarrow> sched_error + int list" where
  "normalize_gpu_ids gpus =
     (let normalized = sort gpus in
      if normalized = [] then Inl EmptyGpuRequest
      else if hd normalized < 0 \<or> length normalized \<noteq> length (remdups normalized)
        then Inl InvalidGpuIds
      else Inr normalized)"

text \<open>The lock taken for a dialect: an advisory transaction lock, or the process-local one.\<close>

datatype scheduler_lock_kind = AdvisoryXactLock | SqliteProcessLock

definition scheduler_lock :: "string \<Rightarrow> sched_error + scheduler_lock_kind" where
  "scheduler_lock dialect =
     (if dialect = ''postgresql'' then Inr AdvisoryXactLock
      else if dialect = ''sqlite'' then Inr SqliteProcessLock
      else Inl (UnsupportedDialect dialect))"

text \<open>The rows of one owner, in GPU order (\<open>order_by(GPULease.gpu_index)\<close>).\<close>

definition same_owner :: "lease_owner \<Rightarrow> lease \<Rightarrow> bool" where
  "same_owner ow l \<longleftrightarrow> owner_type l = own_type ow \<and> owner_id l = own_id ow"

definition same_generation :: "lease_owner \<Rightarrow> lease \<Rightarrow> bool" where
  "same_generation ow l \<longleftrightarrow> same_owner ow l \<and> generation l = own_generation ow"

definition owned_leases :: "lease_owner \<Rightarrow> lease list \<Rightarrow> lease list" where
  "owned_leases ow L = sort_key gpu_index (filter (same_owner ow) L)"

definition conflicting_leases :: "int list \<Rightarrow> lease list \<Rightarrow> lease list" where
  "conflicting_leases requested L = sort_key gpu_index (filter (\<lambda>l. gpu_index l \<in> set requested) L)"

definition renew :: "(lease \<Rightarrow> bool) \<Rightarrow> timestamp \<Rightarrow> int \<Rightarrow> lease list \<Rightarrow> lease list" where
  "renew P now ttl L =
     map (\<lambda>l. if P l then l\<lparr>heartbeat_at := now, expires_at := now + ttl\<rparr> else l) L"

definition new_lease :: "int \<Rightarrow> lease_owner \<Rightarrow> timestamp \<Rightarrow> uuid \<Rightarrow> int \<Rightarrow> lease" where
  "new_lease ttl ow now gid gpu =
     \<lparr>gpu_index = gpu, lease_group_id = gid, owner_type = own_type ow, owner_id = own_id ow,
      owner_name = own_name ow, generation = own_generation ow,
      acquired_at = now, heartbeat_at = now, expires_at = now + ttl\<rparr>"

text \<open>
  The two \<open>UniqueConstraint\<close>s of \<open>gpu_leases\<close>, and the savepoint around the insertion of a
  group: an \<open>IntegrityError\<close> (None) rolls the whole group back.
\<close>

definition unique_constraints :: "lease list \<Rightarrow> bool" where
  "unique_constraints L \<longleftrightarrow> distinct (map gpu_index L)
     \<and> distinct (map (\<lambda>l. (owner_type l, owner_id l, gpu_index l)) L)"

definition insert_group :: "lease list \<Rightarrow> lease list \<Rightarrow> lease list option" where
  "insert_group new L = (if unique_constraints (L @ new) then Some (L @ new) else None)"

definition refused :: "int list \<Rightarrow> lease option \<Rightarrow> lease_acquisition" where
  "refused requested conflict = \<lparr>acquired = False, acq_gpu_ids = requested, acq_group_id = None,
     blocking_owner = map_option owner_of_lease conflict, idempotent = False\<rparr>"

text \<open>
  \<open>gid\<close> is the fresh \<open>uuid4()\<close>; \<open>raced\<close> are the rows a writer outside the scheduler
  commits between the conflict query and the flush (none when every writer takes the lock).
\<close>

definition try_acquire_locked ::
  "int \<Rightarrow> lease list \<Rightarrow> lease_owner \<Rightarrow> int list \<Rightarrow> timestamp \<Rightarrow> uuid \<Rightarrow> lease list
     \<Rightarrow> sched_error + lease list \<times> lease_acquisition" where
  "try_acquire_locked ttl L ow gpus now gid raced =
     (case normalize_gpu_ids gpus of
        Inl e \<Rightarrow> Inl e
      | Inr requested \<Rightarrow>
          (let owned = owned_leases ow L in
           if owned \<noteq> [] then
             (if map gpu_index owned \<noteq> requested
                 \<or> set (map generation owned) \<noteq> {own_generation ow}
                 \<or> length (remdups (map lease_group_id owned)) \<noteq> 1
              then Inl LeaseInvariantError
              else Inr (renew (same_owner ow) now ttl L,
                \<lparr>acquired = True, acq_gpu_ids = requested,
                 acq_group_id = Some (lease_group_id (hd owned)),
                 blocking_owner = None, idempotent = True\<rparr>))
           else
             (case conflicting_leases requested L of
                conflict # _ \<Rightarrow> Inr (L, refused requested (Some conflict))
              | [] \<Rightarrow>
                  (case insert_group (map (new_lease ttl ow now gid) requested) (L @ raced) of
                     Some L' \<Rightarrow> Inr (L',
                       \<lparr>acquired = True, acq_gpu_ids = requested, acq_group_id = Some gid,
                        blocking_owner = None, idempotent = False\<rparr>)
                   | None \<Rightarrow> Inr (L @ raced,
                       refused requested
                         (case conflicting_leases requested (L @ raced) of
                            [] \<Rightarrow> None | c # _ \<Rightarrow> Some c))))))"

definition try_acquire ::
  "string \<Rightarrow> int \<Rightarrow> lease list \<Rightarrow> lease_owner \<Rightarrow> int list \<Rightarrow> timestamp \<Rightarrow> uuid \<Rightarrow> lease list
     \<Rightarrow> sched_error + lease list \<times> lease_acquisition" where
  "try_acquire dialect ttl L ow gpus now gid raced =
     (case scheduler_lock dialect of
        Inl e \<Rightarrow> Inl e
      | Inr _ \<Rightarrow> try_acquire_locked ttl L ow gpus now gid raced)"

definition heartbeat :: "int \<Rightarrow> lease list \<Rightarrow> lease_owner \<Rightarrow> timestamp \<Rightarrow> lease list \<times> nat" where
  "heartbeat ttl L ow now =
     (renew (same_generation ow) now ttl L, length (filter (same_generation ow) L))"

definition release :: "lease list \<Rightarrow> lease_owner \<Rightarrow> lease list \<times> nat" where
  "release L ow =
     (filter (\<lambda>l. \<not> same_generation ow l) L, length (filter (same_generation ow) L))"

text \<open>
  The expired rows in \<open>(expires_at, gpu_index)\<close> order; a row whose owner is confirmed is
  deleted and its owner is recorded once in the result, as the insertion-ordered \<open>dict\<close> does.
\<close>

definition expired_leases :: "lease list \<Rightarrow> timestamp \<Rightarrow> lease list" where
  "expired_leases L now =
     sort_key expires_at (sort_key gpu_index (filter (\<lambda>l. expires_at l \<le> now) L))"

fun reap_loop ::
  "lease list \<Rightarrow> lease_key set \<Rightarrow> lease list \<Rightarrow> (lease_key \<times> lease_owner) list
     \<Rightarrow> lease list \<times> (lease_key \<times> lease_owner) list" where
  "reap_loop [] confirmed L owners = (L, owners)"
| "reap_loop (l # ls) confirmed L owners =
     (if lease_key_of l \<notin> confirmed then reap_loop ls confirmed L owners
      else reap_loop ls confirmed (delete_by gpu_index (gpu_index l) L)
             (dict_set (lease_key_of l) (owner_of_lease l) owners))"

definition reap_expired_locked ::
  "lease list \<Rightarrow> lease_key set \<Rightarrow> timestamp \<Rightarrow> lease list \<times> lease_owner list" where
  "reap_expired_locked L confirmed now =
     (let (L', owners) = reap_loop (expired_leases L now) confirmed L []
      in (L', map snd owners))"

section \<open>The invariant\<close>

text \<open>
  A card is leased at most once; all leases of one workload are of one generation, one group and
  one expiry, so a group is renewed and expires as a whole.
\<close>

definition group_coherent :: "lease list \<Rightarrow> bool" where
  "group_coherent L \<longleftrightarrow>
     (\<forall>l \<in> set L. \<forall>m \<in> set L. owner_type l = owner_type m \<and> owner_id l = owner_id m \<longrightarrow>
        generation l = generation m \<and> lease_group_id l = lease_group_id m
        \<and> expires_at l = expires_at m)"

definition lease_inv :: "lease list \<Rightarrow> bool" where
  "lease_inv L \<longleftrightarrow> distinct (map gpu_index L) \<and> group_coherent L"

definition held :: "lease list \<Rightarrow> lease_key \<Rightarrow> int set" where
  "held L k = gpu_index ` {l \<in> set L. lease_key_of l = k}"

named_theorems lease_simps

lemmas lease_defs = same_owner_def same_generation_def owner_key_def lease_key_of_def

lemma set_renew: "l \<in> set (renew P now ttl L) \<longleftrightarrow>
    (\<exists>m \<in> set L. l = (if P m then m\<lparr>heartbeat_at := now, expires_at := now + ttl\<rparr> else m))"
  by (auto simp: renew_def)

lemma renewed_row:
  assumes "l \<in> set (renew P now ttl L)"
  shows "\<exists>m \<in> set L. gpu_index l = gpu_index m \<and> owner_type l = owner_type m
    \<and> owner_id l = owner_id m \<and> generation l = generation m \<and> lease_group_id l = lease_group_id m"
proof -
  obtain m where m: "m \<in> set L"
    "l = (if P m then m\<lparr>heartbeat_at := now, expires_at := now + ttl\<rparr> else m)"
    using assms by (auto simp: set_renew)
  show ?thesis by (rule bexI [OF _ m(1)]) (simp add: m(2))
qed

lemma map_renew [lease_simps]:
  "map gpu_index (renew P now ttl L) = map gpu_index L"
  by (auto simp: renew_def)

lemma held_renew [lease_simps]: "held (renew P now ttl L) k = held L k"
  unfolding held_def
proof (rule set_eqI, rule iffI)
  fix x
  assume "x \<in> gpu_index ` {l \<in> set (renew P now ttl L). lease_key_of l = k}"
  then show "x \<in> gpu_index ` {l \<in> set L. lease_key_of l = k}"
    by (auto simp: set_renew lease_key_of_def image_iff split: if_splits)
next
  fix x
  assume "x \<in> gpu_index ` {l \<in> set L. lease_key_of l = k}"
  then obtain l where l: "l \<in> set L" "lease_key_of l = k" "x = gpu_index l" by auto
  let ?m = "if P l then l\<lparr>heartbeat_at := now, expires_at := now + ttl\<rparr> else l"
  have "?m \<in> set (renew P now ttl L)" using l(1) by (auto simp: set_renew)
  moreover have "lease_key_of ?m = k" "gpu_index ?m = x"
    using l(2,3) by (auto simp: lease_key_of_def)
  ultimately show "x \<in> gpu_index ` {l \<in> set (renew P now ttl L). lease_key_of l = k}"
    by blast
qed

lemma group_coherent_renew:
  assumes "group_coherent L"
    and "\<And>l m. l \<in> set L \<Longrightarrow> m \<in> set L \<Longrightarrow> owner_type l = owner_type m \<Longrightarrow>
           owner_id l = owner_id m \<Longrightarrow> P l = P m"
  shows "group_coherent (renew P now ttl L)"
proof -
  let ?f = "\<lambda>l. if P l then l\<lparr>heartbeat_at := now, expires_at := now + ttl\<rparr> else l"
  have f: "owner_type (?f l) = owner_type l" "owner_id (?f l) = owner_id l"
    "generation (?f l) = generation l" "lease_group_id (?f l) = lease_group_id l"
    "expires_at (?f l) = (if P l then now + ttl else expires_at l)" for l
    by auto
  show ?thesis
    unfolding group_coherent_def renew_def set_map ball_simps f
    using assms unfolding group_coherent_def by metis
qed

lemma group_coherent_filter: "group_coherent L \<Longrightarrow> group_coherent (filter P L)"
  by (auto simp: group_coherent_def)

lemma lease_inv_filter: "lease_inv L \<Longrightarrow> lease_inv (filter P L)"
  by (auto simp: lease_inv_def group_coherent_filter distinct_map_filter_key)

lemma lease_inv_renew:
  assumes "lease_inv L"
    and "\<And>l m. l \<in> set L \<Longrightarrow> m \<in> set L \<Longrightarrow> owner_type l = owner_type m \<Longrightarrow>
           owner_id l = owner_id m \<Longrightarrow> P l = P m"
  shows "lease_inv (renew P now ttl L)"
  using assms by (auto simp: lease_inv_def lease_simps intro: group_coherent_renew)

section \<open>Requests are normalised\<close>

lemma normalize_gpu_ids_Inr:
  "normalize_gpu_ids gpus = Inr requested \<Longrightarrow>
     requested = sort gpus \<and> gpus \<noteq> [] \<and> distinct gpus \<and> (\<forall>g \<in> set gpus. 0 \<le> g)"
proof -
  assume a: "normalize_gpu_ids gpus = Inr requested"
  then have ne: "sort gpus \<noteq> []" and req: "requested = sort gpus"
    and hd: "\<not> hd (sort gpus) < 0" and len: "length (sort gpus) = length (remdups (sort gpus))"
    by (auto simp: normalize_gpu_ids_def Let_def split: if_splits)
  have "distinct (sort gpus)" using len length_remdups_eq [of "sort gpus"] by simp
  moreover have "\<forall>g \<in> set gpus. 0 \<le> g" using hd hd_sort_min [of gpus] ne by force
  ultimately show ?thesis using req ne by auto
qed

lemma normalize_gpu_ids_ok:
  "gpus \<noteq> [] \<Longrightarrow> distinct gpus \<Longrightarrow> \<forall>g \<in> set gpus. 0 \<le> g \<Longrightarrow>
     normalize_gpu_ids gpus = Inr (sort gpus)"
proof -
  assume ne: "gpus \<noteq> []" and d: "distinct gpus" and p: "\<forall>g \<in> set gpus. 0 \<le> g"
  have s: "sort gpus \<noteq> []" using ne by (metis set_empty set_sort)
  then have "hd (sort gpus) \<in> set gpus" by (metis hd_in_set set_sort)
  with p have "\<not> hd (sort gpus) < 0" by auto
  with s d show ?thesis by (simp add: normalize_gpu_ids_def Let_def distinct_remdups_id)
qed

section \<open>\<open>try_acquire_locked\<close>, branch by branch\<close>

lemma owned_leases_set: "set (owned_leases ow L) = {l \<in> set L. same_owner ow l}"
  by (auto simp: owned_leases_def)

lemma owned_leases_Nil: "owned_leases ow L = [] \<longleftrightarrow> (\<forall>l \<in> set L. \<not> same_owner ow l)"
  using owned_leases_set [of ow L] by (auto simp flip: set_empty)

lemma conflicting_leases_set:
  "set (conflicting_leases req L) = {l \<in> set L. gpu_index l \<in> set req}"
  by (auto simp: conflicting_leases_def)

lemma conflicting_leases_Nil:
  "conflicting_leases req L = [] \<longleftrightarrow> (\<forall>l \<in> set L. gpu_index l \<notin> set req)"
  using conflicting_leases_set [of req L] by (auto simp flip: set_empty)

lemma new_lease_simps [simp]:
  "gpu_index (new_lease ttl ow now gid g) = g"
  "lease_key_of (new_lease ttl ow now gid g) = owner_key ow"
  "owner_type (new_lease ttl ow now gid g) = own_type ow"
  "owner_id (new_lease ttl ow now gid g) = own_id ow"
  "generation (new_lease ttl ow now gid g) = own_generation ow"
  "lease_group_id (new_lease ttl ow now gid g) = gid"
  "expires_at (new_lease ttl ow now gid g) = now + ttl"
  by (simp_all add: new_lease_def lease_defs)

lemma distinct_map_finer: "distinct (map f xs) \<Longrightarrow> distinct (map (\<lambda>x. (g x, h x, f x)) xs)"
  by (induction xs) auto

lemma unique_constraints_append:
  assumes "distinct (map gpu_index L)" and "distinct req"
  shows "unique_constraints (L @ map (new_lease ttl ow now gid) req)
    \<longleftrightarrow> (\<forall>l \<in> set L. gpu_index l \<notin> set req)"
proof -
  let ?all = "L @ map (new_lease ttl ow now gid) req"
  have m: "map gpu_index ?all = map gpu_index L @ req" by (simp add: comp_def)
  have d: "distinct (map gpu_index ?all) \<longleftrightarrow> (\<forall>l \<in> set L. gpu_index l \<notin> set req)"
    unfolding m using assms by auto
  show ?thesis unfolding unique_constraints_def using d distinct_map_finer by blast
qed

text \<open>The four outcomes of a well-formed request on a table that keeps the invariant.\<close>

definition takes_over :: "lease_owner \<Rightarrow> int list \<Rightarrow> lease list \<Rightarrow> bool" where
  "takes_over ow gpus L \<longleftrightarrow>
     map gpu_index (owned_leases ow L) = sort gpus
     \<and> set (map generation (owned_leases ow L)) = {own_generation ow}"

lemma remdups_const: "xs \<noteq> [] \<Longrightarrow> \<forall>x \<in> set xs. x = c \<Longrightarrow> length (remdups xs) = 1"
proof -
  assume "xs \<noteq> []" and "\<forall>x \<in> set xs. x = c"
  then have "set xs = {c}" by (auto simp: neq_Nil_conv)
  then show ?thesis by (simp add: length_remdups_card_conv)
qed

lemma same_owner_uniform:
  assumes "lease_inv L" and "l \<in> set L" and "m \<in> set L" and "same_owner ow l" and "same_owner ow m"
  shows "generation l = generation m \<and> lease_group_id l = lease_group_id m
    \<and> expires_at l = expires_at m"
proof -
  have "owner_type l = owner_type m \<and> owner_id l = owner_id m"
    using assms(4,5) by (simp add: same_owner_def)
  then show ?thesis using assms(1-3) unfolding lease_inv_def group_coherent_def by blast
qed

lemma owned_one_group:
  assumes "lease_inv L" and "owned_leases ow L \<noteq> []"
  shows "length (remdups (map lease_group_id (owned_leases ow L))) = 1"
proof (rule remdups_const)
  show "map lease_group_id (owned_leases ow L) \<noteq> []" using assms(2) by simp
  show "\<forall>x \<in> set (map lease_group_id (owned_leases ow L)).
      x = lease_group_id (hd (owned_leases ow L))"
  proof
    fix x assume "x \<in> set (map lease_group_id (owned_leases ow L))"
    then obtain l where l: "l \<in> set (owned_leases ow L)" "x = lease_group_id l" by auto
    have h: "hd (owned_leases ow L) \<in> set (owned_leases ow L)" using assms(2) by simp
    show "x = lease_group_id (hd (owned_leases ow L))"
      using l h same_owner_uniform [OF assms(1)] unfolding owned_leases_set by blast
  qed
qed

text \<open>
  What an acquisition may do: renew the owner's complete group, refuse and change nothing because
  a requested card is taken, or insert the whole group on free cards.
\<close>

definition acquire_outcome ::
  "int \<Rightarrow> lease list \<Rightarrow> lease_owner \<Rightarrow> int list \<Rightarrow> timestamp \<Rightarrow> uuid \<Rightarrow> lease list
     \<Rightarrow> lease_acquisition \<Rightarrow> bool" where
  "acquire_outcome ttl L ow gpus now gid L' a \<longleftrightarrow>
     (owned_leases ow L \<noteq> [] \<and> takes_over ow gpus L
        \<and> L' = renew (same_owner ow) now ttl L \<and> acquired a \<and> idempotent a
        \<and> acq_group_id a = Some (lease_group_id (hd (owned_leases ow L))))
     \<or> (owned_leases ow L = [] \<and> (\<exists>l \<in> set L. gpu_index l \<in> set gpus) \<and> L' = L \<and> \<not> acquired a)
     \<or> (owned_leases ow L = [] \<and> (\<forall>l \<in> set L. gpu_index l \<notin> set gpus)
        \<and> L' = L @ map (new_lease ttl ow now gid) (sort gpus)
        \<and> acquired a \<and> \<not> idempotent a \<and> acq_group_id a = Some gid)"

lemma try_acquire_request:
  assumes "try_acquire_locked ttl L ow gpus now gid raced = Inr (L', a)"
  shows "normalize_gpu_ids gpus = Inr (sort gpus) \<and> acq_gpu_ids a = sort gpus
    \<and> gpus \<noteq> [] \<and> distinct gpus \<and> (\<forall>g \<in> set gpus. 0 \<le> g)"
proof -
  obtain req where req: "normalize_gpu_ids gpus = Inr req"
    using assms by (auto simp: try_acquire_locked_def split: sum.splits)
  moreover have "acq_gpu_ids a = req"
    using assms req
    by (auto simp: try_acquire_locked_def refused_def Let_def
        split: if_splits list.splits option.splits)
  ultimately show ?thesis using normalize_gpu_ids_Inr [OF req] by auto
qed

lemma try_acquire_outcome:
  assumes inv: "lease_inv L" and ok: "try_acquire_locked ttl L ow gpus now gid [] = Inr (L', a)"
  shows "acquire_outcome ttl L ow gpus now gid L' a"
proof -
  note n = try_acquire_request [OF ok]
  then have req: "normalize_gpu_ids gpus = Inr (sort gpus)" and d: "distinct (sort gpus)" by auto
  show ?thesis
  proof (cases "owned_leases ow L = []")
    case False
    with ok req show ?thesis
      by (auto simp: acquire_outcome_def try_acquire_locked_def takes_over_def Let_def
          split: if_splits)
  next
    case True
    show ?thesis
    proof (cases "conflicting_leases (sort gpus) L")
      case Nil
      then have free: "\<forall>l \<in> set L. gpu_index l \<notin> set (sort gpus)"
        by (simp add: conflicting_leases_Nil)
      have "insert_group (map (new_lease ttl ow now gid) (sort gpus)) L
          = Some (L @ map (new_lease ttl ow now gid) (sort gpus))"
        using free unique_constraints_append [OF _ d, of L ttl ow now gid] inv
        by (simp add: insert_group_def lease_inv_def)
      with True Nil ok req free show ?thesis
        by (auto simp: acquire_outcome_def try_acquire_locked_def)
    next
      case (Cons c cs)
      then have "c \<in> set L \<and> gpu_index c \<in> set gpus"
        using conflicting_leases_set [of "sort gpus" L] by auto
      with True Cons ok req show ?thesis
        by (auto simp: acquire_outcome_def try_acquire_locked_def refused_def)
    qed
  qed
qed

lemma new_group_uniform:
  assumes "l \<in> set (map (new_lease ttl ow now gid) gs)"
  shows "owner_type l = own_type ow \<and> owner_id l = own_id ow \<and> generation l = own_generation ow
    \<and> lease_group_id l = gid \<and> expires_at l = now + ttl"
  using assms by (auto simp only: set_map image_iff new_lease_simps)

lemma group_coherent_append:
  assumes old: "group_coherent L" and none: "\<forall>l \<in> set L. \<not> same_owner ow l"
  shows "group_coherent (L @ map (new_lease ttl ow now gid) gs)"
  unfolding group_coherent_def
proof (intro ballI impI)
  fix l m
  let ?new = "map (new_lease ttl ow now gid) gs"
  assume l: "l \<in> set (L @ ?new)" and m: "m \<in> set (L @ ?new)"
    and own: "owner_type l = owner_type m \<and> owner_id l = owner_id m"
  have split: "x \<in> set L \<or> x \<in> set ?new" if "x \<in> set (L @ ?new)" for x
    using that by simp
  show "generation l = generation m \<and> lease_group_id l = lease_group_id m
      \<and> expires_at l = expires_at m"
    using split [OF l] split [OF m]
  proof (elim disjE)
    assume "l \<in> set L" "m \<in> set L"
    with old own show ?thesis unfolding group_coherent_def by blast
  next
    assume "l \<in> set L" "m \<in> set ?new"
    with none own new_group_uniform [of m] have False unfolding same_owner_def by metis
    then show ?thesis ..
  next
    assume "l \<in> set ?new" "m \<in> set L"
    with none own new_group_uniform [of l] have False unfolding same_owner_def by metis
    then show ?thesis ..
  next
    assume "l \<in> set ?new" "m \<in> set ?new"
    then show ?thesis using new_group_uniform by metis
  qed
qed

lemma lease_inv_append_group:
  assumes "lease_inv L" and "owned_leases ow L = []"
    and "\<forall>l \<in> set L. gpu_index l \<notin> set gpus" and "distinct gpus"
  shows "lease_inv (L @ map (new_lease ttl ow now gid) (sort gpus))"
proof -
  have "map gpu_index (L @ map (new_lease ttl ow now gid) (sort gpus)) = map gpu_index L @ sort gpus"
    by (simp add: comp_def)
  moreover have "distinct (map gpu_index L @ sort gpus)"
    using assms(1,3,4) by (auto simp: lease_inv_def)
  moreover have "group_coherent (L @ map (new_lease ttl ow now gid) (sort gpus))"
    using assms(1,2) by (intro group_coherent_append) (simp_all add: lease_inv_def owned_leases_Nil)
  ultimately show ?thesis by (simp add: lease_inv_def)
qed

lemma held_append: "held (L @ M) k = held L k \<union> held M k"
  by (auto simp: held_def)

lemma held_new_group:
  "held (map (new_lease ttl ow now gid) gs) k = (if k = owner_key ow then set gs else {})"
proof -
  have "{l \<in> set (map (new_lease ttl ow now gid) gs). lease_key_of l = k}
      = (if k = owner_key ow then new_lease ttl ow now gid ` set gs else {})"
    by auto
  then show ?thesis by (simp add: held_def image_image)
qed

lemma held_no_owner: "owned_leases ow L = [] \<Longrightarrow> held L (owner_key ow) = {}"
  by (auto simp: owned_leases_Nil held_def lease_defs)

lemma held_takes_over:
  assumes "takes_over ow gpus L" shows "held L (owner_key ow) = set gpus"
proof -
  have "set (map generation (owned_leases ow L)) = {own_generation ow}"
    using assms by (simp only: takes_over_def)
  then have g: "generation l = own_generation ow" if "l \<in> set L" "same_owner ow l" for l
    using that owned_leases_set [of ow L] by force
  have "set (map gpu_index (owned_leases ow L)) = set (sort gpus)"
    using assms by (simp only: takes_over_def)
  then have s: "gpu_index ` {l \<in> set L. same_owner ow l} = set gpus"
    unfolding set_map owned_leases_set set_sort .
  have "{l \<in> set L. lease_key_of l = owner_key ow} = {l \<in> set L. same_owner ow l}"
    using g by (auto simp: lease_defs)
  then show ?thesis using s by (simp add: held_def)
qed

lemma map_insort_key: "map f (insort_key f x xs) = insort (f x) (map f xs)"
  by (induction xs) auto

lemma map_sort_key: "map f (sort_key f xs) = sort (map f xs)"
  by (induction xs) (auto simp: map_insort_key)

lemma owned_indices: "map gpu_index (owned_leases ow L) = sort (map gpu_index (filter (same_owner ow) L))"
  by (simp add: owned_leases_def map_sort_key)

lemma owned_generations:
  "set (map generation (owned_leases ow L)) = generation ` {l \<in> set L. same_owner ow l}"
  by (simp add: owned_leases_set)

lemma filter_renew:
  assumes "\<And>l h e. Q (l\<lparr>heartbeat_at := h, expires_at := e\<rparr>) = Q l"
  shows "filter Q (renew P now ttl L) = renew P now ttl (filter Q L)"
  by (induction L) (auto simp: renew_def assms)

lemma generation_renew: "map generation (renew P now ttl L) = map generation L"
  by (induction L) (auto simp: renew_def)

lemma takes_over_renew: "takes_over ow gpus (renew P now ttl L) = takes_over ow gpus L"
proof -
  have f: "filter (same_owner ow) (renew P now ttl L) = renew P now ttl (filter (same_owner ow) L)"
    by (rule filter_renew) (simp add: same_owner_def)
  have "set (map generation (owned_leases ow (renew P now ttl L)))
      = set (map generation (renew P now ttl (filter (same_owner ow) L)))"
    by (simp add: owned_leases_set flip: f)
  also have "\<dots> = set (map generation (owned_leases ow L))"
    unfolding generation_renew by (simp add: owned_leases_set)
  finally show ?thesis by (simp add: takes_over_def owned_indices f map_renew)
qed

lemma takes_over_append:
  assumes "owned_leases ow L = []" and "gpus \<noteq> []"
  shows "takes_over ow gpus (L @ map (new_lease ttl ow now gid) (sort gpus))"
proof -
  let ?new = "map (new_lease ttl ow now gid) (sort gpus)"
  have "filter (same_owner ow) L = []"
    using assms(1) by (simp add: owned_leases_Nil filter_empty_conv)
  moreover have "filter (same_owner ow) ?new = ?new"
    by (rule set_filter_eq_self) (auto simp: same_owner_def)
  ultimately have f: "filter (same_owner ow) (L @ ?new) = ?new" by simp
  have "set (map generation (owned_leases ow (L @ ?new))) = set (map generation ?new)"
    unfolding owned_leases_def f by (simp add: image_image)
  also have "\<dots> = {own_generation ow}" using assms(2) by (simp add: image_image image_constant_conv)
  finally show ?thesis unfolding takes_over_def owned_indices f by (simp add: comp_def sorted_sort_id)
qed

lemma takes_over_acquires:
  assumes "lease_inv L" and "takes_over ow gpus L" and "normalize_gpu_ids gpus = Inr (sort gpus)"
    and "gpus \<noteq> []"
  shows "try_acquire_locked ttl L ow gpus now gid raced =
    Inr (renew (same_owner ow) now ttl L,
      \<lparr>acquired = True, acq_gpu_ids = sort gpus,
       acq_group_id = Some (lease_group_id (hd (owned_leases ow L))),
       blocking_owner = None, idempotent = True\<rparr>)"
proof -
  have "sort gpus \<noteq> []" using assms(4) by (metis set_empty set_sort)
  then have ne: "owned_leases ow L \<noteq> []" using assms(2) by (auto simp: takes_over_def)
  show ?thesis
    using assms(2,3) ne owned_one_group [OF assms(1) ne]
    by (simp add: try_acquire_locked_def takes_over_def Let_def)
qed

section \<open>The contract of the lease service\<close>

lemma held_disjoint: "lease_inv L \<Longrightarrow> k \<noteq> k' \<Longrightarrow> held L k \<inter> held L k' = {}"
  unfolding held_def lease_inv_def distinct_map inj_on_def by blast

lemma renew_same_owner_inv: "lease_inv L \<Longrightarrow> lease_inv (renew (same_owner ow) now ttl L)"
  by (rule lease_inv_renew) (simp_all add: same_owner_def)

lemma renew_same_generation_inv:
  "lease_inv L \<Longrightarrow> lease_inv (renew (same_generation ow) now ttl L)"
proof (rule lease_inv_renew)
  fix l m
  assume "lease_inv L" "l \<in> set L" "m \<in> set L" "owner_type l = owner_type m"
    "owner_id l = owner_id m"
  then have "generation l = generation m" unfolding lease_inv_def group_coherent_def by blast
  with \<open>owner_type l = owner_type m\<close> \<open>owner_id l = owner_id m\<close>
  show "same_generation ow l = same_generation ow m" by (simp add: same_generation_def same_owner_def)
qed

lemma try_acquire_inv:
  assumes "lease_inv L" and "try_acquire_locked ttl L ow gpus now gid [] = Inr (L', a)"
  shows "lease_inv L'"
  using try_acquire_outcome [OF assms] try_acquire_request [OF assms(2)] assms(1)
  unfolding acquire_outcome_def
  by (metis renew_same_owner_inv lease_inv_append_group)

lemma try_acquire_held:
  assumes "lease_inv L" and "try_acquire_locked ttl L ow gpus now gid [] = Inr (L', a)"
    and "acquired a"
  shows "held L' k = (if k = owner_key ow then set gpus else held L k)"
  using try_acquire_outcome [OF assms(1,2)] assms(3)
  unfolding acquire_outcome_def
  by (auto simp: lease_simps held_takes_over held_append held_new_group held_no_owner)

lemma try_acquire_refused:
  assumes "lease_inv L" and "try_acquire_locked ttl L ow gpus now gid [] = Inr (L', a)"
    and "\<not> acquired a"
  shows "L' = L"
  using try_acquire_outcome [OF assms(1,2)] assms(3) unfolding acquire_outcome_def by blast

lemma held_release: "held (fst (release L ow)) k = (if k = owner_key ow then {} else held L k)"
proof (cases "k = owner_key ow")
  case True
  then show ?thesis by (auto simp: release_def held_def lease_defs)
next
  case False
  then have "{l \<in> set (fst (release L ow)). lease_key_of l = k} = {l \<in> set L. lease_key_of l = k}"
    by (auto simp: release_def lease_defs)
  with False show ?thesis by (simp add: held_def)
qed

lemma release_inv: "lease_inv L \<Longrightarrow> lease_inv (fst (release L ow))"
  by (simp add: release_def lease_inv_filter)

text \<open>
  What a client may rely on: the invariant is kept, two different holders never share a card, an
  acquisition gives exactly the requested cards and takes nothing from the others, a refusal
  changes nothing, a heartbeat moves no card, and a release frees the cards of one holder only.
\<close>

locale lease_service =
  fixes inv :: "'t \<Rightarrow> bool"
    and cards :: "'t \<Rightarrow> lease_key \<Rightarrow> int set"
    and acquire :: "'t \<Rightarrow> lease_owner \<Rightarrow> int list \<Rightarrow> timestamp \<Rightarrow> uuid
          \<Rightarrow> sched_error + 't \<times> lease_acquisition"
    and beat :: "'t \<Rightarrow> lease_owner \<Rightarrow> timestamp \<Rightarrow> 't"
    and free :: "'t \<Rightarrow> lease_owner \<Rightarrow> 't"
  assumes exclusive: "inv t \<Longrightarrow> k \<noteq> k' \<Longrightarrow> cards t k \<inter> cards t k' = {}"
    and acquire_inv: "inv t \<Longrightarrow> acquire t ow gs now u = Inr (t', a) \<Longrightarrow> inv t'"
    and acquire_cards: "inv t \<Longrightarrow> acquire t ow gs now u = Inr (t', a) \<Longrightarrow> acquired a \<Longrightarrow>
          cards t' k = (if k = owner_key ow then set gs else cards t k)"
    and acquire_refused: "inv t \<Longrightarrow> acquire t ow gs now u = Inr (t', a) \<Longrightarrow> \<not> acquired a \<Longrightarrow> t' = t"
    and beat_inv: "inv t \<Longrightarrow> inv (beat t ow now)"
    and beat_cards: "cards (beat t ow now) k = cards t k"
    and free_inv: "inv t \<Longrightarrow> inv (free t ow)"
    and free_cards: "cards (free t ow) k = (if k = owner_key ow then {} else cards t k)"
begin

lemma acquire_free_cards:
  assumes "inv t" "acquire t ow gs now u = Inr (t', a)" "acquired a" "k \<noteq> owner_key ow"
  shows "cards t k \<inter> set gs = {}"
proof -
  have i: "inv t'" using assms(1,2) by (rule acquire_inv)
  have "cards t' k \<inter> cards t' (owner_key ow) = {}" using exclusive [OF i assms(4)] .
  moreover have "cards t' k = cards t k" "cards t' (owner_key ow) = set gs"
    using acquire_cards [OF assms(1-3)] assms(4) by auto
  ultimately show ?thesis by simp
qed

lemma acquire_other:
  "inv t \<Longrightarrow> acquire t ow gs now u = Inr (t', a) \<Longrightarrow> k \<noteq> owner_key ow \<Longrightarrow> cards t' k = cards t k"
  using acquire_cards acquire_refused by metis

lemma acquire_then_free:
  "inv t \<Longrightarrow> acquire t ow gs now u = Inr (t', a) \<Longrightarrow>
     cards (free t' ow) k = (if k = owner_key ow then {} else cards t k)"
  by (auto simp: free_cards acquire_other)

end

interpretation leases: lease_service lease_inv held
    "\<lambda>L ow gs now u. try_acquire_locked ttl L ow gs now u []"
    "\<lambda>L ow now. fst (heartbeat ttl L ow now)"
    "\<lambda>L ow. fst (release L ow)" for ttl
  by unfold_locales
     (simp_all add: held_disjoint try_acquire_inv try_acquire_held try_acquire_refused heartbeat_def
        renew_same_generation_inv lease_simps release_inv held_release)

section \<open>Reaping\<close>

lemma set_expired_leases: "set (expired_leases L now) = {l \<in> set L. expires_at l \<le> now}"
  by (auto simp: expired_leases_def)

lemma delete_by_own_row:
  "distinct (map gpu_index L) \<Longrightarrow> l \<in> set L \<Longrightarrow>
     delete_by gpu_index (gpu_index l) L = filter (\<lambda>m. m \<noteq> l) L"
  unfolding delete_by_def by (rule filter_cong) (auto simp: distinct_map inj_on_def)

lemma reap_loop_rows:
  assumes "distinct (map gpu_index L)" and "set ls \<subseteq> set L0" and "distinct (map gpu_index L0)"
    and "set L \<subseteq> set L0"
  shows "fst (reap_loop ls confirmed L owners)
    = filter (\<lambda>m. \<not> (m \<in> set ls \<and> lease_key_of m \<in> confirmed)) L"
  using assms(1,2,4)
proof (induction ls arbitrary: L owners)
  case Nil
  then show ?case by simp
next
  case (Cons l ls)
  have "delete_by gpu_index (gpu_index l) L = filter (\<lambda>m. m \<noteq> l) L"
    unfolding delete_by_def
  proof (rule filter_cong [OF refl])
    fix m assume "m \<in> set L"
    with Cons.prems have "m \<in> set L0" "l \<in> set L0" by auto
    with assms(3) show "(gpu_index m \<noteq> gpu_index l) = (m \<noteq> l)"
      by (auto simp: distinct_map inj_on_def)
  qed
  moreover have "fst (reap_loop ls confirmed (filter (\<lambda>m. m \<noteq> l) L) ow)
      = filter (\<lambda>m. \<not> (m \<in> set ls \<and> lease_key_of m \<in> confirmed)) (filter (\<lambda>m. m \<noteq> l) L)" for ow
    using Cons.prems by (intro Cons.IH) (auto simp: distinct_map_filter_key)
  moreover have "fst (reap_loop ls confirmed L ow)
      = filter (\<lambda>m. \<not> (m \<in> set ls \<and> lease_key_of m \<in> confirmed)) L" for ow
    using Cons.prems by (intro Cons.IH) auto
  ultimately show ?case by (auto intro!: filter_cong)
qed

lemma reap_loop_keys:
  "set (map fst (snd (reap_loop ls confirmed L owners)))
    = set (map fst owners) \<union> (lease_key_of ` {l \<in> set ls. lease_key_of l \<in> confirmed})"
  by (induction ls confirmed L owners rule: reap_loop.induct) (auto simp: dom_update)

lemma reap_loop_distinct:
  "distinct (map fst owners) \<Longrightarrow> distinct (map fst (snd (reap_loop ls confirmed L owners)))"
  by (induction ls confirmed L owners rule: reap_loop.induct) (auto simp: distinct_dict_set)

lemma reap_loop_values:
  "\<forall>(k, ow) \<in> set owners. owner_key ow = k \<Longrightarrow>
     \<forall>(k, ow) \<in> set (snd (reap_loop ls confirmed L owners)). owner_key ow = k"
proof (induction ls confirmed L owners rule: reap_loop.induct)
  case (1 confirmed L owners)
  then show ?case by simp
next
  case (2 l ls confirmed L owners)
  have "\<forall>(k, ow) \<in> set (dict_set (lease_key_of l) (owner_of_lease l) owners). owner_key ow = k"
    using "2.prems" set_dict_set [of "lease_key_of l" "owner_of_lease l" owners]
    by (fastforce simp: lease_defs owner_of_lease_def)
  with 2 show ?case by auto
qed

lemma reap_rows:
  assumes "distinct (map gpu_index L)"
  shows "fst (reap_expired_locked L confirmed now)
    = filter (\<lambda>l. \<not> (expires_at l \<le> now \<and> lease_key_of l \<in> confirmed)) L"
proof -
  have "fst (reap_expired_locked L confirmed now)
      = fst (reap_loop (expired_leases L now) confirmed L [])"
    by (simp add: reap_expired_locked_def split_beta)
  also have "\<dots> = filter (\<lambda>m. \<not> (m \<in> set (expired_leases L now) \<and> lease_key_of m \<in> confirmed)) L"
    by (rule reap_loop_rows [OF assms _ assms]) (auto simp: set_expired_leases)
  also have "\<dots> = filter (\<lambda>l. \<not> (expires_at l \<le> now \<and> lease_key_of l \<in> confirmed)) L"
    by (rule filter_cong) (auto simp: set_expired_leases)
  finally show ?thesis .
qed

lemma reap_owner_keys:
  "map owner_key (snd (reap_expired_locked L confirmed now))
    = map fst (snd (reap_loop (expired_leases L now) confirmed L []))"
  using reap_loop_values [of "[]" "expired_leases L now" confirmed L]
  by (auto simp: reap_expired_locked_def split_beta)

lemma reap_inv: "lease_inv L \<Longrightarrow> lease_inv (fst (reap_expired_locked L confirmed now))"
  by (simp add: reap_rows lease_inv_def group_coherent_filter distinct_map_filter_key)

lemma held_reap:
  "lease_inv L \<Longrightarrow> k \<notin> confirmed \<Longrightarrow> held (fst (reap_expired_locked L confirmed now)) k = held L k"
  by (auto simp: held_def reap_rows lease_inv_def)

section \<open>Properties\<close>

text \<open>
  C4. An acquisition is exclusive and all-or-nothing: on a table that keeps the invariant, success
  gives the workload exactly the requested cards and leaves every other holder's cards alone;
  refusal changes nothing and happens only when a requested card is leased.
\<close>

theorem acquire_all_or_nothing:
  assumes "lease_inv L" and "try_acquire_locked ttl L ow gpus now gid [] = Inr (L', a)"
  shows "lease_inv L'
    \<and> (acquired a \<longrightarrow> held L' (owner_key ow) = set gpus
        \<and> (\<forall>k. k \<noteq> owner_key ow \<longrightarrow> held L' k = held L k \<and> held L k \<inter> set gpus = {}))
    \<and> (\<not> acquired a \<longrightarrow> L' = L \<and> (\<exists>l \<in> set L. gpu_index l \<in> set gpus))"
proof -
  have "L' = L \<and> (\<exists>l \<in> set L. gpu_index l \<in> set gpus)" if "\<not> acquired a"
    using that try_acquire_outcome [OF assms] unfolding acquire_outcome_def by blast
  then show ?thesis
    using assms leases.acquire_inv leases.acquire_cards leases.acquire_other leases.acquire_free_cards
    by simp
qed

definition demo_owner :: "lease_owner_type \<Rightarrow> uuid \<Rightarrow> int \<Rightarrow> lease_owner" where
  "demo_owner t i g = \<lparr>own_type = t, own_id = i, own_name = ''w'', own_generation = g\<rparr>"

definition demo_leases :: "lease list" where
  "demo_leases = map (new_lease (seconds 30) (demo_owner DEPLOYMENT 1 1) 0 7) [0, 1]"

lemma demo_leases_inv: "lease_inv demo_leases"
  by (simp add: lease_inv_def demo_leases_def group_coherent_def)

lemma acquire_all_or_nothing_witness:
  "lease_inv demo_leases
   \<and> (\<exists>L' a. try_acquire_locked (seconds 30) demo_leases (demo_owner TRAINING 2 1) [3, 2] 5 8 []
        = Inr (L', a) \<and> acquired a \<and> held L' (TRAINING, 2, 1) = {2, 3})"
proof -
  obtain L' a where r:
    "try_acquire_locked (seconds 30) demo_leases (demo_owner TRAINING 2 1) [3, 2] 5 8 [] = Inr (L', a)"
    and ac: "acquired a"
    by (simp add: try_acquire_locked_def normalize_gpu_ids_def owned_leases_def same_owner_def
        conflicting_leases_def insert_group_def unique_constraints_def demo_leases_def
        demo_owner_def Let_def)
  have "held L' (owner_key (demo_owner TRAINING 2 1)) = set [3, 2]"
    using acquire_all_or_nothing [OF demo_leases_inv r] ac by blast
  then have "held L' (TRAINING, 2, 1) = {2, 3}"
    by (auto simp: owner_key_def demo_owner_def)
  with r ac demo_leases_inv show ?thesis by blast
qed

text \<open>
  A race with a writer outside the scheduler never leaves part of a group: the table is the
  committed one, or the committed one with the whole group, and its uniqueness constraints hold.
\<close>

theorem acquire_race_is_atomic:
  assumes "owned_leases ow L = []" and "conflicting_leases (sort gpus) L = []"
    and "unique_constraints (L @ raced)"
    and "try_acquire_locked ttl L ow gpus now gid raced = Inr (L', a)"
  shows "unique_constraints L'
    \<and> L' = (L @ raced) @ (if acquired a then map (new_lease ttl ow now gid) (sort gpus) else [])
    \<and> (acquired a \<longleftrightarrow> (\<forall>l \<in> set raced. gpu_index l \<notin> set gpus))"
proof -
  note req = try_acquire_request [OF assms(4)]
  have d: "distinct (map gpu_index (L @ raced))" using assms(3) by (simp add: unique_constraints_def)
  have ds: "distinct (sort gpus)" using req by simp
  have u: "unique_constraints ((L @ raced) @ map (new_lease ttl ow now gid) (sort gpus))
      \<longleftrightarrow> (\<forall>l \<in> set raced. gpu_index l \<notin> set gpus)"
    using unique_constraints_append [OF d ds] assms(2) by (auto simp: conflicting_leases_Nil)
  show ?thesis
  proof (cases "\<forall>l \<in> set raced. gpu_index l \<notin> set gpus")
    case True
    then have i: "insert_group (map (new_lease ttl ow now gid) (sort gpus)) (L @ raced)
        = Some ((L @ raced) @ map (new_lease ttl ow now gid) (sort gpus))"
      using u by (simp add: insert_group_def)
    have "acquired a \<and> L' = (L @ raced) @ map (new_lease ttl ow now gid) (sort gpus)"
      using assms req i by (auto simp: try_acquire_locked_def)
    then show ?thesis using True u by (simp only: if_True simp_thms)
  next
    case False
    then have i: "insert_group (map (new_lease ttl ow now gid) (sort gpus)) (L @ raced) = None"
      using u by (simp add: insert_group_def)
    have "\<not> acquired a \<and> L' = L @ raced"
      using assms req i by (auto simp: try_acquire_locked_def refused_def)
    then show ?thesis using False assms(3) by simp
  qed
qed

lemma acquire_race_is_atomic_witness:
  "owned_leases (demo_owner TRAINING 2 1) [] = []
   \<and> (\<exists>L' a. try_acquire_locked (seconds 30) [] (demo_owner TRAINING 2 1) [1, 2] 5 8 demo_leases
        = Inr (L', a) \<and> L' = demo_leases \<and> \<not> acquired a)"
proof -
  have o: "owned_leases (demo_owner TRAINING 2 1) [] = []" by (simp add: owned_leases_def)
  have c: "conflicting_leases (sort [1, 2]) [] = []" by (simp add: conflicting_leases_def)
  have u: "unique_constraints ([] @ demo_leases)"
    by (simp add: unique_constraints_def demo_leases_def)
  obtain L' a where r:
    "try_acquire_locked (seconds 30) [] (demo_owner TRAINING 2 1) [1, 2] 5 8 demo_leases = Inr (L', a)"
    by (simp add: try_acquire_locked_def normalize_gpu_ids_def owned_leases_def
        conflicting_leases_def insert_group_def demo_leases_def unique_constraints_def Let_def)
  have "\<not> (\<forall>l \<in> set demo_leases. gpu_index l \<notin> set [1, 2])" by (simp add: demo_leases_def)
  then have "L' = demo_leases \<and> \<not> acquired a"
    using acquire_race_is_atomic [OF o c u r] by auto
  with o r show ?thesis by blast
qed

lemma acquired_takes_over:
  assumes "lease_inv L" and "try_acquire_locked ttl L ow gpus now gid [] = Inr (L', a)"
    and "acquired a"
  shows "takes_over ow gpus L'"
  using try_acquire_outcome [OF assms(1,2)] assms(3) try_acquire_request [OF assms(2)]
  unfolding acquire_outcome_def by (metis takes_over_renew takes_over_append)

lemma acquired_group:
  assumes "lease_inv L" and "try_acquire_locked ttl L ow gpus now gid [] = Inr (L', a)"
    and "acquired a" and "l \<in> set L'" and "same_owner ow l"
  shows "acq_group_id a = Some (lease_group_id l)"
proof -
  from try_acquire_outcome [OF assms(1,2)] assms(3)
  consider (renewed) "owned_leases ow L \<noteq> []" "L' = renew (same_owner ow) now ttl L"
      "acq_group_id a = Some (lease_group_id (hd (owned_leases ow L)))"
    | (fresh) "owned_leases ow L = []" "L' = L @ map (new_lease ttl ow now gid) (sort gpus)"
      "acq_group_id a = Some gid"
    unfolding acquire_outcome_def by blast
  then show ?thesis
  proof cases
    case renewed
    with assms(4) obtain l' where "l' \<in> set L" "owner_type l = owner_type l'"
      "owner_id l = owner_id l'" "lease_group_id l = lease_group_id l'"
      using renewed_row by blast
    with assms(5) have l': "l' \<in> set L" "same_owner ow l'" "lease_group_id l' = lease_group_id l"
      by (simp_all add: same_owner_def)
    have "hd (owned_leases ow L) \<in> set (owned_leases ow L)" using renewed(1) by simp
    then have "lease_group_id (hd (owned_leases ow L)) = lease_group_id l'"
      using l' same_owner_uniform [OF assms(1)] unfolding owned_leases_set by blast
    with renewed(3) l' show ?thesis by simp
  next
    case fresh
    then have "l \<in> set (map (new_lease ttl ow now gid) (sort gpus))"
      using assms(4,5) unfolding owned_leases_Nil by auto
    with fresh(3) new_group_uniform show ?thesis by blast
  qed
qed

text \<open>
  Acquisition is idempotent: repeating a successful request, at any later time and with any
  fresh group id, succeeds, is reported as idempotent, names the group created first, and moves
  no card.
\<close>

theorem reacquire_is_idempotent:
  assumes "lease_inv L" and "try_acquire_locked ttl L ow gpus now gid [] = Inr (L', a)"
    and "acquired a"
  shows "\<exists>L'' b. try_acquire_locked ttl L' ow gpus now' gid' raced = Inr (L'', b)
    \<and> acquired b \<and> idempotent b \<and> acq_group_id b = acq_group_id a
    \<and> (\<forall>k. held L'' k = held L' k) \<and> lease_inv L''"
proof -
  have inv': "lease_inv L'" using assms(1,2) by (rule try_acquire_inv)
  have t: "takes_over ow gpus L'" using assms by (rule acquired_takes_over)
  note req = try_acquire_request [OF assms(2)]
  have "sort gpus \<noteq> []" using req by (metis set_empty set_sort)
  then have ne: "owned_leases ow L' \<noteq> []" using t by (auto simp: takes_over_def)
  then have "hd (owned_leases ow L') \<in> set (owned_leases ow L')" by simp
  then have "hd (owned_leases ow L') \<in> set L'" "same_owner ow (hd (owned_leases ow L'))"
    unfolding owned_leases_set by auto
  then have "acq_group_id a = Some (lease_group_id (hd (owned_leases ow L')))"
    by (rule acquired_group [OF assms])
  then show ?thesis
    using takes_over_acquires [OF inv' t, of ttl now' gid' raced] req inv'
    by (simp add: lease_simps renew_same_owner_inv)
qed

lemma reacquire_is_idempotent_witness:
  "lease_inv [] \<and> (\<exists>L'' b. try_acquire_locked (seconds 30) demo_leases (demo_owner DEPLOYMENT 1 1)
      [1, 0] 9 99 [] = Inr (L'', b) \<and> idempotent b \<and> acq_group_id b = Some 7)"
proof -
  have i: "lease_inv []" by (simp add: lease_inv_def group_coherent_def)
  have r: "try_acquire_locked (seconds 30) [] (demo_owner DEPLOYMENT 1 1) [1, 0] 0 7 [] =
    Inr (demo_leases, \<lparr>acquired = True, acq_gpu_ids = [0, 1], acq_group_id = Some 7,
      blocking_owner = None, idempotent = False\<rparr>)"
    by (simp add: try_acquire_locked_def normalize_gpu_ids_def owned_leases_def
        conflicting_leases_def insert_group_def unique_constraints_def demo_leases_def Let_def)
  show ?thesis
    using reacquire_is_idempotent [OF i r, of 9 99 "[]"] i by auto
qed

text \<open>
  A release is bound to its generation: it frees exactly the cards of the named workload's
  named generation, counts them, and a late release of an older generation frees nothing of the
  newer one.
\<close>

theorem release_frees_one_generation:
  assumes "lease_inv L"
  shows "lease_inv (fst (release L ow))
    \<and> held (fst (release L ow)) (owner_key ow) = {}
    \<and> snd (release L ow) = card (held L (owner_key ow))
    \<and> (\<forall>k. k \<noteq> owner_key ow \<longrightarrow> held (fst (release L ow)) k = held L k)"
proof -
  have d: "distinct (map gpu_index L)" using assms by (simp add: lease_inv_def)
  have "{l \<in> set L. lease_key_of l = owner_key ow} = set (filter (same_generation ow) L)"
    by (auto simp: lease_defs)
  then have "card (held L (owner_key ow)) = card (set (map gpu_index (filter (same_generation ow) L)))"
    by (simp add: held_def)
  also have "\<dots> = length (filter (same_generation ow) L)"
    using distinct_card [OF distinct_map_filter_key [OF d]] by simp
  finally have "snd (release L ow) = card (held L (owner_key ow))" by (simp add: release_def)
  then show ?thesis using assms by (simp add: leases.free_inv leases.free_cards)
qed

lemma release_frees_one_generation_witness:
  "lease_inv demo_leases \<and> held (fst (release demo_leases (demo_owner DEPLOYMENT 1 1))) (DEPLOYMENT, 1, 1) = {}"
  using release_frees_one_generation [OF demo_leases_inv, of "demo_owner DEPLOYMENT 1 1"]
    demo_leases_inv by (simp add: owner_key_def demo_owner_def)

text \<open>
  Reaping deletes exactly the rows that are both expired and confirmed, reports each affected
  owner once, and takes groups whole: a workload holds after it all the cards it held before,
  or none.
\<close>

theorem reap_only_expired_and_confirmed:
  assumes "lease_inv L" and "reap_expired_locked L confirmed now = (L', owners)"
  shows "set L' = {l \<in> set L. \<not> (expires_at l \<le> now \<and> lease_key_of l \<in> confirmed)}
    \<and> lease_inv L' \<and> distinct (map owner_key owners)
    \<and> set (map owner_key owners)
        = lease_key_of ` {l \<in> set L. expires_at l \<le> now \<and> lease_key_of l \<in> confirmed}
    \<and> (\<forall>k. held L' k = held L k \<or> held L' k = {})"
proof -
  have d: "distinct (map gpu_index L)" and coh: "group_coherent L"
    using assms(1) by (simp_all add: lease_inv_def)
  have L': "L' = filter (\<lambda>l. \<not> (expires_at l \<le> now \<and> lease_key_of l \<in> confirmed)) L"
    using reap_rows [OF d, of confirmed now] assms(2) by simp
  have keys: "map owner_key owners = map fst (snd (reap_loop (expired_leases L now) confirmed L []))"
    using reap_owner_keys [of L confirmed now] assms(2) by simp
  have "held L' k = held L k \<or> held L' k = {}" for k
  proof (cases "\<exists>l \<in> set L. lease_key_of l = k \<and> \<not> (expires_at l \<le> now \<and> k \<in> confirmed)")
    case True
    then obtain l where l: "l \<in> set L" "lease_key_of l = k" "\<not> (expires_at l \<le> now \<and> k \<in> confirmed)"
      by blast
    have "expires_at m = expires_at l" if "m \<in> set L" "lease_key_of m = k" for m
    proof -
      have "owner_type m = owner_type l \<and> owner_id m = owner_id l"
        using that(2) l(2) by (auto simp: lease_key_of_def)
      then show ?thesis using that(1) l(1) coh unfolding group_coherent_def by blast
    qed
    then have "{m \<in> set L'. lease_key_of m = k} = {m \<in> set L. lease_key_of m = k}"
      using l(3) by (auto simp: L')
    then show ?thesis by (simp add: held_def)
  next
    case False
    then have "{m \<in> set L'. lease_key_of m = k} = {}" by (auto simp: L')
    then show ?thesis unfolding held_def by simp
  qed
  moreover have "set (map owner_key owners)
      = lease_key_of ` {l \<in> set L. expires_at l \<le> now \<and> lease_key_of l \<in> confirmed}"
    unfolding keys reap_loop_keys by (auto simp: set_expired_leases)
  moreover have "distinct (map owner_key owners)"
    unfolding keys by (rule reap_loop_distinct) simp
  moreover have "lease_inv L'"
    unfolding L' by (rule lease_inv_filter [OF assms(1)])
  ultimately show ?thesis by (auto simp: L')
qed

lemma reap_only_expired_and_confirmed_witness:
  "lease_inv demo_leases
   \<and> fst (reap_expired_locked demo_leases {(DEPLOYMENT, 1, 1)} (seconds 30)) = []"
proof -
  obtain L' ow where r: "reap_expired_locked demo_leases {(DEPLOYMENT, 1, 1)} (seconds 30) = (L', ow)"
    by (cases "reap_expired_locked demo_leases {(DEPLOYMENT, 1, 1)} (seconds 30)")
  have "\<forall>l \<in> set demo_leases. expires_at l \<le> seconds 30 \<and> lease_key_of l \<in> {(DEPLOYMENT, 1, 1)}"
    by (simp add: demo_leases_def demo_owner_def owner_key_def)
  moreover have "set L' = {l \<in> set demo_leases. \<not> (expires_at l \<le> seconds 30
      \<and> lease_key_of l \<in> {(DEPLOYMENT, 1, 1)})}"
    using reap_only_expired_and_confirmed [OF demo_leases_inv r] by (rule conjunct1)
  ultimately have "set L' = {}" by (metis (mono_tags, lifting) empty_Collect_eq)
  with r demo_leases_inv show ?thesis by simp
qed

end
