(* ===== verification/Reconciler.thy ===== *)
theory Reconciler
  imports GpuScheduler AgentContract "HOL-Library.Product_Lexorder"
begin

text \<open>
  \<open>backend/app/services/reconciler.py\<close>: the loop that drives the database's desired states to the
  node agent's actual states. Every database transaction of the class is one function on the
  database; \<open>run_once\<close> threads the database and the outside world through them in the order of
  the source. The checks of task inputs and results, which read the file system
  (\<open>training_control.py\<close>, \<open>evaluation_control.py\<close>), are the fields of the parameter \<open>task_checks\<close>.
  Within one transaction the clock is read once.
\<close>

section \<open>Ordering of owner types\<close>

text \<open>\<open>LeaseOwnerType\<close> is a \<open>StrEnum\<close>: members compare as their string values.\<close>

instantiation lease_owner_type :: linorder
begin

definition less_eq_lease_owner_type :: "lease_owner_type \<Rightarrow> lease_owner_type \<Rightarrow> bool" where
  "less_eq_lease_owner_type a b \<longleftrightarrow> owner_type_value a \<le> owner_type_value b"

definition less_lease_owner_type :: "lease_owner_type \<Rightarrow> lease_owner_type \<Rightarrow> bool" where
  "less_lease_owner_type a b \<longleftrightarrow> owner_type_value a < owner_type_value b"

instance
  by standard
     (auto simp: less_eq_lease_owner_type_def less_lease_owner_type_def less_le)

end

section \<open>Snapshots\<close>

datatype desired_state = ServiceDesired desired_service_state | JobDesired desired_job_state
datatype actual_state = DeploymentActual deployment_state | JobActual job_state

record workload_snapshot =
  snap_owner :: lease_owner
  snap_gpu_ids :: "int list"
  snap_desired :: desired_state
  snap_actual :: actual_state
  snap_execution :: json_obj

datatype schedule_attempt =
    Empty
  | Blocked "lease_owner option"
  | Claimed workload_snapshot
  | PreflightFailed

record reconcile_report =
  inspected :: nat
  scheduled :: nat
  blocked :: nat
  agent_errors :: nat
  terminal_leases_reaped :: nat
  preflight_failed :: nat

text \<open>Exceptions that leave \<open>run_once\<close>; the transaction they interrupt is rolled back.\<close>

datatype reconcile_error =
    MissingModelAsset            \<comment> \<open>\<open>RuntimeError\<close> of \<open>_build_execution\<close>\<close>
  | SchedulerError sched_error
  | InvalidCommand               \<comment> \<open>\<open>ValidationError\<close> of \<open>AgentCommand\<close>\<close>

fun rdesired :: "row \<Rightarrow> desired_state" where
  "rdesired (DeploymentRow d) = ServiceDesired (dep_desired d)"
| "rdesired (TrainingRow t) = JobDesired (job_desired t)"
| "rdesired (EvaluationRow e) = JobDesired (job_desired e)"

fun ractual :: "row \<Rightarrow> actual_state" where
  "ractual (DeploymentRow d) = DeploymentActual (dep_actual d)"
| "ractual (TrainingRow t) = JobActual (job_actual t)"
| "ractual (EvaluationRow e) = JobActual (job_actual e)"

definition active_deployment_states :: "deployment_state set" where
  "active_deployment_states = {D_STARTING, D_RUNNING, D_STOPPING}"

definition active_job_states :: "job_state set" where
  "active_job_states = {J_STARTING, J_RUNNING, J_CANCELING}"

definition terminal_deployment_states :: "deployment_state set" where
  "terminal_deployment_states = {D_CREATED, D_STOPPED, D_FAILED}"

definition terminal_job_states :: "job_state set" where
  "terminal_job_states = {J_CANCELED, J_SUCCEEDED, J_FAILED}"

fun is_active :: "row \<Rightarrow> bool" where
  "is_active (DeploymentRow d) = (dep_actual d \<in> active_deployment_states)"
| "is_active (TrainingRow t) = (job_actual t \<in> active_job_states)"
| "is_active (EvaluationRow e) = (job_actual e \<in> active_job_states)"

fun is_terminal :: "row \<Rightarrow> bool" where
  "is_terminal (DeploymentRow d) = (dep_actual d \<in> terminal_deployment_states)"
| "is_terminal (TrainingRow t) = (job_actual t \<in> terminal_job_states)"
| "is_terminal (EvaluationRow e) = (job_actual e \<in> terminal_job_states)"

fun is_queued :: "row \<Rightarrow> bool" where
  "is_queued (DeploymentRow d) = (dep_actual d = D_QUEUED \<and> dep_desired d = SERVICE_RUNNING)"
| "is_queued (TrainingRow t) = (job_actual t = J_QUEUED \<and> job_desired t = JOB_RUNNING)"
| "is_queued (EvaluationRow e) = (job_actual e = J_QUEUED \<and> job_desired e = JOB_RUNNING)"

definition owner_at :: "int \<Rightarrow> row \<Rightarrow> lease_owner" where
  "owner_at g r = \<lparr>own_type = row_type r, own_id = rid r, own_name = rname r, own_generation = g\<rparr>"

definition snapshot :: "row \<Rightarrow> json_obj \<Rightarrow> workload_snapshot" where
  "snapshot r ex =
     \<lparr>snap_owner = owner_at (if rgen r \<noteq> 0 then rgen r else rversion r) r,
      snap_gpu_ids = sort (rgpus r), snap_desired = rdesired r, snap_actual = ractual r,
      snap_execution = ex\<rparr>"

definition load_active_workloads :: "db \<Rightarrow> workload_snapshot list" where
  "load_active_workloads s = map (\<lambda>r. snapshot r []) (filter is_active (all_rows s))"

section \<open>Commands\<close>

definition action_for_active :: "workload_snapshot \<Rightarrow> agent_action" where
  "action_for_active w =
     (if snap_desired w \<in> {ServiceDesired SERVICE_STOPPED, JobDesired JOB_TERMINATED} then STOP else STATUS)"

definition probe_before_stop :: "workload_snapshot \<Rightarrow> bool" where
  "probe_before_stop w \<longleftrightarrow>
     own_type (snap_owner w) = TRAINING \<and> snap_desired w = JobDesired JOB_TERMINATED"

definition command_for :: "workload_snapshot \<Rightarrow> agent_action \<Rightarrow> uuid \<Rightarrow> agent_command option" where
  "command_for w action fresh =
     (let c = \<lparr>request_id = fresh, cmd_action = action,
            cmd_owner = \<lparr>ag_type = own_type (snap_owner w), ag_id = own_id (snap_owner w),
              ag_name = own_name (snap_owner w), ag_generation = own_generation (snap_owner w)\<rparr>,
            cmd_gpu_ids = snap_gpu_ids w,
            execution = (if action = START then snap_execution w else [])\<rparr>
      in if command_fields_ok c then Some c else None)"

section \<open>Checks of inputs and results\<close>

record training_metadata =
  tm_progress :: "rat option"
  tm_current_step :: "int option"
  tm_total_steps :: "int option"
  tm_metrics :: "json_obj option"
  tm_checkpoint_path :: "string option"
  tm_adapter_path :: "string option"
  tm_merged_model_path :: "string option"

record evaluation_metadata =
  em_metrics :: json_obj
  em_comparison :: json_obj
  em_result_path :: "string option"
  em_dataset_manifest_path :: "string option"
  em_warnings :: "string list"

text \<open>An \<open>Inl\<close> is the text of a \<open>TrainingControlError\<close> or \<open>EvaluationControlError\<close>.\<close>

record task_checks =
  build_training_execution :: "training_job \<Rightarrow> model_asset \<Rightarrow> dataset \<Rightarrow> string + json_obj"
  build_evaluation_execution ::
    "evaluation_run \<Rightarrow> model_asset \<Rightarrow> model_asset \<Rightarrow> dataset option \<Rightarrow> string + json_obj"
  validate_training_metadata :: "training_job \<Rightarrow> json_obj \<Rightarrow> bool \<Rightarrow> string + training_metadata"
  validate_training_artifacts :: "training_job \<Rightarrow> string option"
  validate_evaluation_metadata :: "evaluation_run \<Rightarrow> json_obj \<Rightarrow> string + evaluation_metadata"

section \<open>\<open>_claim_fifo_head\<close>\<close>

definition queue_sort_key :: "row \<Rightarrow> timestamp \<times> lease_owner_type \<times> uuid" where
  "queue_sort_key r =
     ((case rqueued r of Some q \<Rightarrow> q | None \<Rightarrow> rcreated r), row_type r, rid r)"

definition queue :: "db \<Rightarrow> row list" where
  "queue s = filter is_queued (all_rows s)"

definition deployment_execution :: "deployment \<Rightarrow> model_asset \<Rightarrow> json_obj" where
  "deployment_execution d a =
     [(''runner'', JStr ''vllm''),
      (''service_type'', JStr (task_type_value (task_type d))),
      (''model_path'', JStr (local_path a)),
      (''served_model_name'', JStr (served_model_name d)),
      (''port'', (case port d of Some p \<Rightarrow> JInt p | None \<Rightarrow> JNull)),
      (''tensor_parallel_size'', JInt (tensor_parallel_size d)),
      (''simplified_config'', simplified_config d),
      (''vllm_args'', vllm_args d)]"

datatype build_result = BuildCrashed | BuildRejected string | Built json_obj

fun build_execution :: "task_checks \<Rightarrow> db \<Rightarrow> row \<Rightarrow> build_result" where
  "build_execution V s (DeploymentRow d) =
     (case lookup_by asset_id (dep_model_asset_id d) (model_assets s) of
        None \<Rightarrow> BuildCrashed
      | Some a \<Rightarrow> Built (deployment_execution d a))"
| "build_execution V s (TrainingRow t) =
     (case (lookup_by asset_id (train_model_asset_id t) (model_assets s),
            lookup_by ds_id (dataset_id t) (datasets s)) of
        (Some a, Some ds) \<Rightarrow>
          (case build_training_execution V t a ds of Inl e \<Rightarrow> BuildRejected e | Inr ex \<Rightarrow> Built ex)
      | _ \<Rightarrow> BuildRejected ''missing asset or dataset'')"
| "build_execution V s (EvaluationRow e) =
     (case (lookup_by asset_id (base_model_asset_id e) (model_assets s),
            lookup_by asset_id (candidate_model_asset_id e) (model_assets s)) of
        (Some b, Some c) \<Rightarrow>
          (case build_evaluation_execution V e b c
                  (case custom_dataset_id e of
                     Some i \<Rightarrow> lookup_by ds_id i (datasets s) | None \<Rightarrow> None) of
             Inl m \<Rightarrow> BuildRejected m | Inr ex \<Rightarrow> Built ex)
      | _ \<Rightarrow> BuildRejected ''missing asset'')"

text \<open>The assertion in the handler: a deployment never raises a control error.\<close>

fun preflight_failed_row :: "timestamp \<Rightarrow> string \<Rightarrow> row \<Rightarrow> row" where
  "preflight_failed_row now m (TrainingRow t) = TrainingRow (t\<lparr>job_actual := J_FAILED, queued_at := None,
     runtime_generation := 0, finished_at := Some now, error_message := Some (TrainingPreflight m)\<rparr>)"
| "preflight_failed_row now m (EvaluationRow e) = EvaluationRow (e\<lparr>job_actual := J_FAILED,
     queued_at := None, runtime_generation := 0, finished_at := Some now,
     error_message := Some (EvaluationPreflight m)\<rparr>)"
| "preflight_failed_row now m (DeploymentRow d) = DeploymentRow d"

fun claimed_row :: "row \<Rightarrow> row" where
  "claimed_row (DeploymentRow d) = DeploymentRow (d\<lparr>dep_actual := D_STARTING, queued_at := None,
     error_message := None, internal_url := None, health_status := None, started_at := None\<rparr>)"
| "claimed_row (TrainingRow t) = TrainingRow (t\<lparr>job_actual := J_STARTING, queued_at := None,
     error_message := None\<rparr>)"
| "claimed_row (EvaluationRow e) = EvaluationRow (e\<lparr>job_actual := J_STARTING, queued_at := None,
     error_message := None\<rparr>)"

definition claim_fifo_head ::
  "task_checks \<Rightarrow> int \<Rightarrow> timestamp \<Rightarrow> uuid \<Rightarrow> db \<Rightarrow> reconcile_error + db \<times> schedule_attempt" where
  "claim_fifo_head V ttl now gid s =
     (if queue s = [] then Inr (s, Empty)
      else
        (let r = arg_min_list queue_sort_key (queue s) in
         case build_execution V s r of
           BuildCrashed \<Rightarrow> Inl MissingModelAsset
         | BuildRejected m \<Rightarrow> Inr (put_row (preflight_failed_row now m r) s, PreflightFailed)
         | Built ex \<Rightarrow>
             (let r1 = set_rgen (rversion r) r in
              case try_acquire_locked ttl (gpu_leases s) (owner_at (rgen r1) r1) (rgpus r1) now gid [] of
                Inl e \<Rightarrow> Inl (SchedulerError e)
              | Inr (L, a) \<Rightarrow>
                  (if \<not> acquired a
                   then Inr (put_row (set_rgen 0 r1) (s\<lparr>gpu_leases := L\<rparr>), Blocked (blocking_owner a))
                   else (let r2 = claimed_row r1 in
                     Inr (put_row r2 (s\<lparr>gpu_leases := L\<rparr>), Claimed (snapshot r2 ex)))))))"

section \<open>\<open>_apply_observation\<close>\<close>

abbreviation live_states :: "agent_workload_state set" where
  "live_states \<equiv> {STARTING, RUNNING, STOPPING}"

definition said_or :: "string option \<Rightarrow> notice \<Rightarrow> notice" where
  "said_or m dflt = (case m of Some t \<Rightarrow> if t = [] then dflt else AgentSaid t | None \<Rightarrow> dflt)"

definition message_unless_accepted :: "agent_response \<Rightarrow> notice option" where
  "message_unless_accepted resp =
     (if accepted resp then None else map_option AgentSaid (res_message resp))"

definition deployment_health_statuses :: "string set" where
  "deployment_health_statuses = {''starting'', ''healthy'', ''unhealthy''}"

definition deployment_health_status :: "agent_response \<Rightarrow> string option" where
  "deployment_health_status resp =
     (case map_of (metadata resp) ''health_status'' of
        Some (JStr v) \<Rightarrow> if v \<in> deployment_health_statuses then Some v else None
      | _ \<Rightarrow> None)"

text \<open>\<open>isinstance(port, int)\<close> also holds of a \<open>bool\<close>.\<close>

fun json_int :: "json \<Rightarrow> int option" where
  "json_int (JInt i) = Some i"
| "json_int (JBool b) = Some (if b then 1 else 0)"
| "json_int _ = None"

fun json_str :: "json \<Rightarrow> string option" where
  "json_str (JStr s) = Some s"
| "json_str _ = None"

definition meta_get :: "(json \<Rightarrow> 'a option) \<Rightarrow> string \<Rightarrow> agent_response \<Rightarrow> 'a option" where
  "meta_get f key resp = Option.bind (map_of (metadata resp) key) f"

fun deployment_live_state :: "agent_workload_state \<Rightarrow> deployment_state" where
  "deployment_live_state STARTING = D_STARTING"
| "deployment_live_state RUNNING = D_RUNNING"
| "deployment_live_state _ = D_STOPPING"

fun job_live_state :: "agent_workload_state \<Rightarrow> job_state" where
  "job_live_state STARTING = J_STARTING"
| "job_live_state RUNNING = J_RUNNING"
| "job_live_state _ = J_CANCELING"

definition apply_deployment_observation ::
  "deployment \<Rightarrow> lease_owner \<Rightarrow> agent_response \<Rightarrow> timestamp \<Rightarrow> lease list \<Rightarrow> deployment \<times> lease list" where
  "apply_deployment_observation d ow resp now L =
     (let observed = observed_state resp; health = deployment_health_status resp in
      if \<not> accepted resp \<and> observed = ABSENT then
        (d\<lparr>dep_actual := D_FAILED, health_status := None, internal_url := None,
           error_message := Some (said_or (res_message resp) AgentRejectedDeployment)\<rparr>,
         fst (release L ow))
      else if observed = ABSENT then
        (let d1 = d\<lparr>health_status := None, internal_url := None\<rparr> in
         (if dep_desired d = SERVICE_RUNNING
          then d1\<lparr>dep_actual := D_QUEUED, queued_at := Some now, runtime_generation := 0,
                 started_at := None, error_message := Some DeploymentRequeued\<rparr>
          else d1\<lparr>dep_actual := D_STOPPED, error_message := None\<rparr>,
          fst (release L ow)))
      else if observed \<in> {FAILED, SUCCEEDED} then
        (d\<lparr>dep_actual := D_FAILED, health_status := health,
           error_message := Some (said_or (res_message resp) InferenceExited), internal_url := None\<rparr>,
         fst (release L ow))
      else if dep_desired d = SERVICE_STOPPED then
        (d\<lparr>dep_actual := D_STOPPING, health_status := health\<rparr>, L)
      else
        (d\<lparr>dep_actual := deployment_live_state observed, health_status := health,
           started_at := (if observed = RUNNING \<and> started_at d = None then Some now else started_at d),
           internal_url := (case meta_get json_str ''endpoint'' resp of
              Some u \<Rightarrow> Some u | None \<Rightarrow> internal_url d),
           port := (case meta_get json_int ''port'' resp of Some p \<Rightarrow> Some p | None \<Rightarrow> port d),
           error_message := message_unless_accepted resp\<rparr>, L))"

definition copy_training_metadata :: "training_metadata \<Rightarrow> training_job \<Rightarrow> training_job" where
  "copy_training_metadata md t = t\<lparr>
     progress := (case tm_progress md of Some p \<Rightarrow> p | None \<Rightarrow> progress t),
     current_step := (case tm_current_step md of Some p \<Rightarrow> Some p | None \<Rightarrow> current_step t),
     total_steps := (case tm_total_steps md of Some p \<Rightarrow> Some p | None \<Rightarrow> total_steps t),
     train_metrics := (case tm_metrics md of Some m \<Rightarrow> m | None \<Rightarrow> train_metrics t),
     checkpoint_path := (case tm_checkpoint_path md of Some p \<Rightarrow> Some p | None \<Rightarrow> checkpoint_path t),
     adapter_path := (case tm_adapter_path md of Some p \<Rightarrow> Some p | None \<Rightarrow> adapter_path t),
     merged_model_path := (case tm_merged_model_path md of Some p \<Rightarrow> Some p | None \<Rightarrow> merged_model_path t)\<rparr>"

definition job_absent :: "agent_response \<Rightarrow> timestamp \<Rightarrow> 'a job_row_scheme \<Rightarrow> 'a job_row_scheme" where
  "job_absent resp now j =
     (if job_desired j = JOB_TERMINATED
      then j\<lparr>job_actual := J_CANCELED, error_message := None, finished_at := Some now\<rparr>
      else j\<lparr>job_actual := J_FAILED,
             error_message := Some (said_or (res_message resp) InstanceVanished),
             finished_at := Some now\<rparr>)"

definition job_live :: "agent_response \<Rightarrow> 'a job_row_scheme \<Rightarrow> 'a job_row_scheme" where
  "job_live resp j = j\<lparr>job_actual :=
     (if job_desired j = JOB_TERMINATED then J_CANCELING else job_live_state (observed_state resp))\<rparr>"

definition first_running :: "agent_response \<Rightarrow> timestamp \<Rightarrow> 'a workload_row_scheme \<Rightarrow> 'a workload_row_scheme" where
  "first_running resp now r =
     (if observed_state resp = RUNNING \<and> started_at r = None then r\<lparr>started_at := Some now\<rparr> else r)"

definition training_finished ::
  "task_checks \<Rightarrow> agent_response \<Rightarrow> timestamp \<Rightarrow> training_job \<Rightarrow> training_job" where
  "training_finished V resp now t =
     (let success = (observed_state resp = SUCCEEDED) in
      (case validate_training_metadata V t (metadata resp) success of
         Inl e \<Rightarrow> t\<lparr>job_actual := J_FAILED, error_message := Some (TrainingTerminalMetadata e),
                  checkpoint_path := None, adapter_path := None, merged_model_path := None\<rparr>
       | Inr md \<Rightarrow>
           (let t1 = copy_training_metadata md t in
            if \<not> success
            then t1\<lparr>job_actual := J_FAILED,
                    error_message := Some (said_or (res_message resp) TrainingRunFailed)\<rparr>
            else (let t2 = t1\<lparr>job_actual := J_SUCCEEDED, error_message := None, progress := 100\<rparr> in
              (case validate_training_artifacts V t2 of
                 None \<Rightarrow> t2
               | Some e \<Rightarrow> t2\<lparr>job_actual := J_FAILED, error_message := Some (TrainingArtifacts e)\<rparr>))))
      \<lparr>finished_at := Some now\<rparr>)"

definition evaluation_finished ::
  "task_checks \<Rightarrow> agent_response \<Rightarrow> timestamp \<Rightarrow> evaluation_run \<Rightarrow> evaluation_run" where
  "evaluation_finished V resp now e =
     (if observed_state resp = SUCCEEDED then
        (case validate_evaluation_metadata V e (metadata resp) of
           Inl m \<Rightarrow> e\<lparr>job_actual := J_FAILED, error_message := Some (EvaluationArtifacts m),
                    eval_metrics := [], comparison := [], result_path := None,
                    dataset_manifest_path := None, warnings := [], finished_at := Some now\<rparr>
         | Inr md \<Rightarrow> e\<lparr>job_actual := J_SUCCEEDED, error_message := None,
                    eval_metrics := em_metrics md, comparison := em_comparison md,
                    result_path := em_result_path md, dataset_manifest_path := em_dataset_manifest_path md,
                    warnings := em_warnings md, finished_at := Some now\<rparr>)
      else e\<lparr>job_actual := J_FAILED,
             error_message := Some (said_or (res_message resp) EvaluationRunFailed),
             finished_at := Some now\<rparr>)"

definition training_live :: "task_checks \<Rightarrow> agent_response \<Rightarrow> timestamp \<Rightarrow> training_job \<Rightarrow> training_job" where
  "training_live V resp now t =
     (let t1 = first_running resp now (job_live resp t) in
      case validate_training_metadata V t1 (metadata resp) False of
        Inl e \<Rightarrow> t1\<lparr>error_message := Some (TrainingStatusMetadata e)\<rparr>
      | Inr md \<Rightarrow> (copy_training_metadata md t1)\<lparr>error_message := message_unless_accepted resp\<rparr>)"

definition evaluation_live :: "agent_response \<Rightarrow> timestamp \<Rightarrow> evaluation_run \<Rightarrow> evaluation_run" where
  "evaluation_live resp now e =
     (first_running resp now (job_live resp e))\<lparr>error_message := message_unless_accepted resp\<rparr>"

fun apply_row_observation ::
  "task_checks \<Rightarrow> row \<Rightarrow> lease_owner \<Rightarrow> agent_response \<Rightarrow> timestamp \<Rightarrow> lease list \<Rightarrow> row \<times> lease list" where
  "apply_row_observation V (DeploymentRow d) ow resp now L =
     (let (d', L') = apply_deployment_observation d ow resp now L in (DeploymentRow d', L'))"
| "apply_row_observation V (TrainingRow t) ow resp now L =
     (if observed_state resp = ABSENT then (TrainingRow (job_absent resp now t), fst (release L ow))
      else if observed_state resp \<in> {SUCCEEDED, FAILED}
      then (TrainingRow (training_finished V resp now t), fst (release L ow))
      else (TrainingRow (training_live V resp now t), L))"
| "apply_row_observation V (EvaluationRow e) ow resp now L =
     (if observed_state resp = ABSENT then (EvaluationRow (job_absent resp now e), fst (release L ow))
      else if observed_state resp \<in> {SUCCEEDED, FAILED}
      then (EvaluationRow (evaluation_finished V resp now e), fst (release L ow))
      else (EvaluationRow (evaluation_live resp now e), L))"

definition owner_row_key :: "lease_owner \<Rightarrow> row_key" where
  "owner_row_key ow = (own_type ow, own_id ow)"

definition apply_observation ::
  "task_checks \<Rightarrow> int \<Rightarrow> lease_owner \<Rightarrow> agent_response \<Rightarrow> timestamp \<Rightarrow> db \<Rightarrow> db" where
  "apply_observation V ttl ow resp now s =
     (case get_row (owner_row_key ow) s of
        None \<Rightarrow> s
      | Some r \<Rightarrow>
          (if rgen r \<noteq> own_generation ow then s
           else
             (let (r', L) = apply_row_observation V r ow resp now (gpu_leases s);
                  L' = (if observed_state resp \<in> live_states then fst (heartbeat ttl L ow now) else L)
              in put_row r' (s\<lparr>gpu_leases := L'\<rparr>))))"

section \<open>\<open>_record_agent_error\<close>, \<open>_fail_start\<close>, \<open>_reap_terminal_expired_leases\<close>\<close>

definition record_agent_error :: "lease_owner \<Rightarrow> string \<Rightarrow> db \<Rightarrow> db" where
  "record_agent_error ow m s =
     (case get_row (owner_row_key ow) s of
        None \<Rightarrow> s
      | Some r \<Rightarrow>
          (if rgen r = own_generation ow then put_row (set_rerror (Some (CallFailed m)) r) s else s))"

fun failed_start_row :: "timestamp \<Rightarrow> notice \<Rightarrow> row \<Rightarrow> row" where
  "failed_start_row now m (DeploymentRow d) = DeploymentRow (d\<lparr>dep_actual := D_FAILED,
     error_message := Some m, health_status := None, internal_url := None\<rparr>)"
| "failed_start_row now m (TrainingRow t) = TrainingRow (t\<lparr>job_actual := J_FAILED,
     error_message := Some m, finished_at := Some now\<rparr>)"
| "failed_start_row now m (EvaluationRow e) = EvaluationRow (e\<lparr>job_actual := J_FAILED,
     error_message := Some m, finished_at := Some now\<rparr>)"

definition fail_start :: "lease_owner \<Rightarrow> notice \<Rightarrow> timestamp \<Rightarrow> db \<Rightarrow> db" where
  "fail_start ow m now s =
     (case get_row (owner_row_key ow) s of
        None \<Rightarrow> s
      | Some r \<Rightarrow>
          (if rgen r \<noteq> own_generation ow then s
           else put_row (failed_start_row now m r)
                  (s\<lparr>gpu_leases := fst (release (gpu_leases s) ow)\<rparr>)))"

definition confirmed_keys :: "timestamp \<Rightarrow> db \<Rightarrow> lease_key set" where
  "confirmed_keys now s =
     set (filter (\<lambda>(ty, i, g). case get_row (ty, i) s of None \<Rightarrow> True | Some r \<Rightarrow> is_terminal r)
            (map lease_key_of (filter (\<lambda>l. expires_at l \<le> now) (gpu_leases s))))"

definition reap_terminal_expired_leases :: "timestamp \<Rightarrow> db \<Rightarrow> db \<times> nat" where
  "reap_terminal_expired_leases now s =
     (let (L, reaped) = reap_expired_locked (gpu_leases s) (confirmed_keys now s) now
      in (s\<lparr>gpu_leases := L\<rparr>, length reaped))"

section \<open>\<open>run_once\<close>\<close>

text \<open>
  The world outside the reconciler, with a state of type \<open>'e\<close>: the node agent, the clock, the
  source of UUIDs. Between sending a command and getting its answer no transaction is open, so
  request handlers may commit meanwhile: a call also returns the database. An \<open>Inl\<close> answer is
  a \<open>NodeAgentError\<close> with its text.
\<close>

record 'e world =
  w_call :: "'e \<Rightarrow> db \<Rightarrow> agent_command \<Rightarrow> ('e \<times> db) \<times> (string + agent_response)"
  w_clock :: "'e \<Rightarrow> 'e \<times> timestamp"
  w_uuid :: "'e \<Rightarrow> 'e \<times> uuid"

type_synonym 'e rstate = "'e \<times> db \<times> reconcile_report"

definition send ::
  "'e world \<Rightarrow> 'e \<Rightarrow> db \<Rightarrow> workload_snapshot \<Rightarrow> agent_action
     \<Rightarrow> (('e \<times> db) \<times> (string + agent_response)) option" where
  "send W e s w action =
     (let (e1, fresh) = w_uuid W e in
      map_option (w_call W e1 s) (command_for w action fresh))"

definition observe ::
  "'e world \<Rightarrow> task_checks \<Rightarrow> int \<Rightarrow> workload_snapshot \<Rightarrow> agent_response \<Rightarrow> 'e \<Rightarrow> db \<Rightarrow> 'e \<times> db" where
  "observe W V ttl w resp e s =
     (let (e1, now) = w_clock W e in (e1, apply_observation V ttl (snap_owner w) resp now s))"

definition inspect_one ::
  "'e world \<Rightarrow> task_checks \<Rightarrow> int \<Rightarrow> workload_snapshot \<Rightarrow> 'e rstate
     \<Rightarrow> 'e rstate \<times> reconcile_error option" where
  "inspect_one W V ttl w st =
     (let (e, s, rep0) = st;
          rep = rep0\<lparr>inspected := inspected rep0 + 1\<rparr>;
          failed = rep\<lparr>agent_errors := agent_errors rep + 1\<rparr>;
          action = (if probe_before_stop w then STATUS else action_for_active w) in
      case send W e s w action of
        None \<Rightarrow> ((e, s, rep), Some InvalidCommand)
      | Some ((e1, s1), Inl m) \<Rightarrow> ((e1, record_agent_error (snap_owner w) m s1, failed), None)
      | Some ((e1, s1), Inr resp) \<Rightarrow>
          (let (e2, s2) = observe W V ttl w resp e1 s1 in
           if \<not> (probe_before_stop w \<and> accepted resp \<and> observed_state resp \<in> live_states)
           then ((e2, s2, rep), None)
           else (case send W e2 s2 w STOP of
               None \<Rightarrow> ((e2, s2, rep), Some InvalidCommand)
             | Some ((e3, s3), Inl m) \<Rightarrow> ((e3, record_agent_error (snap_owner w) m s3, failed), None)
             | Some ((e3, s3), Inr stop_resp) \<Rightarrow>
                 (let (e4, s4) = observe W V ttl w stop_resp e3 s3 in ((e4, s4, rep), None)))))"

fun inspect_all ::
  "'e world \<Rightarrow> task_checks \<Rightarrow> int \<Rightarrow> workload_snapshot list \<Rightarrow> 'e rstate
     \<Rightarrow> 'e rstate \<times> reconcile_error option" where
  "inspect_all W V ttl [] st = (st, None)"
| "inspect_all W V ttl (w # ws) st =
     (case inspect_one W V ttl w st of
        (st', Some err) \<Rightarrow> (st', Some err)
      | (st', None) \<Rightarrow> inspect_all W V ttl ws st')"

text \<open>\<open>response.message or response.error_code or "..."\<close>\<close>

definition refusal_message :: "agent_response \<Rightarrow> notice" where
  "refusal_message resp = said_or (or_str (res_message resp) (error_code resp)) AgentRefusedStart"

definition start_claimed ::
  "'e world \<Rightarrow> task_checks \<Rightarrow> int \<Rightarrow> workload_snapshot \<Rightarrow> 'e rstate
     \<Rightarrow> 'e rstate \<times> reconcile_error option" where
  "start_claimed W V ttl w st =
     (let (e, s, rep0) = st;
          rep = rep0\<lparr>scheduled := scheduled rep0 + 1\<rparr> in
      case send W e s w START of
        None \<Rightarrow> ((e, s, rep), Some InvalidCommand)
      | Some ((e1, s1), Inl m) \<Rightarrow>
          ((e1, record_agent_error (snap_owner w) m s1, rep\<lparr>agent_errors := agent_errors rep + 1\<rparr>), None)
      | Some ((e1, s1), Inr resp) \<Rightarrow>
          (if \<not> accepted resp
           then (let (e2, now) = w_clock W e1 in
             ((e2, fail_start (snap_owner w) (refusal_message resp) now s1, rep), None))
           else (let (e2, s2) = observe W V ttl w resp e1 s1 in ((e2, s2, rep), None))))"

text \<open>The \<open>while True\<close> loop, with fuel: None when the fuel runs out.\<close>

fun schedule_loop ::
  "'e world \<Rightarrow> task_checks \<Rightarrow> int \<Rightarrow> nat \<Rightarrow> 'e rstate \<Rightarrow> ('e rstate \<times> reconcile_error option) option" where
  "schedule_loop W V ttl 0 st = None"
| "schedule_loop W V ttl (Suc n) (e, s, rep) =
     (let (e1, now) = w_clock W e; (e2, gid) = w_uuid W e1 in
      case claim_fifo_head V ttl now gid s of
        Inl err \<Rightarrow> Some ((e2, s, rep), Some err)
      | Inr (s1, Empty) \<Rightarrow> Some ((e2, s1, rep), None)
      | Inr (s1, Blocked _) \<Rightarrow> Some ((e2, s1, rep\<lparr>blocked := blocked rep + 1\<rparr>), None)
      | Inr (s1, PreflightFailed) \<Rightarrow>
          schedule_loop W V ttl n (e2, s1, rep\<lparr>preflight_failed := preflight_failed rep + 1\<rparr>)
      | Inr (s1, Claimed w) \<Rightarrow>
          (case start_claimed W V ttl w (e2, s1, rep) of
             (st', Some err) \<Rightarrow> Some (st', Some err)
           | (st', None) \<Rightarrow> schedule_loop W V ttl n st'))"

definition empty_report :: reconcile_report where
  "empty_report = \<lparr>inspected = 0, scheduled = 0, blocked = 0, agent_errors = 0,
     terminal_leases_reaped = 0, preflight_failed = 0\<rparr>"

definition run_once ::
  "'e world \<Rightarrow> task_checks \<Rightarrow> int \<Rightarrow> nat \<Rightarrow> 'e \<Rightarrow> db \<Rightarrow> ('e rstate \<times> reconcile_error option) option" where
  "run_once W V ttl fuel e s =
     (case inspect_all W V ttl (load_active_workloads s) (e, s, empty_report) of
        (st, Some err) \<Rightarrow> Some (st, Some err)
      | ((e1, s1, rep), None) \<Rightarrow>
          (let (e2, now) = w_clock W e1;
               (s2, n) = reap_terminal_expired_leases now s1
           in schedule_loop W V ttl fuel (e2, s2, rep\<lparr>terminal_leases_reaped := n\<rparr>)))"

end
