(* ===== verification/LeaseDiscipline.thy ===== *)
theory LeaseDiscipline
  imports Reconciler
begin

text \<open>
  The invariant that ties the lease table to the workload rows, and its preservation by every
  transaction of the reconciler: a workload that is starting, running or stopping holds exactly
  its cards, at its runtime generation, and no other lease exists. The lease operations enter
  through the facts of the contract \<open>lease_service\<close>.
\<close>

section \<open>The invariant\<close>

definition request_ok :: "row \<Rightarrow> bool" where
  "request_ok r \<longleftrightarrow> rgpus r \<noteq> [] \<and> distinct (rgpus r) \<and> (\<forall>g \<in> set (rgpus r). 0 \<le> g)
     \<and> 1 \<le> length (rname r) \<and> length (rname r) \<le> 128
     \<and> 1 \<le> rversion r \<and> (is_active r \<longrightarrow> 1 \<le> rgen r)"

definition row_lease_key :: "row \<Rightarrow> lease_key" where
  "row_lease_key r = (row_type r, rid r, rgen r)"

definition leases_match :: "db \<Rightarrow> bool" where
  "leases_match s \<longleftrightarrow>
     (\<forall>r \<in> set (all_rows s). is_active r \<longrightarrow> held (gpu_leases s) (row_lease_key r) = set (rgpus r))
     \<and> (\<forall>l \<in> set (gpu_leases s). \<exists>r \<in> set (all_rows s). is_active r \<and> lease_key_of l = row_lease_key r)"

definition db_ok :: "db \<Rightarrow> bool" where
  "db_ok s \<longleftrightarrow> keys_ok s \<and> lease_inv (gpu_leases s) \<and> (\<forall>r \<in> set (all_rows s). request_ok r)
     \<and> leases_match s"

text \<open>The cards a lease key should hold, read off the rows.\<close>

fun expected :: "db \<Rightarrow> lease_key \<Rightarrow> int set" where
  "expected s (ty, i, g) =
     (case get_row (ty, i) s of
        Some r \<Rightarrow> if is_active r \<and> rgen r = g then set (rgpus r) else {}
      | None \<Rightarrow> {})"

lemma row_key_lease_key: "row_lease_key r = (ty, i, g) \<longleftrightarrow> row_key r = (ty, i) \<and> rgen r = g"
  by (auto simp: row_lease_key_def row_key_def)

lemma held_empty_iff: "held L k = {} \<longleftrightarrow> (\<forall>l \<in> set L. lease_key_of l \<noteq> k)"
  by (auto simp: held_def)

lemma leases_match_iff:
  assumes "keys_ok s" and "\<forall>r \<in> set (all_rows s). request_ok r"
  shows "leases_match s \<longleftrightarrow> (\<forall>k. held (gpu_leases s) k = expected s k)"
proof
  assume m: "leases_match s"
  show "\<forall>k. held (gpu_leases s) k = expected s k"
  proof
    fix k :: lease_key
    obtain ty i g where k: "k = (ty, i, g)" by (cases k)
    show "held (gpu_leases s) k = expected s k"
    proof (cases "\<exists>r. get_row (ty, i) s = Some r \<and> is_active r \<and> rgen r = g")
      case True
      then obtain r where r: "get_row (ty, i) s = Some r" "is_active r" "rgen r = g" by blast
      then have "r \<in> set (all_rows s)" "row_lease_key r = k"
        using get_row_iff [OF assms(1)] k by (auto simp: row_key_lease_key)
      then show ?thesis using m r k unfolding leases_match_def by auto
    next
      case False
      then have e: "expected s k = {}" using k by (auto split: option.split)
      have "lease_key_of l \<noteq> k" if l: "l \<in> set (gpu_leases s)" for l
      proof
        assume "lease_key_of l = k"
        then obtain r where "r \<in> set (all_rows s)" "is_active r" "row_lease_key r = k"
          using m l unfolding leases_match_def by metis
        then show False using False get_row_iff [OF assms(1)] k by (auto simp: row_key_lease_key)
      qed
      then show ?thesis using e held_empty_iff by metis
    qed
  qed
next
  assume e: "\<forall>k. held (gpu_leases s) k = expected s k"
  show "leases_match s"
    unfolding leases_match_def
  proof (intro conjI ballI impI)
    fix r assume r: "r \<in> set (all_rows s)" "is_active r"
    obtain ty i g where k: "row_lease_key r = (ty, i, g)" by (cases "row_lease_key r")
    then have "get_row (ty, i) s = Some r" using r get_row_iff [OF assms(1)] by (simp add: row_key_lease_key)
    moreover have "rgen r = g" using k by (simp add: row_key_lease_key)
    ultimately show "held (gpu_leases s) (row_lease_key r) = set (rgpus r)"
      using e r(2) by (simp add: k)
  next
    fix l assume l: "l \<in> set (gpu_leases s)"
    obtain ty i g where k: "lease_key_of l = (ty, i, g)" by (cases "lease_key_of l")
    have "expected s (ty, i, g) \<noteq> {}" using e l k held_empty_iff by metis
    then obtain r where "get_row (ty, i) s = Some r" "is_active r" "rgen r = g"
      by (auto split: option.splits if_splits)
    then show "\<exists>r \<in> set (all_rows s). is_active r \<and> lease_key_of l = row_lease_key r"
      using get_row_iff [OF assms(1)] k by (metis row_key_lease_key)
  qed
qed

lemma wf_iff:
  "db_ok s \<longleftrightarrow> keys_ok s \<and> lease_inv (gpu_leases s) \<and> (\<forall>r \<in> set (all_rows s). request_ok r)
     \<and> (\<forall>k. held (gpu_leases s) k = expected s k)"
  using leases_match_iff [of s] by (auto simp: db_ok_def)

lemma wf_row: "db_ok s \<Longrightarrow> get_row k s = Some r \<Longrightarrow> request_ok r \<and> row_key r = k"
  using get_row_iff by (auto simp: db_ok_def)

section \<open>Changing one row and the leases\<close>

lemma wf_put_row:
  assumes "db_ok s" and "get_row (row_key r') s = Some r" and "request_ok r'" and "lease_inv L"
    and own: "\<And>g. held L (row_type r', rid r', g) = (if is_active r' \<and> rgen r' = g then set (rgpus r') else {})"
    and others: "\<And>ty i g. (ty, i) \<noteq> row_key r' \<Longrightarrow> held L (ty, i, g) = held (gpu_leases s) (ty, i, g)"
  shows "db_ok (put_row r' (s\<lparr>gpu_leases := L\<rparr>))"
  unfolding wf_iff
proof (intro conjI allI)
  show "keys_ok (put_row r' (s\<lparr>gpu_leases := L\<rparr>))" using assms(1) by (simp add: db_ok_def)
  show "lease_inv (gpu_leases (put_row r' (s\<lparr>gpu_leases := L\<rparr>)))" using assms(4) by simp
  show "\<forall>r \<in> set (all_rows (put_row r' (s\<lparr>gpu_leases := L\<rparr>))). request_ok r"
    using assms(1,3) by (auto simp: all_rows_put_row db_ok_def)
  fix k :: lease_key
  obtain ty i g where k: "k = (ty, i, g)" by (cases k)
  show "held (gpu_leases (put_row r' (s\<lparr>gpu_leases := L\<rparr>))) k = expected (put_row r' (s\<lparr>gpu_leases := L\<rparr>)) k"
  proof (cases "(ty, i) = row_key r'")
    case True
    then show ?thesis using own assms(2) k by (simp add: get_row_put_row row_key_def)
  next
    case False
    then show ?thesis using others assms(1) k by (simp add: get_row_put_row wf_iff)
  qed
qed

lemma wf_held: "db_ok s \<Longrightarrow> held (gpu_leases s) (ty, i, g) = expected s (ty, i, g)"
  by (simp only: wf_iff)

lemma wf_own:
  assumes "db_ok s" and "get_row (row_key r) s = Some r"
  shows "held (gpu_leases s) (row_type r, rid r, g) = (if is_active r \<and> rgen r = g then set (rgpus r) else {})"
  using wf_held [OF assms(1), of "row_type r" "rid r" g] assms(2) by (simp add: row_key_def)

text \<open>The leases stay, and the row's activity, generation and cards do too.\<close>

lemma wf_same_claim:
  assumes "db_ok s" and "get_row (row_key r') s = Some r" and "request_ok r'" and "lease_inv L"
    and "\<And>k. held L k = held (gpu_leases s) k"
    and "is_active r' = is_active r" and "rgen r' = rgen r \<or> \<not> is_active r'" and "rgpus r' = rgpus r \<or> \<not> is_active r'"
  shows "db_ok (put_row r' (s\<lparr>gpu_leases := L\<rparr>))"
proof -
  have k: "row_key r = row_key r'" using assms(1,2) wf_row by blast
  then have r: "get_row (row_key r) s = Some r" and t: "row_type r = row_type r'" "rid r = rid r'"
    using assms(2) by (simp_all add: row_key_def)
  show ?thesis
    using assms wf_own [OF assms(1) r] unfolding t
    by (intro wf_put_row [OF assms(1,2,3,4)]) auto
qed

text \<open>The row stops being active and its generation is released.\<close>

lemma wf_released:
  assumes "db_ok s" and "get_row (row_key r') s = Some r" and "request_ok r'"
    and "owner_row_key ow = row_key r'" and "own_generation ow = rgen r" and "\<not> is_active r'"
  shows "db_ok (put_row r' (s\<lparr>gpu_leases := fst (release (gpu_leases s) ow)\<rparr>))"
proof -
  have k: "row_key r = row_key r'" using assms(1,2) wf_row by blast
  then have r: "get_row (row_key r) s = Some r" and t: "row_type r = row_type r'" "rid r = rid r'"
    using assms(2) by (simp_all add: row_key_def)
  have o: "owner_key ow = (row_type r', rid r', rgen r)"
    using assms(4,5) by (simp add: owner_key_def owner_row_key_def row_key_def)
  show ?thesis
  proof (rule wf_put_row [OF assms(1,2,3)])
    show "lease_inv (fst (release (gpu_leases s) ow))" using assms(1) by (simp add: db_ok_def leases.free_inv)
    fix g
    show "held (fst (release (gpu_leases s) ow)) (row_type r', rid r', g)
        = (if is_active r' \<and> rgen r' = g then set (rgpus r') else {})"
      using wf_own [OF assms(1) r, of g] assms(6) by (simp add: leases.free_cards o t)
  next
    fix ty i g assume "(ty, i) \<noteq> row_key r'"
    then have "(ty, i, g) \<noteq> owner_key ow" by (auto simp: o row_key_def)
    then show "held (fst (release (gpu_leases s) ow)) (ty, i, g) = held (gpu_leases s) (ty, i, g)"
      by (simp add: leases.free_cards)
  qed
qed

section \<open>Claiming\<close>

lemma owner_at_simps [simp]:
  "owner_key (owner_at g r) = (row_type r, rid r, g)" "owner_row_key (owner_at g r) = row_key r"
  "own_generation (owner_at g r) = g" "own_type (owner_at g r) = row_type r"
  "own_id (owner_at g r) = rid r" "own_name (owner_at g r) = rname r"
  by (simp_all add: owner_key_def owner_at_def owner_row_key_def row_key_def)

lemma queue_head:
  assumes "db_ok s" and "queue s \<noteq> []"
  shows "arg_min_list queue_sort_key (queue s) \<in> set (all_rows s)"
    and "is_queued (arg_min_list queue_sort_key (queue s))"
    and "get_row (row_key (arg_min_list queue_sort_key (queue s))) s = Some (arg_min_list queue_sort_key (queue s))"
proof -
  have "arg_min_list queue_sort_key (queue s) \<in> set (queue s)" by (rule arg_min_list_in [OF assms(2)])
  then show m: "arg_min_list queue_sort_key (queue s) \<in> set (all_rows s)"
    and "is_queued (arg_min_list queue_sort_key (queue s))" by (auto simp: queue_def)
  show "get_row (row_key (arg_min_list queue_sort_key (queue s))) s = Some (arg_min_list queue_sort_key (queue s))"
    using m assms(1) by (simp add: get_row_iff db_ok_def)
qed

lemma queued_not_active: "is_queued r \<Longrightarrow> \<not> is_active r"
  by (cases r) (auto simp: active_deployment_states_def active_job_states_def)

lemma claimed_row_simps [simp]:
  "row_type (claimed_row r) = row_type r" "rid (claimed_row r) = rid r" "rname (claimed_row r) = rname r"
  "rgpus (claimed_row r) = rgpus r" "rgen (claimed_row r) = rgen r" "rversion (claimed_row r) = rversion r"
  "is_active (claimed_row r)"
  by (cases r; simp add: active_deployment_states_def active_job_states_def)+

lemma row_key_simps [simp]:
  "row_key (claimed_row r) = row_key r" "row_key (set_rgen g r) = row_key r"
  "row_key (set_rerror m r) = row_key r"
  by (simp_all add: row_key_def)

lemma is_active_set [simp]:
  "is_active (set_rgen g r) = is_active r" "is_active (set_rerror m r) = is_active r"
  by (cases r; simp)+

lemma preflight_failed_simps [simp]:
  "row_type (preflight_failed_row now m r) = row_type r" "rid (preflight_failed_row now m r) = rid r"
  "rname (preflight_failed_row now m r) = rname r" "rgpus (preflight_failed_row now m r) = rgpus r"
  "rversion (preflight_failed_row now m r) = rversion r" "row_key (preflight_failed_row now m r) = row_key r"
  "is_queued r \<Longrightarrow> \<not> is_active (preflight_failed_row now m r)"
  by (cases r; simp add: row_key_def active_deployment_states_def active_job_states_def)+

lemma no_owned_leases:
  assumes "db_ok s" and "get_row (row_key r) s = Some r" and "\<not> is_active r"
  shows "owned_leases (owner_at g r) (gpu_leases s) = []"
  unfolding owned_leases_Nil
proof
  fix l assume l: "l \<in> set (gpu_leases s)"
  show "\<not> same_owner (owner_at g r) l"
  proof
    assume "same_owner (owner_at g r) l"
    then have "lease_key_of l = (row_type r, rid r, generation l)"
      by (simp add: same_owner_def owner_at_def lease_key_of_def)
    then show False using wf_own [OF assms(1,2), of "generation l"] l assms(3) held_empty_iff by auto
  qed
qed

lemma acquire_never_errs:
  assumes "normalize_gpu_ids gpus = Inr requested" and "owned_leases ow L = []"
  shows "\<exists>L' a. try_acquire_locked ttl L ow gpus now gid [] = Inr (L', a)"
  using assms by (auto simp: try_acquire_locked_def split: list.split option.split)

lemma wf_claim:
  assumes "db_ok s" and "claim_fifo_head V ttl now gid s = Inr (s', att)"
  shows "db_ok s'"
proof (cases "queue s = []")
  case True
  then show ?thesis using assms by (simp add: claim_fifo_head_def)
next
  case False
  let ?r = "arg_min_list queue_sort_key (queue s)"
  note head = queue_head [OF assms(1) False]
  have ok: "request_ok ?r" and na: "\<not> is_active ?r"
    using head assms(1) queued_not_active by (auto simp: db_ok_def)
  show ?thesis
  proof (cases "build_execution V s ?r")
    case BuildCrashed
    then show ?thesis using assms(2) False by (simp add: claim_fifo_head_def Let_def)
  next
    case (BuildRejected m)
    then have s': "s' = put_row (preflight_failed_row now m ?r) (s\<lparr>gpu_leases := gpu_leases s\<rparr>)"
      using assms(2) False by (simp add: claim_fifo_head_def Let_def)
    show ?thesis
      unfolding s' using head ok na assms(1)
      by (intro wf_same_claim) (auto simp: request_ok_def db_ok_def)
  next
    case (Built ex)
    let ?r1 = "set_rgen (rversion ?r) ?r"
    let ?ow = "owner_at (rgen ?r1) ?r1"
    from Built obtain L a where acq: "try_acquire_locked ttl (gpu_leases s) ?ow (rgpus ?r1) now gid [] = Inr (L, a)"
      using assms(2) False by (auto simp: claim_fifo_head_def Let_def split: sum.splits)
    have L: "lease_inv L" using leases.acquire_inv [OF _ acq] assms(1) by (simp add: db_ok_def)
    show ?thesis
    proof (cases "acquired a")
      case True
      then have s': "s' = put_row (claimed_row ?r1) (s\<lparr>gpu_leases := L\<rparr>)"
        using assms(2) False Built acq by (simp add: claim_fifo_head_def Let_def)
      have h: "held L k = (if k = owner_key ?ow then set (rgpus ?r1) else held (gpu_leases s) k)" for k
        using leases.acquire_cards [OF _ acq True] assms(1) by (simp add: db_ok_def)
      show ?thesis
        unfolding s'
      proof (rule wf_put_row [OF assms(1), where r = ?r])
        show "get_row (row_key (claimed_row ?r1)) s = Some ?r" using head by simp
        show "request_ok (claimed_row ?r1)" using ok by (simp add: request_ok_def)
        fix g
        show "held L (row_type (claimed_row ?r1), rid (claimed_row ?r1), g)
          = (if is_active (claimed_row ?r1) \<and> rgen (claimed_row ?r1) = g then set (rgpus (claimed_row ?r1)) else {})"
          using wf_own [OF assms(1) head(3), of g] na by (simp add: h)
      next
        fix ty i g assume "(ty, i) \<noteq> row_key (claimed_row ?r1)"
        then show "held L (ty, i, g) = held (gpu_leases s) (ty, i, g)" by (auto simp: h row_key_def)
      qed (rule L)
    next
      case False
      then have s': "s' = put_row (set_rgen 0 ?r1) (s\<lparr>gpu_leases := L\<rparr>)"
        using assms(2) \<open>queue s \<noteq> []\<close> Built acq by (simp add: claim_fifo_head_def Let_def)
      have "L = gpu_leases s" using leases.acquire_refused [OF _ acq False] assms(1) by (simp add: db_ok_def)
      then show ?thesis
        unfolding s' using head ok na L
        by (intro wf_same_claim [OF assms(1), where r = ?r]) (auto simp: request_ok_def)
    qed
  qed
qed

section \<open>Observations\<close>

text \<open>
  An observation keeps the identity of a row; a live state keeps it active and its leases, any
  other state ends its activity and releases the observed generation.
\<close>

definition same_request :: "row \<Rightarrow> row \<Rightarrow> bool" where
  "same_request r r' \<longleftrightarrow> row_key r' = row_key r \<and> rname r' = rname r \<and> rgpus r' = rgpus r
     \<and> rversion r' = rversion r"

lemma request_ok_same:
  "same_request r r' \<Longrightarrow> request_ok r \<Longrightarrow> rgen r' = rgen r \<and> is_active r \<or> \<not> is_active r' \<Longrightarrow> request_ok r'"
  by (auto simp: same_request_def request_ok_def)

lemma copy_training_metadata_simps [simp]:
  "row_id (copy_training_metadata md t) = row_id t" "row_name (copy_training_metadata md t) = row_name t"
  "gpu_ids (copy_training_metadata md t) = gpu_ids t"
  "state_version (copy_training_metadata md t) = state_version t"
  "runtime_generation (copy_training_metadata md t) = runtime_generation t"
  "job_actual (copy_training_metadata md t) = job_actual t"
  "job_desired (copy_training_metadata md t) = job_desired t"
  by (simp_all add: copy_training_metadata_def)

lemma first_running_simps [simp]:
  "row_id (first_running resp now r) = row_id r" "row_name (first_running resp now r) = row_name r"
  "gpu_ids (first_running resp now r) = gpu_ids r"
  "state_version (first_running resp now r) = state_version r"
  "runtime_generation (first_running resp now r) = runtime_generation r"
  by (simp_all add: first_running_def)

lemma first_running_job [simp]: "job_actual (first_running resp now j) = job_actual j"
  by (simp add: first_running_def)

lemma job_live_simps [simp]:
  "row_id (job_live resp j) = row_id j" "row_name (job_live resp j) = row_name j"
  "gpu_ids (job_live resp j) = gpu_ids j" "state_version (job_live resp j) = state_version j"
  "runtime_generation (job_live resp j) = runtime_generation j"
  by (simp_all add: job_live_def)

lemma job_absent_simps [simp]:
  "row_id (job_absent resp now j) = row_id j" "row_name (job_absent resp now j) = row_name j"
  "gpu_ids (job_absent resp now j) = gpu_ids j" "state_version (job_absent resp now j) = state_version j"
  "job_actual (job_absent resp now j) \<in> {J_CANCELED, J_FAILED}"
  by (simp_all add: job_absent_def)

lemma training_finished_simps [simp]:
  "row_id (training_finished V resp now t) = row_id t" "row_name (training_finished V resp now t) = row_name t"
  "gpu_ids (training_finished V resp now t) = gpu_ids t"
  "state_version (training_finished V resp now t) = state_version t"
  "job_actual (training_finished V resp now t) \<in> {J_SUCCEEDED, J_FAILED}"
  by (simp_all add: training_finished_def Let_def split: sum.split option.split)

lemma evaluation_finished_simps [simp]:
  "row_id (evaluation_finished V resp now t) = row_id t" "row_name (evaluation_finished V resp now t) = row_name t"
  "gpu_ids (evaluation_finished V resp now t) = gpu_ids t"
  "state_version (evaluation_finished V resp now t) = state_version t"
  "job_actual (evaluation_finished V resp now t) \<in> {J_SUCCEEDED, J_FAILED}"
  by (simp_all add: evaluation_finished_def split: sum.split)

lemma training_live_simps [simp]:
  "row_id (training_live V resp now t) = row_id t" "row_name (training_live V resp now t) = row_name t"
  "gpu_ids (training_live V resp now t) = gpu_ids t"
  "state_version (training_live V resp now t) = state_version t"
  "runtime_generation (training_live V resp now t) = runtime_generation t"
  "job_actual (training_live V resp now t) = job_actual (job_live resp t)"
  by (simp_all add: training_live_def Let_def split: sum.split)

lemma evaluation_live_simps [simp]:
  "row_id (evaluation_live resp now t) = row_id t" "row_name (evaluation_live resp now t) = row_name t"
  "gpu_ids (evaluation_live resp now t) = gpu_ids t"
  "state_version (evaluation_live resp now t) = state_version t"
  "runtime_generation (evaluation_live resp now t) = runtime_generation t"
  "job_actual (evaluation_live resp now t) = job_actual (job_live resp t)"
  by (simp_all add: evaluation_live_def)

lemma job_live_active: "observed_state resp \<in> live_states \<Longrightarrow> job_actual (job_live resp j) \<in> active_job_states"
  by (auto simp: job_live_def active_job_states_def)

lemma not_live: "st \<notin> live_states \<longleftrightarrow> st = ABSENT \<or> st = SUCCEEDED \<or> st = FAILED"
  by (cases st) auto

lemma row_observation_cases:
  assumes "apply_row_observation V r ow resp now L = (r', L')"
  shows "same_request r r' \<and>
    (if observed_state resp \<in> live_states then L' = L \<and> rgen r' = rgen r \<and> is_active r'
     else L' = fst (release L ow) \<and> \<not> is_active r')"
proof (cases r)
  case (DeploymentRow d)
  show ?thesis
    using assms DeploymentRow
    by (cases "observed_state resp")
       (auto simp: apply_deployment_observation_def Let_def same_request_def row_key_def
          active_deployment_states_def split: if_splits)
next
  case (TrainingRow t)
  have "job_actual (job_absent resp now t) \<notin> active_job_states"
    "job_actual (training_finished V resp now t) \<notin> active_job_states"
    using job_absent_simps(5) [of resp now t] training_finished_simps(5) [of V resp now t]
    by (auto simp: active_job_states_def)
  then show ?thesis
    using assms TrainingRow job_live_active [of resp t]
    by (cases "observed_state resp") (auto simp: same_request_def row_key_def)
next
  case (EvaluationRow e)
  have "job_actual (job_absent resp now e) \<notin> active_job_states"
    "job_actual (evaluation_finished V resp now e) \<notin> active_job_states"
    using job_absent_simps(5) [of resp now e] evaluation_finished_simps(5) [of V resp now e]
    by (auto simp: active_job_states_def)
  then show ?thesis
    using assms EvaluationRow job_live_active [of resp e]
    by (cases "observed_state resp") (auto simp: same_request_def row_key_def)
qed

text \<open>
  A snapshot the reconciler still has to act on: if its generation is still the row's, the row is
  still active.
\<close>

definition pending_ok :: "db \<Rightarrow> lease_owner \<Rightarrow> bool" where
  "pending_ok s ow \<longleftrightarrow>
     (case get_row (owner_row_key ow) s of
        Some r \<Rightarrow> rgen r = own_generation ow \<longrightarrow> is_active r
      | None \<Rightarrow> True)"

lemma wf_observation:
  assumes "db_ok s" and "pending_ok s ow"
  shows "db_ok (apply_observation V ttl ow resp now s)"
proof (cases "get_row (owner_row_key ow) s")
  case None
  then show ?thesis using assms(1) by (simp add: apply_observation_def)
next
  case (Some r)
  show ?thesis
  proof (cases "rgen r = own_generation ow")
    case False
    then show ?thesis using Some assms(1) by (simp add: apply_observation_def)
  next
    case True
    then have act: "is_active r" using assms(2) Some by (simp add: pending_ok_def)
    obtain r' L where o: "apply_row_observation V r ow resp now (gpu_leases s) = (r', L)"
      by (cases "apply_row_observation V r ow resp now (gpu_leases s)")
    note c = row_observation_cases [OF o]
    have rk: "row_key r = owner_row_key ow" and rok: "request_ok r" using wf_row [OF assms(1) Some] by auto
    have k: "row_key r' = owner_row_key ow" using c rk by (simp add: same_request_def)
    show ?thesis
    proof (cases "observed_state resp \<in> live_states")
      case live: True
      then have s': "apply_observation V ttl ow resp now s
          = put_row r' (s\<lparr>gpu_leases := fst (heartbeat ttl (gpu_leases s) ow now)\<rparr>)"
        using Some True o c by (simp add: apply_observation_def)
      show ?thesis
        unfolding s' using c live act Some k rok assms(1)
        by (intro wf_same_claim [OF assms(1), where r = r])
           (auto simp: leases.beat_cards leases.beat_inv db_ok_def same_request_def intro: request_ok_same)
    next
      case dead: False
      then have s': "apply_observation V ttl ow resp now s
          = put_row r' (s\<lparr>gpu_leases := fst (release (gpu_leases s) ow)\<rparr>)"
        using Some True o c by (simp add: apply_observation_def)
      show ?thesis
        unfolding s' using c dead act Some k rok True
        by (intro wf_released [OF assms(1), where r = r]) (auto intro: request_ok_same)
    qed
  qed
qed

section \<open>Errors, failed starts, reaping\<close>

lemma wf_record_agent_error: "db_ok s \<Longrightarrow> db_ok (record_agent_error ow m s)"
proof (cases "get_row (owner_row_key ow) s")
  case (Some r)
  assume wf: "db_ok s"
  have "db_ok (put_row (set_rerror (Some (CallFailed m)) r) (s\<lparr>gpu_leases := gpu_leases s\<rparr>))"
    using Some wf_row [OF wf Some] wf
    by (intro wf_same_claim [OF wf, where r = r]) (auto simp: db_ok_def request_ok_def)
  with Some wf show ?thesis by (simp add: record_agent_error_def)
qed (simp add: record_agent_error_def)

lemma failed_start_simps:
  "same_request r (failed_start_row now m r)" "\<not> is_active (failed_start_row now m r)"
  by (cases r; simp add: same_request_def row_key_def active_deployment_states_def active_job_states_def)+

lemma wf_fail_start: "db_ok s \<Longrightarrow> db_ok (fail_start ow m now s)"
proof (cases "get_row (owner_row_key ow) s")
  case (Some r)
  assume wf: "db_ok s"
  show ?thesis
  proof (cases "rgen r = own_generation ow")
    case True
    then show ?thesis
      using Some wf_row [OF wf Some] wf failed_start_simps
      by (simp add: fail_start_def)
         (intro wf_released [OF wf, where r = r], auto simp: same_request_def request_ok_def)
  qed (use Some wf in \<open>simp add: fail_start_def\<close>)
qed (simp add: fail_start_def)

text \<open>In a consistent database every lease belongs to an active row, so there is nothing to reap.\<close>

lemma confirmed_not_held:
  assumes "db_ok s" and "l \<in> set (gpu_leases s)"
  shows "lease_key_of l \<notin> confirmed_keys now s"
proof
  assume c: "lease_key_of l \<in> confirmed_keys now s"
  obtain r where r: "r \<in> set (all_rows s)" "is_active r" "lease_key_of l = row_lease_key r"
    using assms by (auto simp: db_ok_def leases_match_def)
  then have "get_row (row_type r, rid r) s = Some r"
    using assms(1) by (simp add: get_row_iff db_ok_def row_key_def)
  with c r(3) have "is_terminal r" by (auto simp: confirmed_keys_def row_lease_key_def)
  with r(2) show False
    by (cases r) (auto simp: active_deployment_states_def terminal_deployment_states_def
        active_job_states_def terminal_job_states_def)
qed

lemma reap_nothing: "db_ok s \<Longrightarrow> fst (reap_terminal_expired_leases now s) = s"
proof -
  assume wf: "db_ok s"
  then have d: "distinct (map gpu_index (gpu_leases s))" by (simp add: db_ok_def lease_inv_def)
  have "fst (reap_expired_locked (gpu_leases s) (confirmed_keys now s) now) = gpu_leases s"
    unfolding reap_rows [OF d] filter_id_conv using confirmed_not_held [OF wf] by blast
  then show ?thesis by (simp add: reap_terminal_expired_leases_def split_beta)
qed

section \<open>Pending snapshots\<close>

lemma pending_put_other:
  assumes "pending_ok s ow" and "row_key r' \<noteq> owner_row_key ow"
  shows "pending_ok (put_row r' (s\<lparr>gpu_leases := L\<rparr>)) ow"
  using assms by (simp add: pending_ok_def get_row_put_row)

lemma pending_observation_other:
  assumes "db_ok s" and "pending_ok s ow'" and "owner_row_key ow \<noteq> owner_row_key ow'"
  shows "pending_ok (apply_observation V ttl ow resp now s) ow'"
proof (cases "get_row (owner_row_key ow) s")
  case (Some r)
  obtain r' L where o: "apply_row_observation V r ow resp now (gpu_leases s) = (r', L)"
    by (cases "apply_row_observation V r ow resp now (gpu_leases s)")
  have "row_key r' = owner_row_key ow"
    using row_observation_cases [OF o] wf_row [OF assms(1) Some] by (simp add: same_request_def)
  then show ?thesis
    using Some o assms(2,3) pending_put_other [OF assms(2), of r']
    by (simp add: apply_observation_def)
qed (simp add: assms(2) apply_observation_def)

text \<open>After a live observation the observed row itself is still active.\<close>

lemma pending_observation_live:
  assumes "db_ok s" and "pending_ok s ow" and "observed_state resp \<in> live_states"
  shows "pending_ok (apply_observation V ttl ow resp now s) ow"
proof (cases "get_row (owner_row_key ow) s")
  case (Some r)
  obtain r' L where o: "apply_row_observation V r ow resp now (gpu_leases s) = (r', L)"
    by (cases "apply_row_observation V r ow resp now (gpu_leases s)")
  note c = row_observation_cases [OF o]
  have "row_key r' = owner_row_key ow" using c wf_row [OF assms(1) Some] by (simp add: same_request_def)
  then show ?thesis
    using Some o assms c by (simp add: apply_observation_def pending_ok_def get_row_put_row)
qed (use assms in \<open>simp add: apply_observation_def\<close>)

lemma pending_record_agent_error:
  assumes "db_ok s" and "pending_ok s ow'"
  shows "pending_ok (record_agent_error ow m s) ow'"
proof (cases "get_row (owner_row_key ow) s")
  case (Some r)
  then have "row_key r = owner_row_key ow" using wf_row assms(1) by blast
  with Some assms(2) show ?thesis
    by (auto simp: record_agent_error_def pending_ok_def get_row_put_row)
qed (simp add: assms(2) record_agent_error_def)

lemma pending_snapshot:
  assumes "db_ok s" and "r \<in> set (all_rows s)" and "is_active r"
  shows "pending_ok s (snap_owner (snapshot r ex)) \<and> 1 \<le> own_generation (snap_owner (snapshot r ex))
    \<and> owner_row_key (snap_owner (snapshot r ex)) = row_key r"
proof -
  have "1 \<le> rgen r" using assms by (auto simp: db_ok_def request_ok_def)
  moreover have "get_row (row_key r) s = Some r" using assms get_row_iff by (simp add: db_ok_def)
  ultimately show ?thesis using assms(3) by (simp add: snapshot_def pending_ok_def)
qed

lemma pending_loaded:
  assumes "db_ok s" and "w \<in> set (load_active_workloads s)"
  shows "pending_ok s (snap_owner w) \<and> 1 \<le> own_generation (snap_owner w)"
  using assms pending_snapshot by (auto simp: load_active_workloads_def)

lemma distinct_all_rows: "keys_ok s \<Longrightarrow> distinct (map row_key (all_rows s))"
proof -
  assume k: "keys_ok s"
  have m: "map row_key (all_rows s) = map (\<lambda>d. (DEPLOYMENT, row_id d)) (deployments s)
      @ map (\<lambda>t. (TRAINING, row_id t)) (training_jobs s) @ map (\<lambda>e. (EVALUATION, row_id e)) (evaluation_runs s)"
    by (simp add: all_rows_def row_key_def comp_def)
  have d: "distinct (map (\<lambda>x. (c, f x)) xs)" if "distinct (map f xs)" for c :: lease_owner_type and f :: "'a \<Rightarrow> uuid" and xs
    using that by (auto simp: distinct_map inj_on_def)
  show ?thesis using k unfolding m keys_ok_def keyed_def by (auto simp: d)
qed

lemma loaded_keys_distinct:
  assumes "db_ok s" shows "distinct (map (\<lambda>w. owner_row_key (snap_owner w)) (load_active_workloads s))"
proof -
  have "map (\<lambda>w. owner_row_key (snap_owner w)) (load_active_workloads s)
      = map row_key (filter is_active (all_rows s))"
    by (simp add: load_active_workloads_def snapshot_def comp_def)
  then show ?thesis using distinct_all_rows assms by (simp add: db_ok_def distinct_map_filter_key)
qed

lemma pending_claimed:
  assumes "db_ok s" and "claim_fifo_head V ttl now gid s = Inr (s', Claimed w)"
  shows "pending_ok s' (snap_owner w) \<and> 1 \<le> own_generation (snap_owner w)"
proof (cases "queue s = []")
  case True
  then show ?thesis using assms(2) by (simp add: claim_fifo_head_def)
next
  case False
  let ?r = "arg_min_list queue_sort_key (queue s)"
  note head = queue_head [OF assms(1) False]
  have v: "1 \<le> rversion ?r" using head(1) assms(1) by (auto simp: db_ok_def request_ok_def)
  obtain ex L where "s' = put_row (claimed_row (set_rgen (rversion ?r) ?r)) (s\<lparr>gpu_leases := L\<rparr>)"
      "w = snapshot (claimed_row (set_rgen (rversion ?r) ?r)) ex"
    using assms(2) False by (auto simp: claim_fifo_head_def Let_def split: build_result.splits sum.splits if_splits)
  with head(3) v show ?thesis by (simp add: snapshot_def pending_ok_def get_row_put_row)
qed

section \<open>Commands are always well formed\<close>

definition sendable :: "workload_snapshot \<Rightarrow> bool" where
  "sendable w \<longleftrightarrow> 1 \<le> length (own_name (snap_owner w)) \<and> length (own_name (snap_owner w)) \<le> 128
     \<and> 1 \<le> own_generation (snap_owner w) \<and> snap_gpu_ids w \<noteq> []"

lemma sendable_command: "sendable w \<Longrightarrow> command_for w a u \<noteq> None"
  by (simp add: sendable_def command_for_def Let_def command_fields_ok_def)

lemma sendable_snapshot: "request_ok r \<Longrightarrow> is_active r \<Longrightarrow> sendable (snapshot r ex)"
  by (auto simp: sendable_def snapshot_def request_ok_def dest: arg_cong [where f = set])

lemma sendable_loaded: "db_ok s \<Longrightarrow> w \<in> set (load_active_workloads s) \<Longrightarrow> sendable w"
  using sendable_snapshot by (auto simp: load_active_workloads_def db_ok_def)

lemma claim_cases:
  assumes "db_ok s" and "queue s \<noteq> []"
  defines "r \<equiv> arg_min_list queue_sort_key (queue s)"
  defines "ow \<equiv> owner_at (rversion r) r"
  obtains
    (crash) "build_execution V s r = BuildCrashed" "claim_fifo_head V ttl now gid s = Inl MissingModelAsset"
  | (preflight) m where "build_execution V s r = BuildRejected m"
      "claim_fifo_head V ttl now gid s = Inr (put_row (preflight_failed_row now m r) s, PreflightFailed)"
  | (block) ex a where "build_execution V s r = Built ex"
      "try_acquire_locked ttl (gpu_leases s) ow (rgpus r) now gid [] = Inr (gpu_leases s, a)" "\<not> acquired a"
      "claim_fifo_head V ttl now gid s = Inr (put_row (set_rgen 0 r) s, Blocked (blocking_owner a))"
  | (claim) ex L a where "build_execution V s r = Built ex"
      "try_acquire_locked ttl (gpu_leases s) ow (rgpus r) now gid [] = Inr (L, a)" "acquired a"
      "claim_fifo_head V ttl now gid s = Inr (put_row (claimed_row (set_rgen (rversion r) r)) (s\<lparr>gpu_leases := L\<rparr>),
         Claimed (snapshot (claimed_row (set_rgen (rversion r) r)) ex))"
proof -
  note head = queue_head [OF assms(1,2), folded r_def]
  have ok: "request_ok r" and na: "\<not> is_active r"
    using head assms(1) queued_not_active by (auto simp: db_ok_def)
  have o: "owner_at (rgen (set_rgen (rversion r) r)) (set_rgen (rversion r) r) = ow"
    by (simp add: owner_at_def ow_def)
  have g: "set_rgen 0 (set_rgen x r) = set_rgen 0 r" for x by (cases r) auto
  have s: "s\<lparr>gpu_leases := gpu_leases s\<rparr> = s" by simp
  show thesis
  proof (cases "build_execution V s r")
    case BuildCrashed
    then show ?thesis using crash assms(2) by (simp add: claim_fifo_head_def Let_def r_def)
  next
    case (BuildRejected m)
    then show ?thesis using preflight assms(2) by (simp add: claim_fifo_head_def Let_def r_def)
  next
    case (Built ex)
    have "normalize_gpu_ids (rgpus r) = Inr (sort (rgpus r))"
      using ok by (intro normalize_gpu_ids_ok) (auto simp: request_ok_def)
    then obtain L a where acq: "try_acquire_locked ttl (gpu_leases s) ow (rgpus r) now gid [] = Inr (L, a)"
      using acquire_never_errs no_owned_leases [OF assms(1) head(3) na] unfolding ow_def by blast
    show ?thesis
    proof (cases "acquired a")
      case True
      show ?thesis
        by (rule claim [OF Built acq True])
           (use acq True assms(2) Built o in \<open>simp add: claim_fifo_head_def Let_def flip: r_def\<close>)
    next
      case False
      have L: "L = gpu_leases s" using leases.acquire_refused [OF _ acq False] assms(1) by (simp add: db_ok_def)
      show ?thesis
        by (rule block [OF Built acq [unfolded L] False])
           (use acq False assms(2) Built o L g s in \<open>simp add: claim_fifo_head_def Let_def flip: r_def\<close>)
    qed
  qed
qed

lemma claim_no_scheduler_error:
  assumes "db_ok s"
  shows "claim_fifo_head V ttl now gid s = Inl err \<Longrightarrow> err = MissingModelAsset"
    and "claim_fifo_head V ttl now gid s = Inr (s', Claimed w) \<Longrightarrow> sendable w"
proof -
  show "claim_fifo_head V ttl now gid s = Inl err \<Longrightarrow> err = MissingModelAsset"
    by (cases "queue s = []", simp add: claim_fifo_head_def, cases rule: claim_cases [OF assms, of V ttl now gid])
       auto
  assume c: "claim_fifo_head V ttl now gid s = Inr (s', Claimed w)"
  then have q: "queue s \<noteq> []" by (auto simp: claim_fifo_head_def)
  let ?r = "arg_min_list queue_sort_key (queue s)"
  have ok: "request_ok ?r" using queue_head(1) [OF assms q] assms by (auto simp: db_ok_def)
  from c obtain ex where "w = snapshot (claimed_row (set_rgen (rversion ?r) ?r)) ex"
    by (cases rule: claim_cases [OF assms q, of V ttl now gid]) auto
  moreover have "request_ok (claimed_row (set_rgen (rversion ?r) ?r))" using ok by (simp add: request_ok_def)
  ultimately show "sendable w" using sendable_snapshot by simp
qed

section \<open>A whole round, with request handlers in between\<close>

text \<open>
  What the reconciler needs of the steps other parts of the program may take while it waits for the
  agent: they keep the invariant, and they never turn an active row into an inactive one under the
  same generation.
\<close>

locale interference =
  fixes step :: "db \<Rightarrow> db \<Rightarrow> bool"
  assumes step_wf: "db_ok s \<Longrightarrow> step s s' \<Longrightarrow> db_ok s'"
    and step_pending: "db_ok s \<Longrightarrow> step s s' \<Longrightarrow> 1 \<le> own_generation ow \<Longrightarrow> pending_ok s ow \<Longrightarrow>
          pending_ok s' ow"
begin

lemma steps_wf: "step\<^sup>*\<^sup>* s s' \<Longrightarrow> db_ok s \<Longrightarrow> db_ok s'"
  by (induction rule: rtranclp_induct) (auto intro: step_wf)

lemma steps_pending:
  "step\<^sup>*\<^sup>* s s' \<Longrightarrow> db_ok s \<Longrightarrow> 1 \<le> own_generation ow \<Longrightarrow> pending_ok s ow \<Longrightarrow> pending_ok s' ow"
proof (induction rule: rtranclp_induct)
  case (step t u)
  then show ?case using step_pending steps_wf by metis
qed

lemma send_steps:
  assumes "\<And>e s c. step\<^sup>*\<^sup>* s (snd (fst (w_call W e s c)))" and "send W e s w a = Some ((e1, s1), x)"
  shows "step\<^sup>*\<^sup>* s s1"
proof -
  obtain e0 u where u: "w_uuid W e = (e0, u)" by (cases "w_uuid W e")
  with assms(2) obtain c where "w_call W e0 s c = ((e1, s1), x)" by (auto simp: send_def)
  then show ?thesis using assms(1) [of s e0 c] by simp
qed

lemma send_sendable: "sendable w \<Longrightarrow> send W e s w a \<noteq> None"
  using sendable_command [of w a] by (cases "w_uuid W e") (simp add: send_def)

lemma observe_wf:
  assumes "db_ok s" and "pending_ok s (snap_owner w)" and "observe W V ttl w resp e s = (e', s')"
  shows "db_ok s'" and "owner_row_key (snap_owner w) \<noteq> owner_row_key ow \<Longrightarrow> pending_ok s ow \<Longrightarrow> pending_ok s' ow"
    and "observed_state resp \<in> live_states \<Longrightarrow> pending_ok s' (snap_owner w)"
  using assms wf_observation pending_observation_other pending_observation_live
  by (auto simp: observe_def split: prod.splits)

lemma inspect_one_safe:
  assumes calls: "\<And>e s c. step\<^sup>*\<^sup>* s (snd (fst (w_call W e s c)))"
    and "db_ok s" and "pending_ok s (snap_owner w)" and "sendable w"
    and run: "inspect_one W V ttl w (e, s, rep) = ((e', s', rep'), err)"
  shows "db_ok s' \<and> err = None
    \<and> (\<forall>ow. owner_row_key ow \<noteq> owner_row_key (snap_owner w) \<longrightarrow> 1 \<le> own_generation ow
          \<longrightarrow> pending_ok s ow \<longrightarrow> pending_ok s' ow)"
proof -
  let ?ow = "snap_owner w"
  let ?a = "if probe_before_stop w then STATUS else action_for_active w"
  have g: "1 \<le> own_generation ?ow" using assms(4) by (simp add: sendable_def)
  obtain e1 s1 x where x: "send W e s w ?a = Some ((e1, s1), x)"
    using send_sendable [OF assms(4)] by (metis not_None_eq prod.exhaust)
  have st: "step\<^sup>*\<^sup>* s s1" by (rule send_steps [OF calls x])
  have wf1: "db_ok s1" and p1: "pending_ok s1 ?ow"
    using steps_wf [OF st assms(2)] steps_pending [OF st assms(2) g assms(3)] .
  show ?thesis
  proof (cases x)
    case (Inl m)
    then have "s' = record_agent_error ?ow m s1" "err = None"
      using run x by (auto simp: inspect_one_def Let_def)
    then show ?thesis
      using wf_record_agent_error [OF wf1] pending_record_agent_error [OF wf1] steps_pending [OF st assms(2)]
      by blast
  next
    case (Inr resp)
    obtain e2 s2 where o: "observe W V ttl w resp e1 s1 = (e2, s2)" by (cases "observe W V ttl w resp e1 s1")
    note o' = observe_wf [OF wf1 p1 o]
    have p2: "pending_ok s2 ow"
      if "owner_row_key ow \<noteq> owner_row_key ?ow" "1 \<le> own_generation ow" "pending_ok s ow" for ow
      using o'(2) [of ow] steps_pending [OF st assms(2) that(2,3)] that(1) by simp
    show ?thesis
    proof (cases "probe_before_stop w \<and> accepted resp \<and> observed_state resp \<in> live_states")
      case False
      then have "s' = s2" "err = None" using run x Inr o by (auto simp: inspect_one_def Let_def)
      then show ?thesis using o'(1) p2 by blast
    next
      case True
      obtain e3 s3 y where y: "send W e2 s2 w STOP = Some ((e3, s3), y)"
        using send_sendable [OF assms(4)] by (metis not_None_eq prod.exhaust)
      have st3: "step\<^sup>*\<^sup>* s2 s3" by (rule send_steps [OF calls y])
      have wf3: "db_ok s3" and q3: "pending_ok s3 ?ow"
        using steps_wf [OF st3 o'(1)] steps_pending [OF st3 o'(1) g o'(3)] True by auto
      have p3: "pending_ok s3 ow"
        if "owner_row_key ow \<noteq> owner_row_key ?ow" "1 \<le> own_generation ow" "pending_ok s ow" for ow
        using steps_pending [OF st3 o'(1)] p2 that by blast
      show ?thesis
      proof (cases y)
        case (Inl m)
        then have "s' = record_agent_error ?ow m s3" "err = None"
          using run x Inr o y True by (auto simp: inspect_one_def Let_def)
        then show ?thesis
          using wf_record_agent_error [OF wf3] pending_record_agent_error [OF wf3] p3 by blast
      next
        case (Inr stop_resp)
        obtain e4 s4 where o4: "observe W V ttl w stop_resp e3 s3 = (e4, s4)"
          by (cases "observe W V ttl w stop_resp e3 s3")
        then have "s' = s4" "err = None"
          using run x \<open>x = Inr resp\<close> o y True Inr by (auto simp: inspect_one_def Let_def)
        then show ?thesis using observe_wf(1,2) [OF wf3 q3 o4] p3 by metis
      qed
    qed
  qed
qed

lemma inspect_all_safe:
  assumes calls: "\<And>e s c. step\<^sup>*\<^sup>* s (snd (fst (w_call W e s c)))"
  shows "db_ok s \<Longrightarrow> \<forall>w \<in> set ws. pending_ok s (snap_owner w) \<and> sendable w \<Longrightarrow>
     distinct (map (\<lambda>w. owner_row_key (snap_owner w)) ws) \<Longrightarrow>
     inspect_all W V ttl ws (e, s, rep) = ((e', s', rep'), err) \<Longrightarrow> db_ok s' \<and> err = None"
proof (induction ws arbitrary: e s rep)
  case (Cons w ws)
  obtain e1 s1 rep1 x where i: "inspect_one W V ttl w (e, s, rep) = ((e1, s1, rep1), x)"
    by (cases "inspect_one W V ttl w (e, s, rep)") auto
  have one: "db_ok s1" "x = None" and pend: "\<forall>ow. owner_row_key ow \<noteq> owner_row_key (snap_owner w) \<longrightarrow>
      1 \<le> own_generation ow \<longrightarrow> pending_ok s ow \<longrightarrow> pending_ok s1 ow"
    using inspect_one_safe [OF calls _ _ _ i] Cons.prems by auto
  have "\<forall>v \<in> set ws. pending_ok s1 (snap_owner v) \<and> sendable v"
  proof
    fix v assume v: "v \<in> set ws"
    then have "owner_row_key (snap_owner v) \<noteq> owner_row_key (snap_owner w)" using Cons.prems(3) by (auto simp: image_iff)
    then show "pending_ok s1 (snap_owner v) \<and> sendable v"
      using pend v Cons.prems(2) by (simp add: sendable_def)
  qed
  moreover have "inspect_all W V ttl ws (e1, s1, rep1) = ((e', s', rep'), err)"
    using Cons.prems(4) i one(2) by simp
  ultimately show ?case using Cons.IH [OF one(1)] Cons.prems(3) by simp
qed simp

lemma start_claimed_safe:
  assumes calls: "\<And>e s c. step\<^sup>*\<^sup>* s (snd (fst (w_call W e s c)))"
    and "db_ok s" and "pending_ok s (snap_owner w)" and "sendable w"
    and run: "start_claimed W V ttl w (e, s, rep) = ((e', s', rep'), err)"
  shows "db_ok s' \<and> err = None"
proof -
  have g: "1 \<le> own_generation (snap_owner w)" using assms(4) by (simp add: sendable_def)
  obtain e1 s1 x where x: "send W e s w START = Some ((e1, s1), x)"
    using send_sendable [OF assms(4)] by (metis not_None_eq prod.exhaust)
  have st: "step\<^sup>*\<^sup>* s s1" by (rule send_steps [OF calls x])
  have wf1: "db_ok s1" and p1: "pending_ok s1 (snap_owner w)"
    using steps_wf [OF st assms(2)] steps_pending [OF st assms(2) g assms(3)] .
  show ?thesis
  proof (cases x)
    case (Inl m)
    then show ?thesis using run x wf_record_agent_error [OF wf1] by (auto simp: start_claimed_def Let_def)
  next
    case (Inr resp)
    then show ?thesis
      using run x wf_fail_start [OF wf1] wf_observation [OF wf1 p1]
      by (auto simp: start_claimed_def Let_def observe_def split: if_splits prod.splits)
  qed
qed

lemma schedule_loop_safe:
  assumes calls: "\<And>e s c. step\<^sup>*\<^sup>* s (snd (fst (w_call W e s c)))"
  shows "db_ok s \<Longrightarrow> schedule_loop W V ttl n (e, s, rep) = Some ((e', s', rep'), err) \<Longrightarrow>
     db_ok s' \<and> err \<in> {None, Some MissingModelAsset}"
proof (induction n arbitrary: e s rep)
  case (Suc n)
  obtain e1 now e2 gid where ev: "w_clock W e = (e1, now)" "w_uuid W e1 = (e2, gid)"
    by (cases "w_clock W e"; cases "w_uuid W (fst (w_clock W e))") auto
  show ?case
  proof (cases "claim_fifo_head V ttl now gid s")
    case (Inl x)
    then show ?thesis using Suc.prems ev claim_no_scheduler_error(1) [OF Suc.prems(1) Inl] by auto
  next
    case (Inr p)
    obtain s1 att where p: "p = (s1, att)" by (cases p)
    have wf1: "db_ok s1" using wf_claim [OF Suc.prems(1)] Inr p by blast
    show ?thesis
    proof (cases att)
      case (Claimed w)
      obtain e3 s3 rep3 x where sc: "start_claimed W V ttl w (e2, s1, rep) = ((e3, s3, rep3), x)"
        by (cases "start_claimed W V ttl w (e2, s1, rep)") auto
      have "pending_ok s1 (snap_owner w)" "sendable w"
        using pending_claimed [OF Suc.prems(1)] claim_no_scheduler_error(2) [OF Suc.prems(1)] Inr p Claimed by auto
      then have "db_ok s3 \<and> x = None" using start_claimed_safe [OF calls wf1 _ _ sc] by blast
      then show ?thesis using Suc.prems ev Inr p Claimed sc Suc.IH [of s3 e3 rep3] by simp
    qed (use Suc ev Inr p wf1 in auto)
  qed
qed simp

lemma run_once_safe:
  assumes calls: "\<And>e s c. step\<^sup>*\<^sup>* s (snd (fst (w_call W e s c)))"
    and wf: "db_ok s" and run: "run_once W V ttl fuel e s = Some ((e', s', rep'), err)"
  shows "db_ok s' \<and> err \<in> {None, Some MissingModelAsset}"
proof -
  obtain e1 s1 rep1 x where i: "inspect_all W V ttl (load_active_workloads s) (e, s, empty_report) = ((e1, s1, rep1), x)"
    by (cases "inspect_all W V ttl (load_active_workloads s) (e, s, empty_report)") auto
  have one: "db_ok s1 \<and> x = None"
    by (rule inspect_all_safe [OF calls wf _ loaded_keys_distinct [OF wf] i])
       (use pending_loaded [OF wf] sendable_loaded [OF wf] in blast)
  obtain e2 now where c: "w_clock W e1 = (e2, now)" by (cases "w_clock W e1")
  obtain n where r: "reap_terminal_expired_leases now s1 = (s1, n)"
    using reap_nothing [of s1 now] one by (cases "reap_terminal_expired_leases now s1") auto
  have "schedule_loop W V ttl fuel (e2, s1, rep1\<lparr>terminal_leases_reaped := n\<rparr>) = Some ((e', s', rep'), err)"
    using run i one c r by (simp add: run_once_def)
  then show ?thesis using schedule_loop_safe [OF calls] one by blast
qed

end

end
