(* ===== verification/VllmArgs.thy ===== *)
theory VllmArgs
  imports GpuScheduler PyStrings "HOL-Library.List_Lexorder" "HOL-Library.Char_ord"
begin

text \<open>
  The advanced vLLM parameters, which both sides check: \<open>backend/app/schemas/vllm.py\<close> when a
  deployment is created or edited, and \<open>_vllm_command\<close>, \<open>_validate_vllm_argument\<close> of
  \<open>agent/openllmops_agent/docker_runner.py\<close> when the container is started. Both are translated
  on their own; the theorems relate them. The text of a \<open>float\<close> is the argument \<open>fr\<close>.
\<close>

section \<open>\<open>backend/app/schemas/vllm.py\<close>\<close>

definition vllm_argument_allowlist :: "string set" where
  "vllm_argument_allowlist =
     {''block-size'', ''cpu-offload-gb'', ''disable-custom-all-reduce'', ''disable-log-stats'',
      ''distributed-executor-backend'', ''dtype'', ''enable-chunked-prefill'', ''enable-prefix-caching'',
      ''enforce-eager'', ''gpu-memory-utilization'', ''kv-cache-dtype'', ''max-logprobs'', ''max-model-len'',
      ''max-num-batched-tokens'', ''max-num-seqs'', ''pipeline-parallel-size'', ''quantization'', ''seed'',
      ''tokenizer-mode''}"

definition boolean_arguments :: "string set" where
  "boolean_arguments =
     {''disable-custom-all-reduce'', ''disable-log-stats'', ''enable-chunked-prefill'',
      ''enable-prefix-caching'', ''enforce-eager''}"

definition positive_integer_limits :: "string \<Rightarrow> int option" where
  "positive_integer_limits = map_of
     [(''max-model-len'', 131072), (''max-num-batched-tokens'', 65536), (''max-num-seqs'', 1024)]"

definition nonnegative_integer_limits :: "string \<Rightarrow> int option" where
  "nonnegative_integer_limits = map_of [(''max-logprobs'', 100), (''seed'', 2 ^ 32 - 1)]"

definition enum_arguments :: "string \<Rightarrow> string set option" where
  "enum_arguments = map_of
     [(''distributed-executor-backend'', {''mp''}),
      (''dtype'', {''auto'', ''half'', ''float16'', ''bfloat16'', ''float'', ''float32''}),
      (''kv-cache-dtype'', {''auto'', ''fp8'', ''fp8_e4m3'', ''fp8_e5m2''}),
      (''tokenizer-mode'', {''auto'', ''slow'', ''mistral''})]"

text \<open>The doubles that the literals \<open>0.1\<close> and \<open>0.98\<close> denote.\<close>

definition double_0_1 :: rat where "double_0_1 = 3602879701896397 / 36028797018963968"
definition double_0_98 :: rat where "double_0_98 = 4413527634823086 / 4503599627370496"

text \<open>\<open>isinstance(value, int | float)\<close> without \<open>bool\<close>; without \<open>bool\<close>, \<open>int\<close> alone.\<close>

fun number :: "json \<Rightarrow> rat option" where
  "number (JInt i) = Some (of_int i)"
| "number (JFloat q) = Some q"
| "number _ = None"

fun integer :: "json \<Rightarrow> int option" where
  "integer (JInt i) = Some i"
| "integer _ = None"

fun is_jbool :: "json \<Rightarrow> bool" where
  "is_jbool (JBool _) = True"
| "is_jbool _ = False"

definition safe_word_char :: "char \<Rightarrow> bool" where
  "safe_word_char c \<longleftrightarrow> is_dec c \<or> 65 \<le> code c \<and> code c \<le> 90 \<or> 97 \<le> code c \<and> code c \<le> 122
     \<or> c \<in> {CHR ''_'', CHR ''.'', CHR ''-''}"

definition quantization_ok :: "string \<Rightarrow> bool" where
  "quantization_ok s \<longleftrightarrow> 1 \<le> length s \<and> length s \<le> 64 \<and> (\<forall>c \<in> set s. safe_word_char c)"

definition text_ok :: "json \<Rightarrow> bool" where
  "text_ok v = (case v of JStr s \<Rightarrow> length s \<le> 2048 \<and> (\<forall>c \<in> set s. 32 \<le> code c) | _ \<Rightarrow> True)"

definition validate_value :: "string \<Rightarrow> json \<Rightarrow> bool" where
  "validate_value key v =
     (if key \<in> boolean_arguments then is_jbool v
      else case positive_integer_limits key of
        Some hi \<Rightarrow> (case integer v of Some i \<Rightarrow> 0 < i \<and> i \<le> hi | None \<Rightarrow> False)
      | None \<Rightarrow>
        (case nonnegative_integer_limits key of
           Some hi \<Rightarrow> (case integer v of Some i \<Rightarrow> 0 \<le> i \<and> i \<le> hi | None \<Rightarrow> False)
         | None \<Rightarrow>
           (if key = ''cpu-offload-gb''
              then (case number v of Some q \<Rightarrow> 0 \<le> q \<and> q \<le> 16 | None \<Rightarrow> False)
            else if key = ''block-size''
              then (case integer v of Some i \<Rightarrow> i \<in> {8, 16, 32} | None \<Rightarrow> False)
            else if key = ''gpu-memory-utilization''
              then (case number v of Some q \<Rightarrow> double_0_1 \<le> q \<and> q \<le> double_0_98 | None \<Rightarrow> False)
            else if key = ''pipeline-parallel-size''
              then (case integer v of Some i \<Rightarrow> i = 1 | None \<Rightarrow> False)
            else (case enum_arguments key of
                Some allowed \<Rightarrow> (case v of JStr s \<Rightarrow> lower s \<in> allowed | _ \<Rightarrow> False)
              | None \<Rightarrow>
                (if key = ''quantization'' then (case v of JStr s \<Rightarrow> quantization_ok s | _ \<Rightarrow> False)
                 else False)))))"

definition normalize_key :: "string \<Rightarrow> string" where
  "normalize_key raw = replace_char (CHR ''_'') (CHR ''-'') (lower (strip raw))"

datatype vllm_error =
    TooManyArguments
  | DuplicateArgument string
  | ArgumentNotAllowed string
  | UnsafeText string
  | BadValue string

fun validate_loop :: "json_obj \<Rightarrow> string set \<Rightarrow> vllm_error option" where
  "validate_loop [] seen = None"
| "validate_loop ((raw, v) # args) seen =
     (let key = normalize_key raw in
      if key \<in> seen then Some (DuplicateArgument key)
      else if key \<notin> vllm_argument_allowlist then Some (ArgumentNotAllowed raw)
      else if \<not> text_ok v then Some (UnsafeText raw)
      else if \<not> validate_value key v then Some (BadValue key)
      else validate_loop args (insert key seen))"

definition validate_vllm_arguments :: "json_obj \<Rightarrow> vllm_error option" where
  "validate_vllm_arguments args =
     (if length args > 128 then Some TooManyArguments else validate_loop args {})"

section \<open>The node agent's own checks\<close>

definition agent_allowlist :: "string set" where
  "agent_allowlist =
     {''block-size'', ''cpu-offload-gb'', ''disable-custom-all-reduce'', ''disable-log-stats'',
      ''distributed-executor-backend'', ''dtype'', ''enable-chunked-prefill'', ''enable-prefix-caching'',
      ''enforce-eager'', ''gpu-memory-utilization'', ''kv-cache-dtype'', ''max-logprobs'', ''max-model-len'',
      ''max-num-batched-tokens'', ''max-num-seqs'', ''pipeline-parallel-size'', ''quantization'', ''seed'',
      ''tokenizer-mode''}"

definition agent_boolean_arguments :: "string set" where
  "agent_boolean_arguments =
     {''disable-custom-all-reduce'', ''disable-log-stats'', ''enable-chunked-prefill'',
      ''enable-prefix-caching'', ''enforce-eager''}"

definition agent_positive_integer_limits :: "string \<Rightarrow> int option" where
  "agent_positive_integer_limits = map_of
     [(''max-model-len'', 131072), (''max-num-batched-tokens'', 65536), (''max-num-seqs'', 1024)]"

definition agent_nonnegative_integers :: "string set" where
  "agent_nonnegative_integers = {''max-logprobs'', ''seed''}"

definition agent_nonnegative_numbers :: "string set" where
  "agent_nonnegative_numbers = {''cpu-offload-gb''}"

definition agent_enum_arguments :: "string \<Rightarrow> string set option" where
  "agent_enum_arguments = map_of
     [(''distributed-executor-backend'', {''mp''}),
      (''dtype'', {''auto'', ''half'', ''float16'', ''bfloat16'', ''float'', ''float32''}),
      (''kv-cache-dtype'', {''auto'', ''fp8'', ''fp8_e4m3'', ''fp8_e5m2''}),
      (''tokenizer-mode'', {''auto'', ''slow'', ''mistral''})]"

definition validate_vllm_argument :: "string \<Rightarrow> json \<Rightarrow> bool" where
  "validate_vllm_argument key v =
     (if key \<in> agent_boolean_arguments then is_jbool v
      else case agent_positive_integer_limits key of
        Some hi \<Rightarrow> (case integer v of Some i \<Rightarrow> 0 < i \<and> i \<le> hi | None \<Rightarrow> False)
      | None \<Rightarrow>
        (if key \<in> agent_nonnegative_integers
           then (case integer v of
               Some i \<Rightarrow> 0 \<le> i \<and> i \<le> (if key = ''max-logprobs'' then 100 else 2 ^ 32 - 1)
             | None \<Rightarrow> False)
         else if key \<in> agent_nonnegative_numbers
           then (case number v of Some q \<Rightarrow> 0 \<le> q \<and> q \<le> 16 | None \<Rightarrow> False)
         else if key = ''block-size''
           then (case integer v of Some i \<Rightarrow> i \<in> {8, 16, 32} | None \<Rightarrow> False)
         else if key = ''gpu-memory-utilization''
           then (case number v of Some q \<Rightarrow> double_0_1 \<le> q \<and> q \<le> double_0_98 | None \<Rightarrow> False)
         else if key = ''pipeline-parallel-size''
           then (case integer v of Some i \<Rightarrow> i = 1 | None \<Rightarrow> False)
         else (case agent_enum_arguments key of
             Some allowed \<Rightarrow> (case v of JStr s \<Rightarrow> lower s \<in> allowed | _ \<Rightarrow> False)
           | None \<Rightarrow>
             (if key = ''quantization'' then (case v of JStr s \<Rightarrow> quantization_ok s | _ \<Rightarrow> False)
              else False))))"

fun normalize_arguments :: "json_obj \<Rightarrow> json_obj \<Rightarrow> vllm_error + json_obj" where
  "normalize_arguments [] normalized = Inr normalized"
| "normalize_arguments ((raw, v) # args) normalized =
     (let key = normalize_key raw in
      if key \<notin> agent_allowlist then Inl (ArgumentNotAllowed raw)
      else if \<not> text_ok v then Inl (UnsafeText raw)
      else if \<not> validate_vllm_argument key v then Inl (BadValue key)
      else normalize_arguments args (dict_set key v normalized))"

text \<open>\<open>str(value)\<close> of a scalar that passed the checks.\<close>

fun scalar_text :: "(rat \<Rightarrow> string) \<Rightarrow> json \<Rightarrow> string" where
  "scalar_text fr (JStr s) = s"
| "scalar_text fr (JInt i) = str_int i"
| "scalar_text fr (JFloat q) = fr q"
| "scalar_text fr v = []"

definition argument_words :: "(rat \<Rightarrow> string) \<Rightarrow> string \<times> json \<Rightarrow> string list" where
  "argument_words fr kv =
     (case snd kv of
        JBool b \<Rightarrow> (if b then [''--'' @ fst kv] else [])
      | v \<Rightarrow> [''--'' @ fst kv, scalar_text fr v])"

record inference_args =
  inf_args :: json_obj
  inf_embedding :: bool
  inf_port :: int
  inf_served_name :: string

definition vllm_prefix :: "inference_args \<Rightarrow> int list \<Rightarrow> string list" where
  "vllm_prefix q gpus =
     [''--host'', ''0.0.0.0'', ''--port'', str_int (inf_port q), ''--model'', ''/workspace/model'',
      ''--served-model-name'', inf_served_name q]
     @ (if inf_embedding q then [''--runner'', ''pooling'', ''--convert'', ''embed''] else [''--runner'', ''generate''])
     @ [''--tensor-parallel-size'', str_int (int (length gpus)), ''--load-format'', ''safetensors'']"

definition vllm_command ::
  "(rat \<Rightarrow> string) \<Rightarrow> inference_args \<Rightarrow> int list \<Rightarrow> vllm_error + string list" where
  "vllm_command fr q gpus =
     (case normalize_arguments (inf_args q) [] of
        Inl e \<Rightarrow> Inl e
      | Inr normalized \<Rightarrow>
          Inr (vllm_prefix q gpus @ concat (map (argument_words fr) (sort_key fst normalized))))"

section \<open>The two checks agree\<close>

lemma agent_lists [simp]:
  "agent_allowlist = vllm_argument_allowlist" "agent_boolean_arguments = boolean_arguments"
  "agent_positive_integer_limits = positive_integer_limits" "agent_enum_arguments = enum_arguments"
  by (simp_all add: agent_allowlist_def vllm_argument_allowlist_def agent_boolean_arguments_def
      boolean_arguments_def agent_positive_integer_limits_def positive_integer_limits_def
      agent_enum_arguments_def enum_arguments_def)

lemma validate_agree: "validate_vllm_argument key v = validate_value key v"
proof (cases "key \<in> {''max-logprobs'', ''seed'', ''cpu-offload-gb''}")
  case True
  then show ?thesis
    by (elim insertE emptyE)
       (simp_all add: validate_vllm_argument_def validate_value_def boolean_arguments_def
          positive_integer_limits_def nonnegative_integer_limits_def agent_nonnegative_integers_def
          agent_nonnegative_numbers_def split: option.split)
next
  case False
  then have "nonnegative_integer_limits key = None" "key \<notin> agent_nonnegative_integers"
    "key \<notin> agent_nonnegative_numbers" "key \<noteq> ''cpu-offload-gb''"
    by (simp_all add: nonnegative_integer_limits_def agent_nonnegative_integers_def agent_nonnegative_numbers_def)
  then show ?thesis
    by (cases "positive_integer_limits key") (simp_all add: validate_vllm_argument_def validate_value_def)
qed

lemma validate_loop_normalizes:
  "validate_loop args seen = None \<Longrightarrow> \<exists>n. normalize_arguments args acc = Inr n"
  by (induction args seen arbitrary: acc rule: validate_loop.induct)
     (auto simp: Let_def validate_agree split: if_splits)

lemma normalize_keys:
  "normalize_arguments args acc = Inr n \<Longrightarrow> distinct (map fst acc) \<Longrightarrow>
     (\<forall>(k, v) \<in> set acc. k \<in> vllm_argument_allowlist \<and> text_ok v \<and> validate_value k v) \<Longrightarrow>
     distinct (map fst n) \<and> (\<forall>(k, v) \<in> set n. k \<in> vllm_argument_allowlist \<and> text_ok v \<and> validate_value k v)"
proof (induction args acc rule: normalize_arguments.induct)
  case (2 raw v args acc)
  let ?k = "normalize_key raw"
  have ok: "?k \<in> vllm_argument_allowlist" "text_ok v" "validate_value ?k v"
    and run: "normalize_arguments args (dict_set ?k v acc) = Inr n"
    using "2.prems"(1) by (auto simp: Let_def validate_agree split: if_splits)
  have "\<forall>(k, x) \<in> set (dict_set ?k v acc). k \<in> vllm_argument_allowlist \<and> text_ok x \<and> validate_value k x"
    using "2.prems"(3) ok set_dict_set [of ?k v acc] by auto
  moreover have "distinct (map fst (dict_set ?k v acc))" using "2.prems"(2) by (rule distinct_dict_set)
  moreover have "\<not> ?k \<notin> agent_allowlist" "\<not> \<not> text_ok v" "\<not> \<not> validate_vllm_argument ?k v"
    using ok by (simp_all add: validate_agree)
  ultimately show ?case using "2.IH" [OF refl] run by blast
qed simp

section \<open>Properties\<close>


definition demo_inference :: "json_obj \<Rightarrow> inference_args" where
  "demo_inference args = \<lparr>inf_args = args, inf_embedding = False, inf_port = 8000, inf_served_name = ''m''\<rparr>"


text \<open>
  The command line is the fixed part chosen by the system followed by the checked parameters:
  each option name is allow-listed, appears once, in sorted order, with a value in its range. The
  host, the port, the model, the served name, the parallel size, the load format and the execution
  of remote code are not among the allow-listed names, so no parameter names them again.
\<close>

theorem command_adds_only_checked_options:
  assumes "vllm_command fr q gpus = Inr cmd"
  shows "\<exists>opts. cmd = vllm_prefix q gpus @ concat (map (argument_words fr) opts)
    \<and> sorted (map fst opts) \<and> distinct (map fst opts)
    \<and> (\<forall>(k, v) \<in> set opts. k \<in> vllm_argument_allowlist \<and> validate_value k v
        \<and> k \<notin> {''host'', ''port'', ''model'', ''served-model-name'', ''runner'', ''convert'',
               ''tensor-parallel-size'', ''load-format'', ''trust-remote-code''})"
proof -
  obtain n where n: "normalize_arguments (inf_args q) [] = Inr n"
      "cmd = vllm_prefix q gpus @ concat (map (argument_words fr) (sort_key fst n))"
    using assms by (auto simp: vllm_command_def split: sum.splits)
  have k: "distinct (map fst n)" "\<forall>(k, v) \<in> set n. k \<in> vllm_argument_allowlist \<and> text_ok v \<and> validate_value k v"
    using normalize_keys [OF n(1)] by auto
  have "distinct (map fst (sort_key fst n))"
    using k(1) by (metis distinct_sort map_sort_key)
  moreover have "k \<notin> {''host'', ''port'', ''model'', ''served-model-name'', ''runner'', ''convert'',
       ''tensor-parallel-size'', ''load-format'', ''trust-remote-code''}" if "k \<in> vllm_argument_allowlist" for k
    using that unfolding vllm_argument_allowlist_def by (elim insertE emptyE) simp_all
  ultimately show ?thesis
    using n(2) k(2) by (intro exI [of _ "sort_key fst n"] conjI sorted_sort_key) (simp, simp, fastforce)
qed

lemma command_adds_only_checked_options_witness:
  "\<exists>cmd opts. vllm_command (\<lambda>_. ''0.9'') (demo_inference [(''enforce_eager'', JBool True)]) [0] = Inr cmd
    \<and> cmd = vllm_prefix (demo_inference [(''enforce_eager'', JBool True)]) [0] @ concat (map (argument_words (\<lambda>_. ''0.9'')) opts)
    \<and> (\<forall>(k, v) \<in> set opts. k \<in> vllm_argument_allowlist)"
proof -
  have k: "normalize_key ''enforce_eager'' = ''enforce-eager''" by code_simp
  have "validate_vllm_arguments (inf_args (demo_inference [(''enforce_eager'', JBool True)])) = None"
    using k by (simp add: demo_inference_def validate_vllm_arguments_def Let_def vllm_argument_allowlist_def
        text_ok_def validate_value_def boolean_arguments_def)
  then have "validate_loop (inf_args (demo_inference [(''enforce_eager'', JBool True)])) {} = None"
    by (simp add: validate_vllm_arguments_def split: if_splits)
  then obtain cmd where c: "vllm_command (\<lambda>_. ''0.9'') (demo_inference [(''enforce_eager'', JBool True)]) [0] = Inr cmd"
    using validate_loop_normalizes [of "inf_args (demo_inference [(''enforce_eager'', JBool True)])" "{}" "[]"]
    by (auto simp: vllm_command_def)
  then show ?thesis using command_adds_only_checked_options [OF c] by fast
qed

end
