(* ===== verification/ControlRoutes.thy ===== *)
theory ControlRoutes
  imports LeaseDiscipline VllmArgs
begin

text \<open>
  The request handlers that change workloads: \<open>backend/app/api/routes/deployments.py\<close>,
  \<open>training_jobs.py\<close>, \<open>evaluations.py\<close>, \<open>model_assets.py\<close>, with the payload validators of
  \<open>backend/app/schemas/resources.py\<close> and the clean-up of
  \<open>backend/app/services/workload_cleanup.py\<close>. A handler is one function on the database: it
  returns an HTTP error, and the database is rolled back, or the committed database.
\<close>

section \<open>Errors, settings, payload fields\<close>

datatype http_error = HttpError int string

record settings =
  gpu_count :: int
  evaluation_gpu_memory_utilization :: rat
  evaluation_concurrency :: int
  evaluation_max_tokens :: int

text \<open>A field of a PATCH body: not sent, sent as \<open>null\<close>, or sent with a value.\<close>

datatype 'a field = Unset | Null | Value 'a

fun field_or :: "'a \<Rightarrow> 'a field \<Rightarrow> 'a option" where
  "field_or d Unset = Some d"
| "field_or d Null = None"
| "field_or d (Value v) = Some v"

section \<open>Payloads\<close>

record deployment_simplified_config =
  max_model_len :: "int field"
  gpu_utilization :: "rat field"
  dtype :: "string field"

definition simplified_config_ok :: "deployment_simplified_config \<Rightarrow> bool" where
  "simplified_config_ok c \<longleftrightarrow>
     (case max_model_len c of Value n \<Rightarrow> 1024 \<le> n \<and> n \<le> 131072 | _ \<Rightarrow> True)
     \<and> (case gpu_utilization c of Value q \<Rightarrow> double_0_1 \<le> q \<and> q \<le> double_0_98 | _ \<Rightarrow> True)
     \<and> (case dtype c of Value t \<Rightarrow> t \<in> {''auto'', ''float16'', ''bfloat16''} | _ \<Rightarrow> True)"

text \<open>\<open>model_dump()\<close> writes every field; \<open>exclude_unset=True\<close> only the fields that were sent.\<close>

fun dump_field :: "bool \<Rightarrow> string \<Rightarrow> ('a \<Rightarrow> json) \<Rightarrow> 'a field \<Rightarrow> json_obj" where
  "dump_field sent_only k f Unset = (if sent_only then [] else [(k, JNull)])"
| "dump_field sent_only k f Null = [(k, JNull)]"
| "dump_field sent_only k f (Value v) = [(k, f v)]"

definition dump_simplified_config :: "bool \<Rightarrow> deployment_simplified_config \<Rightarrow> json_obj" where
  "dump_simplified_config sent_only c =
     dump_field sent_only ''max_model_len'' JInt (max_model_len c)
     @ dump_field sent_only ''gpu_memory_utilization'' JFloat (gpu_utilization c)
     @ dump_field sent_only ''dtype'' JStr (dtype c)"

definition system_managed_vllm_args :: "string set" where
  "system_managed_vllm_args =
     {''api_key'', ''host'', ''model'', ''pipeline_parallel_size'', ''port'', ''served_model_name'',
      ''tensor_parallel_size'', ''trust_remote_code''}"

definition managed_key :: "string \<Rightarrow> string" where
  "managed_key key = replace_char (CHR ''-'') (CHR ''_'') (dropWhile (\<lambda>c. c = CHR ''-'') key)"

definition detail_args_ok :: "json_obj \<Rightarrow> bool" where
  "detail_args_ok args \<longleftrightarrow> (\<forall>(k, v) \<in> set args. managed_key k \<notin> system_managed_vllm_args)
     \<and> validate_vllm_arguments args = None"

definition gpu_ids_ok :: "int list \<Rightarrow> bool" where
  "gpu_ids_ok gpus \<longleftrightarrow> gpus \<noteq> [] \<and> distinct gpus \<and> (\<forall>g \<in> set gpus. 0 \<le> g)"

definition name_ok :: "string \<Rightarrow> bool" where
  "name_ok n \<longleftrightarrow> 1 \<le> length n \<and> length n \<le> 128"

definition alnum :: "char \<Rightarrow> bool" where
  "alnum c \<longleftrightarrow> is_dec c \<or> 65 \<le> code c \<and> code c \<le> 90 \<or> 97 \<le> code c \<and> code c \<le> 122"

definition served_name_ok :: "string \<Rightarrow> bool" where
  "served_name_ok s \<longleftrightarrow> name_ok s \<and> alnum (hd s)
     \<and> (\<forall>c \<in> set (tl s). alnum c \<or> c \<in> {CHR ''.'', CHR ''_'', CHR '':'', CHR ''/'', CHR ''-''})"

record deployment_create =
  dc_name :: string
  dc_served_model_name :: string
  dc_model_asset_id :: uuid
  dc_task_type :: deployment_task_type
  dc_gpu_ids :: "int list"
  dc_tensor_parallel_size :: int
  dc_simplified_config :: deployment_simplified_config
  dc_vllm_args :: json_obj

definition deployment_create_ok :: "deployment_create \<Rightarrow> bool" where
  "deployment_create_ok p \<longleftrightarrow> name_ok (dc_name p) \<and> served_name_ok (dc_served_model_name p)
     \<and> 1 \<le> dc_tensor_parallel_size p \<and> dc_tensor_parallel_size p \<le> 32
     \<and> simplified_config_ok (dc_simplified_config p) \<and> gpu_ids_ok (dc_gpu_ids p)
     \<and> dc_tensor_parallel_size p = int (length (dc_gpu_ids p)) \<and> detail_args_ok (dc_vllm_args p)"

record deployment_update =
  du_name :: "string field"
  du_gpu_ids :: "int list field"
  du_tensor_parallel_size :: "int field"
  du_simplified_config :: "deployment_simplified_config field"
  du_vllm_args :: "json_obj field"

definition deployment_update_ok :: "deployment_update \<Rightarrow> bool" where
  "deployment_update_ok p \<longleftrightarrow>
     (case du_name p of Value n \<Rightarrow> name_ok n | _ \<Rightarrow> True)
     \<and> (case du_gpu_ids p of Value g \<Rightarrow> gpu_ids_ok g | _ \<Rightarrow> True)
     \<and> (case du_tensor_parallel_size p of Value n \<Rightarrow> 1 \<le> n \<and> n \<le> 32 | _ \<Rightarrow> True)
     \<and> (case (du_gpu_ids p, du_tensor_parallel_size p) of
          (Value g, Value n) \<Rightarrow> n = int (length g) | _ \<Rightarrow> True)
     \<and> (case du_simplified_config p of Value c \<Rightarrow> simplified_config_ok c | _ \<Rightarrow> True)
     \<and> (case du_vllm_args p of Value a \<Rightarrow> detail_args_ok a | _ \<Rightarrow> True)"

record training_job_create =
  tc_name :: string
  tc_model_asset_id :: uuid
  tc_dataset_id :: uuid
  tc_stage :: training_stage
  tc_algorithm :: training_algorithm
  tc_gpu_ids :: "int list"
  tc_template :: "string option"
  tc_training_config :: json_obj   \<comment> \<open>\<open>training_config.model_dump(mode="json", exclude_none=True)\<close>\<close>

definition training_job_create_ok :: "training_job_create \<Rightarrow> bool" where
  "training_job_create_ok p \<longleftrightarrow> name_ok (tc_name p) \<and> length (tc_gpu_ids p) \<le> 16
     \<and> \<not> (tc_stage p = CPT \<and> tc_algorithm p \<noteq> LORA) \<and> \<not> (tc_stage p = SFT \<and> tc_template p = None)
     \<and> gpu_ids_ok (tc_gpu_ids p)"

record evaluation_run_create =
  ec_name :: string
  ec_base_model_asset_id :: uuid
  ec_candidate_model_asset_id :: uuid
  ec_custom_dataset_id :: "uuid option"
  ec_builtin_datasets :: "string list"
  ec_gpu_ids :: "int list"

definition evaluation_run_create_ok :: "evaluation_run_create \<Rightarrow> bool" where
  "evaluation_run_create_ok p \<longleftrightarrow> name_ok (ec_name p) \<and> length (ec_gpu_ids p) \<le> 16
     \<and> set (ec_builtin_datasets p) \<subseteq> {''ceval'', ''cmmlu''}
     \<and> \<not> (ec_builtin_datasets p = [] \<and> ec_custom_dataset_id p = None)
     \<and> distinct (ec_builtin_datasets p) \<and> gpu_ids_ok (ec_gpu_ids p)"

text \<open>\<open>_validate_gpu_ids\<close>: the numbers beyond this machine.\<close>

definition gpus_in_range :: "settings \<Rightarrow> int list \<Rightarrow> bool" where
  "gpus_in_range cfg gpus \<longleftrightarrow> filter (\<lambda>g. g \<ge> gpu_count cfg) gpus = []"

section \<open>Look-ups\<close>

definition get_active_model_asset :: "uuid \<Rightarrow> db \<Rightarrow> http_error + model_asset" where
  "get_active_model_asset i s =
     (case lookup_by asset_id i (model_assets s) of
        Some a \<Rightarrow> (if deleted_at a = None then Inr a else Inl (HttpError 404 ''model asset''))
      | None \<Rightarrow> Inl (HttpError 404 ''model asset''))"

definition model_asset_has_operational_references :: "uuid \<Rightarrow> db \<Rightarrow> bool" where
  "model_asset_has_operational_references i s \<longleftrightarrow>
     list_ex (\<lambda>d. dep_model_asset_id d = i) (deployments s)
     \<or> list_ex (\<lambda>t. train_model_asset_id t = i \<or> published_model_asset_id t = Some i) (training_jobs s)
     \<or> list_ex (\<lambda>e. base_model_asset_id e = i \<or> candidate_model_asset_id e = i) (evaluation_runs s)"

definition get_dataset :: "uuid \<Rightarrow> db \<Rightarrow> http_error + dataset" where
  "get_dataset i s =
     (case lookup_by ds_id i (datasets s) of Some d \<Rightarrow> Inr d | None \<Rightarrow> Inl (HttpError 404 ''dataset''))"

section \<open>Deployments\<close>

definition editable_states :: "deployment_state set" where
  "editable_states = {D_CREATED, D_STOPPED, D_FAILED}"

text \<open>The unique constraints of \<open>deployments\<close>, and the commit that reports them as 409.\<close>

definition deployments_unique :: "deployment list \<Rightarrow> bool" where
  "deployments_unique ds \<longleftrightarrow> distinct (map row_name ds) \<and> distinct (map served_model_name ds)"

definition commit_deployments :: "deployment list \<Rightarrow> db \<Rightarrow> http_error + db" where
  "commit_deployments ds s =
     (if deployments_unique ds then Inr (s\<lparr>deployments := ds\<rparr>) else Inl (HttpError 409 ''name taken''))"

definition kind_matches :: "deployment_task_type \<Rightarrow> model_kind \<Rightarrow> bool" where
  "kind_matches t k \<longleftrightarrow> \<not> (t = TASK_EMBEDDING \<and> k \<noteq> EMBEDDING) \<and> \<not> (t = GENERATE \<and> k = EMBEDDING)"

definition new_deployment :: "deployment_create \<Rightarrow> uuid \<Rightarrow> timestamp \<Rightarrow> deployment" where
  "new_deployment p i now =
     \<lparr>row_id = i, row_name = dc_name p, created_at = now, gpu_ids = dc_gpu_ids p, started_at = None,
      error_message = None, queued_at = Some now, state_version = 1, runtime_generation = 0,
      served_model_name = dc_served_model_name p, dep_model_asset_id = dc_model_asset_id p,
      task_type = dc_task_type p, dep_desired = SERVICE_RUNNING, dep_actual = D_QUEUED,
      tensor_parallel_size = dc_tensor_parallel_size p, port = None, internal_url = None,
      simplified_config = JObj (dump_simplified_config False (dc_simplified_config p)),
      vllm_args = JObj (dc_vllm_args p), health_status = None\<rparr>"

definition create_deployment ::
  "settings \<Rightarrow> deployment_create \<Rightarrow> uuid \<Rightarrow> timestamp \<Rightarrow> db \<Rightarrow> http_error + db" where
  "create_deployment cfg p i now s =
     (if \<not> deployment_create_ok p then Inl (HttpError 422 ''invalid body'')
      else if \<not> gpus_in_range cfg (dc_gpu_ids p) then Inl (HttpError 422 ''GPU out of range'')
      else (case get_active_model_asset (dc_model_asset_id p) s of
          Inl e \<Rightarrow> Inl e
        | Inr a \<Rightarrow>
            (if asset_status a \<noteq> ASSET_READY then Inl (HttpError 422 ''asset not ready'')
             else if \<not> kind_matches (dc_task_type p) (asset_kind a)
               then Inl (HttpError 422 ''task and model kind'')
             else commit_deployments (deployments s @ [new_deployment p i now]) s)))"

text \<open>
  \<open>setattr\<close> of the sent fields. \<open>name\<close> is \<open>NOT NULL\<close>, so a \<open>null\<close> fails at the commit; a JSON column
  stores \<open>null\<close> as a JSON value. A \<open>null\<close> list of GPUs fails before, in \<open>_validate_gpu_ids\<close>.
\<close>

definition update_deployment :: "settings \<Rightarrow> uuid \<Rightarrow> deployment_update \<Rightarrow> db \<Rightarrow> http_error + db" where
  "update_deployment cfg i p s =
     (if \<not> deployment_update_ok p then Inl (HttpError 422 ''invalid body'')
      else (case lookup_by row_id i (deployments s) of
          None \<Rightarrow> Inl (HttpError 404 ''deployment'')
        | Some d \<Rightarrow>
            (if dep_actual d \<notin> editable_states then Inl (HttpError 409 ''not editable'')
             else (case field_or (gpu_ids d) (du_gpu_ids p) of
                 None \<Rightarrow> Inl (HttpError 500 ''TypeError'')
               | Some gpus \<Rightarrow>
                   (if \<not> gpus_in_range cfg gpus then Inl (HttpError 422 ''GPU out of range'')
                    else if field_or (tensor_parallel_size d) (du_tensor_parallel_size p)
                          \<noteq> Some (int (length gpus))
                      then Inl (HttpError 422 ''tensor_parallel_size'')
                    else (case field_or (row_name d) (du_name p) of
                        None \<Rightarrow> Inl (HttpError 409 ''name taken'')
                      | Some n \<Rightarrow>
                          commit_deployments (replace_by row_id
                            (d\<lparr>row_name := n, gpu_ids := gpus,
                               tensor_parallel_size := int (length gpus),
                               simplified_config := (case du_simplified_config p of
                                  Unset \<Rightarrow> simplified_config d | Null \<Rightarrow> JNull
                                | Value c \<Rightarrow> JObj (dump_simplified_config True c)),
                               vllm_args := (case du_vllm_args p of
                                  Unset \<Rightarrow> vllm_args d | Null \<Rightarrow> JNull | Value a \<Rightarrow> JObj a),
                               state_version := state_version d + 1\<rparr>) (deployments s)) s))))))"

definition start_row :: "timestamp \<Rightarrow> deployment \<Rightarrow> deployment" where
  "start_row now d =
     (let d1 = d\<lparr>dep_desired := SERVICE_RUNNING\<rparr> in
      if dep_actual d \<notin> {D_RUNNING, D_STARTING, D_QUEUED}
      then d1\<lparr>dep_actual := D_QUEUED, queued_at := Some now, internal_url := None, health_status := None,
              started_at := None, error_message := None, state_version := state_version d + 1\<rparr>
      else d1)"

definition start_deployment :: "uuid \<Rightarrow> timestamp \<Rightarrow> db \<Rightarrow> http_error + db" where
  "start_deployment i now s =
     (case lookup_by row_id i (deployments s) of
        None \<Rightarrow> Inl (HttpError 404 ''deployment'')
      | Some d \<Rightarrow> Inr (put_row (DeploymentRow (start_row now d)) s))"

definition stop_row :: "deployment \<Rightarrow> deployment" where
  "stop_row d =
     (let d1 = d\<lparr>dep_desired := SERVICE_STOPPED\<rparr>;
          d2 = (if dep_actual d \<in> {D_CREATED, D_QUEUED, D_FAILED}
                then d1\<lparr>dep_actual := D_STOPPED, queued_at := None, internal_url := None,
                        health_status := None\<rparr>
                else if dep_actual d \<notin> {D_STOPPED, D_STOPPING} then d1\<lparr>dep_actual := D_STOPPING\<rparr>
                else d1)
      in d2\<lparr>state_version := state_version d + 1\<rparr>)"

definition stop_deployment :: "uuid \<Rightarrow> db \<Rightarrow> http_error + db" where
  "stop_deployment i s =
     (case lookup_by row_id i (deployments s) of
        None \<Rightarrow> Inl (HttpError 404 ''deployment'')
      | Some d \<Rightarrow> Inr (put_row (DeploymentRow (stop_row d)) s))"

section \<open>Deleting a finished workload\<close>

datatype cleanup_error =
    CleanupUnavailable
  | CleanupBlocked
  | CleanupCommandInvalid   \<comment> \<open>\<open>ValidationError\<close> of \<open>AgentCommand\<close>\<close>

definition cleanup_execution :: json_obj where
  "cleanup_execution = [(''cleanup_terminal'', JBool True)]"

text \<open>\<open>agent\<close> is the node agent's answer to a command; \<open>Inl\<close> is a \<open>NodeAgentError\<close>.\<close>

definition confirm_absent_and_release_leases ::
  "(agent_command \<Rightarrow> string + agent_response) \<Rightarrow> uuid \<Rightarrow> lease_owner \<Rightarrow> int list \<Rightarrow> lease list
     \<Rightarrow> cleanup_error + lease list" where
  "confirm_absent_and_release_leases agent fresh ow gpus L =
     (if own_generation ow < 1 then Inl CleanupBlocked
      else
        (let c = \<lparr>request_id = fresh, cmd_action = STOP,
               cmd_owner = \<lparr>ag_type = own_type ow, ag_id = own_id ow, ag_name = own_name ow,
                 ag_generation = own_generation ow\<rparr>,
               cmd_gpu_ids = gpus, execution = cleanup_execution\<rparr> in
         if \<not> command_fields_ok c then Inl CleanupCommandInvalid
         else (case agent c of
             Inl _ \<Rightarrow> Inl CleanupUnavailable
           | Inr resp \<Rightarrow>
               (if \<not> accepted resp \<or> observed_state resp \<noteq> ABSENT then Inl CleanupBlocked
                else Inr (filter (\<lambda>l. \<not> same_owner ow l) L)))))"

fun cleanup_http :: "cleanup_error \<Rightarrow> http_error" where
  "cleanup_http CleanupUnavailable = HttpError 503 ''cleanup unavailable''"
| "cleanup_http CleanupBlocked = HttpError 409 ''cleanup blocked''"
| "cleanup_http CleanupCommandInvalid = HttpError 500 ''ValidationError''"

text \<open>
  The three DELETE handlers differ in the table, the deletable states and the messages only. The
  row stays locked from the state check to the commit.
\<close>

definition deletable :: "row \<Rightarrow> bool" where
  "deletable r =
     (case r of
        DeploymentRow d \<Rightarrow> dep_actual d \<in> editable_states
      | TrainingRow t \<Rightarrow> job_actual t \<in> terminal_job_states
      | EvaluationRow e \<Rightarrow> job_actual e \<in> terminal_job_states)"

definition delete_workload ::
  "(agent_command \<Rightarrow> string + agent_response) option \<Rightarrow> uuid \<Rightarrow> row_key \<Rightarrow> db \<Rightarrow> http_error + db" where
  "delete_workload agent fresh k s =
     (case get_row k s of
        None \<Rightarrow> Inl (HttpError 404 ''workload'')
      | Some r \<Rightarrow>
          (if \<not> deletable r then Inl (HttpError 409 ''not finished'')
           else (case agent of
               None \<Rightarrow> Inl (HttpError 503 ''no agent configured'')
             | Some ask \<Rightarrow>
                 (case confirm_absent_and_release_leases ask fresh
                         (owner_at (if rgen r \<noteq> 0 then rgen r else rversion r) r) (rgpus r) (gpu_leases s) of
                    Inl e \<Rightarrow> Inl (cleanup_http e)
                  | Inr L \<Rightarrow> Inr (del_row k (s\<lparr>gpu_leases := L\<rparr>))))))"

definition delete_deployment where "delete_deployment agent fresh i = delete_workload agent fresh (DEPLOYMENT, i)"
definition delete_training_job where "delete_training_job agent fresh i = delete_workload agent fresh (TRAINING, i)"
definition delete_evaluation_run where "delete_evaluation_run agent fresh i = delete_workload agent fresh (EVALUATION, i)"

section \<open>Training jobs and evaluation runs\<close>

text \<open>
  What the handlers ask the file system: the output directory derived for a new id, and the
  published copy of a finished model.
\<close>

record published_files =
  pf_path :: string
  pf_artifact_kind :: string
  pf_size_bytes :: int
  pf_checksum :: string
  pf_created :: bool

record file_checks =
  derive_training_output_dir :: "uuid \<Rightarrow> string + string"
  derive_evaluation_output_dir :: "uuid \<Rightarrow> string + string"
  publish_training_model_files :: "training_job \<Rightarrow> string + published_files"

definition new_training_job :: "training_job_create \<Rightarrow> string \<Rightarrow> uuid \<Rightarrow> timestamp \<Rightarrow> training_job" where
  "new_training_job p dir i now =
     \<lparr>row_id = i, row_name = tc_name p, created_at = now, gpu_ids = tc_gpu_ids p, started_at = None,
      error_message = None, queued_at = Some now, state_version = 1, runtime_generation = 0,
      job_desired = JOB_RUNNING, job_actual = J_QUEUED, finished_at = None,
      train_model_asset_id = tc_model_asset_id p, dataset_id = tc_dataset_id p, stage = tc_stage p,
      algorithm = tc_algorithm p, progress = 0, current_step = None, total_steps = None,
      train_metrics = [], training_config = tc_training_config p, train_output_dir = dir,
      checkpoint_path = None, adapter_path = None, merged_model_path = None,
      published_model_asset_id = None\<rparr>"

definition create_training_job ::
  "settings \<Rightarrow> task_checks \<Rightarrow> file_checks \<Rightarrow> training_job_create \<Rightarrow> uuid \<Rightarrow> timestamp \<Rightarrow> db
     \<Rightarrow> http_error + db" where
  "create_training_job cfg V F p i now s =
     (if \<not> training_job_create_ok p then Inl (HttpError 422 ''invalid body'')
      else if \<not> gpus_in_range cfg (tc_gpu_ids p) then Inl (HttpError 422 ''GPU out of range'')
      else (case get_active_model_asset (tc_model_asset_id p) s of
          Inl e \<Rightarrow> Inl e
        | Inr a \<Rightarrow>
            (case get_dataset (tc_dataset_id p) s of
               Inl e \<Rightarrow> Inl e
             | Inr ds \<Rightarrow>
                 (if asset_status a \<noteq> ASSET_READY \<or> ds_status ds \<noteq> DATASET_READY
                    then Inl (HttpError 422 ''not ready'')
                  else if asset_kind a = EMBEDDING then Inl (HttpError 422 ''embedding model'')
                  else if ds_type ds \<noteq> (if tc_stage p = CPT then DATASET_CPT else DATASET_SFT)
                    then Inl (HttpError 422 ''dataset type'')
                  else (case derive_training_output_dir F i of
                      Inl e \<Rightarrow> Inl (HttpError 422 e)
                    | Inr dir \<Rightarrow>
                        (let job = new_training_job p dir i now in
                         case build_training_execution V job a ds of
                           Inl e \<Rightarrow> Inl (HttpError 422 e)
                         | Inr _ \<Rightarrow>
                             (if tc_name p \<in> row_name ` set (training_jobs s)
                              then Inl (HttpError 409 ''name taken'')
                              else Inr (s\<lparr>training_jobs := training_jobs s @ [job]\<rparr>))))))))"

definition terminate_row :: "timestamp \<Rightarrow> training_job \<Rightarrow> training_job" where
  "terminate_row now t =
     (if job_actual t \<in> terminal_job_states then t
      else if job_desired t = JOB_TERMINATED \<and> job_actual t = J_CANCELING then t
      else
        (let t1 = t\<lparr>job_desired := JOB_TERMINATED\<rparr>;
             t2 = (if job_actual t \<in> {J_CREATED, J_QUEUED}
                   then t1\<lparr>job_actual := J_CANCELED, queued_at := None, finished_at := Some now\<rparr>
                   else if job_actual t \<notin> terminal_job_states \<union> {J_CANCELING}
                   then t1\<lparr>job_actual := J_CANCELING\<rparr>
                   else t1)
         in t2\<lparr>state_version := state_version t + 1\<rparr>))"

definition terminate_training_job :: "uuid \<Rightarrow> timestamp \<Rightarrow> db \<Rightarrow> http_error + db" where
  "terminate_training_job i now s =
     (case lookup_by row_id i (training_jobs s) of
        None \<Rightarrow> Inl (HttpError 404 ''training job'')
      | Some t \<Rightarrow> Inr (put_row (TrainingRow (terminate_row now t)) s))"

definition cancel_row :: "timestamp \<Rightarrow> evaluation_run \<Rightarrow> evaluation_run" where
  "cancel_row now e =
     (let e1 = e\<lparr>job_desired := JOB_TERMINATED\<rparr>;
          e2 = (if job_actual e \<in> {J_CREATED, J_QUEUED}
                then e1\<lparr>job_actual := J_CANCELED, queued_at := None, finished_at := Some now\<rparr>
                else if job_actual e \<notin> terminal_job_states \<union> {J_CANCELING}
                then e1\<lparr>job_actual := J_CANCELING\<rparr>
                else e1)
      in e2\<lparr>state_version := state_version e + 1\<rparr>)"

definition cancel_evaluation_run :: "uuid \<Rightarrow> timestamp \<Rightarrow> db \<Rightarrow> http_error + db" where
  "cancel_evaluation_run i now s =
     (case lookup_by row_id i (evaluation_runs s) of
        None \<Rightarrow> Inl (HttpError 404 ''evaluation run'')
      | Some e \<Rightarrow> Inr (put_row (EvaluationRow (cancel_row now e)) s))"

fun template_for_model :: "model_kind \<Rightarrow> string + evaluation_template" where
  "template_for_model BASE = Inr TEMPLATE_BASE"
| "template_for_model INSTRUCT = Inr TEMPLATE_INSTRUCT"
| "template_for_model EMBEDDING = Inl ''embedding model''"

definition new_evaluation_run ::
  "settings \<Rightarrow> evaluation_run_create \<Rightarrow> evaluation_template \<Rightarrow> evaluation_template \<Rightarrow> string \<Rightarrow> uuid
     \<Rightarrow> timestamp \<Rightarrow> evaluation_run" where
  "new_evaluation_run cfg p bt ct dir i now =
     \<lparr>row_id = i, row_name = ec_name p, created_at = now, gpu_ids = ec_gpu_ids p, started_at = None,
      error_message = None, queued_at = Some now, state_version = 1, runtime_generation = 0,
      job_desired = JOB_RUNNING, job_actual = J_QUEUED, finished_at = None,
      base_model_asset_id = ec_base_model_asset_id p, candidate_model_asset_id = ec_candidate_model_asset_id p,
      custom_dataset_id = ec_custom_dataset_id p, builtin_datasets = ec_builtin_datasets p,
      base_template = bt, candidate_template = ct, eval_output_dir = dir,
      eval_tensor_parallel_size = int (length (ec_gpu_ids p)),
      gpu_memory_utilization = evaluation_gpu_memory_utilization cfg,
      concurrency = evaluation_concurrency cfg, max_tokens = evaluation_max_tokens cfg,
      eval_metrics = [], comparison = [], result_path = None, dataset_manifest_path = None,
      warnings = []\<rparr>"

definition custom_dataset_for :: "evaluation_run_create \<Rightarrow> db \<Rightarrow> http_error + dataset option" where
  "custom_dataset_for p s =
     (case ec_custom_dataset_id p of
        None \<Rightarrow> Inr None
      | Some i \<Rightarrow>
          (case get_dataset i s of
             Inl e \<Rightarrow> Inl e
           | Inr ds \<Rightarrow>
               (if ds_type ds \<noteq> DATASET_EVALUATION \<or> ds_status ds \<noteq> DATASET_READY
                then Inl (HttpError 422 ''dataset type'') else Inr (Some ds))))"

definition create_evaluation_run ::
  "settings \<Rightarrow> task_checks \<Rightarrow> file_checks \<Rightarrow> evaluation_run_create \<Rightarrow> uuid \<Rightarrow> timestamp \<Rightarrow> db
     \<Rightarrow> http_error + db" where
  "create_evaluation_run cfg V F p i now s =
     (if \<not> evaluation_run_create_ok p then Inl (HttpError 422 ''invalid body'')
      else if \<not> gpus_in_range cfg (ec_gpu_ids p) then Inl (HttpError 422 ''GPU out of range'')
      else (case (get_active_model_asset (ec_base_model_asset_id p) s,
                  get_active_model_asset (ec_candidate_model_asset_id p) s) of
          (Inr b, Inr c) \<Rightarrow>
            (if asset_status b \<noteq> ASSET_READY \<or> asset_status c \<noteq> ASSET_READY
               then Inl (HttpError 422 ''not ready'')
             else if EMBEDDING \<in> {asset_kind b, asset_kind c} then Inl (HttpError 422 ''embedding model'')
             else (case custom_dataset_for p s of
                 Inl e \<Rightarrow> Inl e
               | Inr ds \<Rightarrow>
                   (case (template_for_model (asset_kind b), template_for_model (asset_kind c),
                          derive_evaluation_output_dir F i) of
                      (Inr bt, Inr ct, Inr dir) \<Rightarrow>
                        (let run = new_evaluation_run cfg p bt ct dir i now in
                         case build_evaluation_execution V run b c ds of
                           Inl e \<Rightarrow> Inl (HttpError 422 e)
                         | Inr _ \<Rightarrow>
                             (if ec_name p \<in> row_name ` set (evaluation_runs s)
                              then Inl (HttpError 409 ''name taken'')
                              else Inr (s\<lparr>evaluation_runs := evaluation_runs s @ [run]\<rparr>)))
                    | (Inl e, _) \<Rightarrow> Inl (HttpError 422 e)
                    | (_, Inl e, _) \<Rightarrow> Inl (HttpError 422 e)
                    | (_, _, Inl e) \<Rightarrow> Inl (HttpError 422 e))))
        | (Inl e, _) \<Rightarrow> Inl e
        | (_, Inl e) \<Rightarrow> Inl e))"

section \<open>Publishing a trained model; model assets\<close>

definition published_asset :: "uuid \<Rightarrow> training_job \<Rightarrow> model_asset \<Rightarrow> published_files \<Rightarrow> model_asset" where
  "published_asset new t base f =
     \<lparr>asset_id = new,
      asset_name = ''trained-'' @ take 80 (row_name t) @ ''-'' @ take 12 (uuid_hex 32 (row_id t)),
      source_type = TRAINED, source_uri = Some (''training://'' @ uuid_str (row_id t)),
      asset_revision = Some (uuid_str (row_id t)), local_path = pf_path f,
      asset_kind = (if stage t = CPT then asset_kind base else INSTRUCT),
      asset_format = ''safetensors'', asset_status = ASSET_READY, family = family base,
      parameter_count = parameter_count base, asset_size_bytes = Some (pf_size_bytes f),
      asset_checksum = Some (''sha256:'' @ pf_checksum f), asset_error = None,
      metadata_json = [(''training_job_id'', JStr (uuid_str (row_id t))),
        (''base_model_asset_id'', JStr (uuid_str (train_model_asset_id t))),
        (''stage'', JStr (stage_value (stage t))), (''algorithm'', JStr (algorithm_value (algorithm t))),
        (''artifact_kind'', JStr (pf_artifact_kind f))],
      deleted_at = None\<rparr>"

definition link_published :: "uuid \<Rightarrow> training_job \<Rightarrow> db \<Rightarrow> db" where
  "link_published a t s = put_row (TrainingRow (t\<lparr>published_model_asset_id := Some a\<rparr>)) s"

definition publish_training_model ::
  "file_checks \<Rightarrow> uuid \<Rightarrow> uuid \<Rightarrow> db \<Rightarrow> http_error + db \<times> model_asset" where
  "publish_training_model F i new s =
     (case lookup_by row_id i (training_jobs s) of
        None \<Rightarrow> Inl (HttpError 404 ''training job'')
      | Some t \<Rightarrow>
          (if job_actual t \<noteq> J_SUCCEEDED then Inl (HttpError 409 ''not succeeded'')
           else (case published_model_asset_id t of
               Some a \<Rightarrow>
                 (case lookup_by asset_id a (model_assets s) of
                    None \<Rightarrow> Inl (HttpError 409 ''published model missing'') | Some m \<Rightarrow> Inr (s, m))
             | None \<Rightarrow>
                 (case publish_training_model_files F t of
                    Inl e \<Rightarrow> Inl (HttpError 409 e)
                  | Inr f \<Rightarrow>
                      (case find (\<lambda>m. local_path m = pf_path f) (model_assets s) of
                         Some m \<Rightarrow>
                           (if map_of (metadata_json m) ''training_job_id'' \<noteq> Some (JStr (uuid_str (row_id t)))
                            then Inl (HttpError 409 ''path taken'')
                            else if \<exists>u \<in> set (training_jobs s). published_model_asset_id u = Some (asset_id m)
                            then Inl (HttpError 500 ''IntegrityError'')
                            else Inr (link_published (asset_id m) t s, m))
                       | None \<Rightarrow>
                           (case lookup_by asset_id (train_model_asset_id t) (model_assets s) of
                              None \<Rightarrow> Inl (HttpError 409 ''base model missing'')
                            | Some base \<Rightarrow>
                                (let m = published_asset new t base f in
                                 Inr (link_published new t (s\<lparr>model_assets := model_assets s @ [m]\<rparr>), m))))))))"

definition update_model_asset :: "uuid \<Rightarrow> string field \<Rightarrow> db \<Rightarrow> http_error + db" where
  "update_model_asset i name s =
     (if (case name of Value n \<Rightarrow> \<not> name_ok n | _ \<Rightarrow> False) then Inl (HttpError 422 ''invalid body'')
      else (case get_active_model_asset i s of
          Inl e \<Rightarrow> Inl e
        | Inr a \<Rightarrow>
            (case field_or (asset_name a) name of
               None \<Rightarrow> Inl (HttpError 409 ''conflict'')
             | Some n \<Rightarrow> Inr (s\<lparr>model_assets := replace_by asset_id (a\<lparr>asset_name := n\<rparr>) (model_assets s)\<rparr>))))"

definition delete_model_asset :: "uuid \<Rightarrow> timestamp \<Rightarrow> db \<Rightarrow> http_error + db" where
  "delete_model_asset i now s =
     (case get_active_model_asset i s of
        Inl e \<Rightarrow> Inl e
      | Inr a \<Rightarrow>
          (if model_asset_has_operational_references (asset_id a) s then Inl (HttpError 409 ''referenced'')
           else Inr (s\<lparr>model_assets := replace_by asset_id
             (a\<lparr>deleted_at := Some now, asset_status := ASSET_FAILED, asset_error := Some AssetSoftDeleted\<rparr>)
             (model_assets s)\<rparr>)))"

end
