(* ===== verification/RoundFrame.thy ===== *)
theory RoundFrame
  imports Reconciler
begin

text \<open>
  A property of the database that every transaction of the reconciler keeps, and that the rest of the
  program keeps while the reconciler waits for the agent, holds wherever a round stops; and an
  exception that leaves a round comes from a malformed command or from a claim on a database with
  the property.
\<close>

locale transaction_invariant =
  fixes P :: "db \<Rightarrow> bool" and V :: task_checks and ttl :: int
  assumes kept_observation: "P s \<Longrightarrow> P (apply_observation V ttl ow resp now s)"
    and kept_agent_error: "P s \<Longrightarrow> P (record_agent_error ow m s)"
    and kept_fail_start: "P s \<Longrightarrow> P (fail_start ow n now s)"
    and kept_claim: "P s \<Longrightarrow> claim_fifo_head V ttl now gid s = Inr (s', att) \<Longrightarrow> P s'"
    and kept_reap: "P s \<Longrightarrow> P (fst (reap_terminal_expired_leases now s))"
begin

definition error_ok :: "reconcile_error option \<Rightarrow> bool" where
  "error_ok err \<longleftrightarrow> (case err of
     None \<Rightarrow> True
   | Some x \<Rightarrow> x = InvalidCommand \<or> (\<exists>s now gid. P s \<and> claim_fifo_head V ttl now gid s = Inl x))"

text \<open>The answers of the world keep the property.\<close>

definition calls_keep :: "'e world \<Rightarrow> bool" where
  "calls_keep W \<longleftrightarrow> (\<forall>e s c. P s \<longrightarrow> P (snd (fst (w_call W e s c))))"

lemma send_kept: "calls_keep W \<Longrightarrow> P s \<Longrightarrow> send W e s w a = Some ((e1, s1), x) \<Longrightarrow> P s1"
  unfolding calls_keep_def by (auto simp: send_def split: prod.splits) (metis fst_conv snd_conv)

lemma observe_kept: "P s \<Longrightarrow> observe W V ttl w resp e s = (e', s') \<Longrightarrow> P s'"
  using kept_observation by (auto simp: observe_def split: prod.splits)

lemma inspect_one_kept:
  assumes "calls_keep W" and "P s" and run: "inspect_one W V ttl w (e, s, rep) = ((e', s', rep'), err)"
  shows "P s' \<and> error_ok err"
proof (cases "send W e s w (if probe_before_stop w then STATUS else action_for_active w)")
  case None
  then show ?thesis using assms by (auto simp: inspect_one_def Let_def error_ok_def)
next
  case (Some y)
  then obtain e1 s1 x where x:
    "send W e s w (if probe_before_stop w then STATUS else action_for_active w) = Some ((e1, s1), x)"
    by (cases y) auto
  have s1: "P s1" using send_kept [OF assms(1,2) x] .
  show ?thesis
  proof (cases x)
    case (Inl m)
    then show ?thesis using run x kept_agent_error [OF s1] by (auto simp: inspect_one_def Let_def error_ok_def)
  next
    case (Inr resp)
    obtain e2 s2 where o: "observe W V ttl w resp e1 s1 = (e2, s2)" by (cases "observe W V ttl w resp e1 s1")
    have s2: "P s2" using observe_kept [OF s1 o] .
    show ?thesis
    proof (cases "probe_before_stop w \<and> accepted resp \<and> observed_state resp \<in> live_states")
      case False
      then have "s' = s2 \<and> err = None" using run x Inr o by (auto simp: inspect_one_def Let_def)
      then show ?thesis using s2 by (simp add: error_ok_def)
    next
      case True
      show ?thesis
      proof (cases "send W e2 s2 w STOP")
        case None
        then show ?thesis using run x Inr o s2 True by (auto simp: inspect_one_def Let_def error_ok_def)
      next
        case (Some z)
        then obtain e3 s3 y where y: "send W e2 s2 w STOP = Some ((e3, s3), y)" by (cases z) auto
        have s3: "P s3" using send_kept [OF assms(1) s2 y] .
        then show ?thesis
          using run x Inr o True y kept_agent_error [OF s3] observe_kept [OF s3]
          by (cases y) (auto simp: inspect_one_def Let_def error_ok_def split: prod.splits)
      qed
    qed
  qed
qed

lemma inspect_all_kept:
  "calls_keep W \<Longrightarrow> P s \<Longrightarrow> inspect_all W V ttl ws (e, s, rep) = ((e', s', rep'), err) \<Longrightarrow> P s' \<and> error_ok err"
proof (induction ws arbitrary: e s rep)
  case (Cons w ws)
  obtain e1 s1 rep1 x where i: "inspect_one W V ttl w (e, s, rep) = ((e1, s1, rep1), x)"
    by (cases "inspect_one W V ttl w (e, s, rep)") auto
  show ?case
    using Cons.prems(1,3) Cons.IH [of s1 e1 rep1] i inspect_one_kept [OF Cons.prems(1,2) i] by (cases x) auto
qed (simp add: error_ok_def)

lemma start_claimed_kept:
  assumes "calls_keep W" and "P s" and run: "start_claimed W V ttl w (e, s, rep) = ((e', s', rep'), err)"
  shows "P s' \<and> error_ok err"
proof (cases "send W e s w START")
  case None
  then show ?thesis using assms by (auto simp: start_claimed_def error_ok_def)
next
  case (Some y)
  then obtain e1 s1 x where x: "send W e s w START = Some ((e1, s1), x)" by (cases y) auto
  have s1: "P s1" using send_kept [OF assms(1,2) x] .
  show ?thesis
    using run x kept_agent_error [OF s1] kept_fail_start [OF s1] observe_kept [OF s1]
    by (cases x) (auto simp: start_claimed_def Let_def error_ok_def split: prod.splits if_splits)
qed

lemma schedule_loop_kept:
  "calls_keep W \<Longrightarrow> P s \<Longrightarrow> schedule_loop W V ttl n (e, s, rep) = Some ((e', s', rep'), err) \<Longrightarrow> P s' \<and> error_ok err"
proof (induction n arbitrary: e s rep)
  case (Suc n)
  obtain e1 now e2 gid where ev: "w_clock W e = (e1, now)" "w_uuid W e1 = (e2, gid)"
    by (cases "w_clock W e"; cases "w_uuid W (fst (w_clock W e))") auto
  show ?case
  proof (cases "claim_fifo_head V ttl now gid s")
    case (Inl x)
    then show ?thesis using Suc.prems ev by (auto simp: error_ok_def)
  next
    case (Inr p)
    obtain s1 att where p: "p = (s1, att)" by (cases p)
    note c = Inr [unfolded p]
    have s1: "P s1" using kept_claim [OF Suc.prems(2) c] .
    show ?thesis
    proof (cases att)
      case (Claimed w)
      obtain e3 s3 rep3 x where sc: "start_claimed W V ttl w (e2, s1, rep) = ((e3, s3, rep3), x)"
        by (cases "start_claimed W V ttl w (e2, s1, rep)") auto
      note s3 = start_claimed_kept [OF Suc.prems(1) s1 sc]
      show ?thesis
        using Suc.prems(1,3) ev c Claimed sc s3 Suc.IH [of s3 e3 rep3] by (cases x) simp_all
    qed (use Suc.prems(1,3) ev c s1 Suc.IH in \<open>auto simp: error_ok_def\<close>)
  qed
qed simp

lemma run_once_kept:
  assumes "calls_keep W" and "P s" and run: "run_once W V ttl fuel e s = Some ((e', s', rep'), err)"
  shows "P s' \<and> error_ok err"
proof -
  obtain e1 s1 rep1 x where i: "inspect_all W V ttl (load_active_workloads s) (e, s, empty_report) = ((e1, s1, rep1), x)"
    by (cases "inspect_all W V ttl (load_active_workloads s) (e, s, empty_report)") auto
  note one = inspect_all_kept [OF assms(1,2) i]
  show ?thesis
  proof (cases x)
    case None
    obtain e2 now where c: "w_clock W e1 = (e2, now)" by (cases "w_clock W e1")
    obtain s2 n where r: "reap_terminal_expired_leases now s1 = (s2, n)"
      by (cases "reap_terminal_expired_leases now s1")
    have "P s2" using kept_reap [of s1 now] one r by simp
    then show ?thesis using run i None c r schedule_loop_kept [OF assms(1)] by (simp add: run_once_def)
  next
    case (Some err')
    then show ?thesis using run i one by (simp add: run_once_def)
  qed
qed

end

end
