(* ===== verification/ControlPlane.thy ===== *)
theory ControlPlane
  imports ControlRoutes RoundFrame
begin

text \<open>
  The control plane as a whole: request handlers commit at any time, also while the reconciler waits
  for the node agent, and the reconciler runs its rounds. Every reachable database keeps the lease
  discipline of theory LeaseDiscipline; the properties are read off it.
\<close>

section \<open>Inserting a row\<close>

fun add_row :: "row \<Rightarrow> db \<Rightarrow> db" where
  "add_row (DeploymentRow d) s = s\<lparr>deployments := deployments s @ [d]\<rparr>"
| "add_row (TrainingRow t) s = s\<lparr>training_jobs := training_jobs s @ [t]\<rparr>"
| "add_row (EvaluationRow e) s = s\<lparr>evaluation_runs := evaluation_runs s @ [e]\<rparr>"

lemma get_row_add_row:
  "get_row k (add_row r s) = (case get_row k s of Some x \<Rightarrow> Some x
     | None \<Rightarrow> if row_key r = k then Some r else None)"
  by (cases "(k, s)" rule: get_row.cases; cases r)
     (auto simp: lookup_by_append lookup_by_single row_key_def split: option.split)

lemma add_row_leases [simp]: "gpu_leases (add_row r s) = gpu_leases s"
  by (cases r) auto

lemma all_rows_add_row: "set (all_rows (add_row r s)) = insert r (set (all_rows s))"
  by (cases r) (auto simp: all_rows_def)

lemma keyed_append: "keyed key rs \<Longrightarrow> lookup_by key (key r) rs = None \<Longrightarrow> keyed key (rs @ [r])"
  by (auto simp: keyed_def lookup_by_None_iff)

lemma keys_ok_add_row: "keys_ok s \<Longrightarrow> get_row (row_key r) s = None \<Longrightarrow> keys_ok (add_row r s)"
  by (cases r) (auto simp: keys_ok_def row_key_def keyed_append)

lemma ok_add_row:
  assumes "db_ok s" and "get_row (row_key r) s = None" and "request_ok r" and "\<not> is_active r"
  shows "db_ok (add_row r s)"
  unfolding wf_iff
proof (intro conjI allI)
  show "keys_ok (add_row r s)" using assms(1,2) keys_ok_add_row by (simp add: db_ok_def)
  show "lease_inv (gpu_leases (add_row r s))" using assms(1) by (simp add: db_ok_def)
  show "\<forall>r \<in> set (all_rows (add_row r s)). request_ok r"
    using assms(1,3) by (auto simp: all_rows_add_row db_ok_def)
  fix k :: lease_key
  obtain ty i g where k: "k = (ty, i, g)" by (cases k)
  have "expected (add_row r s) k = expected s k"
    using assms(2,4) by (auto simp: k get_row_add_row split: option.split)
  then show "held (gpu_leases (add_row r s)) k = expected (add_row r s) k"
    using wf_held [OF assms(1), of ty i g] by (simp add: k)
qed

section \<open>Rows, assets and leases that a handler changes\<close>

fun input_assets :: "row \<Rightarrow> uuid set" where
  "input_assets (DeploymentRow d) = {dep_model_asset_id d}"
| "input_assets (TrainingRow t) = {train_model_asset_id t}"
| "input_assets (EvaluationRow e) = {base_model_asset_id e, candidate_model_asset_id e}"

definition alive :: "model_asset list \<Rightarrow> uuid \<Rightarrow> bool" where
  "alive A a \<longleftrightarrow> (case lookup_by asset_id a A of Some m \<Rightarrow> deleted_at m = None | None \<Rightarrow> False)"

lemma alive_append: "alive A a \<Longrightarrow> alive (A @ [m]) a"
  by (auto simp: alive_def lookup_by_append split: option.splits)

lemma alive_replace:
  "alive (replace_by asset_id m A) a \<longleftrightarrow> (if asset_id m = a \<and> lookup_by asset_id a A \<noteq> None
     then deleted_at m = None else alive A a)"
  by (auto simp: alive_def lookup_by_replace_by split: option.splits)

lemma active_asset_alive: "get_active_model_asset i s = Inr m \<Longrightarrow> alive (model_assets s) i \<and> asset_id m = i"
  by (auto simp: get_active_model_asset_def alive_def dest: lookup_by_SomeD split: option.splits if_splits)

lemma put_row_models [simp]: "model_assets (put_row r s) = model_assets s"
  by (cases r) simp_all

lemma add_row_models [simp]: "model_assets (add_row r s) = model_assets s"
  by (cases r) simp_all

lemma del_row_models [simp]: "model_assets (del_row k s) = model_assets s"
  by (cases "(k, s)" rule: del_row.cases) simp_all

lemma put_row_same_models: "(put_row r s)\<lparr>model_assets := model_assets s\<rparr> = put_row r s"
  by (cases r) simp_all

text \<open>The models that workloads were created for are there and not deleted.\<close>

definition inputs_ok :: "db \<Rightarrow> bool" where
  "inputs_ok s \<longleftrightarrow> (\<forall>r \<in> set (all_rows s). \<forall>a \<in> input_assets r. alive (model_assets s) a)"

definition benign :: "row \<Rightarrow> row \<Rightarrow> bool" where
  "benign r r' \<longleftrightarrow> row_key r' = row_key r \<and> request_ok r' \<and> is_active r' = is_active r
     \<and> rgen r' = rgen r \<and> (rgpus r' = rgpus r \<or> \<not> is_active r)"

lemma ok_put_benign:
  assumes "db_ok s" and "get_row k s = Some r" and "benign r r'"
  shows "db_ok (put_row r' s)"
proof -
  have k: "row_key r = k" using assms(1,2) wf_row by blast
  have "db_ok (put_row r' (s\<lparr>gpu_leases := gpu_leases s\<rparr>))"
    using assms k by (intro wf_same_claim [OF assms(1), where r = r]) (auto simp: benign_def db_ok_def)
  then show ?thesis by simp
qed

lemma pending_put_benign:
  assumes "db_ok s" and "get_row k s = Some r" and "benign r r'" and "pending_ok s ow"
  shows "pending_ok (put_row r' s) ow"
proof -
  have k: "row_key r = k" using assms(1,2) wf_row by blast
  show ?thesis using assms k by (auto simp: pending_ok_def get_row_put_row benign_def)
qed

lemma pending_add_row:
  "rgen r = 0 \<Longrightarrow> 1 \<le> own_generation ow \<Longrightarrow> pending_ok s ow \<Longrightarrow> pending_ok (add_row r s) ow"
  by (auto simp: pending_ok_def get_row_add_row split: option.splits)

lemma get_row_assets [simp]: "get_row k (s\<lparr>model_assets := A\<rparr>) = get_row k s"
  by (cases "(k, s)" rule: get_row.cases) auto

lemma all_rows_assets [simp]: "all_rows (s\<lparr>model_assets := A\<rparr>) = all_rows s"
  by (simp add: all_rows_def)

lemma put_row_assets: "put_row r (s\<lparr>model_assets := A\<rparr>) = (put_row r s)\<lparr>model_assets := A\<rparr>"
  by (cases r) auto

lemma ok_assets [simp]: "db_ok (s\<lparr>model_assets := A\<rparr>) = db_ok s"
  by (simp add: db_ok_def keys_ok_def leases_match_def all_rows_def)

lemma pending_assets [simp]: "pending_ok (s\<lparr>model_assets := A\<rparr>) ow = pending_ok s ow"
  by (simp add: pending_ok_def)

lemma held_filter_owner:
  "held (filter (\<lambda>l. \<not> same_owner ow l) L) (ty, i, g) = (if (ty, i) = owner_row_key ow then {} else held L (ty, i, g))"
  by (auto simp: held_def lease_key_of_def same_owner_def owner_row_key_def)

lemma ok_delete:
  assumes "db_ok s" and "owner_row_key ow = k"
  shows "db_ok (del_row k (s\<lparr>gpu_leases := filter (\<lambda>l. \<not> same_owner ow l) (gpu_leases s)\<rparr>))"
  unfolding wf_iff
proof (intro conjI allI)
  let ?s = "del_row k (s\<lparr>gpu_leases := filter (\<lambda>l. \<not> same_owner ow l) (gpu_leases s)\<rparr>)"
  show "keys_ok ?s" using assms(1) by (simp add: keys_ok_del_row db_ok_def)
  show "lease_inv (gpu_leases ?s)" using assms(1) by (simp add: lease_inv_filter db_ok_def)
  show "\<forall>r \<in> set (all_rows ?s). request_ok r" using assms(1) by (auto simp: all_rows_del_row db_ok_def)
  fix key :: lease_key
  obtain ty i g where key: "key = (ty, i, g)" by (cases key)
  show "held (gpu_leases ?s) key = expected ?s key"
    using wf_held [OF assms(1), of ty i g] assms(2) by (auto simp: key held_filter_owner get_row_del_row)
qed

lemma pending_del_row: "pending_ok s ow \<Longrightarrow> pending_ok (del_row k (s\<lparr>gpu_leases := L\<rparr>)) ow"
  by (simp add: pending_ok_def get_row_del_row)

section \<open>Handlers are benign\<close>

lemma row_of_lookup:
  "lookup_by row_id i (deployments s) = Some d \<Longrightarrow> get_row (DEPLOYMENT, i) s = Some (DeploymentRow d)"
  "lookup_by row_id i (training_jobs s) = Some t \<Longrightarrow> get_row (TRAINING, i) s = Some (TrainingRow t)"
  "lookup_by row_id i (evaluation_runs s) = Some e \<Longrightarrow> get_row (EVALUATION, i) s = Some (EvaluationRow e)"
  by simp_all

lemmas state_sets = active_deployment_states_def active_job_states_def terminal_deployment_states_def
  terminal_job_states_def editable_states_def

lemma benign_stop: "request_ok (DeploymentRow d) \<Longrightarrow> benign (DeploymentRow d) (DeploymentRow (stop_row d))"
  by (cases "dep_actual d") (auto simp: benign_def request_ok_def row_key_def stop_row_def Let_def state_sets)

lemma benign_start:
  "request_ok (DeploymentRow d) \<Longrightarrow> dep_actual d \<noteq> D_STOPPING \<Longrightarrow>
     benign (DeploymentRow d) (DeploymentRow (start_row now d))"
  by (cases "dep_actual d") (auto simp: benign_def request_ok_def row_key_def start_row_def Let_def state_sets)

lemma benign_terminate: "request_ok (TrainingRow t) \<Longrightarrow> benign (TrainingRow t) (TrainingRow (terminate_row now t))"
  by (cases "job_actual t") (auto simp: benign_def request_ok_def row_key_def terminate_row_def Let_def state_sets)

lemma benign_cancel: "request_ok (EvaluationRow e) \<Longrightarrow> benign (EvaluationRow e) (EvaluationRow (cancel_row now e))"
  by (cases "job_actual e") (auto simp: benign_def request_ok_def row_key_def cancel_row_def Let_def state_sets)

lemma benign_publish:
  "request_ok (TrainingRow t) \<Longrightarrow> benign (TrainingRow t) (TrainingRow (t\<lparr>published_model_asset_id := a\<rparr>))"
  by (auto simp: benign_def request_ok_def row_key_def)

definition updated_row :: "deployment \<Rightarrow> deployment \<Rightarrow> bool" where
  "updated_row d d' \<longleftrightarrow> row_id d' = row_id d \<and> dep_actual d' = dep_actual d
     \<and> dep_actual d \<in> editable_states \<and> runtime_generation d' = runtime_generation d
     \<and> request_ok (DeploymentRow d') \<and> dep_model_asset_id d' = dep_model_asset_id d"

lemma benign_update: "updated_row d d' \<Longrightarrow> benign (DeploymentRow d) (DeploymentRow d')"
  by (auto simp: updated_row_def benign_def row_key_def state_sets)

lemma update_deployment_put:
  assumes "update_deployment cfg i p s = Inr s'" and "db_ok s"
  shows "\<exists>d d'. lookup_by row_id i (deployments s) = Some d \<and> s' = put_row (DeploymentRow d') s
    \<and> updated_row d d' \<and> state_version d' = state_version d + 1"
proof -
  obtain d where d: "lookup_by row_id i (deployments s) = Some d"
    using assms(1) by (auto simp: update_deployment_def split: if_splits option.splits)
  have ok: "request_ok (DeploymentRow d)" using wf_row [OF assms(2) row_of_lookup(1) [OF d]] by simp
  have v: "deployment_update_ok p" and ed: "dep_actual d \<in> editable_states"
    using assms(1) d by (auto simp: update_deployment_def split: if_splits)
  obtain gpus where g: "field_or (gpu_ids d) (du_gpu_ids p) = Some gpus"
    using assms(1) d v ed by (auto simp: update_deployment_def split: option.splits)
  obtain n where n: "field_or (row_name d) (du_name p) = Some n"
    using assms(1) d v ed g by (auto simp: update_deployment_def split: if_splits option.splits)
  have gok: "gpus \<noteq> [] \<and> distinct gpus \<and> (\<forall>x \<in> set gpus. 0 \<le> x)"
    using g v ok by (cases "du_gpu_ids p") (auto simp: deployment_update_ok_def gpu_ids_ok_def request_ok_def)
  have nok: "1 \<le> length n \<and> length n \<le> 128"
    using n v ok by (cases "du_name p") (auto simp: deployment_update_ok_def name_ok_def request_ok_def)
  let ?d = "d\<lparr>row_name := n, gpu_ids := gpus, tensor_parallel_size := int (length gpus),
    simplified_config := (case du_simplified_config p of
       Unset \<Rightarrow> simplified_config d | Null \<Rightarrow> JNull | Value c \<Rightarrow> JObj (dump_simplified_config True c)),
    vllm_args := (case du_vllm_args p of Unset \<Rightarrow> vllm_args d | Null \<Rightarrow> JNull | Value a \<Rightarrow> JObj a),
    state_version := state_version d + 1\<rparr>"
  have "s' = put_row (DeploymentRow ?d) s"
    using assms(1) d v ed g n by (auto simp: update_deployment_def commit_deployments_def split: if_splits)
  moreover have "updated_row d ?d"
    using ok ed gok nok by (auto simp: updated_row_def request_ok_def state_sets)
  ultimately show ?thesis using d by auto
qed

lemma create_deployment_add:
  assumes "create_deployment cfg p i now s = Inr s'"
  shows "s' = add_row (DeploymentRow (new_deployment p i now)) s \<and> deployment_create_ok p
    \<and> (\<forall>a \<in> input_assets (DeploymentRow (new_deployment p i now)). alive (model_assets s) a)"
  using assms active_asset_alive
  by (auto simp: create_deployment_def commit_deployments_def new_deployment_def split: if_splits sum.splits)

lemma create_training_job_add:
  assumes "create_training_job cfg V F p i now s = Inr s'"
  shows "\<exists>dir. s' = add_row (TrainingRow (new_training_job p dir i now)) s \<and> training_job_create_ok p
    \<and> (\<forall>a \<in> input_assets (TrainingRow (new_training_job p dir i now)). alive (model_assets s) a)"
  using assms active_asset_alive
  by (auto simp: create_training_job_def new_training_job_def Let_def split: if_splits sum.splits)

lemma create_evaluation_run_add:
  assumes "create_evaluation_run cfg V F p i now s = Inr s'"
  shows "\<exists>bt ct dir. s' = add_row (EvaluationRow (new_evaluation_run cfg p bt ct dir i now)) s
    \<and> evaluation_run_create_ok p
    \<and> (\<forall>a \<in> input_assets (EvaluationRow (new_evaluation_run cfg p bt ct dir i now)). alive (model_assets s) a)"
  using assms active_asset_alive
  by (auto simp: create_evaluation_run_def new_evaluation_run_def Let_def split: if_splits sum.splits prod.splits)

lemma new_rows:
  "deployment_create_ok p \<Longrightarrow> request_ok (DeploymentRow (new_deployment p i now))"
  "training_job_create_ok q \<Longrightarrow> request_ok (TrainingRow (new_training_job q dir i now))"
  "evaluation_run_create_ok r \<Longrightarrow> request_ok (EvaluationRow (new_evaluation_run cfg r bt ct dir i now))"
  "\<not> is_active (DeploymentRow (new_deployment p i now))" "\<not> is_active (TrainingRow (new_training_job q dir i now))"
  "\<not> is_active (EvaluationRow (new_evaluation_run cfg r bt ct dir i now))"
  by (auto simp: request_ok_def new_deployment_def new_training_job_def new_evaluation_run_def
      deployment_create_ok_def training_job_create_ok_def evaluation_run_create_ok_def gpu_ids_ok_def
      name_ok_def state_sets)

lemma new_rows_rgen [simp]:
  "rgen (DeploymentRow (new_deployment p i now)) = 0" "rgen (TrainingRow (new_training_job q dir i now)) = 0"
  "rgen (EvaluationRow (new_evaluation_run cfg r bt ct dir i now)) = 0"
  "row_key (DeploymentRow (new_deployment p i now)) = (DEPLOYMENT, i)"
  "row_key (TrainingRow (new_training_job q dir i now)) = (TRAINING, i)"
  "row_key (EvaluationRow (new_evaluation_run cfg r bt ct dir i now)) = (EVALUATION, i)"
  by (simp_all add: new_deployment_def new_training_job_def new_evaluation_run_def row_key_def)

lemma delete_workload_del:
  assumes "delete_workload agent fresh k s = Inr s'"
  shows "\<exists>ow. owner_row_key ow = k \<and> s' = del_row k (s\<lparr>gpu_leases := filter (\<lambda>l. \<not> same_owner ow l) (gpu_leases s)\<rparr>)"
proof -
  obtain r where r: "get_row k s = Some r" using assms by (auto simp: delete_workload_def split: option.splits)
  then have "row_key r = k" by (rule get_row_key)
  then show ?thesis
    using assms r
    by (auto simp: delete_workload_def confirm_absent_and_release_leases_def Let_def
        split: if_splits option.splits sum.splits intro!: exI [of _ "owner_at _ r"])
qed

section \<open>The steps of the control plane\<close>

text \<open>
  One committed request. New ids are \<open>uuid4()\<close>, so they are fresh. A start of a deployment that is
  still stopping is left out: that transition breaks the discipline (see the properties). Each
  handler is atomic: the handlers that read without a lock are taken to see the row they change.
\<close>

inductive route_step :: "db \<Rightarrow> db \<Rightarrow> bool" where
  create_dep: "create_deployment cfg p i now s = Inr s' \<Longrightarrow> get_row (DEPLOYMENT, i) s = None \<Longrightarrow> route_step s s'"
| update_dep: "update_deployment cfg i u s = Inr s' \<Longrightarrow> route_step s s'"
| start_dep: "start_deployment i now s = Inr s' \<Longrightarrow>
    \<forall>d. lookup_by row_id i (deployments s) = Some d \<longrightarrow> dep_actual d \<noteq> D_STOPPING \<Longrightarrow> route_step s s'"
| stop_dep: "stop_deployment i s = Inr s' \<Longrightarrow> route_step s s'"
| delete_any: "delete_workload agent fresh k s = Inr s' \<Longrightarrow> route_step s s'"
| create_train: "create_training_job cfg V F q i now s = Inr s' \<Longrightarrow> get_row (TRAINING, i) s = None \<Longrightarrow> route_step s s'"
| terminate_train: "terminate_training_job i now s = Inr s' \<Longrightarrow> route_step s s'"
| create_eval: "create_evaluation_run cfg V F r i now s = Inr s' \<Longrightarrow> get_row (EVALUATION, i) s = None \<Longrightarrow> route_step s s'"
| cancel_eval: "cancel_evaluation_run i now s = Inr s' \<Longrightarrow> route_step s s'"
| publish: "publish_training_model F i new s = Inr (s', m) \<Longrightarrow> route_step s s'"
| update_asset: "update_model_asset i nm s = Inr s' \<Longrightarrow> route_step s s'"
| delete_asset: "delete_model_asset i now s = Inr s' \<Longrightarrow> route_step s s'"

text \<open>What a step does to the database, as the rest of the proof sees it.\<close>

inductive benign_change :: "db \<Rightarrow> db \<Rightarrow> bool" where
  add: "get_row (row_key r) s = None \<Longrightarrow> request_ok r \<Longrightarrow> \<not> is_active r \<Longrightarrow> rgen r = 0 \<Longrightarrow>
    benign_change s (add_row r s)"
| put: "get_row k s = Some r \<Longrightarrow> benign r r' \<Longrightarrow>
    benign_change s ((put_row r' s)\<lparr>model_assets := A\<rparr>)"
| del: "owner_row_key ow = k \<Longrightarrow>
    benign_change s (del_row k (s\<lparr>gpu_leases := filter (\<lambda>l. \<not> same_owner ow l) (gpu_leases s)\<rparr>))"
| assets: "benign_change s (s\<lparr>model_assets := A\<rparr>)"

lemma benign_put: "get_row k s = Some r \<Longrightarrow> benign r r' \<Longrightarrow> benign_change s (put_row r' s)"
  using benign_change.put [of k s r r' "model_assets s"] by (simp add: put_row_same_models)

lemma benign_change_ok:
  assumes "benign_change s s'" and "db_ok s"
  shows "db_ok s'"
  using assms by cases (auto simp: ok_add_row ok_put_benign ok_delete)

lemma benign_change_pending:
  assumes "benign_change s s'" and "db_ok s" and "1 \<le> own_generation ow" and "pending_ok s ow"
  shows "pending_ok s' ow"
  using assms by cases (auto simp: pending_add_row pending_put_benign pending_del_row)

lemma publish_change:
  assumes "publish_training_model F i new s = Inr (s', m)" and "db_ok s"
  shows "benign_change s s'"
proof -
  obtain t where t: "lookup_by row_id i (training_jobs s) = Some t"
    using assms(1) by (auto simp: publish_training_model_def split: option.splits)
  have ok: "request_ok (TrainingRow t)" using wf_row [OF assms(2) row_of_lookup(2) [OF t]] by simp
  have link: "benign_change s ((put_row (TrainingRow (t\<lparr>published_model_asset_id := a\<rparr>)) s)\<lparr>model_assets := A\<rparr>)"
    for a A by (rule benign_change.put [OF row_of_lookup(2) [OF t] benign_publish [OF ok]])
  have same: "benign_change s s" using benign_change.assets [of s "model_assets s"] by simp
  have s: "put_row r s = (put_row r s)\<lparr>model_assets := model_assets (put_row r s)\<rparr>" for r by simp
  have one: "benign_change s (link_published a t s)" for a
    unfolding link_published_def by (subst s) (rule link)
  have two: "benign_change s (link_published a t (s\<lparr>model_assets := A\<rparr>))" for a A
    unfolding link_published_def put_row_assets by (rule link)
  show ?thesis
    using assms(1) t same one two
    by (auto simp: publish_training_model_def Let_def split: if_splits option.splits sum.splits)
qed

lemma route_step_benign:
  assumes "route_step s s'" and "db_ok s"
  shows "benign_change s s'"
  using assms(1)
proof cases
  case (create_dep cfg p i now)
  have "benign_change s (add_row (DeploymentRow (new_deployment p i now)) s)"
    by (rule benign_change.add [OF _ new_rows(1) new_rows(4) new_rows_rgen(1)])
      (use create_dep create_deployment_add in \<open>auto simp del: get_row.simps input_assets.simps\<close>)
  then show ?thesis using create_deployment_add [OF create_dep(1)] by simp
next
  case update_dep
  then show ?thesis
    using update_deployment_put [OF _ assms(2)] row_of_lookup(1) benign_update benign_put by metis
next
  case (start_dep i now)
  then obtain d where d: "lookup_by row_id i (deployments s) = Some d"
    "s' = put_row (DeploymentRow (start_row now d)) s"
    by (auto simp: start_deployment_def split: option.splits)
  then show ?thesis
    using start_dep(2) wf_row [OF assms(2) row_of_lookup(1) [OF d(1)]] row_of_lookup(1) [OF d(1)]
      benign_start benign_put by metis
next
  case (stop_dep i)
  then obtain d where d: "lookup_by row_id i (deployments s) = Some d"
    "s' = put_row (DeploymentRow (stop_row d)) s"
    by (auto simp: stop_deployment_def split: option.splits)
  then show ?thesis
    using wf_row [OF assms(2) row_of_lookup(1) [OF d(1)]] row_of_lookup(1) [OF d(1)] benign_stop benign_put
    by metis
next
  case delete_any
  then show ?thesis using delete_workload_del benign_change.del by metis
next
  case (create_train cfg V F q i now)
  then obtain dir where d: "s' = add_row (TrainingRow (new_training_job q dir i now)) s" "training_job_create_ok q"
    using create_training_job_add by blast
  have "benign_change s (add_row (TrainingRow (new_training_job q dir i now)) s)"
    by (rule benign_change.add [OF _ new_rows(2) new_rows(5) new_rows_rgen(2)])
      (use create_train d in \<open>auto simp del: get_row.simps input_assets.simps\<close>)
  then show ?thesis by (simp only: d(1))
next
  case (terminate_train i now)
  then obtain t where t: "lookup_by row_id i (training_jobs s) = Some t"
    "s' = put_row (TrainingRow (terminate_row now t)) s"
    by (auto simp: terminate_training_job_def split: option.splits)
  then show ?thesis
    using wf_row [OF assms(2) row_of_lookup(2) [OF t(1)]] row_of_lookup(2) [OF t(1)] benign_terminate benign_put
    by metis
next
  case (create_eval cfg V F r i now)
  then obtain bt ct dir where d: "s' = add_row (EvaluationRow (new_evaluation_run cfg r bt ct dir i now)) s"
    "evaluation_run_create_ok r"
    using create_evaluation_run_add by blast
  have "benign_change s (add_row (EvaluationRow (new_evaluation_run cfg r bt ct dir i now)) s)"
    by (rule benign_change.add [OF _ new_rows(3) new_rows(6) new_rows_rgen(3)])
      (use create_eval d in \<open>auto simp del: get_row.simps input_assets.simps\<close>)
  then show ?thesis by (simp only: d(1))
next
  case (cancel_eval i now)
  then obtain e where e: "lookup_by row_id i (evaluation_runs s) = Some e"
    "s' = put_row (EvaluationRow (cancel_row now e)) s"
    by (auto simp: cancel_evaluation_run_def split: option.splits)
  then show ?thesis
    using wf_row [OF assms(2) row_of_lookup(3) [OF e(1)]] row_of_lookup(3) [OF e(1)] benign_cancel benign_put
    by metis
next
  case publish
  then show ?thesis using publish_change assms(2) by blast
next
  case update_asset
  then show ?thesis
    by (auto simp: update_model_asset_def split: if_splits sum.splits option.splits intro: benign_change.assets)
next
  case delete_asset
  then show ?thesis
    by (auto simp: delete_model_asset_def split: if_splits sum.splits intro: benign_change.assets)
qed

section \<open>The models of a workload stay\<close>

lemma row_in: "get_row k s = Some r \<Longrightarrow> r \<in> set (all_rows s)"
  by (cases "(k, s)" rule: get_row.cases) (auto simp: all_rows_def dest: lookup_by_SomeD)

lemma inputs_put:
  assumes "inputs_ok s" and "get_row k s = Some r" and "input_assets r' = input_assets r"
  shows "inputs_ok (put_row r' (s\<lparr>gpu_leases := L\<rparr>))"
  using assms row_in [OF assms(2)] by (auto simp: inputs_ok_def all_rows_put_row)

lemma inputs_put_same:
  "inputs_ok s \<Longrightarrow> get_row k s = Some r \<Longrightarrow> input_assets r' = input_assets r \<Longrightarrow> inputs_ok (put_row r' s)"
  using inputs_put [of s k r r' "gpu_leases s"] by simp

lemma inputs_put_rows:
  "inputs_ok s \<Longrightarrow> lookup_by row_id i (deployments s) = Some d \<Longrightarrow> dep_model_asset_id d' = dep_model_asset_id d \<Longrightarrow>
     inputs_ok (s\<lparr>deployments := replace_by row_id d' (deployments s)\<rparr>)"
  "inputs_ok s \<Longrightarrow> lookup_by row_id i (training_jobs s) = Some t \<Longrightarrow> train_model_asset_id t' = train_model_asset_id t \<Longrightarrow>
     inputs_ok (s\<lparr>training_jobs := replace_by row_id t' (training_jobs s)\<rparr>)"
  "inputs_ok s \<Longrightarrow> lookup_by row_id i (evaluation_runs s) = Some e \<Longrightarrow>
     base_model_asset_id e' = base_model_asset_id e \<Longrightarrow> candidate_model_asset_id e' = candidate_model_asset_id e \<Longrightarrow>
     inputs_ok (s\<lparr>evaluation_runs := replace_by row_id e' (evaluation_runs s)\<rparr>)"
  using inputs_put_same [of s "(DEPLOYMENT, i)" "DeploymentRow d" "DeploymentRow d'"]
    inputs_put_same [of s "(TRAINING, i)" "TrainingRow t" "TrainingRow t'"]
    inputs_put_same [of s "(EVALUATION, i)" "EvaluationRow e" "EvaluationRow e'"]
  by simp_all

lemma inputs_put_models:
  "inputs_ok s \<Longrightarrow> get_row k s = Some r \<Longrightarrow> input_assets r' = input_assets r \<Longrightarrow>
     inputs_ok (put_row r' (s\<lparr>model_assets := model_assets s @ [m]\<rparr>))"
  using row_in [of k s r] by (auto simp: inputs_ok_def all_rows_put_row alive_append)

lemma inputs_add:
  "inputs_ok s \<Longrightarrow> \<forall>a \<in> input_assets r. alive (model_assets s) a \<Longrightarrow> inputs_ok (add_row r s)"
  by (auto simp: inputs_ok_def all_rows_add_row)

lemma unreferenced_asset:
  "\<not> model_asset_has_operational_references i s \<Longrightarrow> r \<in> set (all_rows s) \<Longrightarrow> i \<notin> input_assets r"
  by (cases r) (auto simp: model_asset_has_operational_references_def all_rows_def list_ex_iff)

lemma update_deployment_inputs:
  assumes "update_deployment cfg i u s = Inr s'" and "inputs_ok s"
  shows "inputs_ok s'"
proof -
  obtain d d' where d: "lookup_by row_id i (deployments s) = Some d" "s' = put_row (DeploymentRow d') s"
      "dep_model_asset_id d' = dep_model_asset_id d"
    using assms(1)
    by (auto simp: update_deployment_def commit_deployments_def split: if_splits option.splits)
  then show ?thesis using inputs_put_rows(1) [OF assms(2) d(1)] by simp
qed

lemma publish_inputs:
  assumes "publish_training_model F i new s = Inr (s', m)" and "inputs_ok s"
  shows "inputs_ok s'"
proof -
  obtain t where t: "lookup_by row_id i (training_jobs s) = Some t"
    using assms(1) by (auto simp: publish_training_model_def split: option.splits)
  note r = row_of_lookup(2) [OF t]
  have one: "inputs_ok (link_published a t s)" for a
    unfolding link_published_def by (rule inputs_put_same [OF assms(2) r]) simp
  have two: "inputs_ok (link_published a t (s\<lparr>model_assets := model_assets s @ [x]\<rparr>))" for a x
    unfolding link_published_def by (rule inputs_put_models [OF assms(2) r]) simp
  show ?thesis
    using assms t one two
    by (auto simp: publish_training_model_def Let_def split: if_splits option.splits sum.splits)
qed

lemma update_asset_inputs:
  assumes "update_model_asset i nm s = Inr s'" and "inputs_ok s"
  shows "inputs_ok s'"
proof -
  obtain a n where a: "get_active_model_asset i s = Inr a"
    "s' = s\<lparr>model_assets := replace_by asset_id (a\<lparr>asset_name := n\<rparr>) (model_assets s)\<rparr>"
    using assms(1) by (auto simp: update_model_asset_def split: if_splits sum.splits option.splits)
  have "deleted_at a = None" using a(1) by (auto simp: get_active_model_asset_def split: option.splits if_splits)
  then show ?thesis using assms(2) unfolding a(2) by (simp add: inputs_ok_def alive_replace)
qed

lemma delete_asset_inputs:
  assumes "delete_model_asset i now s = Inr s'" and "inputs_ok s"
  shows "inputs_ok s'"
proof -
  obtain a where a: "\<not> model_asset_has_operational_references (asset_id a) s"
    "s' = s\<lparr>model_assets := replace_by asset_id
       (a\<lparr>deleted_at := Some now, asset_status := ASSET_FAILED, asset_error := Some AssetSoftDeleted\<rparr>)
       (model_assets s)\<rparr>"
    using assms(1) by (auto simp: delete_model_asset_def split: if_splits sum.splits)
  then show ?thesis
    using assms(2) unreferenced_asset [OF a(1)] by (auto simp: inputs_ok_def alive_replace)
qed

lemma input_assets_handlers [simp]:
  "dep_model_asset_id (start_row now d) = dep_model_asset_id d" "dep_model_asset_id (stop_row d) = dep_model_asset_id d"
  "train_model_asset_id (terminate_row now t) = train_model_asset_id t"
  "base_model_asset_id (cancel_row now e) = base_model_asset_id e"
  "candidate_model_asset_id (cancel_row now e) = candidate_model_asset_id e"
  by (simp_all add: start_row_def stop_row_def terminate_row_def cancel_row_def Let_def)

lemma route_step_inputs:
  assumes "route_step s s'" and "inputs_ok s"
  shows "inputs_ok s'"
  using assms(1)
proof cases
  case create_dep
  then show ?thesis using create_deployment_add inputs_add [OF assms(2)] by metis
next
  case create_train
  then show ?thesis using create_training_job_add inputs_add [OF assms(2)] by metis
next
  case create_eval
  then show ?thesis using create_evaluation_run_add inputs_add [OF assms(2)] by metis
next
  case update_dep
  then show ?thesis using update_deployment_inputs assms(2) by blast
next
  case start_dep
  then show ?thesis
    using inputs_put_rows(1) [OF assms(2)]
    by (auto simp: start_deployment_def split: option.splits)
next
  case stop_dep
  then show ?thesis
    using inputs_put_rows(1) [OF assms(2)]
    by (auto simp: stop_deployment_def split: option.splits)
next
  case terminate_train
  then show ?thesis
    using inputs_put_rows(2) [OF assms(2)]
    by (auto simp: terminate_training_job_def split: option.splits)
next
  case cancel_eval
  then show ?thesis
    using inputs_put_rows(3) [OF assms(2)]
    by (auto simp: cancel_evaluation_run_def split: option.splits)
next
  case delete_any
  then show ?thesis using delete_workload_del assms(2) by (fastforce simp: inputs_ok_def all_rows_del_row)
next
  case publish
  then show ?thesis using publish_inputs assms(2) by blast
next
  case update_asset
  then show ?thesis using update_asset_inputs assms(2) by blast
next
  case delete_asset
  then show ?thesis using delete_asset_inputs assms(2) by blast
qed

lemma input_assets_reconciler [simp]:
  "input_assets (set_rgen g r) = input_assets r" "input_assets (set_rerror m r) = input_assets r"
  "input_assets (claimed_row r) = input_assets r" "input_assets (preflight_failed_row now e r) = input_assets r"
  "input_assets (failed_start_row now n r) = input_assets r"
  by (cases r; simp)+

lemma observed_models:
  "dep_model_asset_id (fst (apply_deployment_observation d ow resp now L)) = dep_model_asset_id d"
  "train_model_asset_id (job_absent resp now t) = train_model_asset_id t"
  "train_model_asset_id (copy_training_metadata md t) = train_model_asset_id t"
  "train_model_asset_id (first_running resp now t) = train_model_asset_id t"
  "train_model_asset_id (job_live resp t) = train_model_asset_id t"
  "base_model_asset_id (job_absent resp now e) = base_model_asset_id e"
  "candidate_model_asset_id (job_absent resp now e) = candidate_model_asset_id e"
  "base_model_asset_id (evaluation_live resp now e) = base_model_asset_id e"
  "candidate_model_asset_id (evaluation_live resp now e) = candidate_model_asset_id e"
  by (simp_all add: apply_deployment_observation_def Let_def job_absent_def copy_training_metadata_def
      first_running_def job_live_def evaluation_live_def)

lemma finished_models:
  "train_model_asset_id (training_finished V resp now t) = train_model_asset_id t"
  "train_model_asset_id (training_live V resp now t) = train_model_asset_id t"
  "base_model_asset_id (evaluation_finished V resp now e) = base_model_asset_id e"
  "candidate_model_asset_id (evaluation_finished V resp now e) = candidate_model_asset_id e"
  by (simp_all add: training_finished_def training_live_def evaluation_finished_def Let_def observed_models
      split: sum.split option.split)

lemma input_assets_observed:
  "apply_row_observation V r ow resp now L = (r', L') \<Longrightarrow> input_assets r' = input_assets r"
  by (cases r) (auto simp: observed_models finished_models split_beta split: if_splits)

lemma observation_inputs:
  assumes "inputs_ok s" shows "inputs_ok (apply_observation V ttl ow resp now s)"
proof (cases "get_row (owner_row_key ow) s")
  case (Some r)
  obtain r' L where o: "apply_row_observation V r ow resp now (gpu_leases s) = (r', L)"
    by (cases "apply_row_observation V r ow resp now (gpu_leases s)")
  then show ?thesis
    using Some assms inputs_put [OF assms Some input_assets_observed [OF o]]
    by (simp add: apply_observation_def)
qed (use assms in \<open>simp add: apply_observation_def\<close>)

lemma claim_inputs:
  assumes "inputs_ok s" and "claim_fifo_head V ttl now gid s = Inr (s', att)"
  shows "inputs_ok s'"
proof (cases "queue s = []")
  case True
  then show ?thesis using assms by (simp add: claim_fifo_head_def)
next
  case False
  let ?r = "arg_min_list queue_sort_key (queue s)"
  have "?r \<in> set (queue s)" by (rule arg_min_list_in [OF False])
  then have r: "?r \<in> set (all_rows s)" by (simp add: queue_def)
  have put: "inputs_ok (put_row r' (s\<lparr>gpu_leases := L\<rparr>))" if "input_assets r' = input_assets ?r" for r' L
    using assms(1) r that by (auto simp: inputs_ok_def all_rows_put_row)
  have put': "inputs_ok (put_row r' s)" if "input_assets r' = input_assets ?r" for r'
    using put [OF that, of "gpu_leases s"] by simp
  show ?thesis
    using assms(2) False put put'
    by (auto simp: claim_fifo_head_def Let_def simp del: put_row.simps set_rgen.simps claimed_row.simps
        split: build_result.splits sum.splits if_splits)
qed

lemma claim_finds_model:
  assumes "inputs_ok s" shows "claim_fifo_head V ttl now gid s \<noteq> Inl MissingModelAsset"
proof (cases "queue s = []")
  case False
  let ?r = "arg_min_list queue_sort_key (queue s)"
  have "?r \<in> set (queue s)" by (rule arg_min_list_in [OF False])
  then have "?r \<in> set (all_rows s)" by (simp add: queue_def)
  then have "\<forall>a \<in> input_assets ?r. alive (model_assets s) a" using assms unfolding inputs_ok_def by blast
  then have "build_execution V s ?r \<noteq> BuildCrashed"
    by (cases ?r) (auto simp: alive_def split: option.splits sum.splits)
  then show ?thesis
    using False by (auto simp: claim_fifo_head_def Let_def split: build_result.splits sum.splits if_splits)
qed (simp add: claim_fifo_head_def)

interpretation models: transaction_invariant inputs_ok V ttl for V ttl
proof unfold_locales
  fix s ow m n now resp gid s' att
  assume ok: "inputs_ok s"
  show "inputs_ok (apply_observation V ttl ow resp now s)"
    by (rule observation_inputs [OF ok])
  show "inputs_ok (record_agent_error ow m s)"
    using ok inputs_put_same [OF ok _ input_assets_reconciler(2)]
    by (simp add: record_agent_error_def split: option.split)
  show "inputs_ok (fail_start ow n now s)"
    using ok inputs_put [OF ok _ input_assets_reconciler(5)] by (simp add: fail_start_def split: option.split)
  show "claim_fifo_head V ttl now gid s = Inr (s', att) \<Longrightarrow> inputs_ok s'" using ok by (rule claim_inputs)
  show "inputs_ok (fst (reap_terminal_expired_leases now s))"
    using ok by (simp add: reap_terminal_expired_leases_def inputs_ok_def split_beta)
qed

interpretation handlers: interference route_step
proof unfold_locales
  show "db_ok s \<Longrightarrow> route_step s s' \<Longrightarrow> db_ok s'" for s s'
    using route_step_benign benign_change_ok by blast
  show "db_ok s \<Longrightarrow> route_step s s' \<Longrightarrow> 1 \<le> own_generation ow \<Longrightarrow> pending_ok s ow \<Longrightarrow> pending_ok s' ow"
    for s s' ow using route_step_benign benign_change_pending by blast
qed

section \<open>Reachable databases\<close>

text \<open>
  The world: while the reconciler waits for the agent, only requests change the database. The
  program starts with no workloads and no leases.
\<close>

definition world_ok :: "'e world \<Rightarrow> bool" where
  "world_ok W \<longleftrightarrow> (\<forall>e s c. route_step\<^sup>*\<^sup>* s (snd (fst (w_call W e s c))))"

definition initial :: "db \<Rightarrow> bool" where
  "initial s \<longleftrightarrow> deployments s = [] \<and> training_jobs s = [] \<and> evaluation_runs s = [] \<and> gpu_leases s = []"

inductive reachable :: "'e world \<Rightarrow> task_checks \<Rightarrow> int \<Rightarrow> db \<Rightarrow> bool" for W V ttl where
  start: "initial s \<Longrightarrow> reachable W V ttl s"
| request: "reachable W V ttl s \<Longrightarrow> route_step s s' \<Longrightarrow> reachable W V ttl s'"
| round: "reachable W V ttl s \<Longrightarrow> run_once W V ttl fuel e s = Some ((e', s', rep), err) \<Longrightarrow>
    reachable W V ttl s'"

inductive_cases route_stepE: "route_step s s'"
inductive_simps reachable_simps: "reachable W V ttl s"

lemma initial_ok: "initial s \<Longrightarrow> db_ok s"
  by (simp add: initial_def db_ok_def keys_ok_def keyed_def lease_inv_def group_coherent_def all_rows_def
      leases_match_def)

lemma reachable_ok: "world_ok W \<Longrightarrow> reachable W V ttl s \<Longrightarrow> db_ok s"
proof (rotate_tac, induction rule: reachable.induct)
  case (round s fuel e e' s' rep err)
  then show ?case using handlers.run_once_safe [of W s V ttl fuel e e' s' rep err] by (simp add: world_ok_def)
qed (auto simp: initial_ok handlers.step_wf)

lemma models_calls: "world_ok W \<Longrightarrow> models.calls_keep W"
proof -
  have "route_step\<^sup>*\<^sup>* s s' \<Longrightarrow> inputs_ok s \<Longrightarrow> inputs_ok s'" for s s'
    by (induction rule: rtranclp_induct) (auto intro: route_step_inputs)
  then show "world_ok W \<Longrightarrow> models.calls_keep W" unfolding world_ok_def models.calls_keep_def by blast
qed

lemma reachable_inputs: "world_ok W \<Longrightarrow> reachable W V ttl s \<Longrightarrow> inputs_ok s"
proof (rotate_tac, induction rule: reachable.induct)
  case (start s)
  then show ?case by (simp add: initial_def inputs_ok_def all_rows_def)
next
  case (request s s')
  then show ?case using route_step_inputs by blast
next
  case (round s fuel e e' s' rep err)
  then show ?case using models.run_once_kept [of W s V ttl fuel e e' s' rep err] models_calls [of W] by simp
qed

section \<open>A small installation\<close>

text \<open>
  One model, two deployments created one after the other, and a round while the node agent is
  offline: the round claims both, sends their starts, and records that the agent did not answer.
\<close>

definition demo_asset :: model_asset where
  "demo_asset = \<lparr>asset_id = 7, asset_name = ''qwen'', source_type = MANUAL, source_uri = None,
     asset_revision = None, local_path = ''/models/qwen'', asset_kind = INSTRUCT, asset_format = ''safetensors'',
     asset_status = ASSET_READY, family = None, parameter_count = None, asset_size_bytes = None,
     asset_checksum = None, asset_error = None, metadata_json = [], deleted_at = None\<rparr>"

definition demo_start :: db where
  "demo_start = \<lparr>deployments = [], training_jobs = [], evaluation_runs = [], gpu_leases = [],
     model_assets = [demo_asset], datasets = []\<rparr>"

definition demo_settings :: settings where
  "demo_settings = \<lparr>gpu_count = 8, evaluation_gpu_memory_utilization = 0, evaluation_concurrency = 4, evaluation_max_tokens = 512\<rparr>"

definition demo_request :: "string \<Rightarrow> int list \<Rightarrow> deployment_create" where
  "demo_request n gpus = \<lparr>dc_name = n, dc_served_model_name = n, dc_model_asset_id = 7, dc_task_type = GENERATE,
     dc_gpu_ids = gpus, dc_tensor_parallel_size = int (length gpus),
     dc_simplified_config = \<lparr>max_model_len = Unset, gpu_utilization = Unset, dtype = Unset\<rparr>, dc_vllm_args = []\<rparr>"

definition demo_world :: "nat world" where
  "demo_world = \<lparr>w_call = \<lambda>e s c. ((e, s), Inl ''agent offline''), w_clock = \<lambda>e. (Suc e, int e),
     w_uuid = \<lambda>e. (Suc e, e)\<rparr>"

definition demo_checks :: task_checks where
  "demo_checks = \<lparr>build_training_execution = \<lambda>_ _ _. Inl ''no trainer'',
     build_evaluation_execution = \<lambda>_ _ _ _. Inl ''no evaluator'',
     validate_training_metadata = \<lambda>_ _ _. Inl ''none'', validate_training_artifacts = \<lambda>_. None,
     validate_evaluation_metadata = \<lambda>_ _. Inl ''none''\<rparr>"

definition demo_q1 :: db where
  "demo_q1 = demo_start\<lparr>deployments := [new_deployment (demo_request ''a'' [0, 1]) 1 10]\<rparr>"

definition demo_q2 :: db where
  "demo_q2 = demo_start\<lparr>deployments :=
     [new_deployment (demo_request ''a'' [0, 1]) 1 10, new_deployment (demo_request ''b'' [2]) 2 11]\<rparr>"

definition demo_started :: "deployment \<Rightarrow> deployment" where
  "demo_started d = d\<lparr>dep_actual := D_STARTING, queued_at := None, runtime_generation := 1,
     error_message := Some (CallFailed ''agent offline'')\<rparr>"

definition demo_lease :: "uuid \<Rightarrow> string \<Rightarrow> uuid \<Rightarrow> timestamp \<Rightarrow> int \<Rightarrow> lease" where
  "demo_lease i n grp now g = \<lparr>gpu_index = g, lease_group_id = grp, owner_type = DEPLOYMENT, owner_id = i,
     owner_name = n, generation = 1, acquired_at = now, heartbeat_at = now, expires_at = now + 60\<rparr>"

definition demo_db :: db where
  "demo_db = demo_start\<lparr>deployments := map demo_started (deployments demo_q2),
     gpu_leases := [demo_lease 1 ''a'' 102 101 0, demo_lease 1 ''a'' 102 101 1, demo_lease 2 ''b'' 105 104 2]\<rparr>"

lemma demo_created:
  "create_deployment demo_settings (demo_request ''a'' [0, 1]) 1 10 demo_start = Inr demo_q1"
  "create_deployment demo_settings (demo_request ''b'' [2]) 2 11 demo_q1 = Inr demo_q2"
  by code_simp+

lemma demo_q1_rows: "get_row (DEPLOYMENT, 1) demo_start = None" "get_row (DEPLOYMENT, 2) demo_q1 = None"
  by code_simp+

lemma demo_ran:
  "run_once demo_world demo_checks 60 9 100 demo_q2 = Some ((109, demo_db, empty_report\<lparr>scheduled := 2, agent_errors := 2\<rparr>), None)"
  by code_simp

lemma demo_world_ok: "world_ok demo_world"
  by (simp add: world_ok_def demo_world_def)

lemma demo_queue_reachable: "reachable demo_world demo_checks 60 demo_q2"
proof -
  have "reachable demo_world demo_checks 60 demo_start"
    by (rule reachable.start) (simp add: initial_def demo_start_def)
  then have "reachable demo_world demo_checks 60 demo_q1"
    using route_step.create_dep [OF demo_created(1) demo_q1_rows(1)] by (rule reachable.request)
  then show ?thesis
    using route_step.create_dep [OF demo_created(2) demo_q1_rows(2)] by (rule reachable.request)
qed

lemma demo_reachable: "reachable demo_world demo_checks 60 demo_db"
  using demo_ran demo_queue_reachable reachable.round by metis

lemma demo_rows:
  "all_rows demo_db ! 0 \<in> set (all_rows demo_db)" "all_rows demo_db ! 1 \<in> set (all_rows demo_db)"
  "is_active (all_rows demo_db ! 0)" "is_active (all_rows demo_db ! 1)"
  "row_key (all_rows demo_db ! 0) \<noteq> row_key (all_rows demo_db ! 1)"
  by code_simp+

section \<open>Properties\<close>





text \<open>
  A model stays while workloads refer to it: in every reachable database the models of every
  deployment, training job and evaluation run are in the table and not deleted.
\<close>

theorem workload_models_are_never_deleted:
  assumes "world_ok W" and "reachable W V ttl s" and "r \<in> set (all_rows s)" and "a \<in> input_assets r"
  shows "\<exists>m. lookup_by asset_id a (model_assets s) = Some m \<and> deleted_at m = None"
  using reachable_inputs [OF assms(1,2)] assms(3,4)
  by (fastforce simp: inputs_ok_def alive_def split: option.splits)

lemma workload_models_are_never_deleted_witness:
  "\<exists>m. lookup_by asset_id 7 (model_assets demo_db) = Some m \<and> deleted_at m = None"
proof (rule workload_models_are_never_deleted [OF demo_world_ok demo_reachable demo_rows(1)])
  show "7 \<in> input_assets (all_rows demo_db ! 0)" by code_simp
qed



end
