(* ===== verification/Scheduling.thy ===== *)
theory Scheduling
  imports ControlPlane
begin

text \<open>
  How the reconciler schedules: the first of the queue and only the first is claimed, a round ends,
  an observation acts on the generation it was made for and on nothing else. The databases are those
  of theory ControlPlane, or any that keep the lease discipline.
\<close>

section \<open>The head of the queue\<close>

lemma acquired_iff_free:
  assumes "db_ok s" and "get_row (row_key r) s = Some r" and "\<not> is_active r"
    and "try_acquire_locked ttl (gpu_leases s) (owner_at g r) (rgpus r) now gid [] = Inr (L, a)"
  shows "acquired a \<longleftrightarrow> (\<forall>l \<in> set (gpu_leases s). gpu_index l \<notin> set (rgpus r))"
proof
  assume ac: "acquired a"
  show "\<forall>l \<in> set (gpu_leases s). gpu_index l \<notin> set (rgpus r)"
  proof
    fix l assume l: "l \<in> set (gpu_leases s)"
    then have "\<not> same_owner (owner_at g r) l" using no_owned_leases [OF assms(1-3)] by (simp add: owned_leases_Nil)
    then have "lease_key_of l \<noteq> owner_key (owner_at g r)"
      by (auto simp: same_owner_def lease_key_of_def owner_key_def)
    then have "held (gpu_leases s) (lease_key_of l) \<inter> set (rgpus r) = {}"
      using leases.acquire_free_cards [OF _ assms(4) ac] assms(1) by (simp add: db_ok_def)
    moreover have "gpu_index l \<in> held (gpu_leases s) (lease_key_of l)" using l by (auto simp: held_def)
    ultimately show "gpu_index l \<notin> set (rgpus r)" by blast
  qed
next
  assume free: "\<forall>l \<in> set (gpu_leases s). gpu_index l \<notin> set (rgpus r)"
  show "acquired a"
    using free try_acquire_outcome [OF _ assms(4)] assms(1) unfolding acquire_outcome_def db_ok_def by blast
qed

section \<open>The queue shrinks\<close>

lemma filter_replace_le:
  "\<not> P v \<Longrightarrow> length (filter P (replace_by key v rs)) \<le> length (filter P rs)"
  by (induction rs) (auto simp: replace_by_def)

lemma filter_replace_less:
  "\<not> P v \<Longrightarrow> x \<in> set rs \<Longrightarrow> key x = key v \<Longrightarrow> P x \<Longrightarrow>
     length (filter P (replace_by key v rs)) < length (filter P rs)"
proof (induction rs)
  case (Cons y rs)
  have le: "length (filter P (replace_by key v rs)) \<le> length (filter P rs)"
    using Cons.prems(1) by (rule filter_replace_le)
  show ?case
  proof (cases "y = x")
    case True
    then show ?thesis using Cons.prems le by (simp add: replace_by_def)
  next
    case False
    then show ?thesis using Cons by (auto simp: replace_by_def)
  qed
qed simp

definition waiting :: "db \<Rightarrow> nat" where
  "waiting s = length (queue s)"

lemma waiting_split:
  "waiting s = length (filter (is_queued \<circ> DeploymentRow) (deployments s))
     + length (filter (is_queued \<circ> TrainingRow) (training_jobs s))
     + length (filter (is_queued \<circ> EvaluationRow) (evaluation_runs s))"
  by (simp add: waiting_def queue_def all_rows_def filter_map)

lemma waiting_put_row: "\<not> is_queued r \<Longrightarrow> waiting (put_row r s) \<le> waiting s"
  by (cases r) (simp_all add: waiting_split filter_replace_le)

lemma waiting_put_queued:
  assumes "r \<in> set (all_rows s)" and "is_queued r" and "\<not> is_queued r'" and "row_key r' = row_key r"
  shows "waiting (put_row r' s) < waiting s"
proof (cases r')
  case (DeploymentRow d')
  then obtain d where "r = DeploymentRow d" "d \<in> set (deployments s)" "row_id d = row_id d'"
    using assms(1,4) by (auto simp: all_rows_def row_key_def)
  then show ?thesis using DeploymentRow assms(2,3) by (simp add: waiting_split filter_replace_less)
next
  case (TrainingRow d')
  then obtain d where "r = TrainingRow d" "d \<in> set (training_jobs s)" "row_id d = row_id d'"
    using assms(1,4) by (auto simp: all_rows_def row_key_def)
  then show ?thesis using TrainingRow assms(2,3) by (simp add: waiting_split filter_replace_less)
next
  case (EvaluationRow d')
  then obtain d where "r = EvaluationRow d" "d \<in> set (evaluation_runs s)" "row_id d = row_id d'"
    using assms(1,4) by (auto simp: all_rows_def row_key_def)
  then show ?thesis using EvaluationRow assms(2,3) by (simp add: waiting_split filter_replace_less)
qed

lemma waiting_leases [simp]: "waiting (s\<lparr>gpu_leases := L\<rparr>) = waiting s"
  by (simp add: waiting_def queue_def)

text \<open>An observation never puts a workload back into the queue, except an accepted ABSENT.\<close>

lemma observed_not_queued:
  assumes "apply_row_observation V r ow resp now L = (r', L')"
    and "\<not> (accepted resp \<and> observed_state resp = ABSENT)"
  shows "\<not> is_queued r'"
proof (cases "observed_state resp \<in> live_states")
  case True
  then show ?thesis using row_observation_cases [OF assms(1)] queued_not_active by auto
next
  case False
  then show ?thesis
    using assms not_live [of "observed_state resp"] job_absent_simps(5) [of resp now]
    by (cases r)
       (auto simp: apply_deployment_observation_def Let_def job_absent_def training_finished_def
          evaluation_finished_def split: if_splits sum.splits option.splits)
qed

lemma waiting_observation:
  assumes "\<not> (accepted resp \<and> observed_state resp = ABSENT)"
  shows "waiting (apply_observation V ttl ow resp now s) \<le> waiting s"
proof (cases "get_row (owner_row_key ow) s")
  case (Some r)
  obtain r' L where o: "apply_row_observation V r ow resp now (gpu_leases s) = (r', L)"
    by (cases "apply_row_observation V r ow resp now (gpu_leases s)")
  show ?thesis
    using Some o waiting_put_row [OF observed_not_queued [OF o assms]]
    by (auto simp: apply_observation_def put_row_leases_commute)
qed (simp add: apply_observation_def)

text \<open>
  A quiet world: no request commits while the agent is asked, and the agent does not answer a start
  with an accepted ABSENT, which would put the workload straight back into the queue.
\<close>

definition quiet :: "'e world \<Rightarrow> bool" where
  "quiet W \<longleftrightarrow> (\<forall>e s c. snd (fst (w_call W e s c)) = s \<and>
     (cmd_action c = START \<longrightarrow>
       (case snd (w_call W e s c) of
          Inr resp \<Rightarrow> \<not> (accepted resp \<and> observed_state resp = ABSENT) | Inl _ \<Rightarrow> True)))"

lemma quiet_ok: "quiet W \<Longrightarrow> world_ok W"
  by (simp add: quiet_def world_ok_def)

lemma quiet_send:
  assumes "quiet W" and "send W e s w act = Some ((e', s'), x)"
  shows "s' = s \<and> (act = START \<longrightarrow> (\<forall>resp. x = Inr resp \<longrightarrow> \<not> (accepted resp \<and> observed_state resp = ABSENT)))"
proof -
  obtain e0 u where u: "w_uuid W e = (e0, u)" by (cases "w_uuid W e")
  with assms(2) obtain c where c: "command_for w act u = Some c" "w_call W e0 s c = ((e', s'), x)"
    by (auto simp: send_def)
  then have "cmd_action c = act" by (auto simp: command_for_def Let_def split: if_splits)
  moreover have "snd (fst (w_call W e0 s c)) = s" and "cmd_action c = START \<longrightarrow>
      (case snd (w_call W e0 s c) of
         Inr resp \<Rightarrow> \<not> (accepted resp \<and> observed_state resp = ABSENT) | Inl _ \<Rightarrow> True)"
    using assms(1) unfolding quiet_def by blast+
  ultimately show ?thesis using c(2) by (auto split: sum.splits)
qed

lemma failed_start_not_queued: "\<not> is_queued (failed_start_row now m r)"
  by (cases r) simp_all

lemma is_queued_set_rerror [simp]: "is_queued (set_rerror m r) = is_queued r"
  by (cases r) simp_all

lemma start_claimed_waiting:
  assumes "quiet W" and "\<And>r. get_row (owner_row_key (snap_owner w)) s = Some r \<Longrightarrow> \<not> is_queued r"
    and run: "start_claimed W V ttl w (e, s, rep) = ((e', s', rep'), err)"
  shows "waiting s' \<le> waiting s"
proof (cases "send W e s w START")
  case None
  then show ?thesis using run by (simp add: start_claimed_def)
next
  case (Some y)
  then obtain e1 s1 x where x: "send W e s w START = Some ((e1, s1), x)" by (cases y) auto
  note q = quiet_send [OF assms(1) x]
  show ?thesis
  proof (cases x)
    case (Inl m)
    then have "s' = record_agent_error (snap_owner w) m s" using run x q by (simp add: start_claimed_def)
    then show ?thesis
      using assms(2) by (auto simp: record_agent_error_def waiting_put_row split: option.split)
  next
    case (Inr resp)
    show ?thesis
    proof (cases "accepted resp")
      case True
      then show ?thesis
        using run x q Inr waiting_observation
        by (auto simp: start_claimed_def observe_def split: prod.splits)
    next
      case False
      then show ?thesis
        using run x q Inr
        by (auto simp: start_claimed_def fail_start_def put_row_leases_commute waiting_put_row
            failed_start_not_queued split: prod.splits option.split)
    qed
  qed
qed

lemma claim_waiting:
  assumes "db_ok s" and "claim_fifo_head V ttl now gid s = Inr (s', att)"
    and "att = PreflightFailed \<or> (\<exists>w. att = Claimed w)"
  shows "waiting s' < waiting s"
proof -
  have q: "queue s \<noteq> []" using assms(2,3) by (auto simp: claim_fifo_head_def)
  let ?r = "arg_min_list queue_sort_key (queue s)"
  note head = queue_head [OF assms(1) q]
  show ?thesis
  proof (cases rule: claim_cases [OF assms(1) q, where V = V and ttl = ttl and now = now and gid = gid])
    case (2 m)
    have "\<not> is_queued (preflight_failed_row now m ?r)"
      using 2(1) by (cases ?r) (auto split: option.splits)
    then show ?thesis
      using 2(2) assms(2) waiting_put_queued [OF head(1,2)] by simp
  next
    case (4 ex L a)
    have "\<not> is_queued (claimed_row (set_rgen (rversion ?r) ?r))"
      using claimed_row_simps(7) queued_not_active by blast
    then show ?thesis
      using 4(4) assms(2) waiting_put_queued [OF head(1,2)] by (simp add: put_row_leases_commute)
  qed (use assms(2,3) in auto)
qed

lemma claim_snapshot_row:
  assumes "db_ok s" and "claim_fifo_head V ttl now gid s = Inr (s', Claimed w)"
    and "get_row (owner_row_key (snap_owner w)) s' = Some r"
  shows "is_active r"
proof -
  have q: "queue s \<noteq> []" using assms(2) by (auto simp: claim_fifo_head_def)
  let ?r = "arg_min_list queue_sort_key (queue s)"
  note head = queue_head [OF assms(1) q]
  show ?thesis
  proof (cases rule: claim_cases [OF assms(1) q, where V = V and ttl = ttl and now = now and gid = gid])
    case (4 ex L a)
    then show ?thesis
      using assms(2,3) head(3) by (auto simp: snapshot_def get_row_put_row)
  qed (use assms(2) in auto)
qed

lemma schedule_loop_ends:
  assumes "quiet W"
  shows "db_ok s \<Longrightarrow> waiting s < n \<Longrightarrow> schedule_loop W V ttl n (e, s, rep) \<noteq> None"
proof (induction n arbitrary: e s rep)
  case (Suc n)
  obtain e1 now e2 gid where ev: "w_clock W e = (e1, now)" "w_uuid W e1 = (e2, gid)"
    by (cases "w_clock W e"; cases "w_uuid W (fst (w_clock W e))") auto
  show ?case
  proof (cases "claim_fifo_head V ttl now gid s")
    case (Inl x)
    then show ?thesis using ev by simp
  next
    case (Inr p)
    obtain s1 att where p: "p = (s1, att)" by (cases p)
    note c = Inr [unfolded p]
    have wf1: "db_ok s1" using wf_claim [OF Suc.prems(1) c] .
    show ?thesis
    proof (cases att)
      case (Claimed w)
      have less: "waiting s1 < waiting s" using claim_waiting [OF Suc.prems(1) c] Claimed by simp
      obtain e3 s3 rep3 x where sc: "start_claimed W V ttl w (e2, s1, rep) = ((e3, s3, rep3), x)"
        by (cases "start_claimed W V ttl w (e2, s1, rep)") auto
      have pend: "pending_ok s1 (snap_owner w)" and send: "sendable w"
        using pending_claimed [OF Suc.prems(1)] claim_no_scheduler_error(2) [OF Suc.prems(1)] c Claimed by auto
      have nq: "\<not> is_queued r" if "get_row (owner_row_key (snap_owner w)) s1 = Some r" for r
        using that c Claimed claim_snapshot_row [OF Suc.prems(1)] queued_not_active by blast
      have "db_ok s3 \<and> x = None"
        using handlers.start_claimed_safe [OF _ wf1 pend send sc] quiet_ok [OF assms] by (simp add: world_ok_def)
      moreover have "waiting s3 < n"
        using start_claimed_waiting [OF assms nq sc] less Suc.prems(2) by simp
      ultimately show ?thesis using ev c Claimed sc Suc.IH by simp
    next
      case PreflightFailed
      then show ?thesis
        using ev c Suc.IH [OF wf1] claim_waiting [OF Suc.prems(1) c] Suc.prems(2) by simp
    qed (use ev c in simp_all)
  qed
qed simp

section \<open>The number of rows\<close>

definition row_count :: "db \<Rightarrow> nat" where
  "row_count s = length (all_rows s)"

lemma row_count_put_row [simp]: "row_count (put_row r s) = row_count s"
  by (cases r) (simp_all add: row_count_def all_rows_def replace_by_def)

lemma row_count_leases [simp]: "row_count (s\<lparr>gpu_leases := L\<rparr>) = row_count s"
  by (simp add: row_count_def)

lemma waiting_le_rows: "waiting s \<le> row_count s"
  by (simp add: waiting_def queue_def row_count_def)

interpretation counted: transaction_invariant "\<lambda>s. row_count s = n" V ttl for n V ttl
proof unfold_locales
  fix s ow m now resp gid s' att
  assume n: "row_count s = n"
  show "row_count (apply_observation V ttl ow resp now s) = n"
    using n by (simp add: apply_observation_def Let_def put_row_leases_commute split: option.split prod.split)
  show "row_count (record_agent_error ow m s) = n"
    using n by (simp add: record_agent_error_def split: option.split)
  show "row_count (fail_start ow x now s) = n" for x
    using n by (simp add: fail_start_def put_row_leases_commute split: option.split)
  show "row_count s' = n" if "claim_fifo_head V ttl now gid s = Inr (s', att)"
    using n that
    by (auto simp: claim_fifo_head_def Let_def put_row_leases_commute simp del: put_row.simps
        split: if_splits build_result.splits sum.splits)
  show "row_count (fst (reap_terminal_expired_leases now s)) = n"
    using n by (simp add: reap_terminal_expired_leases_def split_beta)
qed

lemma quiet_counts: "quiet W \<Longrightarrow> counted.calls_keep n W"
  by (auto simp: counted.calls_keep_def quiet_def)

section \<open>Properties\<close>

lemma demo_claim: "\<exists>s' w. claim_fifo_head demo_checks 60 20 5 demo_q2 = Inr (s', Claimed w)"
proof -
  have "(case claim_fifo_head demo_checks 60 20 5 demo_q2 of Inr (s', Claimed w) \<Rightarrow> True | _ \<Rightarrow> False)"
    by code_simp
  then show ?thesis by (auto split: sum.splits prod.splits schedule_attempt.splits)
qed

text \<open>What an attempt that looked at \<open>r\<close> did.\<close>

definition attempt_outcome :: "task_checks \<Rightarrow> timestamp \<Rightarrow> db \<Rightarrow> db \<Rightarrow> row \<Rightarrow> schedule_attempt \<Rightarrow> bool" where
  "attempt_outcome V now s s' r att \<longleftrightarrow>
     (case att of
        Claimed w \<Rightarrow> (\<forall>l \<in> set (gpu_leases s). gpu_index l \<notin> set (rgpus r))
          \<and> snap_owner w = owner_at (rversion r) r
          \<and> held (gpu_leases s') (owner_key (snap_owner w)) = set (rgpus r)
          \<and> get_row (row_key r) s' = Some (claimed_row (set_rgen (rversion r) r))
      | Blocked _ \<Rightarrow> (\<exists>l \<in> set (gpu_leases s). gpu_index l \<in> set (rgpus r))
          \<and> gpu_leases s' = gpu_leases s \<and> get_row (row_key r) s' = Some (set_rgen 0 r)
      | PreflightFailed \<Rightarrow> gpu_leases s' = gpu_leases s
          \<and> (\<exists>m. build_execution V s r = BuildRejected m
               \<and> get_row (row_key r) s' = Some (preflight_failed_row now m r))
      | Empty \<Rightarrow> False)"

text \<open>
  C18. First come, first served, without backfill: a scheduling attempt looks at the least element
  of the queue (by the time it was queued, then type and id) and touches no other workload. It
  is claimed exactly when none of its cards is leased to anyone, under its state version as the new
  generation; otherwise it keeps its place, the leases stay as they are, and nothing behind it is
  tried.
\<close>

theorem fifo_head_decides:
  assumes "db_ok s" and "queue s \<noteq> []" and "claim_fifo_head V ttl now gid s = Inr (s', att)"
  shows "\<exists>r \<in> set (queue s). (\<forall>q \<in> set (queue s). queue_sort_key r \<le> queue_sort_key q)
    \<and> (\<forall>k. k \<noteq> row_key r \<longrightarrow> get_row k s' = get_row k s) \<and> attempt_outcome V now s s' r att"
proof (intro bexI conjI)
  let ?r = "arg_min_list queue_sort_key (queue s)"
  note head = queue_head [OF assms(1,2)]
  have na: "\<not> is_active ?r" using head(2) queued_not_active by blast
  show "?r \<in> set (queue s)" by (rule arg_min_list_in [OF assms(2)])
  show "\<forall>q \<in> set (queue s). queue_sort_key ?r \<le> queue_sort_key q"
    by (simp add: assms(2) f_arg_min_list_f)
  have "(\<forall>k. k \<noteq> row_key ?r \<longrightarrow> get_row k s' = get_row k s) \<and> attempt_outcome V now s s' ?r att"
  proof (cases rule: claim_cases [OF assms(1,2), where V = V and ttl = ttl and now = now and gid = gid])
    case (2 m)
    then show ?thesis using assms(3) head(3) by (auto simp: attempt_outcome_def get_row_put_row)
  next
    case (3 ex a)
    then have "\<not> (\<forall>l \<in> set (gpu_leases s). gpu_index l \<notin> set (rgpus ?r))"
      using acquired_iff_free [OF assms(1) head(3) na] by blast
    then show ?thesis using 3(4) assms(3) head(3) by (auto simp: attempt_outcome_def get_row_put_row)
  next
    case (4 ex L a)
    have free: "\<forall>l \<in> set (gpu_leases s). gpu_index l \<notin> set (rgpus ?r)"
      using acquired_iff_free [OF assms(1) head(3) na 4(2)] 4(3) by blast
    have "held L (owner_key (owner_at (rversion ?r) ?r)) = set (rgpus ?r)"
      using leases.acquire_cards [OF _ 4(2,3)] assms(1) by (simp add: db_ok_def)
    then show ?thesis
      using 4(4) assms(3) head(3) free
      by (auto simp: attempt_outcome_def get_row_put_row snapshot_def owner_at_def)
  qed (use assms(3) in simp)
  then show "\<forall>k. k \<noteq> row_key ?r \<longrightarrow> get_row k s' = get_row k s"
    and "attempt_outcome V now s s' ?r att" by blast+
qed

lemma demo_q2_ok: "db_ok demo_q2"
  using reachable_ok [OF demo_world_ok demo_queue_reachable] .

lemma fifo_head_decides_witness:
  "\<exists>s' w. claim_fifo_head demo_checks 60 20 5 demo_q2 = Inr (s', Claimed w)
    \<and> (\<exists>r \<in> set (queue demo_q2). (\<forall>q \<in> set (queue demo_q2). queue_sort_key r \<le> queue_sort_key q)
        \<and> attempt_outcome demo_checks 20 demo_q2 s' r (Claimed w))"
proof -
  have "\<exists>s' w. claim_fifo_head demo_checks 60 20 5 demo_q2 = Inr (s', Claimed w)"
    using demo_claim by blast
  moreover have "queue demo_q2 \<noteq> []" by code_simp
  ultimately show ?thesis using fifo_head_decides [OF demo_q2_ok] by blast
qed


lemma demo_quiet: "quiet demo_world"
  by (simp add: quiet_def demo_world_def)


text \<open>
  C19. Observations are fenced by the generation: one made for another generation of the workload
  changes nothing. One made for the current generation touches no other workload's row or cards;
  starting, running and stopping keep the workload active with its cards, and any other state ends it
  and frees them. Whether the agent accepted the command does not matter for the cards.
\<close>

theorem observation_is_fenced:
  assumes "db_ok s" and "get_row (owner_row_key ow) s = Some r"
  shows "let s' = apply_observation V ttl ow resp now s in
    (rgen r \<noteq> own_generation ow \<longrightarrow> s' = s)
    \<and> (rgen r = own_generation ow \<longrightarrow>
        (\<forall>k. k \<noteq> owner_row_key ow \<longrightarrow> get_row k s' = get_row k s)
        \<and> (\<forall>k. held (gpu_leases s') k = (if k = owner_key ow \<and> observed_state resp \<notin> live_states then {}
             else held (gpu_leases s) k))
        \<and> (\<exists>r'. get_row (owner_row_key ow) s' = Some r' \<and> same_request r r'
             \<and> (is_active r' \<longleftrightarrow> observed_state resp \<in> live_states)))"
proof (cases "rgen r = own_generation ow")
  case True
  obtain r' L where o: "apply_row_observation V r ow resp now (gpu_leases s) = (r', L)"
    by (cases "apply_row_observation V r ow resp now (gpu_leases s)")
  note c = row_observation_cases [OF o]
  have rk: "row_key r = owner_row_key ow" using wf_row [OF assms(1,2)] by simp
  then have k: "row_key r' = owner_row_key ow" using c by (simp add: same_request_def)
  show ?thesis
  proof (cases "observed_state resp \<in> live_states")
    case live: True
    then have "apply_observation V ttl ow resp now s
        = put_row r' (s\<lparr>gpu_leases := fst (heartbeat ttl (gpu_leases s) ow now)\<rparr>)"
      using assms(2) True o c by (simp add: apply_observation_def)
    then show ?thesis using c live k assms(2) by (simp add: get_row_put_row leases.beat_cards True)
  next
    case dead: False
    then have "apply_observation V ttl ow resp now s
        = put_row r' (s\<lparr>gpu_leases := fst (release (gpu_leases s) ow)\<rparr>)"
      using assms(2) True o c by (simp add: apply_observation_def)
    then show ?thesis using c dead k assms(2) by (simp add: get_row_put_row leases.free_cards True)
  qed
qed (use assms(2) in \<open>simp add: apply_observation_def\<close>)

lemma owner_at_generation:
  "owner_at x (DeploymentRow (d\<lparr>runtime_generation := y\<rparr>)) = owner_at x (DeploymentRow d)"
  by (simp add: owner_at_def)

lemma demo_db_ok: "db_ok demo_db"
  using reachable_ok [OF demo_world_ok demo_reachable] .

definition demo_vanished :: agent_response where
  "demo_vanished = \<lparr>res_request_id = 5, accepted = True, observed_state = ABSENT, observed_at = 300,
     res_message = None, error_code = None, metadata = []\<rparr>"

lemma observation_is_fenced_witness:
  "held (gpu_leases demo_db) (DEPLOYMENT, 1, 1) = {0, 1}
    \<and> held (gpu_leases (apply_observation demo_checks 60 (demo_owner DEPLOYMENT 1 1) demo_vanished 300 demo_db))
        (DEPLOYMENT, 1, 1) = {}
    \<and> held (gpu_leases (apply_observation demo_checks 60 (demo_owner DEPLOYMENT 1 1) demo_vanished 300 demo_db))
        (DEPLOYMENT, 2, 1) = {2}"
proof -
  have row: "get_row (owner_row_key (demo_owner DEPLOYMENT 1 1)) demo_db
      = Some (DeploymentRow (demo_started (hd (deployments demo_q2))))"
    by code_simp
  have h: "held (gpu_leases demo_db) (DEPLOYMENT, 1, 1) = {0, 1}" "held (gpu_leases demo_db) (DEPLOYMENT, 2, 1) = {2}"
    by code_simp+
  have "rgen (DeploymentRow (demo_started (hd (deployments demo_q2)))) = own_generation (demo_owner DEPLOYMENT 1 1)"
    "owner_key (demo_owner DEPLOYMENT 1 1) = (DEPLOYMENT, 1, 1)" "observed_state demo_vanished = ABSENT"
    by code_simp+
  then show ?thesis
    using observation_is_fenced [OF demo_db_ok row, of demo_checks 60 demo_vanished 300] h
    by (simp add: Let_def)
qed

text \<open>
  A defect: a start request for a deployment that is still stopping puts it into the queue with
  its old generation's leases. When it becomes the head of the queue, every scheduling attempt dies
  of the lease invariant error, so nothing behind it is ever started; the row is no longer active,
  so the agent is never asked to stop the container; and the row is not terminal, so expiry never
  frees the cards.
\<close>

theorem start_while_stopping_jams_the_queue:
  assumes "db_ok s" and "lookup_by row_id i (deployments s) = Some d" and "dep_actual d = D_STOPPING"
    and "runtime_generation d \<le> state_version d" and "start_deployment i t s = Inr s'"
    and "arg_min_list queue_sort_key (queue s') = DeploymentRow (start_row t d)"
    and "lookup_by asset_id (dep_model_asset_id d) (model_assets s) = Some a"
  shows "claim_fifo_head V ttl now gid s' = Inl (SchedulerError LeaseInvariantError)
    \<and> \<not> is_active (DeploymentRow (start_row t d))
    \<and> held (gpu_leases (fst (reap_terminal_expired_leases now s'))) (DEPLOYMENT, i, runtime_generation d)
        = set (gpu_ids d)"
proof -
  let ?d = "start_row t d" and ?key = "(DEPLOYMENT, i, runtime_generation d)"
  have row: "get_row (DEPLOYMENT, i) s = Some (DeploymentRow d)" using assms(2) by (rule row_of_lookup)
  have ok: "request_ok (DeploymentRow d)" and i: "row_id d = i"
    using wf_row [OF assms(1) row] by (auto simp: row_key_def)
  have act: "is_active (DeploymentRow d)" using assms(3) by (simp add: active_deployment_states_def)
  have s': "s' = put_row (DeploymentRow ?d) s" using assms(2,5) by (simp add: start_deployment_def)
  have d: "dep_actual ?d = D_QUEUED" "row_id ?d = i" "gpu_ids ?d = gpu_ids d" "state_version ?d = state_version d + 1"
    "dep_model_asset_id ?d = dep_model_asset_id d" "dep_desired ?d = SERVICE_RUNNING"
    using assms(3) i by (simp_all add: start_row_def)
  have row': "get_row (DEPLOYMENT, i) s' = Some (DeploymentRow ?d)"
    using row d(2) unfolding s' by (subst get_row_put_row) (simp add: row_key_def)
  have L: "gpu_leases s' = gpu_leases s" unfolding s' by (rule put_row_leases)
  have held: "held (gpu_leases s) ?key = set (gpu_ids d)"
    using wf_held [OF assms(1)] row act by simp
  have "set (gpu_ids d) \<noteq> {}" using ok by (simp add: request_ok_def)
  then obtain l where l: "l \<in> set (gpu_leases s)" "lease_key_of l = ?key"
    using held held_empty_iff by metis
  let ?ow = "owner_at (rversion (DeploymentRow ?d)) (DeploymentRow ?d)"
  have "l \<in> set (owned_leases ?ow (gpu_leases s))"
    using l d(2) by (auto simp: owned_leases_def same_owner_def owner_at_def lease_key_of_def)
  then have own: "owned_leases ?ow (gpu_leases s) \<noteq> []"
    "generation l \<in> set (map generation (owned_leases ?ow (gpu_leases s)))" by auto
  have "generation l \<noteq> own_generation ?ow" using l(2) assms(4) d(4) by (simp add: lease_key_of_def)
  then have gens: "set (map generation (owned_leases ?ow (gpu_leases s))) \<noteq> {own_generation ?ow}"
    using own(2) by blast
  have norm: "normalize_gpu_ids (gpu_ids ?d) = Inr (sort (gpu_ids ?d))"
    using ok d(3) by (intro normalize_gpu_ids_ok) (auto simp: request_ok_def)
  have acq: "try_acquire_locked ttl (gpu_leases s') ?ow (gpu_ids ?d) now gid [] = Inl LeaseInvariantError"
    using norm own(1) gens L by (simp add: try_acquire_locked_def Let_def)
  have "queue s' \<noteq> []"
  proof -
    have "keys_ok s'" using assms(1) by (simp only: s' keys_ok_put_row db_ok_def)
    then have "DeploymentRow ?d \<in> set (all_rows s')" using row' get_row_iff by blast
    then have "DeploymentRow ?d \<in> set (queue s')" using d(1,6) by (simp add: queue_def)
    then show ?thesis by auto
  qed
  moreover have "build_execution V s' (DeploymentRow ?d) = Built (deployment_execution ?d a)"
    using assms(7) d(5) unfolding s' by simp
  ultimately have "claim_fifo_head V ttl now gid s' = Inl (SchedulerError LeaseInvariantError)"
    using acq assms(6) by (simp add: claim_fifo_head_def Let_def owner_at_generation)
  moreover have "\<not> is_active (DeploymentRow ?d)" using d(1) by (simp add: active_deployment_states_def)
  moreover have "?key \<notin> confirmed_keys now s'"
    using row' d(1) by (auto simp: confirmed_keys_def terminal_deployment_states_def)
  then have "held (gpu_leases (fst (reap_terminal_expired_leases now s'))) ?key = set (gpu_ids d)"
    using held L assms(1)
    by (simp add: reap_terminal_expired_leases_def split_beta held_reap db_ok_def)
  ultimately show ?thesis by blast
qed

definition demo_stopping :: db where
  "demo_stopping = projr (stop_deployment 1 demo_db)"

definition demo_restarted :: db where
  "demo_restarted = projr (start_deployment 1 200 demo_stopping)"

lemma demo_stopped: "stop_deployment 1 demo_db = Inr demo_stopping"
  "start_deployment 1 200 demo_stopping = Inr demo_restarted"
  by code_simp+

lemma start_while_stopping_jams_the_queue_witness:
  "reachable demo_world demo_checks 60 demo_stopping
    \<and> claim_fifo_head demo_checks 60 900 5 demo_restarted = Inl (SchedulerError LeaseInvariantError)"
proof -
  have r: "reachable demo_world demo_checks 60 demo_stopping"
    using demo_reachable route_step.stop_dep [OF demo_stopped(1)] by (rule reachable.request)
  let ?d = "stop_row (demo_started (hd (deployments demo_q2)))"
  have d: "lookup_by row_id 1 (deployments demo_stopping) = Some ?d" "dep_actual ?d = D_STOPPING"
    "runtime_generation ?d \<le> state_version ?d"
    "arg_min_list queue_sort_key (queue demo_restarted) = DeploymentRow (start_row 200 ?d)"
    "lookup_by asset_id (dep_model_asset_id ?d) (model_assets demo_stopping) = Some demo_asset"
    by code_simp+
  then show ?thesis
    using r start_while_stopping_jams_the_queue [OF reachable_ok [OF demo_world_ok r] d(1-3) demo_stopped(2) d(4,5)]
    by blast
qed

end
