(* ===== verification/HandlerContracts.thy ===== *)
theory HandlerContracts
  imports Scheduling
begin

text \<open>
  What the request handlers promise: deletion waits for the agent's word that the container is gone,
  stopping is asked for once, and the registry of deployments stays well formed.
\<close>

section \<open>The registry of deployments\<close>

fun args_ok :: "json \<Rightarrow> bool" where
  "args_ok (JObj a) = (validate_vllm_arguments a = None)"
| "args_ok v = (v = JNull)"

definition deployment_ok :: "deployment \<Rightarrow> bool" where
  "deployment_ok d \<longleftrightarrow> tensor_parallel_size d = int (length (gpu_ids d)) \<and> args_ok (vllm_args d)"

definition registry_ok :: "db \<Rightarrow> bool" where
  "registry_ok s \<longleftrightarrow> keys_ok s \<and> deployments_unique (deployments s)
     \<and> (\<forall>d \<in> set (deployments s). deployment_ok d)"

text \<open>The columns of a deployment that only its creation and its edit form set.\<close>

definition configured :: "deployment \<Rightarrow> string \<times> string \<times> int list \<times> int \<times> json" where
  "configured d = (row_name d, served_model_name d, gpu_ids d, tensor_parallel_size d, vllm_args d)"

lemma map_replace_same:
  "keyed key rs \<Longrightarrow> lookup_by key (key v) rs = Some x \<Longrightarrow> f v = f x \<Longrightarrow> map f (replace_by key v rs) = map f rs"
  by (auto simp: replace_by_def lookup_by_Some_iff keyed_def distinct_map inj_on_def)

lemma registry_models [simp]: "registry_ok (s\<lparr>model_assets := A\<rparr>) = registry_ok s"
  by (simp add: registry_ok_def keys_ok_def)

lemma registry_leases [simp]: "registry_ok (s\<lparr>gpu_leases := L\<rparr>) = registry_ok s"
  by (simp add: registry_ok_def)

lemma registry_put:
  assumes "registry_ok s" and "lookup_by row_id (row_id d') (deployments s) = Some d" and "configured d' = configured d"
  shows "registry_ok (put_row (DeploymentRow d') s)"
proof -
  have f: "row_name d' = row_name d" "served_model_name d' = served_model_name d" "deployment_ok d' = deployment_ok d"
    using assms(3) by (auto simp: configured_def deployment_ok_def)
  have d: "d \<in> set (deployments s)" using lookup_by_SomeD [OF assms(2)] by simp
  have k: "keyed row_id (deployments s)" using assms(1) by (simp add: registry_ok_def keys_ok_def)
  have "map row_name (replace_by row_id d' (deployments s)) = map row_name (deployments s)"
    "map served_model_name (replace_by row_id d' (deployments s)) = map served_model_name (deployments s)"
    using map_replace_same [OF k assms(2)] f by blast+
  then have "deployments_unique (replace_by row_id d' (deployments s))"
    using assms(1) by (simp add: registry_ok_def deployments_unique_def)
  moreover have "\<forall>x \<in> set (replace_by row_id d' (deployments s)). deployment_ok x"
    using assms(1) f(3) d by (auto simp: registry_ok_def set_replace_by split: if_splits)
  moreover have "keys_ok (put_row (DeploymentRow d') s)" using assms(1) by (simp only: keys_ok_put_row registry_ok_def)
  ultimately show ?thesis by (simp add: registry_ok_def)
qed

lemma registry_put_job:
  assumes "registry_ok s" shows "registry_ok (put_row (TrainingRow t) s)" "registry_ok (put_row (EvaluationRow e) s)"
  using assms keys_ok_put_row [of "TrainingRow t" s] keys_ok_put_row [of "EvaluationRow e" s]
  by (simp_all add: registry_ok_def)

text \<open>A row may be put when it is no deployment, or a deployment with its configuration unchanged.\<close>

fun same_configuration :: "row \<Rightarrow> row \<Rightarrow> bool" where
  "same_configuration (DeploymentRow d) r' = (case r' of DeploymentRow d' \<Rightarrow> configured d' = configured d \<and> row_id d' = row_id d | _ \<Rightarrow> False)"
| "same_configuration r r' = (case r' of DeploymentRow d' \<Rightarrow> False | _ \<Rightarrow> True)"

lemma registry_put_same:
  assumes "registry_ok s" and "get_row k s = Some r" and "same_configuration r r'"
  shows "registry_ok (put_row r' s)"
proof (cases r')
  case (DeploymentRow d')
  then obtain d where d: "r = DeploymentRow d" "configured d' = configured d" "row_id d' = row_id d"
    using assms(3) by (cases r) auto
  have "get_row (row_key r) s = Some r" using assms(2) get_row_key by blast
  then have "lookup_by row_id (row_id d) (deployments s) = Some d" by (simp add: d(1) row_key_def)
  then show ?thesis using DeploymentRow d registry_put [of s d' d] assms(1) by (simp only:)
qed (use registry_put_job [OF assms(1)] in \<open>simp_all only:\<close>)

lemma registry_put_row:
  "registry_ok s \<Longrightarrow> get_row k s = Some r \<Longrightarrow> same_configuration r r' \<Longrightarrow>
     registry_ok (put_row r' (s\<lparr>gpu_leases := L\<rparr>))"
  using registry_put_same [of "s\<lparr>gpu_leases := L\<rparr>" k r r'] by simp

lemma same_configuration_reconciler:
  "same_configuration r (set_rgen g r)" "same_configuration r (set_rerror m r)"
  "same_configuration r (claimed_row (set_rgen g r))" "same_configuration r (preflight_failed_row now e r)"
  "same_configuration r (failed_start_row now n r)" "same_configuration r (set_rgen g (set_rgen h r))"
  by (cases r; simp add: configured_def)+

lemma same_configuration_observed:
  assumes "apply_row_observation V r ow resp now L = (r', L')"
  shows "same_configuration r r'"
proof (cases r)
  case (DeploymentRow d)
  have "configured (fst (apply_deployment_observation d ow resp now L)) = configured d"
    "row_id (fst (apply_deployment_observation d ow resp now L)) = row_id d"
    by (simp_all add: apply_deployment_observation_def Let_def configured_def)
  then show ?thesis using assms DeploymentRow by (auto simp: split_beta)
qed (use assms in \<open>auto split: if_splits\<close>)

lemma registry_observation:
  assumes "registry_ok s" shows "registry_ok (apply_observation V ttl ow resp now s)"
proof (cases "get_row (owner_row_key ow) s")
  case (Some r)
  obtain r' L where o: "apply_row_observation V r ow resp now (gpu_leases s) = (r', L)"
    by (cases "apply_row_observation V r ow resp now (gpu_leases s)")
  then show ?thesis
    using Some assms registry_put_row [OF assms Some same_configuration_observed [OF o]]
    by (simp add: apply_observation_def)
qed (use assms in \<open>simp add: apply_observation_def\<close>)

lemma registry_claim:
  assumes "registry_ok s" and "claim_fifo_head V ttl now gid s = Inr (s', att)"
  shows "registry_ok s'"
proof (cases "queue s = []")
  case True
  then show ?thesis using assms by (simp add: claim_fifo_head_def)
next
  case False
  let ?r = "arg_min_list queue_sort_key (queue s)"
  have "?r \<in> set (queue s)" by (rule arg_min_list_in [OF False])
  then have head: "get_row (row_key ?r) s = Some ?r"
    using assms(1) by (simp add: queue_def get_row_iff registry_ok_def)
  show ?thesis
    using assms(2) False registry_put_same [OF assms(1) head] registry_put_row [OF assms(1) head]
      same_configuration_reconciler
    by (auto simp: claim_fifo_head_def Let_def simp del: put_row.simps set_rgen.simps claimed_row.simps
        split: build_result.splits sum.splits if_splits)
qed

interpretation registry: transaction_invariant registry_ok V ttl for V ttl
proof unfold_locales
  fix s ow m n now resp gid s' att
  assume ok: "registry_ok s"
  show "registry_ok (apply_observation V ttl ow resp now s)" by (rule registry_observation [OF ok])
  show "registry_ok (record_agent_error ow m s)"
    using ok registry_put_same [OF ok _ same_configuration_reconciler(2)]
    by (simp add: record_agent_error_def split: option.split)
  show "registry_ok (fail_start ow n now s)"
    using ok registry_put_row [OF ok _ same_configuration_reconciler(5)] by (simp add: fail_start_def split: option.split)
  show "claim_fifo_head V ttl now gid s = Inr (s', att) \<Longrightarrow> registry_ok s'" using ok by (rule registry_claim)
  show "registry_ok (fst (reap_terminal_expired_leases now s))"
    using ok by (simp add: reap_terminal_expired_leases_def split_beta)
qed

section \<open>Handlers keep the registry\<close>

lemma registry_create:
  assumes "create_deployment cfg p i now s = Inr s'" and "get_row (DEPLOYMENT, i) s = None" and "registry_ok s"
  shows "registry_ok s'"
proof -
  let ?d = "new_deployment p i now"
  have c: "s' = add_row (DeploymentRow ?d) s" "deployment_create_ok p"
    using create_deployment_add [OF assms(1)] by blast+
  have "deployments_unique (deployments s @ [?d])"
    using assms(1) by (auto simp: create_deployment_def commit_deployments_def split: if_splits sum.splits)
  moreover have "deployment_ok ?d"
    using c(2) by (simp add: deployment_ok_def new_deployment_def deployment_create_ok_def detail_args_ok_def)
  moreover have "keys_ok (add_row (DeploymentRow ?d) s)"
    using assms(2,3) by (intro keys_ok_add_row) (simp_all add: registry_ok_def row_key_def new_deployment_def)
  ultimately show ?thesis using assms(3) unfolding c(1) by (auto simp: registry_ok_def)
qed

lemma registry_add_job:
  assumes "registry_ok s" and "get_row (row_key r) s = None" and "\<And>d. r \<noteq> DeploymentRow d"
  shows "registry_ok (add_row r s)"
  using assms keys_ok_add_row [of s r] by (cases r) (auto simp: registry_ok_def)

lemma registry_update:
  assumes "update_deployment cfg i u s = Inr s'" and "registry_ok s"
  shows "registry_ok s'"
proof -
  obtain d gpus n where d: "lookup_by row_id i (deployments s) = Some d" "deployment_update_ok u"
    and r: "s' = put_row (DeploymentRow (d\<lparr>row_name := n, gpu_ids := gpus, tensor_parallel_size := int (length gpus),
        simplified_config := (case du_simplified_config u of
           Unset \<Rightarrow> simplified_config d | Null \<Rightarrow> JNull | Value c \<Rightarrow> JObj (dump_simplified_config True c)),
        vllm_args := (case du_vllm_args u of Unset \<Rightarrow> vllm_args d | Null \<Rightarrow> JNull | Value a \<Rightarrow> JObj a),
        state_version := state_version d + 1\<rparr>)) s" (is "s' = put_row (DeploymentRow ?d) s")
    and u: "deployments_unique (deployments s')"
    using assms(1) by (auto simp: update_deployment_def commit_deployments_def split: if_splits option.splits)
  have "d \<in> set (deployments s)" using d(1) lookup_by_SomeD by metis
  then have "deployment_ok d" using assms(2) by (simp add: registry_ok_def)
  then have "deployment_ok ?d"
    using d(2) by (cases "du_vllm_args u") (auto simp: deployment_ok_def deployment_update_ok_def detail_args_ok_def)
  then have "\<forall>x \<in> set (deployments s'). deployment_ok x"
    using assms(2) unfolding r by (auto simp: registry_ok_def set_replace_by split: if_splits)
  moreover have "keys_ok s'" using assms(2) by (simp only: r keys_ok_put_row registry_ok_def)
  ultimately show ?thesis using u by (simp add: registry_ok_def)
qed

lemma registry_delete:
  assumes "registry_ok s" shows "registry_ok (del_row k (s\<lparr>gpu_leases := L\<rparr>))"
proof -
  have "keys_ok (del_row k s)" using assms keys_ok_del_row by (simp add: registry_ok_def)
  then have "registry_ok (del_row k s)"
    using assms
    by (cases "(k, s)" rule: del_row.cases)
       (auto simp: registry_ok_def deployments_unique_def delete_by_def distinct_map_filter_key)
  moreover have "del_row k (s\<lparr>gpu_leases := L\<rparr>) = (del_row k s)\<lparr>gpu_leases := L\<rparr>"
    by (cases "(k, s)" rule: del_row.cases) simp_all
  ultimately show ?thesis by simp
qed

lemma registry_publish:
  assumes "publish_training_model F i new s = Inr (s', m)" and "registry_ok s"
  shows "registry_ok s'"
proof -
  have "registry_ok (link_published a t (s\<lparr>model_assets := A\<rparr>))" "registry_ok (link_published a t s)" for a t A
    using registry_put_job(1) assms(2) by (simp_all only: link_published_def registry_models)
  then show ?thesis
    using assms by (auto simp: publish_training_model_def Let_def split: if_splits option.splits sum.splits)
qed

lemma configured_handlers:
  "configured (start_row now d) = configured d" "configured (stop_row d) = configured d"
  "row_id (start_row now d) = row_id d" "row_id (stop_row d) = row_id d"
  by (simp_all add: configured_def start_row_def stop_row_def Let_def)

lemma registry_put_lookup:
  assumes "registry_ok s" and "lookup_by row_id i (deployments s) = Some d"
  shows "registry_ok (put_row (DeploymentRow (start_row now d)) s)"
    and "registry_ok (put_row (DeploymentRow (stop_row d)) s)"
  using registry_put_same [OF assms(1) row_of_lookup(1) [OF assms(2)]]
  by (simp_all only: same_configuration.simps row.case configured_handlers)

lemma route_step_registry:
  assumes "route_step s s'" and "registry_ok s"
  shows "registry_ok s'"
  using assms(1)
proof cases
  case create_dep
  then show ?thesis using registry_create assms(2) by blast
next
  case (create_train cfg V F q i now)
  then obtain dir where "s' = add_row (TrainingRow (new_training_job q dir i now)) s"
    using create_training_job_add by blast
  then show ?thesis
    using registry_add_job [OF assms(2)] create_train(2) new_rows_rgen(5) by (metis row.distinct(1))
next
  case (create_eval cfg V F r i now)
  then obtain bt ct dir where "s' = add_row (EvaluationRow (new_evaluation_run cfg r bt ct dir i now)) s"
    using create_evaluation_run_add by blast
  then show ?thesis
    using registry_add_job [OF assms(2)] create_eval(2) new_rows_rgen(6) by (metis row.distinct(3))
next
  case update_dep
  then show ?thesis using registry_update assms(2) by blast
next
  case start_dep
  then show ?thesis
    using registry_put_lookup(1) [OF assms(2)] by (auto simp: start_deployment_def simp del: put_row.simps split: option.splits)
next
  case stop_dep
  then show ?thesis
    using registry_put_lookup(2) [OF assms(2)] by (auto simp: stop_deployment_def simp del: put_row.simps split: option.splits)
next
  case terminate_train
  then show ?thesis
    using registry_put_job(1) [OF assms(2)]
    by (auto simp: terminate_training_job_def simp del: put_row.simps split: option.splits)
next
  case cancel_eval
  then show ?thesis
    using registry_put_job(2) [OF assms(2)]
    by (auto simp: cancel_evaluation_run_def simp del: put_row.simps split: option.splits)
next
  case delete_any
  then show ?thesis using delete_workload_del registry_delete [OF assms(2)] by metis
next
  case publish
  then show ?thesis using registry_publish assms(2) by blast
next
  case update_asset
  then show ?thesis
    using assms(2) by (auto simp: update_model_asset_def split: if_splits sum.splits option.splits)
next
  case delete_asset
  then show ?thesis using assms(2) by (auto simp: delete_model_asset_def split: if_splits sum.splits)
qed

lemma registry_calls: "world_ok W \<Longrightarrow> registry.calls_keep W"
proof -
  have "route_step\<^sup>*\<^sup>* s s' \<Longrightarrow> registry_ok s \<Longrightarrow> registry_ok s'" for s s'
    by (induction rule: rtranclp_induct) (auto intro: route_step_registry)
  then show "world_ok W \<Longrightarrow> registry.calls_keep W" unfolding world_ok_def registry.calls_keep_def by blast
qed

lemma reachable_registry: "world_ok W \<Longrightarrow> reachable W V ttl s \<Longrightarrow> registry_ok s"
proof (rotate_tac, induction rule: reachable.induct)
  case (start s)
  then show ?case by (simp add: initial_def registry_ok_def keys_ok_def keyed_def deployments_unique_def)
next
  case (request s s')
  then show ?case using route_step_registry by blast
next
  case (round s fuel e e' s' rep err)
  then show ?case
    using registry.run_once_kept [of W s V ttl fuel e e' s' rep err] registry_calls [of W] by simp
qed

section \<open>Properties\<close>



text \<open>
  C20. Nothing is deleted on a guess: a delete request succeeds only for a finished (or never started)
  workload for which the node agent answered, accepted and verified, that the container is absent;
  then the row and every lease of the workload, of any generation, are gone and nothing else is.
\<close>

theorem deletion_needs_confirmed_absence:
  assumes "delete_workload agent fresh (ty, i) s = Inr s'"
  shows "\<exists>r ask c resp. get_row (ty, i) s = Some r \<and> deletable r \<and> agent = Some ask
    \<and> cmd_action c = STOP \<and> ag_type (cmd_owner c) = ty \<and> ag_id (cmd_owner c) = i \<and> execution c = cleanup_execution
    \<and> ask c = Inr resp \<and> accepted resp \<and> observed_state resp = ABSENT
    \<and> get_row (ty, i) s' = None \<and> (\<forall>k. k \<noteq> (ty, i) \<longrightarrow> get_row k s' = get_row k s)
    \<and> (\<forall>t j g. held (gpu_leases s') (t, j, g) = (if (t, j) = (ty, i) then {} else held (gpu_leases s) (t, j, g)))"
proof -
  obtain r where r: "get_row (ty, i) s = Some r" and del: "deletable r"
    using assms by (auto simp: delete_workload_def split: option.splits if_splits)
  let ?ow = "owner_at (if rgen r \<noteq> 0 then rgen r else rversion r) r"
  obtain ask L where a: "agent = Some ask"
    and c: "confirm_absent_and_release_leases ask fresh ?ow (rgpus r) (gpu_leases s) = Inr L"
    and s': "s' = del_row (ty, i) (s\<lparr>gpu_leases := L\<rparr>)"
    using assms r del by (auto simp: delete_workload_def split: option.splits sum.splits)
  let ?c = "\<lparr>request_id = fresh, cmd_action = STOP,
    cmd_owner = \<lparr>ag_type = own_type ?ow, ag_id = own_id ?ow, ag_name = own_name ?ow, ag_generation = own_generation ?ow\<rparr>,
    cmd_gpu_ids = rgpus r, execution = cleanup_execution\<rparr>"
  have ask: "\<exists>resp. ask ?c = Inr resp \<and> accepted resp \<and> observed_state resp = ABSENT"
    and L: "L = filter (\<lambda>l. \<not> same_owner ?ow l) (gpu_leases s)"
    using c by (auto simp: confirm_absent_and_release_leases_def Let_def simp del: owner_at_simps split: if_splits sum.splits)
  have k: "row_type r = ty" "rid r = i" using get_row_key [OF r] by (simp_all add: row_key_def)
  have o: "owner_row_key ?ow = (ty, i)" by (simp add: row_key_def k)
  have "held (gpu_leases s') (t, j, g) = (if (t, j) = (ty, i) then {} else held (gpu_leases s) (t, j, g))" for t j g
    unfolding held_filter_owner [of ?ow, unfolded o, symmetric] by (simp add: s' flip: L)
  moreover have "get_row (ty, i) s' = None \<and> (\<forall>k. k \<noteq> (ty, i) \<longrightarrow> get_row k s' = get_row k s)"
    by (simp add: s' get_row_del_row)
  moreover have "cmd_action ?c = STOP \<and> ag_type (cmd_owner ?c) = ty \<and> ag_id (cmd_owner ?c) = i
      \<and> execution ?c = cleanup_execution" using k by simp
  ultimately show ?thesis using r del a ask by blast
qed

definition demo_gone :: "agent_command \<Rightarrow> string + agent_response" where
  "demo_gone c = Inr (demo_vanished\<lparr>res_request_id := request_id c\<rparr>)"

lemma deletion_needs_confirmed_absence_witness:
  "\<exists>s'. delete_workload (Some demo_gone) 50 (DEPLOYMENT, 1) (projr (stop_deployment 1 demo_q2)) = Inr s'
    \<and> get_row (DEPLOYMENT, 1) s' = None \<and> get_row (DEPLOYMENT, 2) s' = get_row (DEPLOYMENT, 2) demo_q2"
proof -
  have "\<not> isl (delete_workload (Some demo_gone) 50 (DEPLOYMENT, 1) (projr (stop_deployment 1 demo_q2)))"
    by code_simp
  then obtain s' where d: "delete_workload (Some demo_gone) 50 (DEPLOYMENT, 1) (projr (stop_deployment 1 demo_q2)) = Inr s'"
    by (cases "delete_workload (Some demo_gone) 50 (DEPLOYMENT, 1) (projr (stop_deployment 1 demo_q2))") auto
  have "get_row (DEPLOYMENT, 2) (projr (stop_deployment 1 demo_q2)) = get_row (DEPLOYMENT, 2) demo_q2"
    by code_simp
  then show ?thesis
    using deletion_needs_confirmed_absence [OF d] d by (metis Pair_inject semiring_norm(85) numeral_eq_one_iff)
qed

text \<open>
  Terminating a training job is idempotent and frees nothing: a second request changes nothing,
  a request for a finished job changes nothing, a waiting job is canceled at once, and one that the
  agent runs is marked canceling with all its cards kept until the agent reports.
\<close>

theorem terminate_is_idempotent:
  assumes "terminate_training_job i now s = Inr s'"
  shows "terminate_training_job i now' s' = Inr s' \<and> gpu_leases s' = gpu_leases s
    \<and> (\<exists>t t'. lookup_by row_id i (training_jobs s) = Some t \<and> lookup_by row_id i (training_jobs s') = Some t'
         \<and> (if job_actual t \<in> terminal_job_states then t' = t
            else if job_actual t \<in> {J_CREATED, J_QUEUED} then job_actual t' = J_CANCELED
            else job_actual t' = J_CANCELING \<and> job_desired t' = JOB_TERMINATED
              \<and> runtime_generation t' = runtime_generation t \<and> gpu_ids t' = gpu_ids t))"
proof -
  obtain t where t: "lookup_by row_id i (training_jobs s) = Some t"
    and s': "s' = s\<lparr>training_jobs := replace_by row_id (terminate_row now t) (training_jobs s)\<rparr>"
    using assms by (auto simp: terminate_training_job_def split: option.splits)
  have i: "row_id t = i" using lookup_by_SomeD [OF t] by simp
  have id: "row_id (terminate_row now t) = i" using i by (simp add: terminate_row_def Let_def)
  have l: "lookup_by row_id i (training_jobs s') = Some (terminate_row now t)"
    using t id by (simp add: s' lookup_by_replace_by)
  have "terminate_row now' (terminate_row now t) = terminate_row now t"
    by (cases "job_actual t") (auto simp: terminate_row_def Let_def terminal_job_states_def)
  moreover have "replace_by row_id (terminate_row now t) (training_jobs s') = training_jobs s'"
    by (simp add: s' replace_by_def)
  ultimately have "terminate_training_job i now' s' = Inr s'"
    using l by (simp add: terminate_training_job_def)
  moreover have "if job_actual t \<in> terminal_job_states then terminate_row now t = t
      else if job_actual t \<in> {J_CREATED, J_QUEUED} then job_actual (terminate_row now t) = J_CANCELED
      else job_actual (terminate_row now t) = J_CANCELING \<and> job_desired (terminate_row now t) = JOB_TERMINATED
        \<and> runtime_generation (terminate_row now t) = runtime_generation t \<and> gpu_ids (terminate_row now t) = gpu_ids t"
    by (cases "job_actual t") (auto simp: terminate_row_def Let_def terminal_job_states_def)
  ultimately show ?thesis using t l s' by fastforce
qed

definition demo_training :: db where
  "demo_training = demo_start\<lparr>training_jobs :=
     [new_training_job \<lparr>tc_name = ''t'', tc_model_asset_id = 7, tc_dataset_id = 9, tc_stage = CPT,
        tc_algorithm = LORA, tc_gpu_ids = [3], tc_template = None, tc_training_config = []\<rparr> ''/out'' 4 30]\<rparr>"

lemma terminate_is_idempotent_witness:
  "\<exists>s'. terminate_training_job 4 40 demo_training = Inr s' \<and> terminate_training_job 4 50 s' = Inr s'"
proof -
  have "\<not> isl (terminate_training_job 4 40 demo_training)" by code_simp
  then obtain s' where t: "terminate_training_job 4 40 demo_training = Inr s'"
    by (cases "terminate_training_job 4 40 demo_training") auto
  then show ?thesis using terminate_is_idempotent [OF t, of 50] by blast
qed

end
