(* ===== verification/Effects.thy ===== *)
theory Effects
  imports OpsPrelude
begin

text \<open>
  Code that changes a state and may raise: an action maps a state to the new state and an error or a
  value. An exception keeps the state reached so far. The rules below push an invariant, or a
  pre- and postcondition, through the combinators, so that a proof about a long handler is a list of
  facts about its calls.
\<close>

section \<open>Actions\<close>

type_synonym ('s, 'x, 'a) action = "'s \<Rightarrow> 's \<times> ('x + 'a)"

definition give :: "'a \<Rightarrow> ('s, 'x, 'a) action" where
  "give a = (\<lambda>s. (s, Inr a))"

definition throw :: "'x \<Rightarrow> ('s, 'x, 'a) action" where
  "throw x = (\<lambda>s. (s, Inl x))"

definition and_then :: "('s, 'x, 'a) action \<Rightarrow> ('a \<Rightarrow> ('s, 'x, 'b) action) \<Rightarrow> ('s, 'x, 'b) action" where
  "and_then m f = (\<lambda>s. case m s of (s', Inl x) \<Rightarrow> (s', Inl x) | (s', Inr a) \<Rightarrow> f a s')"

definition require :: "bool \<Rightarrow> 'x \<Rightarrow> ('s, 'x, unit) action" where
  "require b x = (if b then give () else throw x)"

definition from_sum :: "'x + 'a \<Rightarrow> ('s, 'x, 'a) action" where
  "from_sum v = (\<lambda>s. (s, v))"

text \<open>\<open>try: m except: h\<close>; the handler may raise again.\<close>

definition rescue :: "('s, 'x, 'a) action \<Rightarrow> ('x \<Rightarrow> ('s, 'y, 'a) action) \<Rightarrow> ('s, 'y, 'a) action" where
  "rescue m h = (\<lambda>s. case m s of (s', Inl x) \<Rightarrow> h x s' | (s', Inr a) \<Rightarrow> (s', Inr a))"

text \<open>The outcome of an action as a value: \<open>try\<close> with both continuations.\<close>

definition attempt :: "('s, 'x, 'a) action \<Rightarrow> ('s, 'y, 'x + 'a) action" where
  "attempt m = (\<lambda>s. case m s of (s', r) \<Rightarrow> (s', Inr r))"

definition get_state :: "('s \<Rightarrow> 'a) \<Rightarrow> ('s, 'x, 'a) action" where
  "get_state f = (\<lambda>s. (s, Inr (f s)))"

definition set_state :: "('s \<Rightarrow> 's) \<Rightarrow> ('s, 'x, unit) action" where
  "set_state f = (\<lambda>s. (f s, Inr ()))"

fun for_each :: "('a \<Rightarrow> ('s, 'x, unit) action) \<Rightarrow> 'a list \<Rightarrow> ('s, 'x, unit) action" where
  "for_each f [] = give ()"
| "for_each f (x # xs) = and_then (f x) (\<lambda>_. for_each f xs)"

lemmas action_defs = give_def throw_def and_then_def require_def from_sum_def rescue_def attempt_def
  get_state_def set_state_def

section \<open>What an action keeps and establishes\<close>

text \<open>
  \<open>establishes P m Q X\<close>: from a state with \<open>P\<close>, a value \<open>a\<close> ends in a state with \<open>Q a\<close>, an exception \<open>x\<close>
  in one with \<open>X x\<close>.
\<close>

definition establishes ::
  "('s \<Rightarrow> bool) \<Rightarrow> ('s, 'x, 'a) action \<Rightarrow> ('a \<Rightarrow> 's \<Rightarrow> bool) \<Rightarrow> ('x \<Rightarrow> 's \<Rightarrow> bool) \<Rightarrow> bool" where
  "establishes P m Q X \<longleftrightarrow>
     (\<forall>s. P s \<longrightarrow> (case m s of (s', Inr a) \<Rightarrow> Q a s' | (s', Inl x) \<Rightarrow> X x s'))"

abbreviation keeps :: "('s \<Rightarrow> bool) \<Rightarrow> ('s, 'x, 'a) action \<Rightarrow> bool" where
  "keeps P m \<equiv> establishes P m (\<lambda>_. P) (\<lambda>_. P)"

named_theorems action_rules

lemma establishes_iff:
  "establishes P m Q X \<longleftrightarrow> (\<forall>s s' a. P s \<longrightarrow> m s = (s', Inr a) \<longrightarrow> Q a s')
     \<and> (\<forall>s s' x. P s \<longrightarrow> m s = (s', Inl x) \<longrightarrow> X x s')"
  unfolding establishes_def by (auto split: prod.splits sum.splits)

lemma value_of: "establishes P m Q X \<Longrightarrow> P s \<Longrightarrow> m s = (s', Inr a) \<Longrightarrow> Q a s'"
  by (simp add: establishes_iff)

lemma error_of: "establishes P m Q X \<Longrightarrow> P s \<Longrightarrow> m s = (s', Inl x) \<Longrightarrow> X x s'"
  by (simp add: establishes_iff)

lemma establishesI:
  "(\<And>s s' a. P s \<Longrightarrow> m s = (s', Inr a) \<Longrightarrow> Q a s') \<Longrightarrow> (\<And>s s' x. P s \<Longrightarrow> m s = (s', Inl x) \<Longrightarrow> X x s') \<Longrightarrow>
     establishes P m Q X"
  by (simp add: establishes_iff)

lemma kept:
  assumes "keeps P m" and "P s" shows "P (fst (m s))"
proof -
  obtain s' r where m: "m s = (s', r)" by (cases "m s")
  show ?thesis
    using value_of [OF assms] error_of [OF assms] m by (cases r) simp_all
qed

lemma and_then_cases:
  "and_then m f s = (s', r) \<Longrightarrow>
     (\<exists>s1 a. m s = (s1, Inr a) \<and> f a s1 = (s', r)) \<or> (\<exists>x. m s = (s', Inl x) \<and> r = Inl x)"
  by (auto simp: and_then_def split: prod.splits sum.splits)

lemma give_rule [action_rules]: "(\<And>s. P s \<Longrightarrow> Q a s) \<Longrightarrow> establishes P (give a) Q X"
  by (simp add: establishes_def give_def)

lemma throw_rule [action_rules]: "(\<And>s. P s \<Longrightarrow> X x s) \<Longrightarrow> establishes P (throw x) Q X"
  by (simp add: establishes_def throw_def)

lemma require_rule [action_rules]:
  "(\<And>s. P s \<Longrightarrow> b \<Longrightarrow> Q () s) \<Longrightarrow> (\<And>s. P s \<Longrightarrow> \<not> b \<Longrightarrow> X x s) \<Longrightarrow> establishes P (require b x) Q X"
  by (simp add: establishes_def action_defs)

lemma and_then_rule [action_rules]:
  "establishes P m R X \<Longrightarrow> (\<And>a. establishes (R a) (f a) Q X) \<Longrightarrow> establishes P (and_then m f) Q X"
  by (rule establishesI; drule and_then_cases; auto dest: value_of error_of)

lemma from_sum_rule [action_rules]:
  "(\<And>s a. P s \<Longrightarrow> v = Inr a \<Longrightarrow> Q a s) \<Longrightarrow> (\<And>s x. P s \<Longrightarrow> v = Inl x \<Longrightarrow> X x s) \<Longrightarrow> establishes P (from_sum v) Q X"
  by (auto simp: establishes_def from_sum_def split: sum.splits)

lemma rescue_rule [action_rules]:
  "establishes P m Q R \<Longrightarrow> (\<And>x. establishes (R x) (h x) Q X) \<Longrightarrow> establishes P (rescue m h) Q X"
  by (rule establishesI; simp add: rescue_def split: prod.splits sum.splits; auto dest: value_of error_of)

lemma attempt_rule [action_rules]:
  "establishes P m (\<lambda>a. Q (Inr a)) (\<lambda>x. Q (Inl x)) \<Longrightarrow> establishes P (attempt m) Q X"
  unfolding establishes_def attempt_def by (fastforce split: prod.splits sum.splits)

lemma get_state_rule [action_rules]: "(\<And>s. P s \<Longrightarrow> Q (f s) s) \<Longrightarrow> establishes P (get_state f) Q X"
  by (simp add: establishes_def get_state_def)

lemma set_state_rule [action_rules]: "(\<And>s. P s \<Longrightarrow> Q () (f s)) \<Longrightarrow> establishes P (set_state f) Q X"
  by (simp add: establishes_def set_state_def)

lemma if_rule [action_rules]:
  "(b \<Longrightarrow> establishes P m Q X) \<Longrightarrow> (\<not> b \<Longrightarrow> establishes P n Q X) \<Longrightarrow> establishes P (if b then m else n) Q X"
  by simp

lemma option_rule [action_rules]:
  "(v = None \<Longrightarrow> establishes P m Q X) \<Longrightarrow> (\<And>a. v = Some a \<Longrightarrow> establishes P (f a) Q X) \<Longrightarrow>
     establishes P (case v of None \<Rightarrow> m | Some a \<Rightarrow> f a) Q X"
  by (simp split: option.split)

lemma sum_rule [action_rules]:
  "(\<And>a. v = Inl a \<Longrightarrow> establishes P (f a) Q X) \<Longrightarrow> (\<And>b. v = Inr b \<Longrightarrow> establishes P (g b) Q X) \<Longrightarrow>
     establishes P (case v of Inl a \<Rightarrow> f a | Inr b \<Rightarrow> g b) Q X"
  by (simp split: sum.split)

lemma let_rule [action_rules]: "establishes P (f v) Q X \<Longrightarrow> establishes P (let x = v in f x) Q X"
  by simp

lemma for_each_rule [action_rules]: "(\<And>x. keeps P (f x)) \<Longrightarrow> keeps P (for_each f xs)"
  by (induction xs) (auto intro!: action_rules)

lemma weaken:
  "establishes P m Q X \<Longrightarrow> (\<And>s. P' s \<Longrightarrow> P s) \<Longrightarrow> (\<And>a s. Q a s \<Longrightarrow> Q' a s) \<Longrightarrow> (\<And>x s. X x s \<Longrightarrow> X' x s) \<Longrightarrow>
     establishes P' m Q' X'"
  unfolding establishes_iff by blast

section \<open>What an action keeps\<close>

text \<open>The same rules for an invariant: \<open>intro keep_rules\<close> reduces a handler to its calls.\<close>

lemma keeps_give: "keeps P (give a)" by (rule give_rule)
lemma keeps_throw: "keeps P (throw x)" by (rule throw_rule)
lemma keeps_require: "keeps P (require b x)" by (rule require_rule)
lemma keeps_from_sum: "keeps P (from_sum v)" by (rule from_sum_rule)

lemma keeps_bind: "keeps P m \<Longrightarrow> (\<And>a. keeps P (f a)) \<Longrightarrow> keeps P (and_then m f)"
  by (rule and_then_rule)

lemma keeps_rescue: "keeps P m \<Longrightarrow> (\<And>x. keeps P (h x)) \<Longrightarrow> keeps P (rescue m h)"
  by (rule rescue_rule)

lemma keeps_attempt: "keeps P m \<Longrightarrow> keeps P (attempt m)"
  by (rule attempt_rule)

lemma keeps_if: "keeps P m \<Longrightarrow> keeps P n \<Longrightarrow> keeps P (if b then m else n)"
  by simp

lemma keeps_option: "keeps P m \<Longrightarrow> (\<And>a. keeps P (f a)) \<Longrightarrow> keeps P (case v of None \<Rightarrow> m | Some a \<Rightarrow> f a)"
  by (simp split: option.split)

lemma keeps_sum: "(\<And>a. keeps P (f a)) \<Longrightarrow> (\<And>b. keeps P (g b)) \<Longrightarrow> keeps P (case v of Inl a \<Rightarrow> f a | Inr b \<Rightarrow> g b)"
  by (simp split: sum.split)

lemma keeps_pair: "(\<And>a b. keeps P (f a b)) \<Longrightarrow> keeps P (case v of (a, b) \<Rightarrow> f a b)"
  by (simp split: prod.split)

lemma keeps_list: "keeps P m \<Longrightarrow> (\<And>a as. keeps P (f a as)) \<Longrightarrow> keeps P (case v of [] \<Rightarrow> m | a # as \<Rightarrow> f a as)"
  by (simp split: list.split)

lemma keeps_get_state: "keeps P (get_state f)" by (rule get_state_rule)

lemmas keep_rules = keeps_give keeps_throw keeps_require keeps_from_sum keeps_bind keeps_rescue keeps_attempt
  keeps_if keeps_option keeps_sum keeps_pair keeps_list keeps_get_state

text \<open>Two postconditions of the same action.\<close>

lemma both: "establishes P m Q X \<Longrightarrow> establishes P m R Y \<Longrightarrow>
     establishes P m (\<lambda>a s. Q a s \<and> R a s) (\<lambda>x s. X x s \<and> Y x s)"
  by (simp add: establishes_iff)

text \<open>
  Sequencing: what a value satisfies on its own becomes a fact, the rest is the precondition of what
  follows; a call that keeps the precondition; a call that is no action at all.
\<close>

lemma bind_fact:
  assumes "establishes P m (\<lambda>a s. Q a \<and> R a s) X" and "\<And>a. Q a \<Longrightarrow> establishes (R a) (f a) S X"
  shows "establishes P (and_then m f) S X"
  using assms(1) by (rule and_then_rule) (use assms(2) in \<open>auto simp: establishes_def\<close>)

lemma bind_keep:
  assumes "establishes P m (\<lambda>_. P) X" and "\<And>a. establishes P (f a) S X"
  shows "establishes P (and_then m f) S X"
  using assms by (rule and_then_rule)

lemma bind_pure:
  assumes "\<And>a. v = Inr a \<Longrightarrow> establishes P (f a) S X" and "\<And>x s. P s \<Longrightarrow> v = Inl x \<Longrightarrow> X x s"
  shows "establishes P (and_then (from_sum v) f) S X"
  by (rule bind_fact [where Q = "\<lambda>a. v = Inr a" and R = "\<lambda>_. P"], rule from_sum_rule) (use assms in auto)

lemma bind_require:
  assumes "b \<Longrightarrow> establishes P (f ()) S X" and "\<And>s. P s \<Longrightarrow> \<not> b \<Longrightarrow> X x s"
  shows "establishes P (and_then (require b x) f) S X"
  by (rule bind_fact [where Q = "\<lambda>_. b" and R = "\<lambda>_. P"], rule require_rule) (use assms in auto)

lemma fact_rule: "(b \<Longrightarrow> establishes P m Q X) \<Longrightarrow> establishes (\<lambda>s. b \<and> P s) m Q X"
  by (simp add: establishes_def)

lemma attempt_cases:
  assumes "establishes P m Q X" and "\<And>a. establishes (Q a) (f (Inr a)) S Y" and "\<And>x. establishes (X x) (f (Inl x)) S Y"
  shows "establishes P (and_then (attempt m) f) S Y"
proof (rule and_then_rule [where R = "\<lambda>r s. case r of Inr a \<Rightarrow> Q a s | Inl x \<Rightarrow> X x s"])
  show "establishes P (attempt m) (\<lambda>r s. case r of Inr a \<Rightarrow> Q a s | Inl x \<Rightarrow> X x s) Y"
    by (rule attempt_rule) (use assms(1) in simp)
next
  fix r
  show "establishes (\<lambda>s. case r of Inr a \<Rightarrow> Q a s | Inl x \<Rightarrow> X x s) (f r) S Y"
    using assms(2,3) by (cases r) simp_all
qed

end
