(* ===== verification/ControlledPaths.thy ===== *)
theory ControlledPaths
  imports AgentContract Effects "HOL-Library.Sublist"
begin

text \<open>
  How the node agent confines the paths a command names to its own directories: the path checks of
  \<open>agent/openllmops_agent/evaluation_runtime.py\<close> and \<open>docker_runner.py\<close>. A path is the list of its
  parts (\<open>Path.parts\<close>); an absolute path begins with a root part. The operating system is the
  parameter \<open>host\<close>: every question to the file system is an action on a state the model does not look
  into, so it may change between any two questions.
\<close>

section \<open>Paths as text\<close>

type_synonym path = "string list"

definition is_root_part :: "string \<Rightarrow> bool" where
  "is_root_part w \<longleftrightarrow> w = ''/'' \<or> w = ''//''"

definition path_root :: "string \<Rightarrow> path" where
  "path_root s =
     (if take 1 s \<noteq> ''/'' then []
      else if take 2 s = ''//'' \<and> take 3 s \<noteq> ''///'' then [''//''] else [''/''])"

text \<open>\<open>Path(s).parts\<close>: empty parts and dots are dropped, \<open>..\<close> is kept.\<close>

definition path_of :: "string \<Rightarrow> path" where
  "path_of s = path_root s @ filter (\<lambda>w. w \<noteq> [] \<and> w \<noteq> ''.'') (split_on (CHR ''/'') s)"

definition is_absolute :: "path \<Rightarrow> bool" where
  "is_absolute p = (case p of [] \<Rightarrow> False | w # _ \<Rightarrow> is_root_part w)"

text \<open>\<open>str(path)\<close>.\<close>

definition path_str :: "path \<Rightarrow> string" where
  "path_str p = (case p of
     [] \<Rightarrow> ''.''
   | w # ws \<Rightarrow> (if is_root_part w then w @ join_with (CHR ''/'') ws else join_with (CHR ''/'') p))"

text \<open>\<open>os.path.normpath\<close> on parts; the accumulator is reversed.\<close>

fun normal_parts :: "path \<Rightarrow> path \<Rightarrow> path" where
  "normal_parts acc [] = rev acc"
| "normal_parts acc (w # ws) =
     (if w = ''..'' then
        (case acc of
           [] \<Rightarrow> normal_parts [''..''] ws
         | a # as \<Rightarrow> (if is_root_part a then normal_parts acc ws
             else if a = ''..'' then normal_parts (''..'' # acc) ws
             else normal_parts as ws))
      else normal_parts (w # acc) ws)"

definition abspath :: "path \<Rightarrow> path \<Rightarrow> path" where
  "abspath cwd p = normal_parts [] (if is_absolute p then p else cwd @ p)"

section \<open>The operating system\<close>

datatype file_kind = LinkFile | DirectoryFile | RegularFile | OtherFile
text \<open>\<open>FileNotFoundError\<close>, any other \<open>OSError\<close>, and the \<open>RuntimeError\<close> of a loop of links.\<close>

datatype os_error = FileMissing | OtherOsError | LinkLoop

record 'f host =
  h_cwd :: path
  h_resolve :: "bool \<Rightarrow> path \<Rightarrow> ('f, os_error, path) action"   \<comment> \<open>\<open>resolve(strict=...)\<close>\<close>
  h_lstat :: "path \<Rightarrow> ('f, os_error, file_kind) action"
  h_exists :: "path \<Rightarrow> ('f, os_error, bool) action"
  h_is_symlink :: "path \<Rightarrow> ('f, os_error, bool) action"
  h_is_dir :: "path \<Rightarrow> ('f, os_error, bool) action"
  h_is_file :: "path \<Rightarrow> ('f, os_error, bool) action"
  h_has_entries :: "path \<Rightarrow> ('f, os_error, bool) action"         \<comment> \<open>\<open>any(path.iterdir())\<close>\<close>
  h_mkdir :: "bool \<Rightarrow> bool \<Rightarrow> path \<Rightarrow> ('f, os_error, unit) action" \<comment> \<open>\<open>parents\<close>, \<open>exist_ok\<close>\<close>
  h_chmod :: "path \<Rightarrow> ('f, os_error, unit) action"

datatype path_error =
    NotAbsolute
  | RootIsLink | RootMissing | RootNotDirectory
  | Escapes | LinkComponent | CannotInspect
  | MissingOrEscapes | NotADirectory | NotAFile
  | OutputNotDerived | OutputNotDirectory | OutputNotEmpty | CannotCreateOutput
  | CannotCreateRuntimeDirectory
  | UncaughtOsError os_error

text \<open>
  What the \<open>except\<close> clauses around a call turn into the error \<open>e\<close>: everything, an \<open>OSError\<close>, a missing
  file or a loop, nothing.
\<close>

definition catch_all :: "path_error \<Rightarrow> ('f, os_error, 'a) action \<Rightarrow> ('f, path_error, 'a) action" where
  "catch_all e m = rescue m (\<lambda>_. throw e)"

definition catch_os :: "path_error \<Rightarrow> ('f, os_error, 'a) action \<Rightarrow> ('f, path_error, 'a) action" where
  "catch_os e m = rescue m (\<lambda>x. throw (if x = LinkLoop then UncaughtOsError x else e))"

definition catch_missing :: "path_error \<Rightarrow> ('f, os_error, 'a) action \<Rightarrow> ('f, path_error, 'a) action" where
  "catch_missing e m = rescue m (\<lambda>x. throw (if x = OtherOsError then UncaughtOsError x else e))"

definition raw_call :: "('f, os_error, 'a) action \<Rightarrow> ('f, path_error, 'a) action" where
  "raw_call m = rescue m (\<lambda>x. throw (UncaughtOsError x))"

section \<open>\<open>evaluation_runtime.py\<close>\<close>

definition absolute_path :: "'f host \<Rightarrow> path \<Rightarrow> path_error + path" where
  "absolute_path H p = (if \<not> is_absolute p then Inl NotAbsolute else Inr (abspath (h_cwd H) p))"

definition root_path :: "'f host \<Rightarrow> path \<Rightarrow> ('f, path_error, path \<times> path) action" where
  "root_path H base =
     and_then (from_sum (absolute_path H base)) (\<lambda>raw_root.
     and_then (raw_call (h_is_symlink H raw_root)) (\<lambda>link.
     and_then (require (\<not> link) RootIsLink) (\<lambda>_.
     and_then (catch_all RootMissing (h_resolve H True raw_root)) (\<lambda>resolved.
     and_then (raw_call (h_is_dir H resolved)) (\<lambda>dir.
     and_then (require dir RootNotDirectory) (\<lambda>_.
     give (raw_root, resolved)))))))"

fun reject_links_below :: "'f host \<Rightarrow> path \<Rightarrow> path \<Rightarrow> ('f, path_error, unit) action" where
  "reject_links_below H current [] = give ()"
| "reject_links_below H current (w # ws) =
     and_then (attempt (h_lstat H (current @ [w]))) (\<lambda>r.
       case r of
         Inl FileMissing \<Rightarrow> give ()
       | Inl OtherOsError \<Rightarrow> throw CannotInspect
       | Inl LinkLoop \<Rightarrow> throw (UncaughtOsError LinkLoop)
       | Inr k \<Rightarrow> (if k = LinkFile then throw LinkComponent else reject_links_below H (current @ [w]) ws))"

definition reject_symlink_components :: "'f host \<Rightarrow> path \<Rightarrow> path \<Rightarrow> ('f, path_error, unit) action" where
  "reject_symlink_components H raw_root candidate =
     (if prefix raw_root candidate then reject_links_below H raw_root (drop (length raw_root) candidate)
      else throw Escapes)"

definition existing_path_under ::
  "'f host \<Rightarrow> path \<Rightarrow> bool \<Rightarrow> path \<Rightarrow> path \<Rightarrow> ('f, path_error, path \<times> path) action" where
  "existing_path_under H raw directory raw_root resolved_root =
     and_then (reject_symlink_components H raw_root raw) (\<lambda>_.
     and_then (catch_all MissingOrEscapes (h_resolve H True raw)) (\<lambda>resolved.
     and_then (require (prefix resolved_root resolved) MissingOrEscapes) (\<lambda>_.
     and_then (raw_call (if directory then h_is_dir H resolved else h_is_file H resolved)) (\<lambda>fits.
     and_then (require fits (if directory then NotADirectory else NotAFile)) (\<lambda>_.
     give (resolved, resolved_root))))))"

fun existing_path_in :: "'f host \<Rightarrow> path \<Rightarrow> bool \<Rightarrow> path list \<Rightarrow> ('f, path_error, path \<times> path) action" where
  "existing_path_in H raw directory [] = throw Escapes"
| "existing_path_in H raw directory (base # roots) =
     and_then (root_path H base) (\<lambda>(raw_root, resolved_root).
       if \<not> prefix raw_root raw then existing_path_in H raw directory roots
       else existing_path_under H raw directory raw_root resolved_root)"

definition strict_existing_path ::
  "'f host \<Rightarrow> path \<Rightarrow> path list \<Rightarrow> bool \<Rightarrow> ('f, path_error, path \<times> path) action" where
  "strict_existing_path H candidate roots directory =
     and_then (from_sum (absolute_path H candidate)) (\<lambda>raw. existing_path_in H raw directory roots)"

definition fresh_directory :: "'f host \<Rightarrow> path \<Rightarrow> ('f, path_error, unit) action" where
  "fresh_directory H raw =
     and_then (catch_all CannotCreateOutput (h_exists H raw)) (\<lambda>there.
       if there then
         and_then (catch_all CannotCreateOutput (h_is_symlink H raw)) (\<lambda>link.
         and_then (if link then give False else catch_all CannotCreateOutput (h_is_dir H raw)) (\<lambda>dir.
         and_then (require (\<not> link \<and> dir) OutputNotDirectory) (\<lambda>_.
         and_then (catch_all CannotCreateOutput (h_has_entries H raw)) (\<lambda>some.
         require (\<not> some) OutputNotEmpty))))
       else catch_all CannotCreateOutput (h_mkdir H False False raw))"

definition prepare_output_directory ::
  "'f host \<Rightarrow> path \<Rightarrow> path \<Rightarrow> uuid \<Rightarrow> ('f, path_error, path) action" where
  "prepare_output_directory H candidate output_root run_id =
     and_then (root_path H output_root) (\<lambda>(raw_root, resolved_root).
     and_then (from_sum (absolute_path H candidate)) (\<lambda>raw.
     and_then (require (raw = raw_root @ [uuid_str run_id]) OutputNotDerived) (\<lambda>_.
     and_then (reject_symlink_components H raw_root raw) (\<lambda>_.
     and_then (fresh_directory H raw) (\<lambda>_.
     and_then (catch_all CannotCreateOutput (h_chmod H raw)) (\<lambda>_.
     and_then (catch_all CannotCreateOutput (h_resolve H True raw)) (\<lambda>resolved.
     and_then (require (prefix resolved_root resolved) CannotCreateOutput) (\<lambda>_.
     give resolved))))))))"

fun derived_parts :: "'f host \<Rightarrow> path \<Rightarrow> path \<Rightarrow> ('f, path_error, path) action" where
  "derived_parts H current [] = give current"
| "derived_parts H current (w # ws) =
     (let here = current @ [w] in
      and_then (catch_os CannotCreateRuntimeDirectory (h_is_symlink H here)) (\<lambda>link.
      and_then (require (\<not> link) LinkComponent) (\<lambda>_.
      and_then (catch_os CannotCreateRuntimeDirectory (h_mkdir H False True here)) (\<lambda>_.
      and_then (catch_os CannotCreateRuntimeDirectory (h_is_dir H here)) (\<lambda>dir.
      and_then (require dir NotADirectory) (\<lambda>_.
      and_then (catch_os CannotCreateRuntimeDirectory (h_chmod H here)) (\<lambda>_.
      derived_parts H here ws)))))))"

definition derived_runtime_directory ::
  "'f host \<Rightarrow> path \<Rightarrow> uuid \<Rightarrow> int \<Rightarrow> ('f, path_error, path) action" where
  "derived_runtime_directory H runtime_root run_id gen =
     and_then (root_path H runtime_root) (\<lambda>(raw_root, resolved_root).
     and_then (derived_parts H raw_root [''contract'', ''evaluation'', uuid_str run_id, str_int gen]) (\<lambda>current.
     and_then (raw_call (h_resolve H True current)) (\<lambda>resolved.
     and_then (require (prefix resolved_root resolved) Escapes) (\<lambda>_.
     give resolved))))"

section \<open>\<open>docker_runner.py\<close>\<close>

text \<open>The flag \<open>directory\<close> is \<open>None\<close> when the kind of file does not matter.\<close>

definition existing_path ::
  "'f host \<Rightarrow> path \<Rightarrow> path \<Rightarrow> bool option \<Rightarrow> ('f, path_error, path) action" where
  "existing_path H candidate base directory =
     and_then (catch_missing MissingOrEscapes (h_resolve H True base)) (\<lambda>root_real.
     and_then (catch_missing MissingOrEscapes (h_resolve H True candidate)) (\<lambda>path_real.
     and_then (require (prefix root_real path_real) MissingOrEscapes) (\<lambda>_.
     and_then (case directory of
         Some True \<Rightarrow> and_then (raw_call (h_is_dir H path_real)) (\<lambda>d. require d NotADirectory)
       | Some False \<Rightarrow> and_then (raw_call (h_is_file H path_real)) (\<lambda>d. require d NotAFile)
       | None \<Rightarrow> give ()) (\<lambda>_.
     give path_real))))"

text \<open>
  \<open>InvalidWorkload\<close> is a \<open>RuntimeError\<close>, so the \<open>except\<close> clause of \<open>_training_output_path\<close> also replaces
  the errors raised inside its \<open>try\<close>.
\<close>

definition training_directory ::
  "'f host \<Rightarrow> path \<Rightarrow> path \<Rightarrow> uuid \<Rightarrow> bool \<Rightarrow> bool \<Rightarrow> ('f, path_error, path) action" where
  "training_directory H raw_base raw job create require_empty =
     and_then (raw_call (h_lstat H raw_base)) (\<lambda>base_kind.
     and_then (require (base_kind = DirectoryFile) RootNotDirectory) (\<lambda>_.
     and_then (raw_call (h_resolve H True raw_base)) (\<lambda>resolved_base.
     and_then (raw_call (h_exists H raw)) (\<lambda>there.
     and_then (if there then give True else raw_call (h_is_symlink H raw)) (\<lambda>present.
     and_then
       (if present then
          and_then (raw_call (h_lstat H raw)) (\<lambda>k.
          and_then (require (k = DirectoryFile) OutputNotDirectory) (\<lambda>_.
            if require_empty
            then and_then (raw_call (h_has_entries H raw)) (\<lambda>some. require (\<not> some) OutputNotEmpty)
            else give ()))
        else if create then raw_call (h_mkdir H False False raw)
        else throw OutputNotDirectory) (\<lambda>_.
     and_then (raw_call (h_chmod H raw)) (\<lambda>_.
     and_then (raw_call (h_resolve H True raw)) (\<lambda>resolved.
     and_then (require (prefix resolved_base resolved) Escapes) (\<lambda>_.
     and_then (require (resolved = resolved_base @ [uuid_str job]) OutputNotDerived) (\<lambda>_.
     give resolved))))))))))"

definition training_output_path ::
  "'f host \<Rightarrow> path \<Rightarrow> path \<Rightarrow> uuid \<Rightarrow> bool \<Rightarrow> bool \<Rightarrow> ('f, path_error, path) action" where
  "training_output_path H checkpoint_base candidate job create require_empty =
     (let raw_base = abspath (h_cwd H) checkpoint_base;
          raw = abspath (h_cwd H) candidate in
      and_then (require (is_absolute candidate \<and> raw = raw_base @ [uuid_str job]) OutputNotDerived) (\<lambda>_.
      rescue (training_directory H raw_base raw job create require_empty) (\<lambda>_. throw CannotCreateOutput)))"

definition writable_task_path ::
  "'f host \<Rightarrow> path \<Rightarrow> string \<Rightarrow> uuid \<Rightarrow> ('f, path_error, path) action" where
  "writable_task_path H runtime_root task_kind job =
     and_then (raw_call (h_resolve H False (runtime_root @ [task_kind, uuid_str job]))) (\<lambda>p.
     and_then (raw_call (h_resolve H True runtime_root)) (\<lambda>base.
     and_then (require (prefix base p) CannotCreateRuntimeDirectory) (\<lambda>_.
     and_then (catch_os CannotCreateRuntimeDirectory (h_mkdir H True True p)) (\<lambda>_.
     raw_call (h_resolve H True p)))))"

section \<open>Normal paths\<close>

lemma normal_parts_no_dots:
  "acc \<noteq> [] \<Longrightarrow> is_root_part (last acc) \<Longrightarrow> ''..'' \<notin> set acc \<Longrightarrow>
     ''..'' \<notin> set (normal_parts acc ws) \<and> take 1 (normal_parts acc ws) = [last acc]"
proof (induction acc ws rule: normal_parts.induct)
  case (1 acc)
  then show ?case by (cases acc rule: rev_cases) auto
next
  case (2 acc w ws)
  show ?case
  proof (cases "w = ''..''")
    case True
    from "2.prems" obtain a as where a: "acc = a # as" by (cases acc) auto
    show ?thesis
    proof (cases "is_root_part a")
      case True
      then show ?thesis using 2 a \<open>w = ''..''\<close> by simp
    next
      case False
      then have as: "as \<noteq> []" using "2.prems" a by (cases as) auto
      have dots: "a \<noteq> ''..''" using "2.prems" a by auto
      have "''..'' \<notin> set (normal_parts as ws) \<and> take 1 (normal_parts as ws) = [last as]"
        using 2(4) [OF True a False] dots as "2.prems" a by (simp del: normal_parts.simps)
      then show ?thesis using as dots a False True by simp
    qed
  next
    case False
    then show ?thesis using 2 by simp
  qed
qed

lemma root_part_not_dots: "is_root_part w \<Longrightarrow> w \<noteq> ''..''"
  by (auto simp: is_root_part_def)

text \<open>Of an absolute path, \<open>abspath\<close> leaves no \<open>..\<close> and keeps the root.\<close>

lemma abspath_normal:
  assumes "is_absolute p"
  shows "''..'' \<notin> set (abspath cwd p)" and "is_absolute (abspath cwd p)"
proof -
  obtain w ws where p: "p = w # ws" "is_root_part w"
    using assms by (auto simp: is_absolute_def split: list.splits)
  have "abspath cwd p = normal_parts [w] ws"
    using p assms root_part_not_dots [OF p(2)] by (simp add: abspath_def)
  moreover have "''..'' \<notin> set (normal_parts [w] ws) \<and> take 1 (normal_parts [w] ws) = [last [w]]"
    using p root_part_not_dots [OF p(2)] by (intro normal_parts_no_dots) auto
  ultimately show "''..'' \<notin> set (abspath cwd p)" "is_absolute (abspath cwd p)"
    using p(2) by (auto simp: is_absolute_def split: list.split)
qed

section \<open>Confinement\<close>

definition resolves :: "'f host \<Rightarrow> path \<Rightarrow> path \<Rightarrow> bool" where
  "resolves H p q \<longleftrightarrow> (\<exists>s s'. h_resolve H True p s = (s', Inr q))"

text \<open>\<open>q\<close> is the real path of \<open>raw\<close>, and lies in the real path of the root directory \<open>raw_root\<close>.\<close>

definition confined :: "'f host \<Rightarrow> path \<Rightarrow> path \<Rightarrow> path \<Rightarrow> bool" where
  "confined H raw_root raw q \<longleftrightarrow>
     prefix raw_root raw \<and> resolves H raw q \<and> (\<exists>b. resolves H raw_root b \<and> prefix b q)"

abbreviation yields :: "('f, 'x, 'a) action \<Rightarrow> ('a \<Rightarrow> bool) \<Rightarrow> bool" where
  "yields m Q \<equiv> establishes (\<lambda>_. True) m (\<lambda>a _. Q a) (\<lambda>_ _. True)"

lemma yields_any: "yields m (\<lambda>_. True)"
  by (auto intro: establishesI)

lemma rescue_yields: "yields m Q \<Longrightarrow> yields (rescue m (\<lambda>x. throw (h x))) Q"
  by (rule rescue_rule, assumption) (auto intro: throw_rule)

lemma raw_resolve_yields: "yields (h_resolve H True p) (resolves H p)"
  unfolding resolves_def establishes_iff by blast

lemma resolve_yields:
  "yields (catch_all e (h_resolve H True p)) (resolves H p)"
  "yields (catch_os e (h_resolve H True p)) (resolves H p)"
  "yields (catch_missing e (h_resolve H True p)) (resolves H p)"
  "yields (raw_call (h_resolve H True p)) (resolves H p)"
  unfolding catch_all_def catch_os_def catch_missing_def raw_call_def
  by (rule rescue_yields, rule raw_resolve_yields)+

text \<open>Facts about values seen earlier are carried along a chain of calls.\<close>

lemma yields_bind:
  assumes m: "yields m R" and f: "\<And>a. R a \<Longrightarrow> yields (f a) Q"
  shows "yields (and_then m f) Q"
proof (rule establishesI)
  fix s s' b
  assume "and_then m f s = (s', Inr b)"
  then obtain s1 a where *: "m s = (s1, Inr a)" "f a s1 = (s', Inr b)"
    by (blast dest: and_then_cases)
  show "Q b"
    using value_of [OF f [OF value_of [OF m TrueI *(1)]] TrueI *(2)] .
qed simp

lemma yields_skip: "(\<And>a. yields (f a) Q) \<Longrightarrow> yields (and_then m f) Q"
  by (rule yields_bind [OF yields_any])

lemma yields_require: "(b \<Longrightarrow> yields (f ()) Q) \<Longrightarrow> yields (and_then (require b x) f) Q"
  by (rule yields_bind [where R = "\<lambda>_. b"]) (auto intro: require_rule)

lemma yields_from_sum: "(\<And>a. v = Inr a \<Longrightarrow> yields (f a) Q) \<Longrightarrow> yields (and_then (from_sum v) f) Q"
  by (rule yields_bind [where R = "\<lambda>a. v = Inr a"]) (auto intro: from_sum_rule)

lemma yields_give: "Q a \<Longrightarrow> yields (give a) Q"
  by (rule give_rule)

lemma yields_throw: "yields (throw x) Q"
  by (rule throw_rule) simp

lemma root_path_yields:
  "yields (root_path H p) (\<lambda>(raw_root, b). raw_root = abspath (h_cwd H) p \<and> is_absolute p \<and> resolves H raw_root b)"
  unfolding root_path_def
  by (rule yields_from_sum, rule yields_skip, rule yields_require, rule yields_bind [OF resolve_yields(1)],
      rule yields_skip, rule yields_require, rule yields_give)
     (auto simp: absolute_path_def split: if_splits)

lemma existing_path_in_yields:
  "yields (existing_path_in H raw directory roots)
     (\<lambda>(q, b). \<exists>r \<in> set roots. is_absolute r \<and> confined H (abspath (h_cwd H) r) raw q)"
proof (induction roots)
  case (Cons r roots)
  let ?r = "abspath (h_cwd H) r"
  let ?Q = "\<lambda>(q, b). \<exists>x \<in> set (r # roots). is_absolute x \<and> confined H (abspath (h_cwd H) x) raw q"
  have under: "yields (existing_path_under H raw directory ?r b) ?Q"
    if "is_absolute r" "resolves H ?r b" "prefix ?r raw" for b
    unfolding existing_path_under_def
    by (rule yields_skip, rule yields_bind [OF resolve_yields(1)], rule yields_require, rule yields_skip,
        rule yields_require, rule yields_give)
       (use that in \<open>auto simp: confined_def\<close>)
  show ?case
    unfolding existing_path_in.simps
    by (rule yields_bind [OF root_path_yields], clarify, rule if_rule, rule weaken [OF Cons.IH])
       (use under in auto)
qed (simp add: yields_throw)

section \<open>What the checks guarantee\<close>

text \<open>The file system does not change while it is being looked at.\<close>

definition unchanging :: "'f host \<Rightarrow> bool" where
  "unchanging H \<longleftrightarrow> (\<forall>p s. fst (h_lstat H p s) = s \<and> fst (h_is_symlink H p s) = s
     \<and> fst (h_is_dir H p s) = s \<and> (\<forall>b. fst (h_resolve H b p s) = s))"

definition link_at :: "'f host \<Rightarrow> 'f \<Rightarrow> path \<Rightarrow> bool" where
  "link_at H s p \<longleftrightarrow> snd (h_lstat H p s) = Inr LinkFile"

definition missing_at :: "'f host \<Rightarrow> 'f \<Rightarrow> path \<Rightarrow> bool" where
  "missing_at H s p \<longleftrightarrow> snd (h_lstat H p s) = Inl FileMissing"

lemma no_link_below:
  assumes "unchanging H"
  shows "reject_links_below H current ws s = (s', Inr u) \<Longrightarrow> n < length ws \<Longrightarrow>
     link_at H s (current @ take (Suc n) ws) \<Longrightarrow> \<exists>m < n. missing_at H s (current @ take (Suc m) ws)"
proof (induction ws arbitrary: current n)
  case (Cons w ws)
  obtain r where r: "h_lstat H (current @ [w]) s = (s, r)"
    using assms by (cases "h_lstat H (current @ [w]) s") (simp add: unchanging_def prod_eq_iff)
  show ?case
  proof (cases r)
    case (Inl e)
    have "e = FileMissing"
      using Cons.prems(1) r Inl
      by (cases e) (simp_all add: and_then_def attempt_def throw_def)
    then have missing: "missing_at H s (current @ take (Suc 0) (w # ws))"
      using r Inl by (simp add: missing_at_def)
    have "n \<noteq> 0" using Cons.prems(3) r Inl by (cases n) (auto simp: link_at_def)
    then show ?thesis using missing by blast
  next
    case (Inr k)
    have k: "k \<noteq> LinkFile" and rest: "reject_links_below H (current @ [w]) ws s = (s', Inr u)"
      using Cons.prems(1) r Inr by (auto simp: and_then_def attempt_def throw_def split: if_splits)
    have "n \<noteq> 0" using Cons.prems(3) r Inr k by (cases n) (auto simp: link_at_def)
    then obtain n' where n: "n = Suc n'" by (cases n) auto
    obtain m where "m < n'" "missing_at H s ((current @ [w]) @ take (Suc m) ws)"
      using Cons.IH [OF rest, of n'] Cons.prems(2,3) n by auto
    then show ?thesis using n by (intro exI [of _ "Suc m"]) simp
  qed
qed simp

lemma reject_symlink_components_checks:
  assumes "unchanging H" and "reject_symlink_components H base p s = (s', Inr u)"
    and "length base < n" and "n \<le> length p" and "link_at H s (take n p)"
  shows "\<exists>m. length base < m \<and> m < n \<and> missing_at H s (take m p)"
proof -
  have pre: "prefix base p"
    using assms(2) by (auto simp: reject_symlink_components_def throw_def split: if_splits)
  then obtain ws where p: "p = base @ ws" by (auto simp: prefix_def)
  let ?k = "n - length base - 1"
  have take_p: "take (length base + Suc m) p = base @ take (Suc m) ws" for m
    using p by simp
  have "reject_links_below H base ws s = (s', Inr u)"
    using assms(2) p by (simp add: reject_symlink_components_def)
  moreover have "?k < length ws" and "n = length base + Suc ?k"
    using assms(3,4) p by simp_all
  ultimately obtain m where "m < ?k" "missing_at H s (base @ take (Suc m) ws)"
    using no_link_below [OF assms(1), of base ws s s' u ?k] assms(5) take_p by metis
  then show ?thesis
    using take_p [of m] by (intro exI [of _ "length base + Suc m"]) auto
qed

lemma strict_existing_path_yields:
  "yields (strict_existing_path H p roots directory)
     (\<lambda>(q, b). is_absolute p
        \<and> (\<exists>r \<in> set roots. is_absolute r \<and> confined H (abspath (h_cwd H) r) (abspath (h_cwd H) p) q))"
  unfolding strict_existing_path_def
  by (rule yields_from_sum, rule weaken [OF existing_path_in_yields])
     (auto simp: absolute_path_def split: if_splits)

lemma prepare_output_directory_yields:
  "yields (prepare_output_directory H p base r)
     (\<lambda>q. abspath (h_cwd H) p = abspath (h_cwd H) base @ [uuid_str r]
        \<and> confined H (abspath (h_cwd H) base) (abspath (h_cwd H) p) q)"
  unfolding prepare_output_directory_def
proof (rule yields_bind [OF root_path_yields], clarify)
  fix b assume b: "is_absolute base" "resolves H (abspath (h_cwd H) base) b"
  show "yields (and_then (from_sum (absolute_path H p)) (\<lambda>raw.
     and_then (require (raw = abspath (h_cwd H) base @ [uuid_str r]) OutputNotDerived) (\<lambda>_.
     and_then (reject_symlink_components H (abspath (h_cwd H) base) raw) (\<lambda>_.
     and_then (fresh_directory H raw) (\<lambda>_.
     and_then (catch_all CannotCreateOutput (h_chmod H raw)) (\<lambda>_.
     and_then (catch_all CannotCreateOutput (h_resolve H True raw)) (\<lambda>resolved.
     and_then (require (prefix b resolved) CannotCreateOutput) (\<lambda>_.
     give resolved))))))))
     (\<lambda>q. abspath (h_cwd H) p = abspath (h_cwd H) base @ [uuid_str r]
        \<and> confined H (abspath (h_cwd H) base) (abspath (h_cwd H) p) q)"
    by (rule yields_from_sum, rule yields_require, rule yields_skip, rule yields_skip, rule yields_skip,
        rule yields_bind [OF resolve_yields(1)], rule yields_require, rule yields_give)
       (use b in \<open>auto simp: absolute_path_def confined_def split: if_splits\<close>)
qed

lemma training_directory_yields:
  "yields (training_directory H raw_base raw job create require_empty)
     (\<lambda>q. resolves H raw q \<and> (\<exists>b. resolves H raw_base b \<and> q = b @ [uuid_str job]))"
  unfolding training_directory_def
  by (rule yields_skip, rule yields_require, rule yields_bind [OF resolve_yields(4)], rule yields_skip, rule yields_skip,
      rule yields_skip, rule yields_skip, rule yields_bind [OF resolve_yields(4)], rule yields_require,
      rule yields_require, rule yields_give) auto

lemma training_output_path_yields:
  "yields (training_output_path H base p job create require_empty)
     (\<lambda>q. is_absolute p \<and> abspath (h_cwd H) p = abspath (h_cwd H) base @ [uuid_str job]
        \<and> (\<exists>b. resolves H (abspath (h_cwd H) base) b \<and> q = b @ [uuid_str job]))"
  unfolding training_output_path_def Let_def
  by (rule yields_require, rule rescue_yields, rule weaken [OF training_directory_yields]) auto

lemma derived_runtime_directory_yields:
  "yields (derived_runtime_directory H base r g)
     (\<lambda>q. \<exists>b. resolves H (abspath (h_cwd H) base) b \<and> prefix b q)"
  unfolding derived_runtime_directory_def
proof (rule yields_bind [OF root_path_yields], clarify)
  fix b assume "is_absolute base" "resolves H (abspath (h_cwd H) base) b"
  then show "yields (and_then (derived_parts H (abspath (h_cwd H) base)
       [''contract'', ''evaluation'', uuid_str r, str_int g]) (\<lambda>current.
     and_then (raw_call (h_resolve H True current)) (\<lambda>resolved.
     and_then (require (prefix b resolved) Escapes) (\<lambda>_. give resolved))))
     (\<lambda>q. \<exists>b. resolves H (abspath (h_cwd H) base) b \<and> prefix b q)"
    by (intro yields_skip yields_require yields_give) auto
qed

text \<open>On an unchanging file system, the components below the root were all looked at in the given state.\<close>

definition no_links :: "'f host \<Rightarrow> 'f \<Rightarrow> path \<Rightarrow> path \<Rightarrow> bool" where
  "no_links H s base p \<longleftrightarrow>
     (\<forall>n. length base < n \<and> n \<le> length p \<and> link_at H s (take n p) \<longrightarrow>
        (\<exists>m. length base < m \<and> m < n \<and> missing_at H s (take m p)))"

abbreviation still :: "'f \<Rightarrow> ('f, 'x, 'a) action \<Rightarrow> ('a \<Rightarrow> bool) \<Rightarrow> bool" where
  "still s0 m Q \<equiv> establishes (\<lambda>s. s = s0) m (\<lambda>a s. s = s0 \<and> Q a) (\<lambda>_ _. True)"

lemma still_calls:
  assumes "unchanging H"
  shows "still s0 (raw_call (h_is_symlink H p)) (\<lambda>_. True)" "still s0 (raw_call (h_is_dir H p)) (\<lambda>_. True)"
    "still s0 (catch_all e (h_resolve H b p)) (\<lambda>_. True)"
  using assms
  by (auto simp: establishes_def raw_call_def catch_all_def rescue_def throw_def unchanging_def
      split: prod.splits sum.splits; metis fst_conv)+

lemma still_bind: "still s0 m R \<Longrightarrow> (\<And>a. R a \<Longrightarrow> still s0 (f a) Q) \<Longrightarrow> still s0 (and_then m f) Q"
  by (rule and_then_rule, assumption) (fastforce simp: establishes_def)

lemma still_require: "(b \<Longrightarrow> still s0 (f ()) Q) \<Longrightarrow> still s0 (and_then (require b x) f) Q"
  by (rule still_bind [where R = "\<lambda>_. b"]) (auto intro: require_rule)

lemma still_pure: "(\<And>a. v = Inr a \<Longrightarrow> still s0 (f a) Q) \<Longrightarrow> still s0 (and_then (from_sum v) f) Q"
  by (rule still_bind [where R = "\<lambda>a. v = Inr a"]) (auto intro: from_sum_rule)

lemma still_root_path:
  assumes "unchanging H"
  shows "still s0 (root_path H p) (\<lambda>(raw_root, _). raw_root = abspath (h_cwd H) p)"
  unfolding root_path_def
  by (rule still_pure, rule still_bind [OF still_calls(1) [OF assms]], rule still_require,
      rule still_bind [OF still_calls(3) [OF assms]], rule still_bind [OF still_calls(2) [OF assms]],
      rule still_require, rule give_rule)
     (auto simp: absolute_path_def split: if_splits)

lemma still_reject:
  assumes u: "unchanging H"
  shows "establishes (\<lambda>s. s = s0) (reject_symlink_components H base p) (\<lambda>_ _. no_links H s0 base p) (\<lambda>_ _. True)"
proof (rule establishesI)
  fix s s' a assume "s = s0" "reject_symlink_components H base p s = (s', Inr a)"
  then show "no_links H s0 base p"
    using reject_symlink_components_checks [OF u] by (auto simp: no_links_def)
qed simp

lemma existing_path_in_no_links:
  assumes u: "unchanging H"
  shows "establishes (\<lambda>s. s = s0) (existing_path_in H raw directory roots)
     (\<lambda>_ _. \<exists>r \<in> set roots. no_links H s0 (abspath (h_cwd H) r) raw) (\<lambda>_ _. True)"
proof (induction roots)
  case Nil
  show ?case by (simp add: establishes_def throw_def)
next
  case (Cons r roots)
  let ?Q = "\<lambda>_ _. \<exists>x \<in> set (r # roots). no_links H s0 (abspath (h_cwd H) x) raw"
  have under: "establishes (\<lambda>s. s = s0) (existing_path_under H raw directory (abspath (h_cwd H) r) b) ?Q (\<lambda>_ _. True)"
    for b unfolding existing_path_under_def
    by (rule and_then_rule [OF still_reject [OF u]], rule establishesI) auto
  show ?case
    unfolding existing_path_in.simps
  proof (rule and_then_rule [OF still_root_path [OF u]])
    fix rb :: "path \<times> path"
    obtain raw_root b where rb: "rb = (raw_root, b)" by (cases rb)
    have "establishes (\<lambda>s. s = s0 \<and> raw_root = abspath (h_cwd H) r)
        (if \<not> prefix raw_root raw then existing_path_in H raw directory roots
         else existing_path_under H raw directory raw_root b) ?Q (\<lambda>_ _. True)"
      by (cases "raw_root = abspath (h_cwd H) r", rule if_rule)
         (rule weaken [OF Cons.IH], use under in \<open>auto simp: establishes_def\<close>)
    then show "establishes (\<lambda>s. s = s0 \<and> (case rb of (raw_root, _) \<Rightarrow> raw_root = abspath (h_cwd H) r))
        (case rb of (raw_root, b) \<Rightarrow> if \<not> prefix raw_root raw then existing_path_in H raw directory roots
           else existing_path_under H raw directory raw_root b) ?Q (\<lambda>_ _. True)"
      by (simp only: rb prod.case)
  qed
qed

section \<open>A concrete file system\<close>

text \<open>A finite tree of directories and regular files without links; \<open>mkdir\<close> adds to it.\<close>

type_synonym tree = "(path \<times> file_kind) list"

definition tree_kind :: "path \<Rightarrow> tree \<Rightarrow> os_error + file_kind" where
  "tree_kind p t = (case map_of t p of None \<Rightarrow> Inl FileMissing | Some k \<Rightarrow> Inr k)"

definition demo_host :: "tree host" where
  "demo_host = \<lparr>h_cwd = [''/''],
     h_resolve = (\<lambda>strict p t. (t, if strict \<and> map_of t p = None then Inl FileMissing else Inr p)),
     h_lstat = (\<lambda>p t. (t, tree_kind p t)),
     h_exists = (\<lambda>p t. (t, Inr (map_of t p \<noteq> None))),
     h_is_symlink = (\<lambda>p t. (t, Inr (map_of t p = Some LinkFile))),
     h_is_dir = (\<lambda>p t. (t, Inr (map_of t p = Some DirectoryFile))),
     h_is_file = (\<lambda>p t. (t, Inr (map_of t p = Some RegularFile))),
     h_has_entries = (\<lambda>p t. (t, Inr (list_ex (\<lambda>(q, _). strict_prefix p q) t))),
     h_mkdir = (\<lambda>parents exist_ok p t. (if map_of t p = None then ((p, DirectoryFile) # t, Inr ())
        else (t, if exist_ok then Inr () else Inl OtherOsError))),
     h_chmod = (\<lambda>p t. (t, Inr ()))\<rparr>"

definition demo_tree :: tree where
  "demo_tree = [([''/'', ''models''], DirectoryFile), ([''/'', ''models'', ''m''], DirectoryFile),
     ([''/'', ''run''], DirectoryFile), ([''/'', ''ckpt''], DirectoryFile)]"

lemma demo_host_unchanging: "unchanging demo_host"
  by (simp add: unchanging_def demo_host_def)

section \<open>The paths a command may use\<close>

text \<open>
  C25. A path that \<open>strict_existing_path\<close> accepts is absolute, its normal form has no \<open>..\<close>, lies in one of
  the allowed root directories by its text and by its real path, and, on a file system that does not
  change meanwhile, no existing component below that root is a symbolic link.
\<close>

theorem accepted_paths_are_confined:
  assumes "strict_existing_path H p roots directory s = (s', Inr (q, b))"
  shows "is_absolute p \<and> ''..'' \<notin> set (abspath (h_cwd H) p)
    \<and> (\<exists>r \<in> set roots. confined H (abspath (h_cwd H) r) (abspath (h_cwd H) p) q)
    \<and> (unchanging H \<longrightarrow> (\<exists>r \<in> set roots. no_links H s (abspath (h_cwd H) r) (abspath (h_cwd H) p)))"
proof -
  have p: "is_absolute p"
    and c: "\<exists>r \<in> set roots. confined H (abspath (h_cwd H) r) (abspath (h_cwd H) p) q"
    using value_of [OF strict_existing_path_yields TrueI assms] by auto
  have "existing_path_in H (abspath (h_cwd H) p) directory roots s = (s', Inr (q, b))"
    using assms p by (simp add: strict_existing_path_def absolute_path_def and_then_def from_sum_def)
  then have "unchanging H \<longrightarrow> (\<exists>r \<in> set roots. no_links H s (abspath (h_cwd H) r) (abspath (h_cwd H) p))"
    using value_of [OF existing_path_in_no_links refl, of H _ directory roots s s' "(q, b)"] by blast
  then show ?thesis using p c abspath_normal(1) [OF p] by blast
qed

definition demo_model :: path where "demo_model = [''/'', ''models'', ''m'']"

lemma demo_model_accepted:
  "strict_existing_path demo_host [''/'', ''models'', ''..'', ''models'', ''m''] [[''/'', ''run''], [''/'', ''models'']] True demo_tree
     = (demo_tree, Inr (demo_model, [''/'', ''models'']))"
  by code_simp

lemma accepted_paths_are_confined_witness:
  "no_links demo_host demo_tree [''/'', ''models''] demo_model
   \<or> no_links demo_host demo_tree [''/'', ''run''] demo_model"
  using accepted_paths_are_confined [OF demo_model_accepted] demo_host_unchanging
  by (auto simp: demo_host_def abspath_def is_absolute_def is_root_part_def demo_model_def)

text \<open>
  The output directory a training task may write is the directory named after the task's id,
  directly in the real path of the checkpoint root; of an evaluation run, the one named after the run
  directly below the output root, with its real path inside that root. So two tasks never share one.
\<close>

theorem task_outputs_are_derived:
  assumes "training_output_path H base p job create require_empty s = (s', Inr q)"
    and "prepare_output_directory H p' base' run t = (t', Inr q')"
  shows "(\<exists>b. resolves H (abspath (h_cwd H) base) b \<and> q = b @ [uuid_str job])
    \<and> abspath (h_cwd H) p = abspath (h_cwd H) base @ [uuid_str job]
    \<and> abspath (h_cwd H) p' = abspath (h_cwd H) base' @ [uuid_str run]
    \<and> confined H (abspath (h_cwd H) base') (abspath (h_cwd H) p') q'"
  using value_of [OF training_output_path_yields TrueI assms(1)]
    value_of [OF prepare_output_directory_yields TrueI assms(2)] by blast

definition demo_output :: path where
  "demo_output = [''/'', ''ckpt'', uuid_str 7]"

lemma uuid_str_parts [simp]:
  "uuid_str u \<noteq> ''..''" "uuid_str u \<noteq> []" "\<not> is_root_part (uuid_str u)"
proof -
  have "length (uuid_str u) = 36" by simp
  then show "uuid_str u \<noteq> ''..''" "uuid_str u \<noteq> []" "\<not> is_root_part (uuid_str u)"
    by (auto simp: is_root_part_def simp del: length_uuid_str)
qed

lemmas demo_host_eval = Let_def action_defs raw_call_def catch_all_def demo_host_def demo_tree_def tree_kind_def
  abspath_def is_absolute_def is_root_part_def

lemma demo_training_output:
  "training_output_path demo_host [''/'', ''ckpt''] demo_output 7 True True demo_tree
     = ((demo_output, DirectoryFile) # demo_tree, Inr demo_output)"
  by (simp add: training_output_path_def training_directory_def demo_output_def demo_host_eval)

lemma demo_evaluation_output:
  "prepare_output_directory demo_host demo_output [''/'', ''ckpt''] 7 demo_tree
     = ((demo_output, DirectoryFile) # demo_tree, Inr demo_output)"
  by (simp add: prepare_output_directory_def root_path_def absolute_path_def fresh_directory_def
      reject_symlink_components_def demo_output_def demo_host_eval)

lemma task_outputs_are_derived_witness:
  "\<exists>b. resolves demo_host (abspath (h_cwd demo_host) [''/'', ''ckpt'']) b \<and> demo_output = b @ [uuid_str 7]"
  using task_outputs_are_derived [OF demo_training_output demo_evaluation_output] by blast

end
