(* ===== verification/ContainerLabels.thy ===== *)
theory ContainerLabels
  imports ControlledPaths VllmArgs
begin

text \<open>
  What the node agent reads from and writes to a container of the Docker daemon:
  \<open>agent/openllmops_agent/docker_runner.py\<close> (labels, names, \<open>_to_info\<close>, the arguments of
  \<open>containers.run\<close>), \<open>schemas.py\<close> (\<open>WorkloadInfo\<close>), \<open>image_policy.py\<close> and \<open>evaluation_image_policy.py\<close>.
\<close>

section \<open>Labels and states\<close>

definition managed_label :: string where "managed_label = ''com.openllmops.managed''"
definition kind_label :: string where "kind_label = ''com.openllmops.kind''"
definition id_label :: string where "id_label = ''com.openllmops.id''"
definition gpu_label :: string where "gpu_label = ''com.openllmops.gpus''"
definition endpoint_label :: string where "endpoint_label = ''com.openllmops.endpoint''"
definition service_type_label :: string where "service_type_label = ''com.openllmops.service-type''"
definition generation_label :: string where "generation_label = ''com.openllmops.generation''"
definition owner_type_label :: string where "owner_type_label = ''com.openllmops.owner-type''"
definition output_path_label :: string where "output_path_label = ''com.openllmops.output-path''"
definition manifest_path_label :: string where "manifest_path_label = ''com.openllmops.dataset-manifest-path''"
definition base_template_label :: string where "base_template_label = ''com.openllmops.base-template''"
definition candidate_template_label :: string where "candidate_template_label = ''com.openllmops.candidate-template''"
definition port_label :: string where "port_label = ''com.openllmops.port''"
definition algorithm_label :: string where "algorithm_label = ''com.openllmops.training-algorithm''"

lemmas label_defs = managed_label_def kind_label_def id_label_def gpu_label_def endpoint_label_def
  service_type_label_def generation_label_def owner_type_label_def output_path_label_def
  manifest_path_label_def base_template_label_def candidate_template_label_def port_label_def
  algorithm_label_def

definition active_states :: "string set" where
  "active_states = {''created'', ''running'', ''restarting'', ''paused''}"

definition terminal_states :: "string set" where
  "terminal_states = {''exited'', ''dead''}"

definition inference_health_interval_seconds :: int where "inference_health_interval_seconds = 5"
definition inference_max_restarts :: int where "inference_max_restarts = 3"

type_synonym labels = "(string \<times> string) list"

section \<open>Containers as the daemon reports them\<close>

text \<open>
  A \<open>Container\<close> of the Docker SDK with the attributes of its last inspection. The API documents
  \<open>State\<close> as an object and \<open>ExitCode\<close> as an integer; what the code type-checks itself is a JSON value.
\<close>

record container =
  c_id :: string
  c_name :: string
  c_labels :: labels
  c_status :: string
  c_created :: json
  c_started :: json
  c_finished :: json
  c_health :: json
  c_restarts :: json
  c_exit_code :: "int option"

record image =
  img_id :: "string option"
  img_tags :: "string list"
  img_labels :: labels

definition active :: "container \<Rightarrow> bool" where
  "active c \<longleftrightarrow> c_status c \<in> active_states"

definition is_managed :: "container \<Rightarrow> bool" where
  "is_managed c \<longleftrightarrow> map_of (c_labels c) managed_label = Some ''true''"

section \<open>Names\<close>

definition owner_kind :: "lease_owner_type \<Rightarrow> string" where
  "owner_kind t = (case t of DEPLOYMENT \<Rightarrow> ''inference'' | TRAINING \<Rightarrow> ''training'' | EVALUATION \<Rightarrow> ''evaluation'')"

definition workload_name :: "string \<Rightarrow> uuid \<Rightarrow> string" where
  "workload_name k u = ''openllmops-'' @ k @ ''-'' @ uuid_str u"

definition contract_workload_name :: "lease_owner_type \<Rightarrow> uuid \<Rightarrow> string" where
  "contract_workload_name t u = workload_name (owner_kind t) u"

definition uuid_char :: "char \<Rightarrow> bool" where
  "uuid_char c \<longleftrightarrow> is_dec c \<or> 97 \<le> code c \<and> code c \<le> 102 \<or> c = CHR ''-''"

definition safe_name :: "string \<Rightarrow> bool" where
  "safe_name s \<longleftrightarrow> list_ex (\<lambda>k. let p = ''openllmops-'' @ k @ ''-'' in
       prefix p s \<and> length (drop (length p) s) = 36 \<and> list_all uuid_char (drop (length p) s))
     [''inference'', ''training'', ''evaluation'']"

section \<open>\<open>uuid.UUID(text)\<close>\<close>

definition hex_digit :: "char \<Rightarrow> nat option" where
  "hex_digit c =
     (if is_dec c then Some (code c - 48)
      else if 97 \<le> code c \<and> code c \<le> 102 then Some (code c - 87)
      else if 65 \<le> code c \<and> code c \<le> 70 then Some (code c - 55)
      else None)"

fun hex_digits :: "string \<Rightarrow> nat \<Rightarrow> bool \<Rightarrow> nat option" where
  "hex_digits [] acc after_digit = (if after_digit then Some acc else None)"
| "hex_digits (c # cs) acc after_digit =
     (case hex_digit c of
        Some d \<Rightarrow> hex_digits cs (16 * acc + d) True
      | None \<Rightarrow> (if c = CHR ''_'' \<and> after_digit then hex_digits cs acc False else None))"

definition after_0x :: "string \<Rightarrow> string" where
  "after_0x s = (if take 2 s = ''0x'' \<or> take 2 s = ''0X''
     then (if take 1 (drop 2 s) = ''_'' then drop 3 s else drop 2 s) else s)"

text \<open>\<open>int(s, 16)\<close>; a negative value is refused by \<open>UUID\<close> unless it is zero.\<close>

definition hex_int :: "string \<Rightarrow> nat option" where
  "hex_int s =
     (case strip s of
        [] \<Rightarrow> None
      | c # cs \<Rightarrow>
          (if c = CHR ''-'' then (case hex_digits (after_0x cs) 0 False of Some 0 \<Rightarrow> Some 0 | _ \<Rightarrow> None)
           else if c = CHR ''+'' then hex_digits (after_0x cs) 0 False
           else hex_digits (after_0x (c # cs)) 0 False))"

text \<open>\<open>s.replace(p, "")\<close> for a nonempty \<open>p\<close>.\<close>

fun remove_all :: "string \<Rightarrow> string \<Rightarrow> string" where
  "remove_all p [] = []"
| "remove_all p (c # cs) =
     (if p \<noteq> [] \<and> prefix p (c # cs) then remove_all p (drop (length p - 1) cs) else c # remove_all p cs)"

definition strip_braces :: "string \<Rightarrow> string" where
  "strip_braces s = (let brace = (\<lambda>c. c = CHR ''{'' \<or> c = CHR ''}'') in
     rev (dropWhile brace (rev (dropWhile brace s))))"

definition parse_uuid :: "string \<Rightarrow> uuid option" where
  "parse_uuid s =
     (let h = filter (\<lambda>c. c \<noteq> CHR ''-'') (strip_braces (remove_all ''uuid:'' (remove_all ''urn:'' s))) in
      if length h \<noteq> 32 then None else hex_int h)"

section \<open>Reading the labels\<close>

definition get_or :: "labels \<Rightarrow> string \<Rightarrow> string \<Rightarrow> string" where
  "get_or ls k d = (case map_of ls k of None \<Rightarrow> d | Some v \<Rightarrow> v)"

definition generation_from_labels :: "labels \<Rightarrow> int" where
  "generation_from_labels ls = (case py_int (get_or ls generation_label ''1'') of None \<Rightarrow> 1 | Some g \<Rightarrow> max 1 g)"

definition gpu_ids_from_labels :: "labels \<Rightarrow> int list" where
  "gpu_ids_from_labels ls =
     (case those (map py_int (filter (\<lambda>w. w \<noteq> []) (split_on (CHR '','') (get_or ls gpu_label [])))) of
        None \<Rightarrow> [] | Some gs \<Rightarrow> gs)"

text \<open>\<open>re.fullmatch(r"[1-9][0-9]*", s)\<close>.\<close>

definition positive_decimal :: "string \<Rightarrow> bool" where
  "positive_decimal s \<longleftrightarrow> s \<noteq> [] \<and> hd s \<noteq> CHR ''0'' \<and> list_all is_dec s"

section \<open>\<open>WorkloadInfo\<close> and \<open>_to_info\<close>\<close>

record workload_info =
  wi_name :: string
  wi_workload_id :: uuid
  wi_kind :: string
  wi_image :: string
  wi_status :: string
  wi_gpu_ids :: "int list"
  wi_service_type :: "string option"
  wi_endpoint :: "string option"
  wi_port :: "int option"
  wi_generation :: int
  wi_exit_code :: "int option"
  wi_health_status :: "string option"
  wi_health_failing_streak :: int
  wi_restart_count :: int
  wi_started_at :: "timestamp option"
  wi_finished_at :: "timestamp option"
  wi_created_at :: "timestamp option"

text \<open>
  \<open>fromisoformat\<close> gives the year and the instant of a text (a time without zone read as UTC). Docker
  reports the year 1 for a time that has not come.
\<close>

type_synonym iso_reader = "string \<Rightarrow> (int \<times> timestamp) option"

definition docker_datetime :: "iso_reader \<Rightarrow> json \<Rightarrow> timestamp option" where
  "docker_datetime reader raw =
     (case raw of
        JStr s \<Rightarrow> (case reader s of None \<Rightarrow> None | Some (y, t) \<Rightarrow> (if y > 1 then Some t else None))
      | _ \<Rightarrow> None)"

definition health_field :: "json \<Rightarrow> string \<Rightarrow> json" where
  "health_field h k = (case h of JObj o1 \<Rightarrow> (case map_of o1 k of None \<Rightarrow> JNull | Some v \<Rightarrow> v) | _ \<Rightarrow> JNull)"

definition health_status_of :: "json \<Rightarrow> string option" where
  "health_status_of h =
     (case health_field h ''Status'' of
        JStr s \<Rightarrow> (if s \<in> {''starting'', ''healthy'', ''unhealthy''} then Some s else None)
      | _ \<Rightarrow> None)"

definition count_of :: "json \<Rightarrow> int" where
  "count_of v = (case v of JInt i \<Rightarrow> (if i \<ge> 0 then i else 0) | _ \<Rightarrow> 0)"

section \<open>What \<open>containers.run\<close> is called with\<close>

datatype network_choice = NetworkMode string | Network string

record healthcheck =
  hc_test :: "string list"
  hc_interval :: int
  hc_timeout :: int
  hc_retries :: int
  hc_start_period :: int

record run_request =
  rq_name :: string
  rq_image :: string
  rq_command :: "string list"
  rq_gpu_ids :: "int list"
  rq_kind :: string
  rq_workload_id :: uuid
  rq_environment :: labels
  rq_volumes :: "(string \<times> string \<times> string) list"   \<comment> \<open>host path, bind, mode\<close>
  rq_restart :: "string \<times> int option"
  rq_endpoint :: "string option"
  rq_service_type :: "string option"
  rq_generation :: int
  rq_owner_type :: "string option"
  rq_output_path :: "path option"
  rq_manifest_path :: "path option"
  rq_base_template :: "string option"
  rq_candidate_template :: "string option"
  rq_algorithm :: "string option"
  rq_port :: "int option"
  rq_healthcheck :: "healthcheck option"
  rq_network_mode :: "string option"

record run_spec =
  rs_image :: string
  rs_name :: string
  rs_command :: "string list"
  rs_network :: network_choice
  rs_healthcheck :: "healthcheck option"
  rs_device_ids :: "string list"
  rs_environment :: labels
  rs_volumes :: "(string \<times> string \<times> string) list"
  rs_labels :: labels
  rs_user :: string
  rs_read_only :: bool
  rs_cap_drop :: "string list"
  rs_security_opt :: "string list"
  rs_init :: bool
  rs_shm_size :: string
  rs_tmpfs :: labels
  rs_restart :: "string \<times> int option"
  rs_log_config :: "string \<times> labels"

text \<open>\<open>if value: labels[key] = value\<close>.\<close>

definition set_if :: "string option \<Rightarrow> string \<Rightarrow> labels \<Rightarrow> labels" where
  "set_if v k ls = (if truthy_str v then dict_set k (the v) ls else ls)"

definition run_labels :: "run_request \<Rightarrow> labels" where
  "run_labels q =
     (let ls0 = [(managed_label, ''true''), (kind_label, rq_kind q), (id_label, uuid_str (rq_workload_id q)),
            (gpu_label, join_with (CHR '','') (map str_int (rq_gpu_ids q))),
            (generation_label, str_int (rq_generation q))];
          ls1 = set_if (rq_owner_type q) owner_type_label ls0;
          ls2 = set_if (rq_endpoint q) endpoint_label ls1;
          ls3 = set_if (rq_service_type q) service_type_label ls2;
          ls4 = set_if (map_option path_str (rq_output_path q)) output_path_label ls3;
          ls5 = set_if (map_option path_str (rq_manifest_path q)) manifest_path_label ls4;
          ls6 = set_if (rq_base_template q) base_template_label ls5;
          ls7 = set_if (rq_candidate_template q) candidate_template_label ls6;
          ls8 = set_if (rq_algorithm q) algorithm_label ls7 in
      set_if (map_option str_int (rq_port q)) port_label ls8)"

section \<open>Image policies\<close>

definition expected_security_labels :: labels where
  "expected_security_labels =
     [(''com.openllmops.security.ghsa-mwc7-mf87-v3mf'', ''mitigated''),
      (''com.openllmops.security.trust-remote-code'', ''disabled''),
      (''org.opencontainers.image.revision'', ''c4e09c7cbe18844816af9e18a97fe465515edbcd''),
      (''com.openllmops.runner'', ''training-wrapper-v1''),
      (''com.openllmops.artifacts'', ''safetensors-validated-v1'')]"

definition expected_evaluation_labels :: labels where
  "expected_evaluation_labels =
     [(''com.openllmops.runner'', ''evaluation-pair-v1''),
      (''com.openllmops.security.trust-remote-code'', ''disabled''),
      (''com.openllmops.base.vllm'', ''v0.27.1'')]"

definition labels_match :: "labels \<Rightarrow> labels \<Rightarrow> bool" where
  "labels_match expected actual \<longleftrightarrow> list_all (\<lambda>(k, v). map_of actual k = Some v) expected"

definition validate_hardening_labels :: "labels \<Rightarrow> bool" where
  "validate_hardening_labels actual = labels_match expected_security_labels actual"

definition validate_evaluation_image_labels :: "labels \<Rightarrow> bool" where
  "validate_evaluation_image_labels actual = labels_match expected_evaluation_labels actual"

section \<open>Round trips of the labels\<close>

lemma gpu_ids_round_trip:
  assumes "map_of ls gpu_label = Some (join_with (CHR '','') (map str_int gs))"
  shows "gpu_ids_from_labels ls = gs"
proof (cases "gs = []")
  case True
  then show ?thesis using assms by (simp add: gpu_ids_from_labels_def get_or_def)
next
  case False
  have sep: "\<forall>w \<in> set (map str_int gs). CHR '','' \<notin> set w"
    using str_int_chars by (fastforce simp: is_dec_def)
  have "split_on (CHR '','') (join_with (CHR '','') (map str_int gs)) = map str_int gs"
    using split_join [OF _ sep] False by simp
  moreover have "filter (\<lambda>w. w \<noteq> []) (map str_int gs) = map str_int gs"
    by (simp add: filter_id_conv)
  moreover have "those (map py_int (map str_int gs)) = Some gs"
    by (induction gs) (simp_all add: py_int_str_int)
  ultimately show ?thesis using assms by (simp add: gpu_ids_from_labels_def get_or_def)
qed

lemma get_set_if: "map_of (set_if v k ls) k' = (if truthy_str v \<and> k' = k then v else map_of ls k')"
  by (cases v) (auto simp: set_if_def dict_get_set)

definition fixed_labels :: "string set" where
  "fixed_labels = {managed_label, kind_label, id_label, gpu_label, generation_label}"

definition optional_labels :: "string set" where
  "optional_labels = {endpoint_label, service_type_label, owner_type_label, output_path_label,
     manifest_path_label, base_template_label, candidate_template_label, port_label, algorithm_label}"

lemma labels_disjoint: "fixed_labels \<inter> optional_labels = {}"
  by (simp add: fixed_labels_def optional_labels_def label_defs)

lemma labels_differ [simp]:
  "kind_label \<noteq> managed_label" "id_label \<noteq> managed_label" "gpu_label \<noteq> managed_label"
  "generation_label \<noteq> managed_label" "id_label \<noteq> kind_label" "gpu_label \<noteq> kind_label"
  "generation_label \<noteq> kind_label" "gpu_label \<noteq> id_label" "generation_label \<noteq> id_label"
  "generation_label \<noteq> gpu_label"
  by (simp_all add: label_defs)

lemma get_set_if_other: "k \<in> fixed_labels \<Longrightarrow> l \<in> optional_labels \<Longrightarrow> map_of (set_if v l ls) k = map_of ls k"
  using labels_disjoint by (auto simp: get_set_if)

lemma optional_labelsI:
  "endpoint_label \<in> optional_labels" "service_type_label \<in> optional_labels" "owner_type_label \<in> optional_labels"
  "output_path_label \<in> optional_labels" "manifest_path_label \<in> optional_labels" "base_template_label \<in> optional_labels"
  "candidate_template_label \<in> optional_labels" "port_label \<in> optional_labels" "algorithm_label \<in> optional_labels"
  by (simp_all add: optional_labels_def)

lemma run_labels_other:
  assumes "k \<in> fixed_labels"
  shows "map_of (run_labels q) k = map_of [(managed_label, ''true''), (kind_label, rq_kind q),
     (id_label, uuid_str (rq_workload_id q)), (gpu_label, join_with (CHR '','') (map str_int (rq_gpu_ids q))),
     (generation_label, str_int (rq_generation q))] k"
  unfolding run_labels_def Let_def by (simp only: get_set_if_other [OF assms] optional_labelsI)

lemma run_labels_fixed:
  "map_of (run_labels q) managed_label = Some ''true''"
  "map_of (run_labels q) gpu_label = Some (join_with (CHR '','') (map str_int (rq_gpu_ids q)))"
  "map_of (run_labels q) id_label = Some (uuid_str (rq_workload_id q))"
  "map_of (run_labels q) kind_label = Some (rq_kind q)"
  "map_of (run_labels q) generation_label = Some (str_int (rq_generation q))"
  by (simp_all add: run_labels_other fixed_labels_def)

lemma run_labels_gpus: "gpu_ids_from_labels (run_labels q) = rq_gpu_ids q"
  by (rule gpu_ids_round_trip, rule run_labels_fixed)

lemma run_labels_generation: "1 \<le> rq_generation q \<Longrightarrow> generation_from_labels (run_labels q) = rq_generation q"
  by (simp add: generation_from_labels_def get_or_def run_labels_fixed py_int_str_int)

text \<open>The label that holds a UUID is read back as that UUID.\<close>

lemma code_hex_char: "d < 16 \<Longrightarrow> code (hex_char d) = (if d < 10 then 48 + d else 87 + d)"
  by (simp add: hex_char_def)

lemma hex_digit_char: "d < 16 \<Longrightarrow> hex_digit (hex_char d) = Some d"
  by (auto simp: hex_digit_def code_hex_char is_dec_def)

lemma hex_char_plain:
  assumes "d < 16"
  shows "hex_char d \<notin> {CHR ''-'', CHR ''+'', CHR ''{'', CHR ''}'', CHR ''u'', CHR ''x'', CHR ''X''}"
    and "\<not> is_space (hex_char d)"
  using code_hex_char [OF assms] assms by (auto simp: is_space_def split: if_splits)

lemma uuid_hex_char: "c \<in> set (uuid_hex n u) \<Longrightarrow> \<exists>d. d < 16 \<and> c = hex_char d"
proof -
  assume "c \<in> set (uuid_hex n u)"
  then obtain i where "c = hex_char (u div 16 ^ i mod 16)" by (auto simp: uuid_hex_def)
  then show ?thesis by (intro exI [of _ "u div 16 ^ i mod 16"]) simp
qed

lemma uuid_hex_plain:
  assumes "c \<in> set (uuid_hex n u)"
  shows "c \<noteq> CHR ''-''" "c \<noteq> CHR ''+''" "c \<noteq> CHR ''x''" "c \<noteq> CHR ''X''" "\<not> is_space c"
    "hex_digit c = Some (hex_value c)"
proof -
  obtain d where d: "d < 16" "c = hex_char d" using uuid_hex_char [OF assms] by blast
  then show "c \<noteq> CHR ''-''" "c \<noteq> CHR ''+''" "c \<noteq> CHR ''x''" "c \<noteq> CHR ''X''" "\<not> is_space c"
    using hex_char_plain [OF d(1)] by simp_all
  show "hex_digit c = Some (hex_value c)" using d by (simp add: hex_digit_char hex_value_char)
qed

lemma hex_digits_fold:
  "\<forall>c \<in> set cs. hex_digit c = Some (hex_value c) \<Longrightarrow> cs \<noteq> [] \<or> p \<Longrightarrow>
     hex_digits cs acc p = Some (foldl (\<lambda>a c. 16 * a + hex_value c) acc cs)"
  by (induction cs arbitrary: acc p) auto

lemma remove_all_other: "p \<noteq> [] \<Longrightarrow> hd p \<notin> set s \<Longrightarrow> remove_all p s = s"
  by (induction s) (auto simp: prefix_def neq_Nil_conv)

lemma uuid_str_chars: "c \<in> set (uuid_str u) \<Longrightarrow> c = CHR ''-'' \<or> (\<exists>d. d < 16 \<and> c = hex_char d)"
proof -
  assume "c \<in> set (uuid_str u)"
  moreover have "c \<in> set (filter (\<lambda>c. c \<noteq> CHR ''-'') (uuid_str u))" if "c \<noteq> CHR ''-''"
    using that calculation by simp
  ultimately have "c = CHR ''-'' \<or> c \<in> set (uuid_hex 32 u)"
    by (simp only: uuid_str_no_dash) blast
  then show ?thesis using uuid_hex_char by blast
qed

lemma uuid_str_plain:
  assumes "c \<in> set (uuid_str u)"
  shows "c \<notin> {CHR ''{'', CHR ''}'', CHR ''u''}" and "\<not> is_space c"
  using uuid_str_chars [OF assms] hex_char_plain by (auto simp: is_space_def)

lemma strip_braces_plain: "\<forall>c \<in> set s. c \<noteq> CHR ''{'' \<and> c \<noteq> CHR ''}'' \<Longrightarrow> strip_braces s = s"
proof -
  assume s: "\<forall>c \<in> set s. c \<noteq> CHR ''{'' \<and> c \<noteq> CHR ''}''"
  have none: "dropWhile (\<lambda>c. c = CHR ''{'' \<or> c = CHR ''}'') xs = xs" if "set xs \<subseteq> set s" for xs
    using that s by (cases xs) auto
  show ?thesis using none [of s] none [of "rev s"] by (simp add: strip_braces_def)
qed

lemma not_0x: "CHR ''x'' \<notin> set s \<Longrightarrow> CHR ''X'' \<notin> set s \<Longrightarrow> after_0x s = s"
proof -
  assume "CHR ''x'' \<notin> set s" "CHR ''X'' \<notin> set s"
  then have "CHR ''x'' \<notin> set (take 2 s)" "CHR ''X'' \<notin> set (take 2 s)" using in_set_takeD by metis+
  then have "take 2 s \<noteq> ''0x''" "take 2 s \<noteq> ''0X''" by (rule_tac notI, simp)+
  then show ?thesis by (simp add: after_0x_def)
qed

lemma hex_int_plain:
  assumes "s \<noteq> []" "\<forall>c \<in> set s. \<not> is_space c \<and> c \<notin> {CHR ''-'', CHR ''+'', CHR ''x'', CHR ''X''}"
  shows "hex_int s = hex_digits s 0 False"
proof -
  obtain c cs where s: "s = c # cs" using assms(1) by (cases s) auto
  have "strip s = s" using assms by (intro strip_id) auto
  moreover have "after_0x s = s" using assms(2) by (intro not_0x) auto
  moreover have "c \<noteq> CHR ''-''" "c \<noteq> CHR ''+''" using assms(2) s by auto
  ultimately show ?thesis using s by (simp add: hex_int_def)
qed

lemma hex_int_uuid_hex: "u < 2 ^ 128 \<Longrightarrow> hex_int (uuid_hex 32 u) = Some u"
proof -
  assume u: "u < 2 ^ 128"
  let ?h = "uuid_hex 32 u"
  have ne: "?h \<noteq> []" by (simp add: uuid_hex_def)
  have "\<forall>c \<in> set ?h. hex_digit c = Some (hex_value c)" using uuid_hex_plain(6) by blast
  then have "hex_digits ?h 0 False = Some (u mod 16 ^ 32)"
    using hex_digits_fold [of ?h False 0] ne uuid_hex_value [of 0 32 u] by simp
  moreover have "hex_int ?h = hex_digits ?h 0 False"
    using ne uuid_hex_plain by (intro hex_int_plain) auto
  ultimately show ?thesis using u by simp
qed

lemma parse_uuid_str: "u < 2 ^ 128 \<Longrightarrow> parse_uuid (uuid_str u) = Some u"
proof -
  assume u: "u < 2 ^ 128"
  have "CHR ''u'' \<notin> set (uuid_str u)" using uuid_str_plain(1) by blast
  then have "remove_all ''uuid:'' (remove_all ''urn:'' (uuid_str u)) = uuid_str u"
    by (simp add: remove_all_other)
  moreover have "strip_braces (uuid_str u) = uuid_str u"
    using uuid_str_plain(1) by (intro strip_braces_plain) blast
  ultimately show ?thesis
    using hex_int_uuid_hex [OF u] by (simp add: parse_uuid_def uuid_str_no_dash) (simp add: uuid_hex_def)
qed

end
