(* ===== verification/CommandStore.thy ===== *)
theory CommandStore
  imports AgentEndpoint ContainerLabels
begin

text \<open>
  \<open>CommandStateStore\<close> of \<open>agent/openllmops_agent/command_service.py\<close>: the generation watermarks, the
  start bindings and the bounded cache of results that let a restarted agent refuse late commands.
  Every operation returns the new store; writing it to the disk is the caller's step.
\<close>

section \<open>The store\<close>

record start_binding =
  sb_generation :: int
  sb_fingerprint :: string

record cached_command =
  cc_fingerprint :: string
  cc_result :: command_outcome

record command_store =
  cs_generations :: "(string \<times> int) list"
  cs_starts :: "(string \<times> start_binding) list"
  cs_requests :: "(string \<times> cached_command) list"

definition max_cached_requests :: nat where "max_cached_requests = 2048"

definition empty_store :: command_store where
  "empty_store = \<lparr>cs_generations = [], cs_starts = [], cs_requests = []\<rparr>"

definition owner_key :: "lease_owner_type \<Rightarrow> uuid \<Rightarrow> string" where
  "owner_key t u = owner_type_value t @ '':'' @ uuid_str u"

definition generation_at :: "string \<Rightarrow> command_store \<Rightarrow> int" where
  "generation_at k st = (case map_of (cs_generations st) k of None \<Rightarrow> 0 | Some g \<Rightarrow> g)"

definition generation :: "lease_owner_type \<Rightarrow> uuid \<Rightarrow> command_store \<Rightarrow> int" where
  "generation t u st = generation_at (owner_key t u) st"

text \<open>The flag says whether the store is written.\<close>

definition raise_generation :: "string \<Rightarrow> int \<Rightarrow> command_store \<Rightarrow> command_store \<times> bool" where
  "raise_generation k g st =
     (if g > generation_at k st then (st\<lparr>cs_generations := dict_set k g (cs_generations st)\<rparr>, True) else (st, False))"

definition advance_generation :: "lease_owner_type \<Rightarrow> uuid \<Rightarrow> int \<Rightarrow> command_store \<Rightarrow> command_store \<times> bool" where
  "advance_generation t u g st = raise_generation (owner_key t u) g st"

text \<open>None: the generation is bound to a different start.\<close>

definition bind_start ::
  "lease_owner_type \<Rightarrow> uuid \<Rightarrow> int \<Rightarrow> string \<Rightarrow> command_store \<Rightarrow> (command_store \<times> bool) option" where
  "bind_start t u g fp st =
     (let k = owner_key t u;
          bind = (\<lambda>st. fst (raise_generation k g (st\<lparr>cs_starts := dict_set k \<lparr>sb_generation = g, sb_fingerprint = fp\<rparr> (cs_starts st)\<rparr>))) in
      (case map_of (cs_starts st) k of
         Some b \<Rightarrow>
           (if sb_generation b = g
            then (if sb_fingerprint b \<noteq> fp then None else Some (raise_generation k g st))
            else Some (bind st, True))
       | None \<Rightarrow> Some (bind st, True)))"

definition get_request :: "uuid \<Rightarrow> command_store \<Rightarrow> cached_command option" where
  "get_request r st = map_of (cs_requests st) (uuid_str r)"

fun evict :: "(string \<times> cached_command) list \<Rightarrow> (string \<times> cached_command) list" where
  "evict [] = []"
| "evict (kv # kvs) = (if length (kv # kvs) > max_cached_requests then evict kvs else kv # kvs)"

definition put_request :: "uuid \<Rightarrow> string \<Rightarrow> command_outcome \<Rightarrow> command_store \<Rightarrow> command_store" where
  "put_request r fp out st =
     st\<lparr>cs_requests := evict (dict_set (uuid_str r) \<lparr>cc_fingerprint = fp, cc_result = out\<rparr> (cs_requests st))\<rparr>"

section \<open>Its file\<close>

definition store_json :: "(timestamp \<Rightarrow> string) \<Rightarrow> command_store \<Rightarrow> json" where
  "store_json tr st = JObj
     [(''version'', JInt 1),
      (''generations'', JObj (map (\<lambda>(k, g). (k, JInt g)) (cs_generations st))),
      (''starts'', JObj (map (\<lambda>(k, b). (k, JObj
         [(''generation'', JInt (sb_generation b)), (''fingerprint'', JStr (sb_fingerprint b))])) (cs_starts st))),
      (''requests'', JObj (map (\<lambda>(k, c). (k, JObj
         [(''fingerprint'', JStr (cc_fingerprint c)), (''status_code'', JInt (out_status (cc_result c))),
          (''response'', response_json tr (out_response (cc_result c)))])) (cs_requests st)))]"

text \<open>
  \<open>_load\<close>; None is the refusal to start on a damaged file. \<open>read_response\<close> and \<open>read_uuid\<close> are the readers
  of a response and of a request id; a start binding is also evidence of its generation.
\<close>

definition load_generations :: "json_obj \<Rightarrow> (string \<times> int) list" where
  "load_generations kvs = fold (\<lambda>(k, v) d. case v of
       JInt g \<Rightarrow> (if g \<ge> 1 then dict_set k g d else d)
     | JBool b \<Rightarrow> (if b then dict_set k 1 d else d)
     | _ \<Rightarrow> d) kvs []"

definition load_start :: "json \<Rightarrow> start_binding option" where
  "load_start v =
     (case v of
        JObj kvs \<Rightarrow>
          (case (map_of kvs ''generation'', map_of kvs ''fingerprint'') of
             (Some (JInt g), Some (JStr f)) \<Rightarrow> (if g \<ge> 1 then Some \<lparr>sb_generation = g, sb_fingerprint = f\<rparr> else None)
           | (Some (JBool b), Some (JStr f)) \<Rightarrow> (if b then Some \<lparr>sb_generation = 1, sb_fingerprint = f\<rparr> else None)
           | _ \<Rightarrow> None)
      | _ \<Rightarrow> None)"

definition load_starts :: "json_obj \<Rightarrow> (string \<times> start_binding) list" where
  "load_starts kvs = fold (\<lambda>(k, v) d. case load_start v of None \<Rightarrow> d | Some b \<Rightarrow> dict_set k b d) kvs []"

definition raise_from_starts :: "(string \<times> start_binding) list \<Rightarrow> (string \<times> int) list \<Rightarrow> (string \<times> int) list" where
  "raise_from_starts starts gens = fold (\<lambda>(k, b) d.
     dict_set k (max (case map_of d k of None \<Rightarrow> 0 | Some g \<Rightarrow> g) (sb_generation b)) d) starts gens"

text \<open>\<open>int(...)\<close> and \<open>str(...)\<close> of the two fields, on the types the file is written with.\<close>

definition load_request :: "(json \<Rightarrow> agent_response option) \<Rightarrow> json \<Rightarrow> cached_command option" where
  "load_request read_response v =
     (case v of
        JObj kvs \<Rightarrow>
          (case (map_of kvs ''status_code'', map_of kvs ''response'', map_of kvs ''fingerprint'') of
             (Some (JInt s), Some r, Some (JStr f)) \<Rightarrow>
               map_option (\<lambda>x. \<lparr>cc_fingerprint = f, cc_result = \<lparr>out_response = x, out_status = s\<rparr>\<rparr>) (read_response r)
           | _ \<Rightarrow> None)
      | _ \<Rightarrow> None)"

fun load_requests ::
  "(json \<Rightarrow> agent_response option) \<Rightarrow> (string \<Rightarrow> uuid option) \<Rightarrow> json_obj \<Rightarrow> (string \<times> cached_command) list
     \<Rightarrow> (string \<times> cached_command) list option" where
  "load_requests rr ru [] d = Some d"
| "load_requests rr ru ((k, v) # kvs) d =
     (case (load_request rr v, ru k) of
        (Some c, Some u) \<Rightarrow> load_requests rr ru kvs (dict_set (uuid_str u) c d)
      | _ \<Rightarrow> None)"

definition load_store ::
  "(json \<Rightarrow> agent_response option) \<Rightarrow> (string \<Rightarrow> uuid option) \<Rightarrow> json \<Rightarrow> command_store option" where
  "load_store rr ru v =
     (case v of
        JObj kvs \<Rightarrow>
          (if map_of kvs ''version'' \<notin> {Some (JInt 1), Some (JFloat 1), Some (JBool True)} then None
           else
             (case (map_of kvs ''generations'', (case map_of kvs ''starts'' of None \<Rightarrow> Some (JObj []) | x \<Rightarrow> x),
                    map_of kvs ''requests'') of
                (Some (JObj gs), Some (JObj ss), Some (JObj rs)) \<Rightarrow>
                  (let starts = load_starts ss in
                   map_option (\<lambda>reqs. \<lparr>cs_generations = raise_from_starts starts (load_generations gs),
                       cs_starts = starts, cs_requests = reqs\<rparr>) (load_requests rr ru rs []))
              | _ \<Rightarrow> None))
      | _ \<Rightarrow> None)"

section \<open>The invariant\<close>

text \<open>
  Keys are unique, watermarks and bound generations are at least one, no bound generation is above its
  watermark, and the cache holds at most 2,048 results under well-formed ids.
\<close>

definition request_keys_ok :: "(string \<times> cached_command) list \<Rightarrow> bool" where
  "request_keys_ok rs \<longleftrightarrow> distinct (map fst rs) \<and> (\<forall>k \<in> set (map fst rs). \<exists>u < 2 ^ 128. k = uuid_str u)"

definition store_ok :: "command_store \<Rightarrow> bool" where
  "store_ok st \<longleftrightarrow> distinct (map fst (cs_generations st)) \<and> (\<forall>(k, g) \<in> set (cs_generations st). 1 \<le> g)
     \<and> distinct (map fst (cs_starts st))
     \<and> (\<forall>(k, b) \<in> set (cs_starts st). 1 \<le> sb_generation b \<and> sb_generation b \<le> generation_at k st)
     \<and> request_keys_ok (cs_requests st) \<and> length (cs_requests st) \<le> max_cached_requests"

lemma store_ok_empty: "store_ok empty_store"
  by (simp add: store_ok_def empty_store_def request_keys_ok_def)

lemma generation_at_raise:
  "generation_at k' (fst (raise_generation k g st)) = (if k' = k then max g (generation_at k st) else generation_at k' st)"
  by (auto simp: raise_generation_def generation_at_def dict_get_set)

lemma raise_frame [simp]:
  "cs_starts (fst (raise_generation k g st)) = cs_starts st"
  "cs_requests (fst (raise_generation k g st)) = cs_requests st"
  by (simp_all add: raise_generation_def)

lemma dict_set_mem:
  assumes "(k', v') \<in> set (dict_set k v d)" "distinct (map fst d)"
  shows "(k' = k \<and> v' = v) \<or> (k' \<noteq> k \<and> (k', v') \<in> set d)"
proof -
  have "map_of (dict_set k v d) k' = Some v'"
    using assms distinct_dict_set [OF assms(2)] by (simp add: map_of_eq_Some_iff)
  then show ?thesis
    by (auto simp: dict_get_set dest: map_of_SomeD split: if_splits)
qed

lemma raise_ok:
  assumes "store_ok st" and "1 \<le> g"
  shows "store_ok (fst (raise_generation k g st))"
proof -
  have "\<forall>(k', g') \<in> set (cs_generations (fst (raise_generation k g st))). 1 \<le> g'"
    using assms set_dict_set [of k g "cs_generations st"] by (auto simp: raise_generation_def store_ok_def)
  moreover have "distinct (map fst (cs_generations (fst (raise_generation k g st))))"
    using assms(1) by (simp add: raise_generation_def store_ok_def distinct_dict_set)
  moreover have "\<forall>(k', b) \<in> set (cs_starts st). 1 \<le> sb_generation b \<and> sb_generation b \<le> generation_at k' (fst (raise_generation k g st))"
  proof (clarify, intro conjI)
    fix k' b assume "(k', b) \<in> set (cs_starts st)"
    then have "1 \<le> sb_generation b" "sb_generation b \<le> generation_at k' st" using assms(1) unfolding store_ok_def by blast+
    then show "1 \<le> sb_generation b" "sb_generation b \<le> generation_at k' (fst (raise_generation k g st))"
      by (auto simp: generation_at_raise)
  qed
  ultimately show ?thesis
    using assms(1) unfolding store_ok_def raise_frame by blast
qed

lemma advance_ok: "store_ok st \<Longrightarrow> 1 \<le> g \<Longrightarrow> store_ok (fst (advance_generation t u g st))"
  unfolding advance_generation_def by (rule raise_ok)

lemma bind_start_cases:
  assumes "bind_start t u g fp st = Some (st', w)"
  shows "(\<exists>b. map_of (cs_starts st) (owner_key t u) = Some b \<and> sb_generation b = g \<and> sb_fingerprint b = fp
       \<and> st' = fst (raise_generation (owner_key t u) g st))
     \<or> st' = fst (raise_generation (owner_key t u) g
           (st\<lparr>cs_starts := dict_set (owner_key t u) \<lparr>sb_generation = g, sb_fingerprint = fp\<rparr> (cs_starts st)\<rparr>))"
  using assms by (auto simp: bind_start_def Let_def split: option.splits if_splits)

lemma bind_start_ok:
  assumes "store_ok st" "1 \<le> g" "generation t u st \<le> g" "bind_start t u g fp st = Some (st', w)"
  shows "store_ok st'"
  using bind_start_cases [OF assms(4)]
proof (elim disjE exE conjE)
  fix b assume "st' = fst (raise_generation (owner_key t u) g st)"
  then show ?thesis using raise_ok [OF assms(1,2)] by simp
next
  let ?k = "owner_key t u"
  let ?s = "st\<lparr>cs_starts := dict_set ?k \<lparr>sb_generation = g, sb_fingerprint = fp\<rparr> (cs_starts st)\<rparr>"
  assume st': "st' = fst (raise_generation ?k g ?s)"
  have gen: "generation_at k' ?s = generation_at k' st" for k' by (simp add: generation_at_def)
  have cs: "cs_generations st' = cs_generations (fst (raise_generation ?k g st))"
    using st' by (simp add: raise_generation_def generation_at_def)
  have starts: "1 \<le> sb_generation b \<and> sb_generation b \<le> generation_at k' st'"
    if kb: "(k', b) \<in> set (dict_set ?k \<lparr>sb_generation = g, sb_fingerprint = fp\<rparr> (cs_starts st))" for k' b
  proof -
    have at: "generation_at k' st' = (if k' = ?k then max g (generation_at ?k st) else generation_at k' st)"
      using st' gen by (simp add: generation_at_raise)
    have d: "distinct (map fst (cs_starts st))" using assms(1) by (simp add: store_ok_def)
    show ?thesis
      using dict_set_mem [OF kb d]
    proof (elim disjE conjE)
      assume "k' = ?k" "b = \<lparr>sb_generation = g, sb_fingerprint = fp\<rparr>"
      then show ?thesis using at assms(2) by simp
    next
      assume "k' \<noteq> ?k" "(k', b) \<in> set (cs_starts st)"
      moreover from this have "1 \<le> sb_generation b" "sb_generation b \<le> generation_at k' st"
        using assms(1) unfolding store_ok_def by blast+
      ultimately show ?thesis using at by simp
    qed
  qed
  show ?thesis
    unfolding store_ok_def
  proof (intro conjI)
    show "distinct (map fst (cs_generations st'))" "\<forall>(k, g) \<in> set (cs_generations st'). 1 \<le> g"
      using raise_ok [OF assms(1,2), of ?k] cs by (simp_all add: store_ok_def)
    show "distinct (map fst (cs_starts st'))"
      using assms(1) st' by (simp add: store_ok_def distinct_dict_set)
    show "\<forall>(k, b) \<in> set (cs_starts st'). 1 \<le> sb_generation b \<and> sb_generation b \<le> generation_at k st'"
      using starts st' by auto
    show "request_keys_ok (cs_requests st')" "length (cs_requests st') \<le> max_cached_requests"
      using assms(1) st' by (simp_all add: store_ok_def)
  qed
qed

section \<open>The cache\<close>

lemma evict_drop: "evict kvs = drop (length kvs - max_cached_requests) kvs"
  by (induction kvs) (auto simp: Suc_diff_le)

lemma evict_length: "length (evict kvs) \<le> max_cached_requests"
  by (simp add: evict_drop)

lemma evict_keys:
  assumes "request_keys_ok kvs" shows "request_keys_ok (evict kvs)"
proof -
  have "map fst (evict kvs) = drop (length kvs - max_cached_requests) (map fst kvs)"
    by (simp add: evict_drop drop_map)
  then show ?thesis
    using assms in_set_dropD unfolding request_keys_ok_def by (metis distinct_drop)
qed

lemma put_request_ok:
  assumes "store_ok st" "r < 2 ^ 128"
  shows "store_ok (put_request r fp out st)"
proof -
  have "request_keys_ok (dict_set (uuid_str r) c (cs_requests st))" for c
    using assms by (auto simp: store_ok_def request_keys_ok_def distinct_dict_set dom_update)
  then have "request_keys_ok (cs_requests (put_request r fp out st))"
    by (simp add: put_request_def evict_keys)
  then show ?thesis
    using assms(1) evict_length unfolding store_ok_def by (auto simp: put_request_def generation_at_def)
qed

text \<open>A new result is at the end of the cache, and survives the eviction.\<close>

lemma update_new: "k \<notin> set (map fst d) \<Longrightarrow> dict_set k v d = d @ [(k, v)]"
  by (induction d) auto

lemma get_after_put:
  assumes "get_request r st = None" and "store_ok st"
  shows "get_request r (put_request r fp out st) = Some \<lparr>cc_fingerprint = fp, cc_result = out\<rparr>"
proof -
  let ?c = "\<lparr>cc_fingerprint = fp, cc_result = out\<rparr>"
  let ?rs = "cs_requests st"
  have new: "uuid_str r \<notin> set (map fst ?rs)"
    using assms(1) by (simp add: get_request_def map_of_eq_None_iff)
  have "evict (?rs @ [(uuid_str r, ?c)]) = drop (length ?rs + 1 - max_cached_requests) ?rs @ [(uuid_str r, ?c)]"
    using assms(2) by (simp add: evict_drop store_ok_def max_cached_requests_def)
  moreover have "uuid_str r \<notin> set (map fst (drop n ?rs))" for n
    using new set_drop_subset [of n "map fst ?rs"] by (auto simp: drop_map)
  ultimately show ?thesis
    using new by (simp add: put_request_def get_request_def update_new map_of_append map_add_def
        split: option.split) (meson domI domIff map_of_eq_None_iff)
qed

section \<open>Writing and loading\<close>

lemma fold_set_append:
  "distinct (map fst (d @ kvs)) \<Longrightarrow> fold (\<lambda>(k, v). dict_set k v) kvs d = d @ kvs"
proof (induction kvs arbitrary: d)
  case (Cons kv kvs)
  obtain k v where kv: "kv = (k, v)" by (cases kv)
  have "k \<notin> set (map fst d)" using Cons.prems kv by auto
  then show ?case using Cons.IH [of "d @ [(k, v)]"] Cons.prems kv by (simp add: update_new)
qed simp

lemma fold_map_cong:
  "\<forall>x \<in> set xs. \<forall>d. f (g x) d = h x d \<Longrightarrow> fold f (map g xs) d = fold h xs d"
  by (induction xs arbitrary: d) auto

lemma load_generations_written:
  assumes "distinct (map fst gs)" "\<forall>(k, g) \<in> set gs. 1 \<le> g"
  shows "load_generations (map (\<lambda>(k, g). (k, JInt g)) gs) = gs"
  using fold_set_append [of "[]" gs] assms unfolding load_generations_def
  by (subst fold_map_cong [where h = "\<lambda>(k, v). dict_set k v"]) auto

lemma dict_set_same: "map_of d k = Some v \<Longrightarrow> dict_set k v d = d"
  by (induction d) (auto split: if_splits)

lemma raise_from_starts_id:
  "\<forall>(k, b) \<in> set starts. \<exists>g. map_of gens k = Some g \<and> sb_generation b \<le> g \<and> 1 \<le> g \<Longrightarrow> raise_from_starts starts gens = gens"
  unfolding raise_from_starts_def by (induction starts) (auto simp: dict_set_same max_def split: if_splits)

text \<open>\<open>sort_keys=True\<close> reorders the members of every object, and nothing else.\<close>

abbreviation by_key :: "(string \<times> 'v) list \<Rightarrow> (string \<times> 'v) list" where
  "by_key \<equiv> sort_key fst"

lemma by_key_map: "by_key (map (\<lambda>(k, v). (k, f v)) kvs) = map (\<lambda>(k, v). (k, f v)) (by_key kvs)"
proof -
  have insort: "insort_key fst (k, f v) (map (\<lambda>(k, v). (k, f v)) xs) = map (\<lambda>(k, v). (k, f v)) (insort_key fst (k, v) xs)"
    for k v xs by (induction xs) auto
  show ?thesis by (induction kvs) (auto simp: insort)
qed

lemma distinct_by_key [simp]: "distinct (map fst (by_key kvs)) = distinct (map fst kvs)"
  by (simp add: distinct_map)

lemma map_of_filter: "map_of kvs k = (case filter (\<lambda>y. fst y = k) kvs of [] \<Rightarrow> None | y # _ \<Rightarrow> Some (snd y))"
  by (induction kvs) auto

lemma map_of_by_key [simp]: "map_of (by_key kvs) = map_of kvs"
  by (rule ext) (simp add: map_of_filter sort_key_stable)

lemma canon_obj: "canon (JObj kvs) = JObj (map (\<lambda>(k, v). (k, canon v)) (by_key kvs))"
  by (simp add: by_key_map)

lemma canon_members:
  "map (\<lambda>(k, v). (k, canon v)) (by_key (map (\<lambda>(k, x). (k, f x)) kvs)) = map (\<lambda>(k, x). (k, canon (f x))) (by_key kvs)"
  unfolding by_key_map by (simp add: split_def comp_def)

lemma get_canon: "map_of (map (\<lambda>(k, v). (k, canon v)) (by_key kvs)) k = map_option canon (map_of kvs k)"
  by (simp add: map_of_map)

definition sorted_store :: "command_store \<Rightarrow> command_store" where
  "sorted_store st = \<lparr>cs_generations = by_key (cs_generations st), cs_starts = by_key (cs_starts st),
     cs_requests = by_key (cs_requests st)\<rparr>"

lemma sorted_store_same:
  "map_of (cs_generations (sorted_store st)) = map_of (cs_generations st)"
  "map_of (cs_starts (sorted_store st)) = map_of (cs_starts st)"
  "map_of (cs_requests (sorted_store st)) = map_of (cs_requests st)"
  by (simp_all add: sorted_store_def)

lemma load_start_written:
  "1 \<le> sb_generation b \<Longrightarrow> load_start (canon (JObj
     [(''generation'', JInt (sb_generation b)), (''fingerprint'', JStr (sb_fingerprint b))])) = Some b"
  unfolding canon_obj load_start_def json.case get_canon by simp

lemma load_starts_written:
  assumes "distinct (map fst ss)" "\<forall>(k, b) \<in> set ss. 1 \<le> sb_generation b"
  shows "load_starts (map (\<lambda>(k, b). (k, canon (JObj
     [(''generation'', JInt (sb_generation b)), (''fingerprint'', JStr (sb_fingerprint b))]))) ss) = ss"
  using fold_set_append [of "[]" ss] assms unfolding load_starts_def
  by (subst fold_map_cong [where h = "\<lambda>(k, v). dict_set k v"]) (auto simp: load_start_written simp del: canon.simps)

definition reads_response :: "(timestamp \<Rightarrow> string) \<Rightarrow> (json \<Rightarrow> agent_response option) \<Rightarrow> agent_response \<Rightarrow> bool" where
  "reads_response tr rr r \<longleftrightarrow> rr (canon (response_json tr r)) = Some r"

lemma load_requests_written:
  assumes "distinct (map fst (d @ rs))" "\<forall>k \<in> set (map fst rs). \<exists>u < 2 ^ 128. k = uuid_str u"
    and "\<forall>(k, c) \<in> set rs. reads_response tr rr (out_response (cc_result c))"
  shows "load_requests rr parse_uuid (map (\<lambda>(k, c). (k, canon (JObj
     [(''fingerprint'', JStr (cc_fingerprint c)), (''status_code'', JInt (out_status (cc_result c))),
      (''response'', response_json tr (out_response (cc_result c)))]))) rs) d = Some (d @ rs)"
  using assms
proof (induction rs arbitrary: d)
  case (Cons kc rs)
  obtain k c where kc: "kc = (k, c)" by (cases kc)
  obtain u where u: "u < 2 ^ 128" "k = uuid_str u" using Cons.prems(2) kc by auto
  have "load_request rr (canon (JObj [(''fingerprint'', JStr (cc_fingerprint c)),
      (''status_code'', JInt (out_status (cc_result c))), (''response'', response_json tr (out_response (cc_result c)))]))
      = Some c"
    using Cons.prems(3) kc unfolding canon_obj load_request_def json.case get_canon
    by (simp add: reads_response_def)
  moreover have "parse_uuid k = Some u" using u parse_uuid_str by simp
  moreover have "dict_set k c d = d @ [(k, c)]" using Cons.prems(1) kc by (intro update_new) auto
  ultimately show ?case
    using Cons.IH [of "d @ [(k, c)]"] Cons.prems kc u(2) by (simp del: canon.simps)
qed simp

text \<open>
  C27. A restarted agent finds the store it wrote: loading the file that \<open>_persist\<close> writes gives the same
  watermarks, start bindings and cached results, each table in the order of its keys.
\<close>

theorem written_store_loads:
  assumes "store_ok st" and "\<forall>(k, c) \<in> set (cs_requests st). reads_response tr rr (out_response (cc_result c))"
  shows "load_store rr parse_uuid (canon (store_json tr st)) = Some (sorted_store st)"
proof -
  let ?start = "\<lambda>b. JObj [(''generation'', JInt (sb_generation b)), (''fingerprint'', JStr (sb_fingerprint b))]"
  let ?request = "\<lambda>c. JObj [(''fingerprint'', JStr (cc_fingerprint c)), (''status_code'', JInt (out_status (cc_result c))),
      (''response'', response_json tr (out_response (cc_result c)))]"
  let ?gs = "map (\<lambda>(k, v). (k, canon v)) (by_key (map (\<lambda>(k, g). (k, JInt g)) (cs_generations st)))"
  let ?ss = "map (\<lambda>(k, v). (k, canon v)) (by_key (map (\<lambda>(k, b). (k, ?start b)) (cs_starts st)))"
  let ?rs = "map (\<lambda>(k, v). (k, canon v)) (by_key (map (\<lambda>(k, c). (k, ?request c)) (cs_requests st)))"
  have gens: "load_generations ?gs = by_key (cs_generations st)"
    unfolding canon_members using assms(1) load_generations_written [of "by_key (cs_generations st)"]
    by (simp add: store_ok_def)
  have starts: "load_starts ?ss = by_key (cs_starts st)"
    unfolding canon_members using assms(1)
    by (intro load_starts_written) (auto simp: store_ok_def)
  have requests: "load_requests rr parse_uuid ?rs [] = Some (by_key (cs_requests st))"
    unfolding canon_members using assms
    by (subst load_requests_written [where tr = tr]) (auto simp: store_ok_def request_keys_ok_def)
  have raise: "raise_from_starts (by_key (cs_starts st)) (by_key (cs_generations st)) = by_key (cs_generations st)"
  proof (rule raise_from_starts_id, clarify)
    fix k b assume "(k, b) \<in> set (by_key (cs_starts st))"
    then have "1 \<le> sb_generation b" "sb_generation b \<le> generation_at k st" using assms(1) unfolding store_ok_def by auto
    then show "\<exists>g. map_of (by_key (cs_generations st)) k = Some g \<and> sb_generation b \<le> g \<and> 1 \<le> g"
      by (auto simp: generation_at_def split: option.splits)
  qed
  have top: "canon (store_json tr st) = JObj (map (\<lambda>(k, v). (k, canon v)) (by_key
      [(''version'', JInt 1), (''generations'', JObj (map (\<lambda>(k, g). (k, JInt g)) (cs_generations st))),
       (''starts'', JObj (map (\<lambda>(k, b). (k, ?start b)) (cs_starts st))),
       (''requests'', JObj (map (\<lambda>(k, c). (k, ?request c)) (cs_requests st)))]))"
    unfolding store_json_def canon_obj ..
  show ?thesis
    unfolding top load_store_def json.case get_canon
    using gens starts requests raise
    by (simp add: canon_obj sorted_store_def del: canon.simps(2))
qed

definition demo_store :: command_store where
  "demo_store =
     (let k = owner_key TRAINING 7 in
      put_request 5 ''f5'' \<lparr>out_response = demo_response, out_status = 200\<rparr>
        \<lparr>cs_generations = [(k, 3)], cs_starts = [(k, \<lparr>sb_generation = 2, sb_fingerprint = ''f2''\<rparr>)], cs_requests = []\<rparr>)"

lemma demo_store_ok: "store_ok demo_store"
  unfolding demo_store_def Let_def
  by (rule put_request_ok) (simp_all add: store_ok_def generation_at_def request_keys_ok_def)

lemma written_store_loads_witness:
  "load_store (\<lambda>_. Some demo_response) parse_uuid (canon (store_json (\<lambda>_. ''2026-01-01T00:00:00Z'') demo_store))
     = Some (sorted_store demo_store)"
proof (rule written_store_loads [OF demo_store_ok])
  show "\<forall>(k, c) \<in> set (cs_requests demo_store). reads_response (\<lambda>_. ''2026-01-01T00:00:00Z'') (\<lambda>_. Some demo_response)
      (out_response (cc_result c))"
    by (simp add: demo_store_def put_request_def Let_def reads_response_def max_cached_requests_def del: canon.simps)
qed

end
