(* ===== verification/DockerRunner.thy ===== *)
theory DockerRunner
  imports ContainerLabels
begin

text \<open>
  \<open>DockerRunner\<close> of \<open>agent/openllmops_agent/docker_runner.py\<close>: how the node agent starts, stops,
  inspects and removes the containers of workloads. The Docker daemon, NVML and the file system are
  parameters (\<open>engine\<close>, \<open>host\<close>): every call of them is an action on a state the model does not look
  into, so containers may stop by themselves between any two calls. The allocation lock makes each
  operation below one uninterrupted sequence of calls of this agent.
\<close>

section \<open>The daemon\<close>

text \<open>\<open>NotFound\<close> (with \<open>ImageNotFound\<close>), any other \<open>APIError\<close>, any other \<open>DockerException\<close>, and the
  \<open>requests\<close> exceptions (an \<open>OSError\<close>) the SDK lets through.\<close>

datatype docker_error = NotFoundError | ApiFault | OtherDockerFault | TransportFault

datatype nvml_fault = NotSupportedFault | NvmlFault

record 'd engine =
  e_get :: "string \<Rightarrow> ('d, docker_error, container) action"      \<comment> \<open>\<open>containers.get(name)\<close>\<close>
  e_list :: "('d, docker_error, container list) action"          \<comment> \<open>all with the managed label\<close>
  e_reload :: "container \<Rightarrow> ('d, docker_error, container) action"
  e_image_of :: "container \<Rightarrow> ('d, docker_error, image) action"
  e_image :: "string \<Rightarrow> ('d, docker_error, image) action"        \<comment> \<open>\<open>images.get(reference)\<close>\<close>
  e_run :: "run_spec \<Rightarrow> ('d, docker_error, container) action"
  e_start :: "container \<Rightarrow> ('d, docker_error, unit) action"
  e_stop :: "int \<Rightarrow> container \<Rightarrow> ('d, docker_error, unit) action"
  e_remove :: "bool \<Rightarrow> bool \<Rightarrow> container \<Rightarrow> ('d, docker_error, unit) action"  \<comment> \<open>\<open>force\<close>, \<open>v\<close>\<close>
  e_nvml_init :: "('d, nvml_fault, unit) action"
  e_nvml_handle :: "int \<Rightarrow> ('d, nvml_fault, unit) action"
  e_nvml_processes :: "bool \<Rightarrow> int \<Rightarrow> ('d, nvml_fault, nat) action"          \<comment> \<open>graphics or compute; how many\<close>
  e_nvml_shutdown :: "('d, nvml_fault, unit) action"

record settings =
  st_gpu_count :: int
  st_model_root :: path
  st_dataset_root :: path
  st_evaluation_dataset_root :: path
  st_evaluation_output_root :: path
  st_checkpoint_root :: path
  st_training_config_root :: path
  st_runtime_root :: path
  st_runtime_network :: string
  st_vllm_allowed :: string
  st_llamafactory_allowed :: string
  st_evaluation_allowed :: string
  st_startup_timeout :: int
  st_unhealthy_timeout :: int
  st_failure_stop_timeout :: int
  st_uid :: int
  st_gid :: int
  st_shm_size :: string
  st_enforce_nvml :: bool

definition image_list :: "string \<Rightarrow> string list" where
  "image_list raw = filter (\<lambda>w. w \<noteq> []) (map strip (split_on (CHR '','') raw))"

definition vllm_runtime_image :: "settings \<Rightarrow> string option" where
  "vllm_runtime_image st = (case image_list (st_vllm_allowed st) of [] \<Rightarrow> None | w # _ \<Rightarrow> Some w)"

definition first_image :: "string \<Rightarrow> string" where
  "first_image raw = strip (hd (split_on (CHR '','') raw))"

text \<open>
  What the operations are called with: the daemon, the file system, the settings, the reader of
  Docker's times, the text of floats, and the reading of a JSON object from a file.
\<close>

record ('d, 'f) agent_env =
  av_engine :: "'d engine"
  av_host :: "'f host"
  av_settings :: settings
  av_times :: iso_reader
  av_float :: "rat \<Rightarrow> string"
  av_read_json :: "path \<Rightarrow> ('f, unit, json_obj) action"   \<comment> \<open>\<open>_load_json_config\<close>\<close>

record ('d, 'f) node =
  nd_docker :: 'd
  nd_files :: 'f

datatype runner_error =
    InvalidWorkload string
  | WorkloadConflict string
  | WorkloadNotFound
  | OtherRunnerError string
  | DockerRaised docker_error
  | OsRaised
  | ValidationRaised          \<comment> \<open>pydantic's \<open>ValidationError\<close>\<close>
  | UnexpectedRaised          \<comment> \<open>\<open>KeyError\<close>, \<open>ValueError\<close>, \<open>IndexError\<close>, \<open>AttributeError\<close>\<close>

type_synonym ('d, 'f, 'z, 'a) operation = "(('d, 'f, 'z) node_scheme, runner_error, 'a) action"

definition docker :: "('d, 'x, 'a) action \<Rightarrow> (('d, 'f, 'z) node_scheme, 'x, 'a) action" where
  "docker m = (\<lambda>s. case m (nd_docker s) of (d, r) \<Rightarrow> (s\<lparr>nd_docker := d\<rparr>, r))"

definition files :: "('f, 'x, 'a) action \<Rightarrow> (('d, 'f, 'z) node_scheme, 'x, 'a) action" where
  "files m = (\<lambda>s. case m (nd_files s) of (f, r) \<Rightarrow> (s\<lparr>nd_files := f\<rparr>, r))"

definition call_docker :: "('d, docker_error, 'a) action \<Rightarrow> ('d, 'f, 'z, 'a) operation" where
  "call_docker m = rescue (docker m) (\<lambda>e. throw (DockerRaised e))"

definition path_fault :: "path_error \<Rightarrow> runner_error" where
  "path_fault e = (case e of UncaughtOsError _ \<Rightarrow> OsRaised | _ \<Rightarrow> InvalidWorkload ''path refused'')"

definition call_files :: "('f, path_error, 'a) action \<Rightarrow> ('d, 'f, 'z, 'a) operation" where
  "call_files m = rescue (files m) (\<lambda>e. throw (path_fault e))"

section \<open>Inspection\<close>

definition label_ids :: "container \<Rightarrow> runner_error + (uuid \<times> string)" where
  "label_ids c =
     (case map_of (c_labels c) id_label of
        None \<Rightarrow> Inl UnexpectedRaised
      | Some t \<Rightarrow> (case parse_uuid t of
          None \<Rightarrow> Inl UnexpectedRaised
        | Some u \<Rightarrow> (case map_of (c_labels c) kind_label of None \<Rightarrow> Inl UnexpectedRaised | Some k \<Rightarrow> Inr (u, k))))"

definition image_text :: "('d, 'f) agent_env \<Rightarrow> container \<Rightarrow> ('d, 'f, 'z, string) operation" where
  "image_text V c =
     and_then (call_docker (e_image_of (av_engine V) c)) (\<lambda>i1.
     and_then (call_docker (e_image_of (av_engine V) c)) (\<lambda>i2.
       if img_tags i1 \<noteq> []
       then (case img_tags i2 of [] \<Rightarrow> throw UnexpectedRaised | w # _ \<Rightarrow> give w)
       else (case img_id i2 of None \<Rightarrow> throw ValidationRaised | Some w \<Rightarrow> give w)))"

definition port_of :: "labels \<Rightarrow> runner_error + int option" where
  "port_of ls =
     (let w = get_or ls port_label [] in
      if isdigit w then (case py_int w of None \<Rightarrow> Inl UnexpectedRaised | Some p \<Rightarrow> Inr (Some p)) else Inr None)"

definition build_info ::
  "iso_reader \<Rightarrow> container \<Rightarrow> uuid \<Rightarrow> string \<Rightarrow> string \<Rightarrow> int option \<Rightarrow> runner_error + workload_info" where
  "build_info reader c u k img pt =
     (let ls = c_labels c; service = map_of ls service_type_label in
      if k \<notin> {''inference'', ''training'', ''evaluation''}
         \<or> service \<notin> {None, Some ''generate'', Some ''embedding''} then Inl ValidationRaised
      else Inr
        \<lparr>wi_name = c_name c, wi_workload_id = u, wi_kind = k, wi_image = img, wi_status = c_status c,
         wi_gpu_ids = gpu_ids_from_labels ls, wi_service_type = service,
         wi_endpoint = map_of ls endpoint_label, wi_port = pt,
         wi_generation = generation_from_labels ls, wi_exit_code = c_exit_code c,
         wi_health_status = health_status_of (c_health c),
         wi_health_failing_streak = count_of (health_field (c_health c) ''FailingStreak''),
         wi_restart_count = count_of (c_restarts c),
         wi_started_at = docker_datetime reader (c_started c),
         wi_finished_at = docker_datetime reader (c_finished c),
         wi_created_at = docker_datetime reader (c_created c)\<rparr>)"

definition to_info :: "('d, 'f) agent_env \<Rightarrow> container \<Rightarrow> ('d, 'f, 'z, workload_info) operation" where
  "to_info V c0 =
     and_then (call_docker (e_reload (av_engine V) c0)) (\<lambda>c.
     and_then (from_sum (label_ids c)) (\<lambda>(u, k).
     and_then (image_text V c) (\<lambda>img.
     and_then (from_sum (port_of (c_labels c))) (\<lambda>pt.
     from_sum (build_info (av_times V) c u k img pt)))))"

definition managed_container :: "('d, 'f) agent_env \<Rightarrow> string \<Rightarrow> ('d, 'f, 'z, container) operation" where
  "managed_container V name =
     (if \<not> safe_name name then throw WorkloadNotFound
      else
        and_then (rescue (docker (e_get (av_engine V) name))
          (\<lambda>e. throw (if e = NotFoundError then WorkloadNotFound else DockerRaised e))) (\<lambda>c.
        and_then (require (is_managed c) WorkloadNotFound) (\<lambda>_. give c)))"

definition get_workload :: "('d, 'f) agent_env \<Rightarrow> string \<Rightarrow> ('d, 'f, 'z, workload_info) operation" where
  "get_workload V name = and_then (managed_container V name) (to_info V)"

definition get_contract_workload ::
  "('d, 'f) agent_env \<Rightarrow> lease_owner_type \<Rightarrow> uuid \<Rightarrow> ('d, 'f, 'z, workload_info) operation" where
  "get_contract_workload V t u = get_workload V (contract_workload_name t u)"

section \<open>Operations of the contract\<close>

definition prepare_contract_start ::
  "('d, 'f) agent_env \<Rightarrow> lease_owner_type \<Rightarrow> uuid \<Rightarrow> int \<Rightarrow> ('d, 'f, 'z, workload_info option) operation" where
  "prepare_contract_start V t u g =
     and_then (rescue (and_then (managed_container V (contract_workload_name t u)) (\<lambda>c. give (Some c)))
        (\<lambda>e. if e = WorkloadNotFound then give None else throw e)) (\<lambda>found.
     case found of
       None \<Rightarrow> give None
     | Some c0 \<Rightarrow>
         and_then (call_docker (e_reload (av_engine V) c0)) (\<lambda>c.
         let existing = generation_from_labels (c_labels c) in
         if existing > g then throw (WorkloadConflict ''command generation is older'')
         else if existing = g then and_then (to_info V c) (\<lambda>i. give (Some i))
         else if active c then throw (WorkloadConflict ''older generation still runs'')
         else and_then (call_docker (e_remove (av_engine V) False True c)) (\<lambda>_. give None)))"

definition finished_well :: "lease_owner_type \<Rightarrow> workload_info \<Rightarrow> bool" where
  "finished_well t i \<longleftrightarrow> t \<in> {TRAINING, EVALUATION} \<and> wi_status i = ''exited'' \<and> wi_exit_code i = Some 0"

text \<open>\<open>container.status\<close> after \<open>_to_info\<close> is the status of its inspection.\<close>

definition stop_contract_workload ::
  "('d, 'f) agent_env \<Rightarrow> lease_owner_type \<Rightarrow> uuid \<Rightarrow> int \<Rightarrow> int \<Rightarrow> ('d, 'f, 'z, workload_info option) operation" where
  "stop_contract_workload V t u g timeout =
     and_then (managed_container V (contract_workload_name t u)) (\<lambda>c0.
     and_then (call_docker (e_reload (av_engine V) c0)) (\<lambda>c.
     and_then (require (generation_from_labels (c_labels c) = g)
        (WorkloadConflict ''stop generation differs'')) (\<lambda>_.
     and_then (to_info V c) (\<lambda>i.
     let remove = and_then (call_docker (e_remove (av_engine V) False True c)) (\<lambda>_. give None) in
     if finished_well t i then give (Some i)
     else if wi_status i \<in> active_states then
       and_then (call_docker (e_stop (av_engine V) timeout c)) (\<lambda>_.
       and_then (to_info V c) (\<lambda>i'. if finished_well t i' then give (Some i') else remove))
     else remove))))"

definition cleanup_contract_workload ::
  "('d, 'f) agent_env \<Rightarrow> lease_owner_type \<Rightarrow> uuid \<Rightarrow> int \<Rightarrow> ('d, 'f, 'z, unit) operation" where
  "cleanup_contract_workload V t u g =
     and_then (attempt (docker (e_get (av_engine V) (contract_workload_name t u)))) (\<lambda>r0.
     case r0 of
       Inl e \<Rightarrow> (if e = NotFoundError then give () else throw (DockerRaised e))
     | Inr c0 \<Rightarrow>
         and_then (attempt (docker (e_reload (av_engine V) c0))) (\<lambda>r.
         case r of
           Inl e \<Rightarrow> (if e = NotFoundError then give () else throw (DockerRaised e))
         | Inr c \<Rightarrow>
             let ls = c_labels c in
             if map_of ls managed_label \<noteq> Some ''true'' \<or> map_of ls id_label \<noteq> Some (uuid_str u)
                \<or> map_of ls kind_label \<noteq> Some (owner_kind t) \<or> map_of ls owner_type_label \<noteq> Some (owner_type_value t)
             then throw (WorkloadConflict ''cleanup target has no trusted owner labels'')
             else if \<not> (case map_of ls generation_label of None \<Rightarrow> False | Some w \<Rightarrow> positive_decimal w)
             then throw (WorkloadConflict ''cleanup target has no trusted generation label'')
             else if (case map_of ls generation_label of None \<Rightarrow> None | Some w \<Rightarrow> py_int w) \<noteq> Some g
             then throw (WorkloadConflict ''cleanup generation differs'')
             else if active c then throw (WorkloadConflict ''cleanup only removes finished workloads'')
             else if c_status c = ''removing'' then throw (WorkloadConflict ''cleanup target is being removed'')
             else if c_status c \<notin> terminal_states then throw (WorkloadConflict ''cleanup cannot confirm the end'')
             else
               and_then (attempt (docker (e_remove (av_engine V) False False c))) (\<lambda>r'.
               case r' of
                 Inl e \<Rightarrow> (if e = NotFoundError then give () else throw (DockerRaised e))
               | Inr _ \<Rightarrow> give ())))"

text \<open>
  \<open>quiesce_failed_inference\<close>; \<open>DockerException\<close> does not include the transport errors, which leave it.
\<close>

definition is_docker_exception :: "docker_error \<Rightarrow> bool" where
  "is_docker_exception e \<longleftrightarrow> e \<noteq> TransportFault"

definition confirm_inactive :: "('d, 'f) agent_env \<Rightarrow> container \<Rightarrow> ('d, 'f, 'z, bool) operation" where
  "confirm_inactive V c =
     and_then (attempt (docker (e_reload (av_engine V) c))) (\<lambda>r.
     case r of
       Inl e \<Rightarrow> (if e = NotFoundError then give True
         else if is_docker_exception e then give False else throw (DockerRaised e))
     | Inr c' \<Rightarrow> give (\<not> active c' \<and> c_status c' \<noteq> ''removing''))"

definition quiesce_container :: "('d, 'f) agent_env \<Rightarrow> int \<Rightarrow> int \<Rightarrow> container \<Rightarrow> ('d, 'f, 'z, bool) operation" where
  "quiesce_container V g timeout c =
     (if generation_from_labels (c_labels c) \<noteq> g \<or> c_status c = ''removing'' then give False
      else if c_status c = ''created'' then
        and_then (attempt (docker (e_remove (av_engine V) False True c))) (\<lambda>r.
        case r of
          Inl e \<Rightarrow> (if is_docker_exception e then give False else throw (DockerRaised e))
        | Inr _ \<Rightarrow> give True)
      else if c_status c \<in> {''running'', ''restarting'', ''paused''} then
        and_then (attempt (docker (e_stop (av_engine V) timeout c))) (\<lambda>r.
        case r of
          Inl e \<Rightarrow> (if is_docker_exception e then confirm_inactive V c else throw (DockerRaised e))
        | Inr _ \<Rightarrow> confirm_inactive V c)
      else confirm_inactive V c)"

definition quiesce_failed_inference ::
  "('d, 'f) agent_env \<Rightarrow> uuid \<Rightarrow> int \<Rightarrow> int \<Rightarrow> ('d, 'f, 'z, bool) operation" where
  "quiesce_failed_inference V u g timeout =
     and_then (attempt (managed_container V (workload_name ''inference'' u))) (\<lambda>r0.
     case r0 of
       Inl e \<Rightarrow> (case e of
           WorkloadNotFound \<Rightarrow> give True
         | DockerRaised x \<Rightarrow> (if is_docker_exception x then give False else throw e)
         | _ \<Rightarrow> throw e)
     | Inr c0 \<Rightarrow>
         and_then (attempt (docker (e_reload (av_engine V) c0))) (\<lambda>r.
         case r of
           Inl e \<Rightarrow> (if e = NotFoundError then give True
             else if is_docker_exception e then give False else throw (DockerRaised e))
         | Inr c \<Rightarrow> quiesce_container V g timeout c))"

section \<open>Cards and names\<close>

definition validate_gpu_ids :: "settings \<Rightarrow> int list \<Rightarrow> runner_error + int list" where
  "validate_gpu_ids st gs =
     (let normalized = sort (remdups gs) in
      if normalized = [] \<or> length normalized \<noteq> length gs then Inl (InvalidWorkload ''cards empty or repeated'')
      else if \<exists>g \<in> set normalized. g < 0 \<or> g \<ge> st_gpu_count st then Inl (InvalidWorkload ''card out of range'')
      else Inr normalized)"

type_synonym allocations = "(int \<times> string) list"

fun allocation_loop ::
  "('d, 'f) agent_env \<Rightarrow> container list \<Rightarrow> allocations \<Rightarrow> ('d, 'f, 'z, allocations) operation" where
  "allocation_loop V [] taken = give taken"
| "allocation_loop V (c0 # cs) taken =
     and_then (call_docker (e_reload (av_engine V) c0)) (\<lambda>c.
       allocation_loop V cs
         (if active c then fold (\<lambda>g. dict_set g (c_name c)) (gpu_ids_from_labels (c_labels c)) taken else taken))"

definition gpu_allocations :: "('d, 'f) agent_env \<Rightarrow> ('d, 'f, 'z, allocations) operation" where
  "gpu_allocations V = and_then (call_docker (e_list (av_engine V))) (\<lambda>cs. allocation_loop V cs [])"

text \<open>\<open>read_busy_gpu_ids\<close> of \<open>gpu.py\<close>; a getter the NVML binding does not have counts as not supported.\<close>

definition process_count :: "'d engine \<Rightarrow> bool \<Rightarrow> int \<Rightarrow> ('d, nvml_fault, nat) action" where
  "process_count E graphics g =
     rescue (e_nvml_processes E graphics g) (\<lambda>e. if e = NotSupportedFault then give 0 else throw e)"

fun busy_loop :: "'d engine \<Rightarrow> int list \<Rightarrow> int list \<Rightarrow> ('d, nvml_fault, int list) action" where
  "busy_loop E [] busy = give busy"
| "busy_loop E (g # gs) busy =
     and_then (e_nvml_handle E g) (\<lambda>_.
     and_then (process_count E False g) (\<lambda>n.
     and_then (process_count E True g) (\<lambda>m.
     busy_loop E gs (if n + m > 0 then busy @ [g] else busy))))"

definition read_busy_gpu_ids :: "'d engine \<Rightarrow> int list \<Rightarrow> ('d, nvml_fault, int list) action" where
  "read_busy_gpu_ids E gs =
     and_then (e_nvml_init E) (\<lambda>_.
     and_then (attempt (busy_loop E gs [])) (\<lambda>r.
     and_then (e_nvml_shutdown E) (\<lambda>_.
     from_sum r)))"

definition assert_gpus_available ::
  "('d, 'f) agent_env \<Rightarrow> int list \<Rightarrow> string option \<Rightarrow> ('d, 'f, 'z, unit) operation" where
  "assert_gpus_available V gs exclude =
     and_then (gpu_allocations V) (\<lambda>taken.
     and_then (require (\<forall>g \<in> set gs. case map_of taken g of None \<Rightarrow> True | Some n \<Rightarrow> Some n = exclude)
        (WorkloadConflict ''card is taken'')) (\<lambda>_.
     if \<not> st_enforce_nvml (av_settings V) then give ()
     else
       and_then (rescue (docker (read_busy_gpu_ids (av_engine V) gs))
         (\<lambda>_. throw (OtherRunnerError ''NVML unavailable''))) (\<lambda>busy.
       require (busy = []) (WorkloadConflict ''card runs an unmanaged process''))))"

definition assert_name_available :: "('d, 'f) agent_env \<Rightarrow> string \<Rightarrow> ('d, 'f, 'z, unit) operation" where
  "assert_name_available V name =
     and_then (attempt (docker (e_get (av_engine V) name))) (\<lambda>r.
     case r of
       Inl e \<Rightarrow> (if e = NotFoundError then give () else throw (DockerRaised e))
     | Inr _ \<Rightarrow> throw (WorkloadConflict ''workload exists''))"

end
