(* ===== verification/TrainingConfig.thy ===== *)
theory TrainingConfig
  imports Entities VllmArgs "HOL-Library.Monad_Syntax"
begin

text \<open>
  The fixed LLaMA-Factory configuration: \<open>workers/training_config/.../builder.py\<close> builds it on the node
  from the whitelisted hyperparameters, \<open>workers/training_runtime/.../runtime.py\<close> recomputes and compares
  it inside the training container. A float is the rational it denotes.
\<close>

section \<open>Hyperparameters\<close>

record hyperparameters =
  hp_template :: "string option"
  hp_epochs :: rat
  hp_learning_rate :: rat
  hp_cutoff_len :: int
  hp_batch_size :: int
  hp_accumulation :: int
  hp_logging_steps :: int
  hp_save_steps :: int
  hp_warmup_ratio :: rat
  hp_lora_rank :: int
  hp_lora_alpha :: int
  hp_lora_dropout :: rat
  hp_freeze_layers :: int
  hp_max_samples :: "int option"
  hp_seed :: int

text \<open>The doubles \<open>2e-4\<close>, \<open>1e-7\<close>, \<open>0.03\<close> and \<open>0.05\<close>.\<close>

definition double_2e_4 :: rat where "double_2e_4 = 7378697629483821 / 36893488147419103232"
definition double_1e_7 :: rat where "double_1e_7 = 944473296573929 / 9444732965739290427392"
definition double_0_03 :: rat where "double_0_03 = 1080863910568919 / 36028797018963968"
definition double_0_05 :: rat where "double_0_05 = 3602879701896397 / 72057594037927936"

definition alphanumeric :: "char \<Rightarrow> bool" where
  "alphanumeric c \<longleftrightarrow> is_dec c \<or> 65 \<le> code c \<and> code c \<le> 90 \<or> 97 \<le> code c \<and> code c \<le> 122"

text \<open>The pattern of a template: a letter or digit, then up to 63 letters, digits or \<open>. _ + -\<close>.\<close>

definition template_ok :: "string \<Rightarrow> bool" where
  "template_ok s \<longleftrightarrow> (case s of [] \<Rightarrow> False
     | c # cs \<Rightarrow> alphanumeric c \<and> length cs \<le> 63
         \<and> list_all (\<lambda>d. alphanumeric d \<or> d \<in> {CHR ''.'', CHR ''_'', CHR ''+'', CHR ''-''}) cs)"

definition hyper_fields :: "string list" where
  "hyper_fields = [''template'', ''num_train_epochs'', ''learning_rate'', ''cutoff_len'',
     ''per_device_train_batch_size'', ''gradient_accumulation_steps'', ''logging_steps'', ''save_steps'',
     ''warmup_ratio'', ''lora_rank'', ''lora_alpha'', ''lora_dropout'', ''freeze_trainable_layers'',
     ''max_samples'', ''seed'']"

text \<open>Strict fields: a float takes an integer too, nothing takes a Boolean.\<close>

definition float_field :: "json_obj \<Rightarrow> string \<Rightarrow> rat \<Rightarrow> (rat \<Rightarrow> bool) \<Rightarrow> rat option" where
  "float_field kvs k d ok =
     (case map_of kvs k of
        None \<Rightarrow> Some d
      | Some v \<Rightarrow> (case number v of Some q \<Rightarrow> (if ok q then Some q else None) | None \<Rightarrow> None))"

definition int_field :: "json_obj \<Rightarrow> string \<Rightarrow> int \<Rightarrow> int \<Rightarrow> int \<Rightarrow> int option" where
  "int_field kvs k d lo hi =
     (case map_of kvs k of
        None \<Rightarrow> Some d
      | Some v \<Rightarrow> (case integer v of Some i \<Rightarrow> (if lo \<le> i \<and> i \<le> hi then Some i else None) | None \<Rightarrow> None))"

definition template_field :: "json_obj \<Rightarrow> string option option" where
  "template_field kvs =
     (case map_of kvs ''template'' of
        None \<Rightarrow> Some None
      | Some JNull \<Rightarrow> Some None
      | Some (JStr s) \<Rightarrow> (if template_ok s then Some (Some s) else None)
      | Some _ \<Rightarrow> None)"

definition max_samples_field :: "json_obj \<Rightarrow> int option option" where
  "max_samples_field kvs =
     (case map_of kvs ''max_samples'' of
        None \<Rightarrow> Some None
      | Some JNull \<Rightarrow> Some None
      | Some (JInt i) \<Rightarrow> (if 1 \<le> i \<and> i \<le> 10000000 then Some (Some i) else None)
      | Some _ \<Rightarrow> None)"

definition epochs_ok :: "rat \<Rightarrow> bool" where "epochs_ok q \<longleftrightarrow> 0 < q \<and> q \<le> 100"
definition learning_rate_ok :: "rat \<Rightarrow> bool" where "learning_rate_ok q \<longleftrightarrow> double_1e_7 \<le> q \<and> q \<le> 1"
definition warmup_ok :: "rat \<Rightarrow> bool" where "warmup_ok q \<longleftrightarrow> 0 \<le> q \<and> q \<le> 1"
definition dropout_ok :: "rat \<Rightarrow> bool" where "dropout_ok q \<longleftrightarrow> 0 \<le> q \<and> q < 1"

text \<open>\<open>TrainingHyperparameters.model_validate\<close>; None is its \<open>ValidationError\<close>.\<close>

definition parse_hyper :: "json_obj \<Rightarrow> hyperparameters option" where
  "parse_hyper kvs =
     (if \<not> set (map fst kvs) \<subseteq> set hyper_fields then None
      else do {
        template \<leftarrow> template_field kvs;
        epochs \<leftarrow> float_field kvs ''num_train_epochs'' 3 epochs_ok;
        rate \<leftarrow> float_field kvs ''learning_rate'' double_2e_4 learning_rate_ok;
        cutoff \<leftarrow> int_field kvs ''cutoff_len'' 2048 128 65536;
        batch \<leftarrow> int_field kvs ''per_device_train_batch_size'' 1 1 128;
        accumulation \<leftarrow> int_field kvs ''gradient_accumulation_steps'' 8 1 4096;
        logging \<leftarrow> int_field kvs ''logging_steps'' 10 1 100000;
        save \<leftarrow> int_field kvs ''save_steps'' 100 1 1000000;
        warmup \<leftarrow> float_field kvs ''warmup_ratio'' double_0_03 warmup_ok;
        rank \<leftarrow> int_field kvs ''lora_rank'' 16 1 1024;
        alpha \<leftarrow> int_field kvs ''lora_alpha'' 32 1 4096;
        dropout \<leftarrow> float_field kvs ''lora_dropout'' double_0_05 dropout_ok;
        layers \<leftarrow> int_field kvs ''freeze_trainable_layers'' 2 1 256;
        samples \<leftarrow> max_samples_field kvs;
        seed \<leftarrow> int_field kvs ''seed'' 42 0 2147483647;
        Some \<lparr>hp_template = template, hp_epochs = epochs, hp_learning_rate = rate, hp_cutoff_len = cutoff,
          hp_batch_size = batch, hp_accumulation = accumulation, hp_logging_steps = logging,
          hp_save_steps = save, hp_warmup_ratio = warmup, hp_lora_rank = rank, hp_lora_alpha = alpha,
          hp_lora_dropout = dropout, hp_freeze_layers = layers, hp_max_samples = samples, hp_seed = seed\<rparr> })"

text \<open>The constraints on a value of the class.\<close>

definition between :: "int \<Rightarrow> int \<Rightarrow> int \<Rightarrow> bool" where "between lo hi i \<longleftrightarrow> lo \<le> i \<and> i \<le> hi"

definition hyper_ok :: "hyperparameters \<Rightarrow> bool" where
  "hyper_ok h \<longleftrightarrow> (case hp_template h of None \<Rightarrow> True | Some s \<Rightarrow> template_ok s)
     \<and> epochs_ok (hp_epochs h) \<and> learning_rate_ok (hp_learning_rate h) \<and> between 128 65536 (hp_cutoff_len h)
     \<and> between 1 128 (hp_batch_size h) \<and> between 1 4096 (hp_accumulation h)
     \<and> between 1 100000 (hp_logging_steps h) \<and> between 1 1000000 (hp_save_steps h)
     \<and> warmup_ok (hp_warmup_ratio h) \<and> between 1 1024 (hp_lora_rank h) \<and> between 1 4096 (hp_lora_alpha h)
     \<and> dropout_ok (hp_lora_dropout h) \<and> between 1 256 (hp_freeze_layers h)
     \<and> (case hp_max_samples h of None \<Rightarrow> True | Some i \<Rightarrow> between 1 10000000 i)
     \<and> between 0 2147483647 (hp_seed h)"

section \<open>The builder\<close>

datatype dataset_format = CPT_TEXT | ALPACA | MESSAGES

fun format_value :: "dataset_format \<Rightarrow> string" where
  "format_value CPT_TEXT = ''cpt_text''"
| "format_value ALPACA = ''alpaca''"
| "format_value MESSAGES = ''messages''"

record training_request =
  tr_hyper :: hyperparameters
  tr_stage :: training_stage
  tr_algorithm :: training_algorithm
  tr_model_path :: string
  tr_dataset_dir :: string
  tr_output_dir :: string
  tr_dataset_name :: string
  tr_format :: dataset_format

datatype config_error = CptNeedsLora | CptNeedsText | SftRejectsText | SftNeedsTemplate

definition validate_combination :: "training_request \<Rightarrow> config_error option" where
  "validate_combination r =
     (if tr_stage r = CPT \<and> tr_algorithm r \<noteq> LORA then Some CptNeedsLora
      else if tr_stage r = CPT \<and> tr_format r \<noteq> CPT_TEXT then Some CptNeedsText
      else if tr_stage r = SFT \<and> tr_format r = CPT_TEXT then Some SftRejectsText
      else if tr_stage r = SFT \<and> \<not> truthy_str (hp_template (tr_hyper r)) then Some SftNeedsTemplate
      else None)"

definition fixed_config :: "training_request \<Rightarrow> json_obj" where
  "fixed_config r =
     (let h = tr_hyper r in
      [(''stage'', JStr (if tr_stage r = CPT then ''pt'' else ''sft'')),
       (''do_train'', JBool True),
       (''model_name_or_path'', JStr (tr_model_path r)),
       (''dataset'', JStr (tr_dataset_name r)),
       (''dataset_dir'', JStr (tr_dataset_dir r)),
       (''output_dir'', JStr (tr_output_dir r)),
       (''overwrite_cache'', JBool False),
       (''overwrite_output_dir'', JBool False),
       (''trust_remote_code'', JBool False),
       (''finetuning_type'', JStr (if tr_algorithm r = FREEZE then ''freeze'' else ''lora'')),
       (''cutoff_len'', JInt (hp_cutoff_len h)),
       (''preprocessing_num_workers'', JInt 8),
       (''per_device_train_batch_size'', JInt (hp_batch_size h)),
       (''gradient_accumulation_steps'', JInt (hp_accumulation h)),
       (''learning_rate'', JFloat (hp_learning_rate h)),
       (''num_train_epochs'', JFloat (hp_epochs h)),
       (''lr_scheduler_type'', JStr ''cosine''),
       (''warmup_ratio'', JFloat (hp_warmup_ratio h)),
       (''bf16'', JBool True),
       (''ddp_timeout'', JInt 18000000),
       (''logging_steps'', JInt (hp_logging_steps h)),
       (''save_steps'', JInt (hp_save_steps h)),
       (''save_total_limit'', JInt 5),
       (''save_safetensors'', JBool True),
       (''plot_loss'', JBool True),
       (''report_to'', JStr ''none''),
       (''seed'', JInt (hp_seed h))])"

definition optional_config :: "training_request \<Rightarrow> json_obj" where
  "optional_config r =
     (let h = tr_hyper r in
      (case hp_max_samples h of None \<Rightarrow> [] | Some n \<Rightarrow> [(''max_samples'', JInt n)])
      @ (if tr_stage r = SFT
         then [(''template'', JStr (case hp_template h of None \<Rightarrow> [] | Some t \<Rightarrow> t)), (''packing'', JBool False)] else [])
      @ (if tr_algorithm r \<in> {LORA, QLORA}
         then [(''lora_target'', JStr ''all''), (''lora_rank'', JInt (hp_lora_rank h)),
               (''lora_alpha'', JInt (hp_lora_alpha h)), (''lora_dropout'', JFloat (hp_lora_dropout h))] else [])
      @ (if tr_algorithm r = QLORA
         then [(''quantization_bit'', JInt 4), (''quantization_method'', JStr ''bitsandbytes'')] else [])
      @ (if tr_algorithm r = FREEZE
         then [(''freeze_trainable_layers'', JInt (hp_freeze_layers h)), (''freeze_trainable_modules'', JStr ''all'')]
         else []))"

definition build_training_config :: "training_request \<Rightarrow> config_error + json_obj" where
  "build_training_config r =
     (case validate_combination r of
        Some e \<Rightarrow> Inl e
      | None \<Rightarrow> Inr (fixed_config r @ optional_config r))"

section \<open>The check inside the training container\<close>

record training_spec =
  ts_model_path :: string
  ts_dataset_dir :: string
  ts_output_path :: string
  ts_stage :: training_stage
  ts_algorithm :: training_algorithm
  ts_format :: dataset_format

definition default_dataset_name :: string where "default_dataset_name = ''openllmops_dataset''"

text \<open>\<open>==\<close> between a JSON value and a scalar of the configuration: numbers, Booleans among them, by value.\<close>

definition py_number :: "json \<Rightarrow> rat option" where
  "py_number v = (case v of JBool b \<Rightarrow> Some (if b then 1 else 0) | _ \<Rightarrow> number v)"

definition scalar_eq :: "json \<Rightarrow> json \<Rightarrow> bool" where
  "scalar_eq a e =
     (case (py_number a, py_number e) of
        (Some x, Some y) \<Rightarrow> x = y
      | (None, None) \<Rightarrow> a = e
      | _ \<Rightarrow> False)"

definition config_eq :: "json_obj \<Rightarrow> json_obj \<Rightarrow> bool" where
  "config_eq actual expected \<longleftrightarrow> set (map fst actual) = set (map fst expected)
     \<and> list_all (\<lambda>k. scalar_eq (the (map_of actual k)) (the (map_of expected k))) (map fst expected)"

datatype runtime_error = ConfigNotWhitelisted | ConfigDiffers

definition spec_request :: "training_spec \<Rightarrow> hyperparameters \<Rightarrow> training_request" where
  "spec_request t h = \<lparr>tr_hyper = h, tr_stage = ts_stage t, tr_algorithm = ts_algorithm t,
     tr_model_path = ts_model_path t, tr_dataset_dir = ts_dataset_dir t, tr_output_dir = ts_output_path t,
     tr_dataset_name = default_dataset_name, tr_format = ts_format t\<rparr>"

definition raw_parameters :: "json_obj \<Rightarrow> json_obj" where
  "raw_parameters actual =
     List.map_filter (\<lambda>k. map_option (Pair k) (map_of actual k)) hyper_fields"

definition validate_training_config :: "training_spec \<Rightarrow> json_obj \<Rightarrow> runtime_error + json_obj" where
  "validate_training_config t actual =
     (case parse_hyper (raw_parameters actual) of
        None \<Rightarrow> Inl ConfigNotWhitelisted
      | Some h \<Rightarrow>
          (case build_training_config (spec_request t h) of
             Inl _ \<Rightarrow> Inl ConfigNotWhitelisted
           | Inr expected \<Rightarrow> (if config_eq actual expected then Inr actual else Inl ConfigDiffers)))"

section \<open>What is parsed is in range\<close>

lemma bind_some: "(do {x \<leftarrow> m; f x}) = Some y \<longleftrightarrow> (\<exists>x. m = Some x \<and> f x = Some y)"
  by (cases m) auto

lemma field_ranges:
  "float_field kvs k d ok = Some q \<Longrightarrow> ok d \<Longrightarrow> ok q"
  "int_field kvs k e lo hi = Some i \<Longrightarrow> lo \<le> e \<Longrightarrow> e \<le> hi \<Longrightarrow> between lo hi i"
  by (auto simp: float_field_def int_field_def between_def split: option.splits if_splits)

lemma defaults_ok: "epochs_ok 3" "learning_rate_ok double_2e_4" "warmup_ok double_0_03" "dropout_ok double_0_05"
  by (simp_all add: epochs_ok_def learning_rate_ok_def warmup_ok_def dropout_ok_def double_2e_4_def
      double_1e_7_def double_0_03_def double_0_05_def)

lemma template_field_ok: "template_field kvs = Some t \<Longrightarrow> (case t of None \<Rightarrow> True | Some s \<Rightarrow> template_ok s)"
  by (auto simp: template_field_def split: option.splits json.splits if_splits)

lemma max_samples_field_ok: "max_samples_field kvs = Some t \<Longrightarrow> (case t of None \<Rightarrow> True | Some i \<Rightarrow> between 1 10000000 i)"
  by (auto simp: max_samples_field_def between_def split: option.splits json.splits if_splits)

lemma parse_hyper_fields:
  "parse_hyper kvs = Some h \<longleftrightarrow> set (map fst kvs) \<subseteq> set hyper_fields
     \<and> template_field kvs = Some (hp_template h)
     \<and> float_field kvs ''num_train_epochs'' 3 epochs_ok = Some (hp_epochs h)
     \<and> float_field kvs ''learning_rate'' double_2e_4 learning_rate_ok = Some (hp_learning_rate h)
     \<and> int_field kvs ''cutoff_len'' 2048 128 65536 = Some (hp_cutoff_len h)
     \<and> int_field kvs ''per_device_train_batch_size'' 1 1 128 = Some (hp_batch_size h)
     \<and> int_field kvs ''gradient_accumulation_steps'' 8 1 4096 = Some (hp_accumulation h)
     \<and> int_field kvs ''logging_steps'' 10 1 100000 = Some (hp_logging_steps h)
     \<and> int_field kvs ''save_steps'' 100 1 1000000 = Some (hp_save_steps h)
     \<and> float_field kvs ''warmup_ratio'' double_0_03 warmup_ok = Some (hp_warmup_ratio h)
     \<and> int_field kvs ''lora_rank'' 16 1 1024 = Some (hp_lora_rank h)
     \<and> int_field kvs ''lora_alpha'' 32 1 4096 = Some (hp_lora_alpha h)
     \<and> float_field kvs ''lora_dropout'' double_0_05 dropout_ok = Some (hp_lora_dropout h)
     \<and> int_field kvs ''freeze_trainable_layers'' 2 1 256 = Some (hp_freeze_layers h)
     \<and> max_samples_field kvs = Some (hp_max_samples h)
     \<and> int_field kvs ''seed'' 42 0 2147483647 = Some (hp_seed h)"
proof (cases "set (map fst kvs) \<subseteq> set hyper_fields")
  case True
  have eq: "\<lparr>hp_template = a, hp_epochs = b, hp_learning_rate = c, hp_cutoff_len = d, hp_batch_size = e,
      hp_accumulation = f, hp_logging_steps = g, hp_save_steps = i, hp_warmup_ratio = j, hp_lora_rank = k,
      hp_lora_alpha = l, hp_lora_dropout = m, hp_freeze_layers = n, hp_max_samples = p, hp_seed = q\<rparr> = h \<longleftrightarrow>
      a = hp_template h \<and> b = hp_epochs h \<and> c = hp_learning_rate h \<and> d = hp_cutoff_len h \<and> e = hp_batch_size h
      \<and> f = hp_accumulation h \<and> g = hp_logging_steps h \<and> i = hp_save_steps h \<and> j = hp_warmup_ratio h
      \<and> k = hp_lora_rank h \<and> l = hp_lora_alpha h \<and> m = hp_lora_dropout h \<and> n = hp_freeze_layers h
      \<and> p = hp_max_samples h \<and> q = hp_seed h" for a b c d e f g i j k l m n p q
    by (cases h) auto
  show ?thesis
    unfolding parse_hyper_def if_not_P [OF not_not [THEN iffD2, OF True]] bind_some option.inject eq
    using True by (simp only: simp_thms ex_simps) blast
next
  case False
  then show ?thesis by (simp add: parse_hyper_def)
qed

lemma parse_hyper_ok: "parse_hyper kvs = Some h \<Longrightarrow> hyper_ok h"
  unfolding parse_hyper_fields hyper_ok_def
  by (elim conjE, intro conjI)
     (erule template_field_ok max_samples_field_ok | erule field_ranges(1), rule defaults_ok | erule field_ranges(2), simp, simp)+

section \<open>The built configuration passes the check\<close>

lemma get_raw: "map_of (raw_parameters actual) k = (if k \<in> set hyper_fields then map_of actual k else None)"
proof -
  have "map_of (List.map_filter (\<lambda>k. map_option (Pair k) (map_of actual k)) ks) k
      = (if k \<in> set ks then map_of actual k else None)" for ks
    by (induction ks) (auto simp: map_filter_simps split: option.splits)
  then show ?thesis by (simp add: raw_parameters_def)
qed

lemma raw_keys: "set (map fst (raw_parameters actual)) \<subseteq> set hyper_fields"
  by (auto simp: raw_parameters_def List.map_filter_def)

definition config_of :: "training_request \<Rightarrow> json_obj" where
  "config_of r = fixed_config r @ optional_config r"

lemma config_fields:
  "map_of (config_of r) ''num_train_epochs'' = Some (JFloat (hp_epochs (tr_hyper r)))"
  "map_of (config_of r) ''learning_rate'' = Some (JFloat (hp_learning_rate (tr_hyper r)))"
  "map_of (config_of r) ''cutoff_len'' = Some (JInt (hp_cutoff_len (tr_hyper r)))"
  "map_of (config_of r) ''per_device_train_batch_size'' = Some (JInt (hp_batch_size (tr_hyper r)))"
  "map_of (config_of r) ''gradient_accumulation_steps'' = Some (JInt (hp_accumulation (tr_hyper r)))"
  "map_of (config_of r) ''logging_steps'' = Some (JInt (hp_logging_steps (tr_hyper r)))"
  "map_of (config_of r) ''save_steps'' = Some (JInt (hp_save_steps (tr_hyper r)))"
  "map_of (config_of r) ''warmup_ratio'' = Some (JFloat (hp_warmup_ratio (tr_hyper r)))"
  "map_of (config_of r) ''seed'' = Some (JInt (hp_seed (tr_hyper r)))"
  "map_of (config_of r) ''trust_remote_code'' = Some (JBool False)"
  "map_of (config_of r) ''save_safetensors'' = Some (JBool True)"
  by (simp_all add: config_of_def fixed_config_def Let_def)

lemma config_optional:
  "map_of (config_of r) ''max_samples'' = map_option JInt (hp_max_samples (tr_hyper r))"
  "map_of (config_of r) ''template'' = (if tr_stage r = SFT
     then Some (JStr (case hp_template (tr_hyper r) of None \<Rightarrow> [] | Some t \<Rightarrow> t)) else None)"
  "map_of (config_of r) ''lora_rank'' = (if tr_algorithm r \<in> {LORA, QLORA} then Some (JInt (hp_lora_rank (tr_hyper r))) else None)"
  "map_of (config_of r) ''lora_alpha'' = (if tr_algorithm r \<in> {LORA, QLORA} then Some (JInt (hp_lora_alpha (tr_hyper r))) else None)"
  "map_of (config_of r) ''lora_dropout'' = (if tr_algorithm r \<in> {LORA, QLORA} then Some (JFloat (hp_lora_dropout (tr_hyper r))) else None)"
  "map_of (config_of r) ''freeze_trainable_layers'' = (if tr_algorithm r = FREEZE then Some (JInt (hp_freeze_layers (tr_hyper r))) else None)"
  by (simp_all add: config_of_def fixed_config_def optional_config_def Let_def split: option.split)

text \<open>What the configuration does not mention falls back to its default.\<close>

definition mentioned :: "training_request \<Rightarrow> hyperparameters" where
  "mentioned r =
     (let h = tr_hyper r; adapter = tr_algorithm r \<in> {LORA, QLORA} in
      h\<lparr>hp_template := (if tr_stage r = SFT then hp_template h else None),
        hp_lora_rank := (if adapter then hp_lora_rank h else 16),
        hp_lora_alpha := (if adapter then hp_lora_alpha h else 32),
        hp_lora_dropout := (if adapter then hp_lora_dropout h else double_0_05),
        hp_freeze_layers := (if tr_algorithm r = FREEZE then hp_freeze_layers h else 2)\<rparr>)"

lemma parse_built:
  assumes "hyper_ok (tr_hyper r)" and "validate_combination r = None"
  shows "parse_hyper (raw_parameters (config_of r)) = Some (mentioned r)"
proof -
  have t: "template_field (raw_parameters (config_of r)) = Some (hp_template (mentioned r))"
    using assms by (auto simp: template_field_def get_raw config_optional mentioned_def hyper_fields_def Let_def
        hyper_ok_def validate_combination_def split: option.splits if_splits)
  have m: "max_samples_field (raw_parameters (config_of r)) = Some (hp_max_samples (mentioned r))"
    using assms(1) by (auto simp: max_samples_field_def get_raw config_optional mentioned_def hyper_fields_def Let_def
        hyper_ok_def between_def split: option.splits)
  show ?thesis
    unfolding parse_hyper_fields
    by (intro conjI raw_keys t m)
       (use assms(1) in \<open>simp_all add: float_field_def int_field_def get_raw config_fields config_optional
         hyper_fields_def mentioned_def Let_def hyper_ok_def between_def\<close>)
qed

lemma same_config: "config_of (r\<lparr>tr_hyper := mentioned r\<rparr>) = config_of r"
  by (simp add: config_of_def fixed_config_def optional_config_def mentioned_def Let_def)

lemma config_eq_refl: "config_eq c c"
  by (simp add: config_eq_def scalar_eq_def list_all_iff split: option.split)

definition spec_of :: "training_request \<Rightarrow> training_spec" where
  "spec_of r = \<lparr>ts_model_path = tr_model_path r, ts_dataset_dir = tr_dataset_dir r, ts_output_path = tr_output_dir r,
     ts_stage = tr_stage r, ts_algorithm = tr_algorithm r, ts_format = tr_format r\<rparr>"

text \<open>
  C26. What the node builds, the training container accepts: a configuration that \<open>build_training_config\<close>
  makes of hyperparameters in range passes \<open>validate_training_config\<close> for the same paths, stage,
  algorithm and format, although the check reads back only the parameters the file mentions.
\<close>

theorem built_config_is_accepted:
  assumes "hyper_ok (tr_hyper r)" and "tr_dataset_name r = default_dataset_name"
    and "build_training_config r = Inr c"
  shows "validate_training_config (spec_of r) c = Inr c"
proof -
  have v: "validate_combination r = None" and c: "c = config_of r"
    using assms(3) by (auto simp: build_training_config_def config_of_def split: option.splits)
  let ?r = "r\<lparr>tr_hyper := mentioned r\<rparr>"
  have spec: "spec_request (spec_of r) (mentioned r) = ?r"
    using assms(2) by (cases r) (simp add: spec_request_def spec_of_def)
  have "validate_combination ?r = None"
    using v by (auto simp: validate_combination_def mentioned_def Let_def split: if_splits)
  then have "build_training_config ?r = Inr c"
    using same_config [of r] c by (simp add: build_training_config_def config_of_def)
  then show ?thesis
    using parse_built [OF assms(1) v] spec c
    by (simp add: validate_training_config_def config_eq_refl)
qed

definition demo_training :: training_request where
  "demo_training = \<lparr>tr_hyper = \<lparr>hp_template = Some ''qwen'', hp_epochs = 3, hp_learning_rate = double_2e_4,
       hp_cutoff_len = 2048, hp_batch_size = 1, hp_accumulation = 8, hp_logging_steps = 10, hp_save_steps = 100,
       hp_warmup_ratio = double_0_03, hp_lora_rank = 8, hp_lora_alpha = 32, hp_lora_dropout = double_0_05,
       hp_freeze_layers = 2, hp_max_samples = None, hp_seed = 42\<rparr>,
     tr_stage = SFT, tr_algorithm = QLORA, tr_model_path = ''/workspace/model'',
     tr_dataset_dir = ''/workspace/dataset'', tr_output_dir = ''/workspace/output'',
     tr_dataset_name = default_dataset_name, tr_format = MESSAGES\<rparr>"

lemma demo_hyper_ok: "hyper_ok (tr_hyper demo_training)"
  by (simp add: demo_training_def hyper_ok_def between_def template_ok_def alphanumeric_def is_dec_def defaults_ok)

lemma demo_config: "build_training_config demo_training = Inr (config_of demo_training)"
  by (simp add: build_training_config_def validate_combination_def config_of_def)
     (simp add: demo_training_def)

lemma built_config_is_accepted_witness:
  "validate_training_config (spec_of demo_training) (config_of demo_training) = Inr (config_of demo_training)"
  using built_config_is_accepted [OF demo_hyper_ok _ demo_config] by (simp add: demo_training_def)

text \<open>
  A configuration the training container accepts holds exactly the keys of the whitelist for its
  stage and algorithm, never enables remote code, keeps Safetensors on, and its numbers are those of
  hyperparameters within the stated ranges.
\<close>

theorem accepted_config_is_whitelisted:
  assumes "validate_training_config t a = Inr b"
  shows "b = a \<and> (\<exists>h. hyper_ok h \<and> config_eq a (config_of (spec_request t h)))
    \<and> scalar_eq (the (map_of a ''trust_remote_code'')) (JBool False)
    \<and> scalar_eq (the (map_of a ''save_safetensors'')) (JBool True)"
proof -
  obtain h e where h: "parse_hyper (raw_parameters a) = Some h" "build_training_config (spec_request t h) = Inr e"
    "config_eq a e" "b = a"
  proof (cases "parse_hyper (raw_parameters a)")
    case (Some h)
    then show ?thesis
    proof (cases "build_training_config (spec_request t h)")
      case (Inr e)
      then have "config_eq a e" "b = a"
        using assms Some unfolding validate_training_config_def by (simp_all only: option.case sum.case split: if_splits)
          simp_all
      then show ?thesis using Some Inr that by blast
    qed (use assms in \<open>simp add: validate_training_config_def\<close>)
  qed (use assms in \<open>simp add: validate_training_config_def\<close>)
  have e: "e = config_of (spec_request t h)"
    using h(2) by (auto simp: build_training_config_def config_of_def split: option.splits)
  have at: "scalar_eq (the (map_of a k)) v" if "map_of e k = Some v" for k v
  proof -
    have "k \<in> set (map fst e)" using map_of_SomeD [OF that] by force
    then have "scalar_eq (the (map_of a k)) (the (map_of e k))"
      using h(3) unfolding config_eq_def list_all_iff by blast
    then show ?thesis using that by simp
  qed
  show ?thesis
    using parse_hyper_ok [OF h(1)] h(3,4) at [unfolded e, OF config_fields(10)] at [unfolded e, OF config_fields(11)]
    unfolding e by blast
qed

lemma accepted_config_is_whitelisted_witness:
  "scalar_eq (the (map_of (config_of demo_training) ''trust_remote_code'')) (JBool False)"
  using accepted_config_is_whitelisted [OF built_config_is_accepted_witness] by blast

end
