(* ===== verification/WorkloadLaunch.thy ===== *)
theory WorkloadLaunch
  imports DockerRunner TrainingConfig
begin

text \<open>
  The launches of \<open>DockerRunner\<close> (\<open>agent/openllmops_agent/docker_runner.py\<close>: \<open>launch_inference\<close>,
  \<open>launch_training\<close>, \<open>launch_evaluation\<close>, \<open>_run_container\<close>) and \<open>start\<close>, \<open>stop\<close>, \<open>delete\<close>. A launch first
  turns its request into the arguments of \<open>_run_container\<close>, then, under the allocation lock, checks
  name and cards and creates the container.
\<close>

section \<open>Launch requests\<close>

record inference_launch =
  il_id :: uuid
  il_generation :: int
  il_image :: string
  il_gpu_ids :: "int list"
  il_model_path :: path
  il_served_model_name :: string
  il_service_type :: string
  il_port :: int
  il_vllm_args :: json_obj
  il_environment :: labels

record training_launch =
  tl_id :: uuid
  tl_generation :: int
  tl_image :: string
  tl_gpu_ids :: "int list"
  tl_model_path :: path
  tl_dataset_path :: path
  tl_dataset_dir :: path
  tl_config_path :: path
  tl_output_path :: path
  tl_stage :: training_stage
  tl_algorithm :: training_algorithm
  tl_dataset_format :: dataset_format
  tl_environment :: labels

record evaluation_launch =
  el_id :: uuid
  el_generation :: int
  el_image :: string
  el_gpu_ids :: "int list"
  el_baseline_path :: path
  el_candidate_path :: path
  el_dataset_path :: path
  el_manifest_path :: path
  el_output_path :: path
  el_base_template :: string
  el_candidate_template :: string
  el_tensor_parallel_size :: int
  el_gpu_memory_utilization :: rat
  el_concurrency :: int
  el_max_tokens :: int

text \<open>The constraints of \<open>InferenceLaunchRequest\<close> that its caller does not already guarantee.\<close>

definition launch_fields_ok :: "string \<Rightarrow> int list \<Rightarrow> bool" where
  "launch_fields_ok img gs \<longleftrightarrow> 1 \<le> length img \<and> length img \<le> 255 \<and> 1 \<le> length gs \<and> length gs \<le> 16 \<and> distinct gs"

definition json_scalar :: "json \<Rightarrow> bool" where
  "json_scalar v = (case v of JBool _ \<Rightarrow> True | JInt _ \<Rightarrow> True | JFloat _ \<Rightarrow> True | JStr _ \<Rightarrow> True | _ \<Rightarrow> False)"

section \<open>Environments\<close>

definition inference_env_allowlist :: "string set" where
  "inference_env_allowlist = {''CUDA_DEVICE_MAX_CONNECTIONS'', ''NCCL_DEBUG'', ''NCCL_IB_DISABLE'',
     ''NCCL_P2P_DISABLE'', ''VLLM_LOGGING_LEVEL''}"

definition training_env_allowlist :: "string set" where
  "training_env_allowlist = {''CUDA_DEVICE_MAX_CONNECTIONS'', ''NCCL_DEBUG'', ''NCCL_IB_DISABLE'',
     ''NCCL_P2P_DISABLE'', ''TOKENIZERS_PARALLELISM'', ''WANDB_DISABLED''}"

definition env_value_ok :: "string \<Rightarrow> bool" where
  "env_value_ok v \<longleftrightarrow> length v \<le> 1024 \<and> CHR 0x00 \<notin> set v \<and> CHR 0x0A \<notin> set v \<and> CHR 0x0D \<notin> set v"

fun safe_environment :: "labels \<Rightarrow> string set \<Rightarrow> labels \<Rightarrow> runner_error + labels" where
  "safe_environment [] allowlist result = Inr result"
| "safe_environment ((k, v) # rest) allowlist result =
     (if k \<notin> allowlist then Inl (InvalidWorkload ''environment variable not allowed'')
      else if \<not> env_value_ok v then Inl (InvalidWorkload ''environment value unsafe'')
      else safe_environment rest allowlist (dict_set k v result))"

definition offline_environment :: labels where
  "offline_environment =
     [(''HF_HUB_OFFLINE'', ''1''), (''TRANSFORMERS_OFFLINE'', ''1''), (''HF_HUB_DISABLE_TELEMETRY'', ''1'')]"

text \<open>\<open>d.update(e)\<close>.\<close>

definition dict_merge :: "('k \<times> 'v) list \<Rightarrow> ('k \<times> 'v) list \<Rightarrow> ('k \<times> 'v) list" where
  "dict_merge d e = fold (\<lambda>(k, v). dict_set k v) e d"

section \<open>\<open>_run_container\<close>\<close>

definition run_spec_of :: "settings \<Rightarrow> run_request \<Rightarrow> run_spec" where
  "run_spec_of st q =
     \<lparr>rs_image = rq_image q, rs_name = rq_name q, rs_command = rq_command q,
      rs_network = (case rq_network_mode q of Some n \<Rightarrow> NetworkMode n | None \<Rightarrow> Network (st_runtime_network st)),
      rs_healthcheck = rq_healthcheck q, rs_device_ids = map str_int (rq_gpu_ids q),
      rs_environment = rq_environment q, rs_volumes = rq_volumes q, rs_labels = run_labels q,
      rs_user = str_int (st_uid st) @ '':'' @ str_int (st_gid st), rs_read_only = True,
      rs_cap_drop = [''ALL''], rs_security_opt = [''no-new-privileges:true''], rs_init = True,
      rs_shm_size = st_shm_size st, rs_tmpfs = [(''/tmp'', ''rw,nosuid,nodev,size=4g,mode=1777'')],
      rs_restart = rq_restart q,
      rs_log_config = (''local'', [(''max-size'', ''20m''), (''max-file'', ''5'')])\<rparr>"

definition run_container :: "('d, 'f) agent_env \<Rightarrow> run_request \<Rightarrow> ('d, 'f, 'z, container) operation" where
  "run_container V q =
     rescue (docker (e_run (av_engine V) (run_spec_of (av_settings V) q)))
       (\<lambda>e. throw (if e \<in> {NotFoundError, ApiFault} then OtherRunnerError ''cannot create workload'' else DockerRaised e))"

text \<open>The part of every launch that runs under the allocation lock.\<close>

definition allocate :: "('d, 'f) agent_env \<Rightarrow> run_request \<Rightarrow> ('d, 'f, 'z, container) operation" where
  "allocate V q =
     and_then (assert_name_available V (rq_name q)) (\<lambda>_.
     and_then (assert_gpus_available V (rq_gpu_ids q) None) (\<lambda>_.
     run_container V q))"

section \<open>Verified images\<close>

definition verified_image_id ::
  "('d, 'f) agent_env \<Rightarrow> (labels \<Rightarrow> bool) \<Rightarrow> string \<Rightarrow> ('d, 'f, 'z, string) operation" where
  "verified_image_id V labels_ok reference =
     and_then (rescue (docker (e_image (av_engine V) reference))
       (\<lambda>e. throw (if e = NotFoundError then InvalidWorkload ''image not present'' else DockerRaised e))) (\<lambda>img.
     and_then (require (labels_ok (img_labels img)) (InvalidWorkload ''image labels'')) (\<lambda>_.
     case img_id img of
       Some w \<Rightarrow> (if prefix ''sha256:'' w then give w else throw (InvalidWorkload ''image id''))
     | None \<Rightarrow> throw (InvalidWorkload ''image id'')))"

section \<open>\<open>launch_inference\<close>\<close>

definition health_command :: "int \<Rightarrow> string" where
  "health_command pt = ''import urllib.request; urllib.request.urlopen('' @ [CHR 0x27]
     @ ''http://127.0.0.1:'' @ str_int pt @ ''/health'' @ [CHR 0x27] @ '', timeout=3).close()''"

definition inference_healthcheck :: "settings \<Rightarrow> int \<Rightarrow> healthcheck" where
  "inference_healthcheck st pt =
     \<lparr>hc_test = [''CMD'', ''python'', ''-c'', health_command pt],
      hc_interval = inference_health_interval_seconds * 1000000000, hc_timeout = 4 * 1000000000,
      hc_retries = 3, hc_start_period = st_startup_timeout st * 1000000000\<rparr>"

definition inference_environment :: labels where
  "inference_environment =
     [(''HF_HOME'', ''/workspace/cache/huggingface''), (''TRITON_CACHE_DIR'', ''/workspace/cache/triton''),
      (''TORCHINDUCTOR_CACHE_DIR'', ''/workspace/cache/torchinductor''),
      (''VLLM_CACHE_ROOT'', ''/workspace/cache/vllm''), (''XDG_CACHE_HOME'', ''/workspace/cache/xdg''),
      (''VLLM_NO_USAGE_STATS'', ''1'')]"

definition inference_run ::
  "settings \<Rightarrow> inference_launch \<Rightarrow> string \<Rightarrow> path \<Rightarrow> path \<Rightarrow> int list \<Rightarrow> string list \<Rightarrow> labels \<Rightarrow> run_request" where
  "inference_run st q img model cache gpus command env =
     (let name = workload_name ''inference'' (il_id q) in
      \<lparr>rq_name = name, rq_image = img, rq_command = command, rq_gpu_ids = gpus, rq_kind = ''inference'',
       rq_workload_id = il_id q,
       rq_environment = dict_merge (dict_merge env offline_environment) inference_environment,
       rq_volumes = dict_merge [] [(path_str model, ''/workspace/model'', ''ro''),
         (path_str cache, ''/workspace/cache'', ''rw'')],
       rq_restart = (''on-failure'', Some inference_max_restarts),
       rq_endpoint = Some (''http://'' @ name @ '':'' @ str_int (il_port q)),
       rq_service_type = Some (il_service_type q), rq_generation = il_generation q,
       rq_owner_type = Some ''deployment'', rq_output_path = None, rq_manifest_path = None,
       rq_base_template = None, rq_candidate_template = None, rq_algorithm = None, rq_port = Some (il_port q),
       rq_healthcheck = Some (inference_healthcheck st (il_port q)), rq_network_mode = None\<rparr>)"

definition inference_request :: "('d, 'f) agent_env \<Rightarrow> inference_launch \<Rightarrow> ('d, 'f, 'z, run_request) operation" where
  "inference_request V q =
     (let st = av_settings V in
      and_then (require (il_image q \<in> set (image_list (st_vllm_allowed st))) (InvalidWorkload ''image not allowed'')) (\<lambda>_.
      and_then (verified_image_id V (\<lambda>_. True) (il_image q)) (\<lambda>img.
      and_then (call_files (existing_path (av_host V) (il_model_path q) (st_model_root st) (Some True))) (\<lambda>model.
      and_then (from_sum (validate_gpu_ids st (il_gpu_ids q))) (\<lambda>gpus.
      and_then (call_files (writable_task_path (av_host V) (st_runtime_root st) ''inference'' (il_id q))) (\<lambda>cache.
      and_then (from_sum (case vllm_command (av_float V)
           \<lparr>inf_args = il_vllm_args q, inf_embedding = (il_service_type q = ''embedding''),
            inf_port = il_port q, inf_served_name = il_served_model_name q\<rparr> gpus of
         Inl _ \<Rightarrow> Inl (InvalidWorkload ''vLLM argument'') | Inr w \<Rightarrow> Inr w)) (\<lambda>command.
      and_then (from_sum (safe_environment (il_environment q) inference_env_allowlist [])) (\<lambda>env.
      give (inference_run st q img model cache gpus command env)))))))))"

definition launch_inference :: "('d, 'f) agent_env \<Rightarrow> inference_launch \<Rightarrow> ('d, 'f, 'z, workload_info) operation" where
  "launch_inference V q =
     and_then (inference_request V q) (\<lambda>r. and_then (allocate V r) (to_info V))"

section \<open>\<open>launch_training\<close>\<close>

text \<open>\<open>Path.name\<close>, \<open>Path.parent\<close> and \<open>Path.suffix\<close> of a path below a root.\<close>

definition path_name :: "path \<Rightarrow> string" where
  "path_name p = (if p = [] \<or> is_root_part (last p) then [] else last p)"

definition path_parent :: "path \<Rightarrow> path" where
  "path_parent p = (if path_name p = [] then p else butlast p)"

definition path_suffix :: "path \<Rightarrow> string" where
  "path_suffix p =
     (let w = path_name p; tail = rev (takeWhile (\<lambda>c. c \<noteq> CHR ''.'') (rev w)) in
      if tail \<noteq> [] \<and> length tail + 1 < length w then CHR ''.'' # tail else [])"

definition training_environment :: "int list \<Rightarrow> labels" where
  "training_environment gpus =
     [(''HF_HOME'', ''/workspace/cache/huggingface''), (''TRITON_CACHE_DIR'', ''/workspace/cache/triton''),
      (''XDG_CACHE_HOME'', ''/workspace/cache/xdg''), (''WANDB_DISABLED'', ''true''),
      (''DISABLE_VERSION_CHECK'', ''1''),
      (''FORCE_TORCHRUN'', if length gpus > 1 then ''1'' else ''0''), (''NNODES'', ''1''), (''NODE_RANK'', ''0''),
      (''NPROC_PER_NODE'', str_int (int (length gpus))), (''MASTER_ADDR'', ''127.0.0.1''),
      (''MASTER_PORT'', ''29500''), (''NCCL_IB_DISABLE'', ''1''), (''NCCL_P2P_DISABLE'', ''1'')]"

text \<open>The workspace of a training container, as \<open>training_runtime\<close> fixes it.\<close>

definition workspace_config :: string where "workspace_config = ''/workspace/config/training.json''"
definition workspace_model :: string where "workspace_model = ''/workspace/model''"
definition workspace_dataset :: string where "workspace_dataset = ''/workspace/dataset''"
definition workspace_data_file :: string where "workspace_data_file = ''/workspace/data/training.jsonl''"
definition workspace_output :: string where "workspace_output = ''/workspace/output''"
definition workspace_cache :: string where "workspace_cache = ''/workspace/cache''"

definition training_command :: "training_launch \<Rightarrow> string list" where
  "training_command q =
     [''run'', ''--config'', workspace_config, ''--model-path'', workspace_model,
      ''--dataset-dir'', workspace_dataset, ''--output-dir'', workspace_output, ''--stage'', stage_value (tl_stage q),
      ''--algorithm'', algorithm_value (tl_algorithm q), ''--dataset-format'', format_value (tl_dataset_format q)]"

text \<open>The configuration the node checks before it starts the container.\<close>

definition launch_spec :: "training_launch \<Rightarrow> training_spec" where
  "launch_spec q = \<lparr>ts_model_path = workspace_model, ts_dataset_dir = workspace_dataset,
     ts_output_path = workspace_output, ts_stage = tl_stage q, ts_algorithm = tl_algorithm q,
     ts_format = tl_dataset_format q\<rparr>"

definition training_run ::
  "training_launch \<Rightarrow> string \<Rightarrow> path \<Rightarrow> path \<Rightarrow> path \<Rightarrow> path \<Rightarrow> path \<Rightarrow> path \<Rightarrow> int list \<Rightarrow> labels \<Rightarrow> run_request" where
  "training_run q img model dataset dataset_dir config out cache gpus env =
     \<lparr>rq_name = workload_name ''training'' (tl_id q), rq_image = img, rq_command = training_command q,
      rq_gpu_ids = gpus, rq_kind = ''training'', rq_workload_id = tl_id q,
      rq_environment = dict_merge (dict_merge env offline_environment) (training_environment gpus),
      rq_volumes = dict_merge []
        [(path_str model, workspace_model, ''ro''), (path_str dataset, workspace_data_file, ''ro''),
         (path_str dataset_dir, workspace_dataset, ''ro''), (path_str config, workspace_config, ''ro''),
         (path_str out, workspace_output, ''rw''), (path_str cache, workspace_cache, ''rw'')],
      rq_restart = (''no'', None), rq_endpoint = None, rq_service_type = None,
      rq_generation = tl_generation q, rq_owner_type = Some ''training'', rq_output_path = Some out,
      rq_manifest_path = None, rq_base_template = None, rq_candidate_template = None,
      rq_algorithm = Some (algorithm_value (tl_algorithm q)), rq_port = None, rq_healthcheck = None,
      rq_network_mode = Some ''none''\<rparr>"

definition training_request :: "('d, 'f) agent_env \<Rightarrow> training_launch \<Rightarrow> ('d, 'f, 'z, run_request) operation" where
  "training_request V q =
     (let st = av_settings V; H = av_host V;
          inside = (\<lambda>p base directory. and_then (call_files (strict_existing_path H p [base] directory)) (\<lambda>(r, _). give r)) in
      and_then (require (tl_image q \<in> set (image_list (st_llamafactory_allowed st))) (InvalidWorkload ''image not allowed'')) (\<lambda>_.
      and_then (verified_image_id V validate_hardening_labels (tl_image q)) (\<lambda>img.
      and_then (inside (tl_model_path q) (st_model_root st) True) (\<lambda>model.
      and_then (inside (tl_dataset_path q) (st_dataset_root st) False) (\<lambda>dataset.
      and_then (inside (tl_config_path q) (st_training_config_root st) False) (\<lambda>config.
      and_then (inside (tl_dataset_dir q) (st_runtime_root st) True) (\<lambda>dataset_dir.
      and_then (require (lower (path_suffix dataset) = ''.jsonl'') (InvalidWorkload ''not a .jsonl file'')) (\<lambda>_.
      and_then (call_files (training_output_path H (st_checkpoint_root st) (tl_output_path q) (tl_id q) True True)) (\<lambda>out.
      and_then (rescue (files (av_read_json V config)) (\<lambda>_. throw (InvalidWorkload ''training configuration''))) (\<lambda>parameters.
      and_then (from_sum (case validate_training_config (launch_spec q) parameters of
         Inl _ \<Rightarrow> Inl (InvalidWorkload ''training configuration'') | Inr _ \<Rightarrow> Inr ())) (\<lambda>_.
      and_then (from_sum (validate_gpu_ids st (tl_gpu_ids q))) (\<lambda>gpus.
      and_then (call_files (writable_task_path H (st_runtime_root st) ''training'' (tl_id q))) (\<lambda>cache.
      and_then (from_sum (safe_environment (tl_environment q) training_env_allowlist [])) (\<lambda>env.
      give (training_run q img model dataset dataset_dir config out cache gpus env)))))))))))))))"

definition launch_training :: "('d, 'f) agent_env \<Rightarrow> training_launch \<Rightarrow> ('d, 'f, 'z, workload_info) operation" where
  "launch_training V q =
     and_then (training_request V q) (\<lambda>r. and_then (allocate V r) (to_info V))"

section \<open>\<open>launch_evaluation\<close>\<close>

definition evaluation_environment :: labels where
  "evaluation_environment =
     [(''HF_HOME'', ''/tmp/huggingface''), (''TRITON_CACHE_DIR'', ''/tmp/triton''),
      (''TORCHINDUCTOR_CACHE_DIR'', ''/tmp/torchinductor''), (''VLLM_CACHE_ROOT'', ''/tmp/vllm''),
      (''XDG_CACHE_HOME'', ''/tmp/xdg''), (''VLLM_NO_USAGE_STATS'', ''1'')]"

definition evaluation_command :: "(rat \<Rightarrow> string) \<Rightarrow> evaluation_launch \<Rightarrow> string \<Rightarrow> string list" where
  "evaluation_command fr q candidate =
     [''run-pair'', ''--dataset'', ''/workspace/dataset/evaluation.jsonl'', ''--output-dir'', ''/workspace/output'',
      ''--baseline-path'', ''/workspace/models/baseline'', ''--baseline-name'', ''baseline'',
      ''--baseline-template'', el_base_template q, ''--candidate-path'', candidate,
      ''--candidate-name'', ''candidate'', ''--candidate-template'', el_candidate_template q,
      ''--tensor-parallel-size'', str_int (el_tensor_parallel_size q),
      ''--gpu-memory-utilization'', fr (el_gpu_memory_utilization q),
      ''--concurrency'', str_int (el_concurrency q), ''--max-tokens'', str_int (el_max_tokens q)]"

definition evaluation_run ::
  "(rat \<Rightarrow> string) \<Rightarrow> evaluation_launch \<Rightarrow> string \<Rightarrow> path \<Rightarrow> path \<Rightarrow> path \<Rightarrow> path \<Rightarrow> path \<Rightarrow> int list \<Rightarrow> run_request" where
  "evaluation_run fr q img baseline candidate dataset manifest out gpus =
     (let same = (baseline = candidate);
          mounts = dict_merge [] [(path_str baseline, ''/workspace/models/baseline'', ''ro''),
            (path_str (path_parent dataset), ''/workspace/dataset'', ''ro''),
            (path_str out, ''/workspace/output'', ''rw'')] in
      \<lparr>rq_name = workload_name ''evaluation'' (el_id q), rq_image = img,
       rq_command = evaluation_command fr q
         (if same then ''/workspace/models/baseline'' else ''/workspace/models/candidate''),
       rq_gpu_ids = gpus, rq_kind = ''evaluation'', rq_workload_id = el_id q,
       rq_environment = dict_merge offline_environment evaluation_environment,
       rq_volumes = (if same then mounts
         else dict_set (path_str candidate) (''/workspace/models/candidate'', ''ro'') mounts),
       rq_restart = (''no'', None), rq_endpoint = None, rq_service_type = None,
       rq_generation = el_generation q, rq_owner_type = Some ''evaluation'', rq_output_path = Some out,
       rq_manifest_path = Some manifest, rq_base_template = Some (el_base_template q),
       rq_candidate_template = Some (el_candidate_template q), rq_algorithm = None, rq_port = None,
       rq_healthcheck = None, rq_network_mode = Some ''none''\<rparr>)"

definition evaluation_request :: "('d, 'f) agent_env \<Rightarrow> evaluation_launch \<Rightarrow> ('d, 'f, 'z, run_request) operation" where
  "evaluation_request V q =
     (let st = av_settings V; H = av_host V;
          inside = (\<lambda>p base directory. and_then (call_files (strict_existing_path H p [base] directory)) (\<lambda>(r, _). give r)) in
      and_then (require (el_image q \<in> set (image_list (st_evaluation_allowed st))) (InvalidWorkload ''image not allowed'')) (\<lambda>_.
      and_then (verified_image_id V validate_evaluation_image_labels (el_image q)) (\<lambda>img.
      and_then (inside (el_baseline_path q) (st_model_root st) True) (\<lambda>baseline.
      and_then (inside (el_candidate_path q) (st_model_root st) True) (\<lambda>candidate.
      and_then (inside (el_dataset_path q) (st_runtime_root st) False) (\<lambda>dataset.
      and_then (inside (el_manifest_path q) (st_runtime_root st) False) (\<lambda>manifest.
      and_then (require (path_name dataset = ''evaluation.jsonl'' \<and> path_name manifest = ''dataset-manifest.json''
          \<and> path_parent dataset = path_parent manifest) (InvalidWorkload ''data and manifest directory'')) (\<lambda>_.
      and_then (call_files (prepare_output_directory H (el_output_path q) (st_evaluation_output_root st) (el_id q))) (\<lambda>out.
      and_then (from_sum (validate_gpu_ids st (el_gpu_ids q))) (\<lambda>gpus.
      and_then (require (el_tensor_parallel_size q = int (length gpus)) (InvalidWorkload ''tensor_parallel_size'')) (\<lambda>_.
      give (evaluation_run (av_float V) q img baseline candidate dataset manifest out gpus))))))))))))"

definition launch_evaluation :: "('d, 'f) agent_env \<Rightarrow> evaluation_launch \<Rightarrow> ('d, 'f, 'z, workload_info) operation" where
  "launch_evaluation V q =
     and_then (evaluation_request V q) (\<lambda>r. and_then (allocate V r) (to_info V))"

section \<open>\<open>start\<close>, \<open>stop\<close>, \<open>delete\<close>\<close>

definition start_workload :: "('d, 'f) agent_env \<Rightarrow> string \<Rightarrow> ('d, 'f, 'z, workload_info) operation" where
  "start_workload V name =
     and_then (managed_container V name) (\<lambda>c.
     and_then (to_info V c) (\<lambda>i.
     if wi_status i \<in> {''running'', ''restarting''} then give i
     else if wi_status i = ''paused'' then throw (WorkloadConflict ''workload is paused'')
     else
       and_then (assert_gpus_available V (wi_gpu_ids i) (Some name)) (\<lambda>_.
       and_then (call_docker (e_start (av_engine V) c)) (\<lambda>_.
       to_info V c))))"

definition stop_workload :: "('d, 'f) agent_env \<Rightarrow> string \<Rightarrow> int \<Rightarrow> ('d, 'f, 'z, workload_info) operation" where
  "stop_workload V name timeout =
     and_then (managed_container V name) (\<lambda>c.
     and_then (to_info V c) (\<lambda>i.
     if wi_status i \<notin> active_states then give i
     else and_then (call_docker (e_stop (av_engine V) timeout c)) (\<lambda>_. to_info V c)))"

definition delete_container :: "('d, 'f) agent_env \<Rightarrow> string \<Rightarrow> bool \<Rightarrow> ('d, 'f, 'z, unit) operation" where
  "delete_container V name force =
     and_then (managed_container V name) (\<lambda>c0.
     and_then (call_docker (e_reload (av_engine V) c0)) (\<lambda>c.
     and_then (require (\<not> active c \<or> force) (WorkloadConflict ''workload still runs'')) (\<lambda>_.
     call_docker (e_remove (av_engine V) force True c))))"

end
