(* ===== verification/CommandRequests.thy ===== *)
theory CommandRequests
  imports CommandStore WorkloadLaunch "HOL-Library.Monad_Syntax"
begin

text \<open>
  What a START command carries: the \<open>execution\<close> models of
  \<open>agent/openllmops_agent/command_service.py\<close> (\<open>VLLMExecution\<close>, \<open>LLaMAFactoryExecution\<close>,
  \<open>EvaluationExecution\<close>, \<open>TerminalCleanupExecution\<close>), the merge of the vLLM arguments and the
  description of a training data set (\<open>_dataset_info\<close>).
\<close>

section \<open>Fields\<close>

text \<open>
  The conversions of pydantic's lax mode from a JSON value to an integer and to a float are parameters;
  a string takes a string only, a path is made of a string.
\<close>

record lax_reader =
  lx_int :: "json \<Rightarrow> int option"
  lx_float :: "json \<Rightarrow> rat option"

definition str_field :: "json_obj \<Rightarrow> string \<Rightarrow> (string \<Rightarrow> bool) \<Rightarrow> string option" where
  "str_field kvs k ok = (case map_of kvs k of Some (JStr s) \<Rightarrow> (if ok s then Some s else None) | _ \<Rightarrow> None)"

definition path_field :: "json_obj \<Rightarrow> string \<Rightarrow> path option" where
  "path_field kvs k = map_option path_of (str_field kvs k (\<lambda>_. True))"

definition lax_int_field ::
  "lax_reader \<Rightarrow> json_obj \<Rightarrow> string \<Rightarrow> int option \<Rightarrow> int \<Rightarrow> int \<Rightarrow> int option" where
  "lax_int_field lx kvs k dflt lo hi =
     (case map_of kvs k of
        None \<Rightarrow> dflt
      | Some v \<Rightarrow> (case lx_int lx v of Some i \<Rightarrow> (if lo \<le> i \<and> i \<le> hi then Some i else None) | None \<Rightarrow> None))"

definition dict_field :: "json_obj \<Rightarrow> string \<Rightarrow> json_obj option" where
  "dict_field kvs k = (case map_of kvs k of None \<Rightarrow> Some [] | Some (JObj o1) \<Rightarrow> Some o1 | Some _ \<Rightarrow> None)"

definition only_fields :: "string list \<Rightarrow> json_obj \<Rightarrow> bool" where
  "only_fields names kvs \<longleftrightarrow> set (map fst kvs) \<subseteq> set names"

text \<open>A pattern \<open>[A-Za-z0-9][extra]{0,n}\<close>, where \<open>extra\<close> adds some characters to the first class.\<close>

definition name_pattern :: "string \<Rightarrow> nat \<Rightarrow> string \<Rightarrow> bool" where
  "name_pattern extra n s = (case s of [] \<Rightarrow> False
     | c # cs \<Rightarrow> alphanumeric c \<and> length cs \<le> n \<and> list_all (\<lambda>d. alphanumeric d \<or> d \<in> set extra) cs)"

section \<open>\<open>TerminalCleanupExecution\<close>\<close>

definition cleanup_ok :: "json_obj \<Rightarrow> bool" where
  "cleanup_ok kvs \<longleftrightarrow> only_fields [''cleanup_terminal''] kvs \<and> map_of kvs ''cleanup_terminal'' = Some (JBool True)"

section \<open>\<open>VLLMExecution\<close>\<close>

record vllm_execution =
  vx_service_type :: string
  vx_model_path :: path
  vx_served_model_name :: string
  vx_port :: "int option"
  vx_tensor_parallel_size :: int
  vx_simplified_config :: json_obj
  vx_vllm_args :: json_obj

definition port_field :: "lax_reader \<Rightarrow> json_obj \<Rightarrow> int option option" where
  "port_field lx kvs =
     (case map_of kvs ''port'' of
        None \<Rightarrow> Some None
      | Some JNull \<Rightarrow> Some None
      | Some v \<Rightarrow> map_option Some (lax_int_field lx kvs ''port'' None 1024 65535))"

definition parse_vllm :: "lax_reader \<Rightarrow> json_obj \<Rightarrow> vllm_execution option" where
  "parse_vllm lx kvs =
     (if \<not> only_fields [''runner'', ''service_type'', ''model_path'', ''served_model_name'', ''port'',
          ''tensor_parallel_size'', ''simplified_config'', ''vllm_args''] kvs then None
      else do {
        _ \<leftarrow> str_field kvs ''runner'' (\<lambda>s. s = ''vllm'');
        service \<leftarrow> str_field kvs ''service_type'' (\<lambda>s. s \<in> {''generate'', ''embedding''});
        model \<leftarrow> path_field kvs ''model_path'';
        served \<leftarrow> str_field kvs ''served_model_name'' (name_pattern ''._:/-'' 127);
        pt \<leftarrow> port_field lx kvs;
        tensor \<leftarrow> lax_int_field lx kvs ''tensor_parallel_size'' None 1 16;
        simplified \<leftarrow> dict_field kvs ''simplified_config'';
        args \<leftarrow> dict_field kvs ''vllm_args'';
        Some \<lparr>vx_service_type = service, vx_model_path = model, vx_served_model_name = served, vx_port = pt,
          vx_tensor_parallel_size = tensor, vx_simplified_config = simplified, vx_vllm_args = args\<rparr> })"

definition max_vllm_arguments :: nat where "max_vllm_arguments = 128"

definition merge_vllm_arguments :: "json_obj \<Rightarrow> json_obj \<Rightarrow> runner_error + json_obj" where
  "merge_vllm_arguments simplified detailed =
     (if length simplified + length detailed > max_vllm_arguments
      then Inl (InvalidWorkload ''too many vLLM arguments'')
      else Inr (dict_merge simplified detailed))"

section \<open>\<open>LLaMAFactoryExecution\<close>\<close>

record training_execution =
  tx_model_path :: path
  tx_dataset_path :: path
  tx_stage :: training_stage
  tx_algorithm :: training_algorithm
  tx_config :: hyperparameters
  tx_output_dir :: path

definition stage_field :: "json_obj \<Rightarrow> training_stage option" where
  "stage_field kvs = do { s \<leftarrow> str_field kvs ''stage'' (\<lambda>_. True); find (\<lambda>t. stage_value t = s) [CPT, SFT] }"

definition algorithm_field :: "json_obj \<Rightarrow> training_algorithm option" where
  "algorithm_field kvs =
     do { s \<leftarrow> str_field kvs ''algorithm'' (\<lambda>_. True); find (\<lambda>t. algorithm_value t = s) [FREEZE, LORA, QLORA] }"

definition parse_training :: "json_obj \<Rightarrow> training_execution option" where
  "parse_training kvs =
     (if \<not> only_fields [''runner'', ''model_path'', ''dataset_path'', ''stage'', ''algorithm'',
          ''training_config'', ''output_dir''] kvs then None
      else do {
        _ \<leftarrow> str_field kvs ''runner'' (\<lambda>s. s = ''llamafactory'');
        model \<leftarrow> path_field kvs ''model_path'';
        data \<leftarrow> path_field kvs ''dataset_path'';
        stage \<leftarrow> stage_field kvs;
        algorithm \<leftarrow> algorithm_field kvs;
        config \<leftarrow> dict_field kvs ''training_config'';
        hyper \<leftarrow> parse_hyper config;
        out \<leftarrow> path_field kvs ''output_dir'';
        Some \<lparr>tx_model_path = model, tx_dataset_path = data, tx_stage = stage, tx_algorithm = algorithm,
          tx_config = hyper, tx_output_dir = out\<rparr> })"

section \<open>\<open>EvaluationExecution\<close>\<close>

record evaluation_execution =
  ex_base_model_path :: path
  ex_candidate_model_path :: path
  ex_base_template :: string
  ex_candidate_template :: string
  ex_datasets :: "(string \<times> path) list"
  ex_output_dir :: path
  ex_tensor_parallel_size :: int
  ex_gpu_memory_utilization :: rat
  ex_concurrency :: int
  ex_max_tokens :: int

text \<open>The doubles nearest to 0.1, 0.9 and 0.95.\<close>

definition double_0_1 :: rat where "double_0_1 = 3602879701896397 / 36028797018963968"
definition double_0_9 :: rat where "double_0_9 = 8106479329266893 / 9007199254740992"
definition double_0_95 :: rat where "double_0_95 = 4278419646001971 / 4503599627370496"

definition utilization_field :: "lax_reader \<Rightarrow> json_obj \<Rightarrow> rat option" where
  "utilization_field lx kvs =
     (case map_of kvs ''gpu_memory_utilization'' of
        None \<Rightarrow> Some double_0_9
      | Some v \<Rightarrow> (case lx_float lx v of
          Some q \<Rightarrow> (if double_0_1 \<le> q \<and> q \<le> double_0_95 then Some q else None) | None \<Rightarrow> None))"

definition parse_dataset_source :: "json \<Rightarrow> (string \<times> path) option" where
  "parse_dataset_source v =
     (case v of
        JObj kvs \<Rightarrow>
          (if \<not> only_fields [''name'', ''path''] kvs then None
           else do { n \<leftarrow> str_field kvs ''name'' (name_pattern ''._-'' 63); p \<leftarrow> path_field kvs ''path''; Some (n, p) })
      | _ \<Rightarrow> None)"

definition datasets_field :: "json_obj \<Rightarrow> (string \<times> path) list option" where
  "datasets_field kvs =
     (case map_of kvs ''datasets'' of
        Some (JArr vs) \<Rightarrow>
          (if 1 \<le> length vs \<and> length vs \<le> 16 then those (map parse_dataset_source vs) else None)
      | _ \<Rightarrow> None)"

definition template_names :: "string set" where "template_names = {''base'', ''instruct''}"

definition parse_evaluation :: "lax_reader \<Rightarrow> json_obj \<Rightarrow> evaluation_execution option" where
  "parse_evaluation lx kvs =
     (if \<not> only_fields [''runner'', ''base_model_path'', ''candidate_model_path'', ''base_template'',
          ''candidate_template'', ''datasets'', ''output_dir'', ''tensor_parallel_size'',
          ''gpu_memory_utilization'', ''concurrency'', ''max_tokens''] kvs then None
      else do {
        _ \<leftarrow> str_field kvs ''runner'' (\<lambda>s. s = ''evaluation'');
        base \<leftarrow> path_field kvs ''base_model_path'';
        candidate \<leftarrow> path_field kvs ''candidate_model_path'';
        base_template \<leftarrow> str_field kvs ''base_template'' (\<lambda>s. s \<in> template_names);
        candidate_template \<leftarrow> str_field kvs ''candidate_template'' (\<lambda>s. s \<in> template_names);
        datasets \<leftarrow> datasets_field kvs;
        out \<leftarrow> path_field kvs ''output_dir'';
        tensor \<leftarrow> lax_int_field lx kvs ''tensor_parallel_size'' None 1 16;
        utilization \<leftarrow> utilization_field lx kvs;
        concurrency \<leftarrow> lax_int_field lx kvs ''concurrency'' (Some 4) 1 32;
        tokens \<leftarrow> lax_int_field lx kvs ''max_tokens'' (Some 32) 1 512;
        if distinct (map fst datasets)
        then Some \<lparr>ex_base_model_path = base, ex_candidate_model_path = candidate, ex_base_template = base_template,
          ex_candidate_template = candidate_template, ex_datasets = datasets, ex_output_dir = out,
          ex_tensor_parallel_size = tensor, ex_gpu_memory_utilization = utilization,
          ex_concurrency = concurrency, ex_max_tokens = tokens\<rparr>
        else None })"

section \<open>The first record of a training file\<close>

definition max_training_line_bytes :: nat where "max_training_line_bytes = 16 * 1024 * 1024"

text \<open>\<open>source.readline(n)\<close>: up to the first newline, at most \<open>n\<close> bytes; the line and what is left.\<close>

fun read_line :: "nat \<Rightarrow> string \<Rightarrow> string \<times> string" where
  "read_line 0 s = ([], s)"
| "read_line (Suc n) [] = ([], [])"
| "read_line (Suc n) (c # s) = (if c = CHR 0x0A then ([c], s) else (let (l, r) = read_line n s in (c # l, r)))"

lemma read_line_append: "read_line n s = (l, r) \<Longrightarrow> l @ r = s"
  by (induction n s arbitrary: l rule: read_line.induct) (auto split: if_splits prod.splits)

lemma read_line_shrinks: "read_line n s = (l, r) \<Longrightarrow> l \<noteq> [] \<Longrightarrow> length r < length s"
  using read_line_append by fastforce

lemma read_line_bound: "length (fst (read_line n s)) \<le> n"
  by (induction n s rule: read_line.induct) (auto split: prod.splits)

text \<open>\<open>bytes.strip()\<close> removes ASCII white space.\<close>

definition ascii_space :: "char \<Rightarrow> bool" where
  "ascii_space c \<longleftrightarrow> c \<in> {CHR '' '', CHR 0x09, CHR 0x0A, CHR 0x0B, CHR 0x0C, CHR 0x0D}"

text \<open>The first line that is not blank; an error for a line over the bound, None at the end.\<close>

function first_line :: "nat \<Rightarrow> string \<Rightarrow> runner_error + string option" where
  "first_line bound s =
     (let (l, r) = read_line (bound + 1) s in
      if l = [] then Inr None
      else if length l > bound then Inl (InvalidWorkload ''training record over the size bound'')
      else if list_all ascii_space l then first_line bound r
      else Inr (Some l))"
  by pat_completeness auto

termination
  by (relation "measure (\<lambda>(_, s). length s)") (auto dest: read_line_shrinks [OF sym])

declare first_line.simps [simp del]

text \<open>
  \<open>json.loads\<close> with the two hooks is the parameter \<open>loads\<close>; None is any of the errors the code catches.
\<close>

definition first_record :: "(string \<Rightarrow> json option) \<Rightarrow> string \<Rightarrow> runner_error + json_obj" where
  "first_record loads bytes =
     (case first_line max_training_line_bytes bytes of
        Inl e \<Rightarrow> Inl e
      | Inr None \<Rightarrow> Inl (InvalidWorkload ''no JSON object in the training data'')
      | Inr (Some l) \<Rightarrow>
          (case loads l of
             None \<Rightarrow> Inl (InvalidWorkload ''first training record cannot be parsed'')
           | Some (JObj kvs) \<Rightarrow> Inr kvs
           | Some _ \<Rightarrow> Inl (InvalidWorkload ''no JSON object in the training data'')))"

definition has_str :: "json_obj \<Rightarrow> string \<Rightarrow> bool" where
  "has_str kvs k = (case map_of kvs k of Some (JStr _) \<Rightarrow> True | _ \<Rightarrow> False)"

definition has_list :: "json_obj \<Rightarrow> string \<Rightarrow> bool" where
  "has_list kvs k = (case map_of kvs k of Some (JArr _) \<Rightarrow> True | _ \<Rightarrow> False)"

definition message_tags :: json where
  "message_tags = JObj [(''role_tag'', JStr ''role''), (''content_tag'', JStr ''content''),
     (''user_tag'', JStr ''user''), (''assistant_tag'', JStr ''assistant''), (''system_tag'', JStr ''system'')]"

definition describe_dataset :: "json_obj \<Rightarrow> training_stage \<Rightarrow> runner_error + (json_obj \<times> dataset_format)" where
  "describe_dataset r sg =
     (let file = (''file_name'', JStr workspace_data_file) in
      if sg = CPT then
        (let prompt = (if has_str r ''text'' then ''text'' else ''content'') in
         if \<not> has_str r prompt then Inl (InvalidWorkload ''CPT data without text or content'')
         else Inr ([file, (''columns'', JObj [(''prompt'', JStr prompt)])], CPT_TEXT))
      else if has_list r ''messages'' then
        Inr ([file, (''formatting'', JStr ''sharegpt''), (''columns'', JObj [(''messages'', JStr ''messages'')]),
          (''tags'', message_tags)], MESSAGES)
      else if has_list r ''conversations'' then
        Inr ([file, (''formatting'', JStr ''sharegpt''), (''columns'', JObj [(''messages'', JStr ''conversations'')])],
          MESSAGES)
      else if has_str r ''instruction'' \<and> has_str r ''output'' then
        Inr ([file, (''columns'', JObj ([(''prompt'', JStr ''instruction''), (''response'', JStr ''output'')]
          @ (if has_str r ''input'' then [(''query'', JStr ''input'')] else [])))], ALPACA)
      else Inl (InvalidWorkload ''SFT data cannot be mapped''))"

end
