(* ===== verification/CardExclusion.thy ===== *)
theory CardExclusion
  imports WorkloadLaunch
begin

text \<open>
  Whole-card exclusion on the node: no two active managed containers hold the same GPU, whatever
  sequence of operations the agent runs and whichever containers end by themselves in between. The
  laws of the Docker daemon are stated over its active managed containers, a set the model gives a
  name and the code only sees through calls.
\<close>

section \<open>What the daemon promises\<close>

text \<open>An active managed container: its id, its name and the cards of its label.\<close>

type_synonym claim = "string \<times> string \<times> int list"

definition claim_of :: "container \<Rightarrow> claim" where
  "claim_of c = (c_id c, c_name c, gpu_ids_from_labels (c_labels c))"

abbreviation holder :: "claim \<Rightarrow> string" where
  "holder k \<equiv> fst (snd k)"

abbreviation cards :: "claim \<Rightarrow> int set" where
  "cards k \<equiv> set (snd (snd k))"

definition only_shrinks :: "('d \<Rightarrow> claim set) \<Rightarrow> ('d, 'x, 'a) action \<Rightarrow> bool" where
  "only_shrinks live m \<longleftrightarrow> (\<forall>d. live (fst (m d)) \<subseteq> live d)"

text \<open>Reading calls, stopping and removing never make a container active.\<close>

definition passive_calls :: "'d engine \<Rightarrow> ('d \<Rightarrow> claim set) \<Rightarrow> bool" where
  "passive_calls E live \<longleftrightarrow>
     (\<forall>n. only_shrinks live (e_get E n)) \<and> only_shrinks live (e_list E)
     \<and> (\<forall>c. only_shrinks live (e_reload E c) \<and> only_shrinks live (e_image_of E c))
     \<and> (\<forall>n. only_shrinks live (e_image E n))
     \<and> (\<forall>t c. only_shrinks live (e_stop E t c)) \<and> (\<forall>f v c. only_shrinks live (e_remove E f v c))
     \<and> only_shrinks live (e_nvml_init E) \<and> (\<forall>g. only_shrinks live (e_nvml_handle E g))
     \<and> (\<forall>b g. only_shrinks live (e_nvml_processes E b g)) \<and> only_shrinks live (e_nvml_shutdown E)"

text \<open>
  Names are unique, and a name that is not found belongs to no active container. The managed label is
  the agent's own: a container that carries it was created by the agent, so its labels fit its name.
\<close>

definition labels_fit_name :: "container \<Rightarrow> bool" where
  "labels_fit_name c \<longleftrightarrow> (\<exists>k u. map_of (c_labels c) kind_label = Some k \<and> map_of (c_labels c) id_label = Some (uuid_str u)
     \<and> u < 2 ^ 128 \<and> c_name c = workload_name k u)"

definition get_reports :: "'d engine \<Rightarrow> ('d \<Rightarrow> claim set) \<Rightarrow> bool" where
  "get_reports E live \<longleftrightarrow>
     (\<forall>n d d' c. e_get E n d = (d', Inr c) \<longrightarrow>
        c_name c = n \<and> (\<forall>k \<in> live d'. holder k = n \<longrightarrow> k = claim_of c \<and> is_managed c)
        \<and> (is_managed c \<longrightarrow> labels_fit_name c))
     \<and> (\<forall>n d d'. e_get E n d = (d', Inl NotFoundError) \<longrightarrow> (\<forall>k \<in> live d'. holder k \<noteq> n))"

definition list_reports :: "'d engine \<Rightarrow> ('d \<Rightarrow> claim set) \<Rightarrow> bool" where
  "list_reports E live \<longleftrightarrow>
     (\<forall>d d' cs. e_list E d = (d', Inr cs) \<longrightarrow> live d' \<subseteq> claim_of ` set cs \<and> (\<forall>c \<in> set cs. is_managed c))"

text \<open>An inspection tells the status; identity, name and labels do not change.\<close>

definition reload_reports :: "'d engine \<Rightarrow> ('d \<Rightarrow> claim set) \<Rightarrow> bool" where
  "reload_reports E live \<longleftrightarrow>
     (\<forall>c d d' c'. e_reload E c d = (d', Inr c') \<longrightarrow>
        c_id c' = c_id c \<and> c_name c' = c_name c \<and> c_labels c' = c_labels c
        \<and> (if active c' then is_managed c \<longrightarrow> claim_of c \<in> live d else claim_of c \<notin> live d'))
     \<and> (\<forall>c d d'. e_reload E c d = (d', Inl NotFoundError) \<longrightarrow> claim_of c \<notin> live d')"

definition remove_reports :: "'d engine \<Rightarrow> ('d \<Rightarrow> claim set) \<Rightarrow> bool" where
  "remove_reports E live \<longleftrightarrow>
     (\<forall>f v c d d'. e_remove E f v c d = (d', Inr ()) \<longrightarrow> claim_of c \<notin> live d')
     \<and> (\<forall>f v c d d'. e_remove E f v c d = (d', Inl NotFoundError) \<longrightarrow> claim_of c \<notin> live d')"

text \<open>Creating a container, even when it fails half way, adds at most the container asked for.\<close>

definition run_creates :: "'d engine \<Rightarrow> ('d \<Rightarrow> claim set) \<Rightarrow> bool" where
  "run_creates E live \<longleftrightarrow>
     (\<forall>q d d' r. e_run E q d = (d', r) \<longrightarrow>
        (\<exists>i. live d' \<subseteq> insert (i, rs_name q, gpu_ids_from_labels (rs_labels q)) (live d)))
     \<and> (\<forall>q d d' c. e_run E q d = (d', Inr c) \<longrightarrow>
        c_name c = rs_name q \<and> c_labels c = rs_labels q
        \<and> (\<forall>k \<in> live d'. holder k = rs_name q \<longrightarrow> k = claim_of c))"

definition start_activates :: "'d engine \<Rightarrow> ('d \<Rightarrow> claim set) \<Rightarrow> bool" where
  "start_activates E live \<longleftrightarrow> (\<forall>c d. live (fst (e_start E c d)) \<subseteq> insert (claim_of c) (live d))"

definition docker_laws :: "'d engine \<Rightarrow> ('d \<Rightarrow> claim set) \<Rightarrow> bool" where
  "docker_laws E live \<longleftrightarrow> passive_calls E live \<and> get_reports E live \<and> list_reports E live
     \<and> reload_reports E live \<and> remove_reports E live \<and> run_creates E live \<and> start_activates E live"

text \<open>No card is held twice.\<close>

definition exclusive :: "claim set \<Rightarrow> bool" where
  "exclusive L \<longleftrightarrow> (\<forall>k \<in> L. \<forall>k' \<in> L. k \<noteq> k' \<longrightarrow> cards k \<inter> cards k' = {})"

lemma exclusive_subset: "exclusive L \<Longrightarrow> L' \<subseteq> L \<Longrightarrow> exclusive L'"
  unfolding exclusive_def by blast

lemma exclusive_insert:
  assumes "exclusive L" "\<forall>k' \<in> L. k' \<noteq> k \<longrightarrow> cards k' \<inter> cards k = {}"
  shows "exclusive (insert k L)"
  using assms unfolding exclusive_def by (metis Int_commute insert_iff)

section \<open>Calls seen from the active containers\<close>

abbreviation live_in :: "('d \<Rightarrow> claim set) \<Rightarrow> claim set \<Rightarrow> ('d, 'f, 'z) node_scheme \<Rightarrow> bool" where
  "live_in live L s \<equiv> live (nd_docker s) \<subseteq> L"

lemma docker_cases: "docker m s = (s', r) \<Longrightarrow> \<exists>d. m (nd_docker s) = (d, r) \<and> s' = s\<lparr>nd_docker := d\<rparr>"
  by (auto simp: docker_def split: prod.splits)

lemma docker_shrinks: "only_shrinks live m \<Longrightarrow> keeps (live_in live L) (docker m)"
  unfolding establishes_iff only_shrinks_def
  by (fastforce dest!: docker_cases simp: prod_eq_iff)

lemma files_keep: "keeps (live_in live L) (files m)"
  by (auto simp: establishes_def files_def split: prod.splits sum.splits)

lemma call_files_keep: "keeps (live_in live L) (call_files m)"
  unfolding call_files_def by (intro keep_rules files_keep)

lemma passive_shrink:
  assumes "docker_laws E live"
  shows "only_shrinks live (e_get E n)" "only_shrinks live (e_list E)" "only_shrinks live (e_reload E c)"
    "only_shrinks live (e_image_of E c)" "only_shrinks live (e_image E n)" "only_shrinks live (e_stop E t c)"
    "only_shrinks live (e_remove E f v c)"
  using assms unfolding docker_laws_def passive_calls_def by blast+

lemma nvml_shrink:
  assumes "docker_laws E live"
  shows "only_shrinks live (e_nvml_init E)" "only_shrinks live (e_nvml_handle E g)"
    "only_shrinks live (e_nvml_processes E b g)" "only_shrinks live (e_nvml_shutdown E)"
  using assms unfolding docker_laws_def passive_calls_def by blast+

lemmas passive_keep = passive_shrink [THEN docker_shrinks]
lemmas nvml_keep = nvml_shrink [THEN docker_shrinks]

lemma call_docker_shrinks: "only_shrinks live m \<Longrightarrow> keeps (live_in live L) (call_docker m)"
  unfolding call_docker_def by (intro keep_rules docker_shrinks)

lemmas passive_calls_keep = passive_shrink [THEN call_docker_shrinks]

lemma keeps_lift: "(\<And>d. live (fst (m d)) \<subseteq> live d) \<Longrightarrow> keeps (live_in live L) (docker m)"
  by (rule docker_shrinks) (simp add: only_shrinks_def)

section \<open>Names of workloads\<close>

lemma workload_name_inj:
  assumes "workload_name k u = workload_name k' u'" shows "k = k'" "uuid_str u = uuid_str u'"
proof -
  have "(k @ ''-'') @ uuid_str u = (k' @ ''-'') @ uuid_str u'"
    using assms by (simp add: workload_name_def)
  then have "k @ ''-'' = k' @ ''-'' \<and> uuid_str u = uuid_str u'"
    by (rule append_eq_append_conv [THEN iffD1, rotated]) simp
  then show "k = k'" "uuid_str u = uuid_str u'" by simp_all
qed

lemma safe_workload_name:
  assumes "k \<in> {''inference'', ''training'', ''evaluation''}"
  shows "safe_name (workload_name k u)"
proof -
  have "uuid_char c" if c: "c \<in> set (uuid_str u)" for c
    using uuid_str_chars [OF c]
    by (auto simp: uuid_char_def is_dec_def code_hex_char split: if_splits)
  then have "list_all uuid_char (uuid_str u)" by (simp add: list_all_iff)
  moreover have "\<exists>p. p = ''openllmops-'' @ k @ ''-'' \<and> workload_name k u = p @ uuid_str u"
    by (simp add: workload_name_def)
  ultimately show ?thesis
    using assms unfolding safe_name_def Let_def list_ex_iff by (intro bexI [of _ k]) auto
qed

lemma safe_contract_name: "safe_name (contract_workload_name t u)"
  unfolding contract_workload_name_def by (rule safe_workload_name) (simp add: owner_kind_def split: lease_owner_type.split)

section \<open>What the calls establish\<close>

text \<open>The interface between the runner and the daemon: the laws, for the environment of the agent.\<close>

locale daemon =
  fixes V :: "('d, 'f) agent_env" and live :: "'d \<Rightarrow> claim set"
  assumes laws: "docker_laws (av_engine V) live"
begin

abbreviation inside :: "claim set \<Rightarrow> ('d, 'f, 'z) node_scheme \<Rightarrow> bool" where
  "inside \<equiv> live_in live"

lemmas calls_keep = passive_keep [OF laws] passive_calls_keep [OF laws] files_keep call_files_keep

lemma to_info_keeps: "keeps (inside L) (to_info V c)"
  unfolding to_info_def image_text_def by (intro keep_rules calls_keep)

lemma managed_container_keeps: "keeps (inside L) (managed_container V n)"
  unfolding managed_container_def by (intro keep_rules calls_keep)

lemma get_workload_keeps: "keeps (inside L) (get_workload V n)"
  unfolding get_workload_def by (intro keep_rules managed_container_keeps to_info_keeps)

lemma prepare_contract_start_keeps: "keeps (inside L) (prepare_contract_start V t u g)"
  unfolding prepare_contract_start_def Let_def
  by (intro keep_rules calls_keep managed_container_keeps to_info_keeps)

lemma stop_contract_workload_keeps: "keeps (inside L) (stop_contract_workload V t u g n)"
  unfolding stop_contract_workload_def Let_def
  by (intro keep_rules calls_keep managed_container_keeps to_info_keeps)

lemma cleanup_contract_workload_keeps: "keeps (inside L) (cleanup_contract_workload V t u g)"
  unfolding cleanup_contract_workload_def Let_def by (intro keep_rules calls_keep)

lemma confirm_inactive_keeps: "keeps (inside L) (confirm_inactive V c)"
  unfolding confirm_inactive_def by (intro keep_rules calls_keep)

lemma quiesce_container_keeps: "keeps (inside L) (quiesce_container V g n c)"
  unfolding quiesce_container_def by (intro keep_rules calls_keep confirm_inactive_keeps)

lemma quiesce_failed_inference_keeps: "keeps (inside L) (quiesce_failed_inference V u g n)"
proof -
  have *: "keeps (inside L) (case e of WorkloadNotFound \<Rightarrow> give True
      | DockerRaised x \<Rightarrow> (if is_docker_exception x then give False else throw e) | _ \<Rightarrow> throw e)" for e
    by (cases e) (simp_all add: keeps_give keeps_throw keeps_if)
  show ?thesis
    unfolding quiesce_failed_inference_def
    by (intro keep_rules calls_keep managed_container_keeps quiesce_container_keeps *)
qed

section \<open>Lookups\<close>

lemma get_found:
  "establishes (inside L) (docker (e_get (av_engine V) n))
     (\<lambda>c s. inside {k \<in> L. holder k = n \<longrightarrow> k = claim_of c \<and> is_managed c} s
        \<and> (c_name c = n \<and> (is_managed c \<longrightarrow> labels_fit_name c)))
     (\<lambda>x. inside (if x = NotFoundError then {k \<in> L. holder k \<noteq> n} else L))"
proof (rule establishesI)
  fix s s' :: "('d, 'f, 'z) node_scheme" and c
  assume L: "inside L s" and m: "docker (e_get (av_engine V) n) s = (s', Inr c)"
  have "inside L s'" using value_of [OF calls_keep(1) L m] .
  then show "inside {k \<in> L. holder k = n \<longrightarrow> k = claim_of c \<and> is_managed c} s'
      \<and> (c_name c = n \<and> (is_managed c \<longrightarrow> labels_fit_name c))"
    using docker_cases [OF m] laws unfolding docker_laws_def get_reports_def by fastforce
next
  fix s s' :: "('d, 'f, 'z) node_scheme" and x
  assume L: "inside L s" and m: "docker (e_get (av_engine V) n) s = (s', Inl x)"
  have "inside L s'" using error_of [OF calls_keep(1) L m] .
  then show "inside (if x = NotFoundError then {k \<in> L. holder k \<noteq> n} else L) s'"
    using docker_cases [OF m] laws unfolding docker_laws_def get_reports_def by fastforce
qed

definition same_container :: "container \<Rightarrow> container \<Rightarrow> bool" where
  "same_container c c' \<longleftrightarrow> c_id c' = c_id c \<and> c_name c' = c_name c \<and> c_labels c' = c_labels c"

lemma same_claim: "same_container c c' \<Longrightarrow> claim_of c' = claim_of c"
  by (simp add: same_container_def claim_of_def)

lemma reload_found:
  "establishes (inside L) (docker (e_reload (av_engine V) c))
     (\<lambda>c' s. (same_container c c' \<and> (active c' \<and> is_managed c \<longrightarrow> claim_of c \<in> L))
        \<and> inside (if active c' then L else L - {claim_of c}) s)
     (\<lambda>x. inside (if x = NotFoundError then L - {claim_of c} else L))"
proof (rule establishesI)
  fix s s' :: "('d, 'f, 'z) node_scheme" and c'
  assume L: "inside L s" and m: "docker (e_reload (av_engine V) c) s = (s', Inr c')"
  have L': "inside L s'" using value_of [OF calls_keep(3) L m] .
  obtain d where d: "e_reload (av_engine V) c (nd_docker s) = (d, Inr c')" "s' = s\<lparr>nd_docker := d\<rparr>"
    using docker_cases [OF m] by blast
  have "same_container c c'" "active c' \<Longrightarrow> is_managed c \<Longrightarrow> claim_of c \<in> live (nd_docker s)"
    "\<not> active c' \<Longrightarrow> claim_of c \<notin> live d"
    using d(1) laws unfolding docker_laws_def reload_reports_def same_container_def by metis+
  then show "(same_container c c' \<and> (active c' \<and> is_managed c \<longrightarrow> claim_of c \<in> L))
      \<and> inside (if active c' then L else L - {claim_of c}) s'"
    using L L' d(2) by auto
next
  fix s s' :: "('d, 'f, 'z) node_scheme" and x
  assume L: "inside L s" and m: "docker (e_reload (av_engine V) c) s = (s', Inl x)"
  have "inside L s'" using error_of [OF calls_keep(3) L m] .
  then show "inside (if x = NotFoundError then L - {claim_of c} else L) s'"
    using docker_cases [OF m] laws unfolding docker_laws_def reload_reports_def by fastforce
qed

lemma remove_found:
  "establishes (inside L) (docker (e_remove (av_engine V) f v c)) (\<lambda>_. inside (L - {claim_of c}))
     (\<lambda>x. inside (if x = NotFoundError then L - {claim_of c} else L))"
proof (rule establishesI)
  fix s s' :: "('d, 'f, 'z) node_scheme" and a
  assume L: "inside L s" and m: "docker (e_remove (av_engine V) f v c) s = (s', Inr a)"
  have "inside L s'" using value_of [OF calls_keep(7) L m] .
  then show "inside (L - {claim_of c}) s'"
    using docker_cases [OF m] laws unfolding docker_laws_def remove_reports_def by fastforce
next
  fix s s' :: "('d, 'f, 'z) node_scheme" and x
  assume L: "inside L s" and m: "docker (e_remove (av_engine V) f v c) s = (s', Inl x)"
  have "inside L s'" using error_of [OF calls_keep(7) L m] .
  then show "inside (if x = NotFoundError then L - {claim_of c} else L) s'"
    using docker_cases [OF m] laws unfolding docker_laws_def remove_reports_def by fastforce
qed

lemma call_raises:
  "establishes P (docker m) Q X \<Longrightarrow> (\<And>x s. X x s \<Longrightarrow> Y (DockerRaised x) s) \<Longrightarrow> establishes P (call_docker m) Q Y"
  unfolding call_docker_def by (rule rescue_rule) (auto intro: throw_rule)

text \<open>
  An error leaves the active containers inside \<open>L\<close> and is not \<open>WorkloadNotFound\<close>, which the callers read
  as \<open>absent\<close>; the value says more.
\<close>

abbreviation fails_in :: "claim set \<Rightarrow> runner_error \<Rightarrow> ('d, 'f, 'z) node_scheme \<Rightarrow> bool" where
  "fails_in L \<equiv> \<lambda>x s. x \<noteq> WorkloadNotFound \<and> inside L s"

abbreviation finds :: "claim set \<Rightarrow> ('d, 'f, 'z, 'a) operation \<Rightarrow> ('a \<Rightarrow> ('d, 'f, 'z) node_scheme \<Rightarrow> bool) \<Rightarrow> bool" where
  "finds L m Q \<equiv> establishes (inside L) m Q (fails_in L)"

lemma inside_if: "inside (if b then L - K else L) s \<Longrightarrow> inside L s" "inside (if b then L else L - K) s \<Longrightarrow> inside L s"
  by (simp split: if_splits, blast)+

lemma call_reload_found:
  "finds L (call_docker (e_reload (av_engine V) c))
     (\<lambda>c' s. (same_container c c' \<and> (active c' \<and> is_managed c \<longrightarrow> claim_of c \<in> L))
        \<and> inside (if active c' then L else L - {claim_of c}) s)"
  by (rule call_raises [OF reload_found]) (use inside_if(1) in blast)

lemma call_remove_found: "finds L (call_docker (e_remove (av_engine V) f v c)) (\<lambda>_. inside (L - {claim_of c}))"
proof (rule call_raises)
  show "establishes (inside L) (docker (e_remove (av_engine V) f v c)) (\<lambda>_. inside (L - {claim_of c}))
     (\<lambda>x. inside (if x = NotFoundError then L - {claim_of c} else L))"
    by (rule remove_found)
qed (simp split: if_splits, blast)

lemma call_finds: "only_shrinks live m \<Longrightarrow> finds L (call_docker m) (\<lambda>_. inside L)"
  by (rule call_raises [OF docker_shrinks]) simp_all

lemmas calls_find = passive_shrink [OF laws, THEN call_finds]

definition describes :: "workload_info \<Rightarrow> container \<Rightarrow> bool" where
  "describes i c \<longleftrightarrow> wi_name i = c_name c \<and> wi_gpu_ids i = gpu_ids_from_labels (c_labels c)
     \<and> wi_generation i = generation_from_labels (c_labels c) \<and> map_of (c_labels c) kind_label = Some (wi_kind i)
     \<and> (\<exists>t. map_of (c_labels c) id_label = Some t \<and> parse_uuid t = Some (wi_workload_id i))"

lemma describes_same: "same_container c c' \<Longrightarrow> describes i c' = describes i c"
  by (simp add: describes_def same_container_def)

lemma build_info_describes:
  "label_ids c = Inr (u, k) \<Longrightarrow> build_info tm c u k img pt = Inr i \<Longrightarrow> describes i c \<and> wi_status i = c_status c"
  by (auto simp: label_ids_def build_info_def describes_def Let_def split: option.splits if_splits)

lemma image_text_finds: "finds L (image_text V c) (\<lambda>_. inside L)"
  unfolding image_text_def
  by (intro bind_keep calls_find if_rule) (auto split: list.split option.split intro: throw_rule give_rule)

lemma label_errors:
  "label_ids c = Inl x \<Longrightarrow> x \<noteq> WorkloadNotFound" "port_of ls = Inl x \<Longrightarrow> x \<noteq> WorkloadNotFound"
  "build_info tm c u k img pt = Inl x \<Longrightarrow> x \<noteq> WorkloadNotFound"
  by (auto simp: label_ids_def port_of_def build_info_def Let_def split: option.splits if_splits)

lemma to_info_found:
  "finds L (to_info V c)
     (\<lambda>i s. describes i c \<and> inside (if wi_status i \<in> active_states then L else L - {claim_of c}) s)"
  unfolding to_info_def
proof (rule bind_fact [OF call_reload_found])
  fix c'
  assume c': "same_container c c' \<and> (active c' \<and> is_managed c \<longrightarrow> claim_of c \<in> L)"
  let ?L = "if active c' then L else L - {claim_of c}"
  have sub: "inside ?L s \<Longrightarrow> inside L s" for s :: "('d, 'f, 'z) node_scheme" by (simp split: if_splits, blast)
  have info: "describes i c \<and> inside (if wi_status i \<in> active_states then L else L - {claim_of c}) s"
    if "label_ids c' = Inr (u, k)" "build_info (av_times V) c' u k img pt = Inr i" "inside ?L s"
    for u k img pt i and s :: "('d, 'f, 'z) node_scheme"
    using build_info_describes [OF that(1,2)] describes_same [OF conjunct1 [OF c']] that(3) by (simp add: active_def)
  show "establishes (inside ?L) (and_then (from_sum (label_ids c')) (\<lambda>(u, k).
       and_then (image_text V c') (\<lambda>img.
       and_then (from_sum (port_of (c_labels c'))) (\<lambda>pt. from_sum (build_info (av_times V) c' u k img pt)))))
      (\<lambda>i s. describes i c \<and> inside (if wi_status i \<in> active_states then L else L - {claim_of c}) s) (fails_in L)"
  proof (rule bind_pure)
    fix uk :: "uuid \<times> string" assume l: "label_ids c' = Inr uk"
    obtain u k where uk: "uk = (u, k)" by (cases uk)
    have "establishes (inside ?L) (and_then (image_text V c') (\<lambda>img.
       and_then (from_sum (port_of (c_labels c'))) (\<lambda>pt. from_sum (build_info (av_times V) c' u k img pt))))
      (\<lambda>i s. describes i c \<and> inside (if wi_status i \<in> active_states then L else L - {claim_of c}) s) (fails_in L)"
      by (rule bind_keep, rule weaken [OF image_text_finds], assumption, assumption, use sub in blast,
          rule bind_pure, rule from_sum_rule, rule info)
         (use l uk sub label_errors in auto)
    then show "establishes (inside ?L) (case uk of (u, k) \<Rightarrow> and_then (image_text V c') (\<lambda>img.
       and_then (from_sum (port_of (c_labels c'))) (\<lambda>pt. from_sum (build_info (av_times V) c' u k img pt))))
      (\<lambda>i s. describes i c \<and> inside (if wi_status i \<in> active_states then L else L - {claim_of c}) s) (fails_in L)"
      by (simp only: uk prod.case)
  qed (use sub label_errors in blast)
qed

lemma managed_container_found:
  assumes "safe_name n"
  shows "establishes (inside L) (managed_container V n)
     (\<lambda>c s. (c_name c = n \<and> is_managed c \<and> labels_fit_name c) \<and> inside {k \<in> L. holder k = n \<longrightarrow> k = claim_of c} s)
     (\<lambda>x. inside (if x = WorkloadNotFound then {k \<in> L. holder k \<noteq> n} else L))"
  unfolding managed_container_def if_not_P [OF not_not [THEN iffD2, OF assms]]
proof (rule and_then_rule)
  show "establishes (inside L)
      (rescue (docker (e_get (av_engine V) n)) (\<lambda>e. throw (if e = NotFoundError then WorkloadNotFound else DockerRaised e)))
      (\<lambda>c s. inside {k \<in> L. holder k = n \<longrightarrow> k = claim_of c \<and> is_managed c} s
        \<and> (c_name c = n \<and> (is_managed c \<longrightarrow> labels_fit_name c)))
      (\<lambda>x. inside (if x = WorkloadNotFound then {k \<in> L. holder k \<noteq> n} else L))"
    by (rule rescue_rule [OF get_found], rule throw_rule) (simp split: if_splits)
next
  fix c
  show "establishes (\<lambda>s. inside {k \<in> L. holder k = n \<longrightarrow> k = claim_of c \<and> is_managed c} s
        \<and> (c_name c = n \<and> (is_managed c \<longrightarrow> labels_fit_name c)))
      (and_then (require (is_managed c) WorkloadNotFound) (\<lambda>_. give c))
      (\<lambda>c s. (c_name c = n \<and> is_managed c \<and> labels_fit_name c) \<and> inside {k \<in> L. holder k = n \<longrightarrow> k = claim_of c} s)
      (\<lambda>x. inside (if x = WorkloadNotFound then {k \<in> L. holder k \<noteq> n} else L))"
  proof (rule bind_require, rule give_rule, blast)
    fix s :: "('d, 'f, 'z) node_scheme"
    assume "inside {k \<in> L. holder k = n \<longrightarrow> k = claim_of c \<and> is_managed c} s
        \<and> (c_name c = n \<and> (is_managed c \<longrightarrow> labels_fit_name c))" "\<not> is_managed c"
    then have "inside {k \<in> L. holder k \<noteq> n} s" by blast
    then show "inside (if WorkloadNotFound = WorkloadNotFound then {k \<in> L. holder k \<noteq> n} else L) s"
      by (simp only: simp_thms if_True)
  qed
qed

text \<open>Afterwards, the active containers of that name are gone.\<close>

abbreviation gone :: "claim set \<Rightarrow> string \<Rightarrow> claim set" where
  "gone L n \<equiv> {k \<in> L. holder k \<noteq> n}"

lemma only_this_gone: "{k \<in> L. holder k = n \<longrightarrow> k = claim_of c} - {claim_of c} \<subseteq> gone L n"
  by blast

lemma confirm_inactive_found:
  "establishes (inside L) (confirm_inactive V c)
     (\<lambda>b. inside (if b then L - {claim_of c} else L)) (fails_in L)"
  unfolding confirm_inactive_def
proof (rule attempt_cases [OF reload_found], unfold sum.case)
  fix c'
  show "establishes (\<lambda>s. (same_container c c' \<and> (active c' \<and> is_managed c \<longrightarrow> claim_of c \<in> L))
      \<and> inside (if active c' then L else L - {claim_of c}) s)
      (give (\<not> active c' \<and> c_status c' \<noteq> ''removing'')) (\<lambda>b. inside (if b then L - {claim_of c} else L)) (fails_in L)"
    by (rule fact_rule, rule give_rule) (simp split: if_splits, blast)
next
  fix x
  show "establishes (inside (if x = NotFoundError then L - {claim_of c} else L))
      (if x = NotFoundError then give True else if is_docker_exception x then give False else throw (DockerRaised x))
      (\<lambda>b. inside (if b then L - {claim_of c} else L)) (fails_in L)"
    by (auto intro!: give_rule throw_rule simp: if_splits)
qed

lemma quiesce_container_found:
  "establishes (inside L) (quiesce_container V g tm c) (\<lambda>b. inside (if b then L - {claim_of c} else L)) (fails_in L)"
proof -
  have removed: "establishes (inside L)
      (and_then (attempt (docker (e_remove (av_engine V) False True c))) (\<lambda>r.
        case r of Inl e \<Rightarrow> (if is_docker_exception e then give False else throw (DockerRaised e)) | Inr _ \<Rightarrow> give True))
      (\<lambda>b. inside (if b then L - {claim_of c} else L)) (fails_in L)"
    by (rule attempt_cases [OF remove_found]) (use inside_if in \<open>auto intro!: give_rule throw_rule if_rule\<close>)
  have stopped: "establishes (inside L)
      (and_then (attempt (docker (e_stop (av_engine V) tm c))) (\<lambda>r.
        case r of Inl e \<Rightarrow> (if is_docker_exception e then confirm_inactive V c else throw (DockerRaised e))
        | Inr _ \<Rightarrow> confirm_inactive V c))
      (\<lambda>b. inside (if b then L - {claim_of c} else L)) (fails_in L)"
    by (rule attempt_cases [OF calls_keep(6)])
       (auto intro!: confirm_inactive_found throw_rule if_rule)
  show ?thesis
    unfolding quiesce_container_def
    by (intro if_rule removed stopped confirm_inactive_found give_rule) simp
qed

text \<open>The container a name stands for, and what is left once it is gone.\<close>

abbreviation only_as :: "claim set \<Rightarrow> string \<Rightarrow> container \<Rightarrow> claim set" where
  "only_as L n c \<equiv> {k \<in> L. holder k = n \<longrightarrow> k = claim_of c}"

lemma inside_gone: "inside (only_as L n c - {claim_of c}) s \<Longrightarrow> inside (gone L n) s"
  by blast

lemma inside_only: "inside (only_as L n c) s \<Longrightarrow> inside L s"
  by blast

lemma gone_inside: "inside (gone L n) s \<Longrightarrow> inside L s"
  by blast

lemma finally_gone:
  assumes "establishes P m (\<lambda>b. inside (if b then only_as L n c - {claim_of c} else only_as L n c)) (fails_in (only_as L n c))"
  shows "establishes P m (\<lambda>b. inside (if b then gone L n else L)) (\<lambda>_. inside L)"
proof (rule weaken [OF assms])
  fix b and s :: "('d, 'f, 'z) node_scheme"
  assume "inside (if b then only_as L n c - {claim_of c} else only_as L n c) s"
  then show "inside (if b then gone L n else L) s"
    by (cases b) (simp_all only: if_True if_False, erule inside_gone, erule inside_only)
qed (blast, erule conjE, erule inside_only)

lemma quiesce_failed_inference_found:
  assumes "safe_name n" and n: "n = workload_name ''inference'' u"
  shows "establishes (inside L) (quiesce_failed_inference V u g tm)
     (\<lambda>b. inside (if b then gone L n else L)) (\<lambda>_. inside L)"
  unfolding quiesce_failed_inference_def n [symmetric]
proof (rule attempt_cases [OF managed_container_found [OF assms(1)]], unfold sum.case)
  fix c0
  show "establishes (\<lambda>s. (c_name c0 = n \<and> is_managed c0 \<and> labels_fit_name c0) \<and> inside (only_as L n c0) s)
      (and_then (attempt (docker (e_reload (av_engine V) c0))) (\<lambda>r.
       case r of Inl e \<Rightarrow> (if e = NotFoundError then give True
           else if is_docker_exception e then give False else throw (DockerRaised e))
         | Inr c \<Rightarrow> quiesce_container V g tm c))
      (\<lambda>b. inside (if b then gone L n else L)) (\<lambda>_. inside L)"
  proof (rule fact_rule, rule finally_gone [where c = c0], rule attempt_cases [OF reload_found], unfold sum.case)
    fix c
    show "establishes (\<lambda>s. (same_container c0 c \<and> (active c \<and> is_managed c0 \<longrightarrow> claim_of c0 \<in> only_as L n c0))
        \<and> inside (if active c then only_as L n c0 else only_as L n c0 - {claim_of c0}) s)
        (quiesce_container V g tm c)
        (\<lambda>b. inside (if b then only_as L n c0 - {claim_of c0} else only_as L n c0)) (fails_in (only_as L n c0))"
    proof (rule fact_rule)
      assume "same_container c0 c \<and> (active c \<and> is_managed c0 \<longrightarrow> claim_of c0 \<in> only_as L n c0)"
      then have same: "claim_of c = claim_of c0" using same_claim by blast
      show "establishes (inside (if active c then only_as L n c0 else only_as L n c0 - {claim_of c0}))
          (quiesce_container V g tm c)
          (\<lambda>b. inside (if b then only_as L n c0 - {claim_of c0} else only_as L n c0)) (fails_in (only_as L n c0))"
        by (rule weaken [OF quiesce_container_found [where L = "only_as L n c0" and c = c, unfolded same]], rule inside_if(2))
    qed
  next
    fix x
    show "establishes (inside (if x = NotFoundError then only_as L n c0 - {claim_of c0} else only_as L n c0))
        (if x = NotFoundError then give True else if is_docker_exception x then give False else throw (DockerRaised x))
        (\<lambda>b. inside (if b then only_as L n c0 - {claim_of c0} else only_as L n c0)) (fails_in (only_as L n c0))"
      by (intro if_rule give_rule throw_rule) (simp_all split: if_splits)
  qed
next
  fix x
  show "establishes (inside (if x = WorkloadNotFound then gone L n else L))
      (case x of WorkloadNotFound \<Rightarrow> give True
         | DockerRaised x' \<Rightarrow> (if is_docker_exception x' then give False else throw x) | _ \<Rightarrow> throw x)
      (\<lambda>b. inside (if b then gone L n else L)) (\<lambda>_. inside L)"
    by (cases x) (auto intro!: give_rule throw_rule if_rule)
qed

text \<open>What an inspection reports of the container of a workload.\<close>

definition owned :: "lease_owner_type \<Rightarrow> uuid \<Rightarrow> workload_info \<Rightarrow> bool" where
  "owned t u i \<longleftrightarrow> wi_kind i = owner_kind t \<and> (u < 2 ^ 128 \<longrightarrow> wi_workload_id i = u)"

definition owns :: "lease_owner_type \<Rightarrow> uuid \<Rightarrow> container \<Rightarrow> bool" where
  "owns t u c \<longleftrightarrow> c_name c = contract_workload_name t u \<and> labels_fit_name c"

lemma owns_same: "same_container c c' \<Longrightarrow> owns t u c \<Longrightarrow> owns t u c'"
  unfolding owns_def same_container_def labels_fit_name_def by metis

lemma owns_describes:
  assumes "owns t u c" and "describes i c" shows "owned t u i"
proof -
  obtain k v where l: "map_of (c_labels c) kind_label = Some k" "map_of (c_labels c) id_label = Some (uuid_str v)"
    "v < 2 ^ 128" "workload_name (owner_kind t) u = workload_name k v"
    using assms(1) by (auto simp: owns_def labels_fit_name_def contract_workload_name_def)
  have k: "k = owner_kind t" and v: "uuid_str u = uuid_str v"
    using workload_name_inj [OF l(4)] by simp_all
  have "wi_kind i = k" "wi_workload_id i = v"
    using assms(2) l parse_uuid_str [OF l(3)] by (auto simp: describes_def)
  then show ?thesis using k v l(3) uuid_str_inj unfolding owned_def by metis
qed

text \<open>A value that is an inspection of the workload; unless it is active, its container is gone.\<close>

abbreviation shows_workload :: "lease_owner_type \<Rightarrow> uuid \<Rightarrow> claim set \<Rightarrow> workload_info \<Rightarrow> ('d, 'f, 'z) node_scheme \<Rightarrow> bool" where
  "shows_workload t u L i s \<equiv> owned t u i
     \<and> inside (if wi_status i \<in> active_states then L else gone L (contract_workload_name t u)) s"

abbreviation shows_or_absent :: "lease_owner_type \<Rightarrow> uuid \<Rightarrow> claim set \<Rightarrow> workload_info option \<Rightarrow> ('d, 'f, 'z) node_scheme \<Rightarrow> bool" where
  "shows_or_absent t u L r s \<equiv> (case r of
     None \<Rightarrow> inside (gone L (contract_workload_name t u)) s | Some i \<Rightarrow> shows_workload t u L i s)"

abbreviation fails_absent :: "lease_owner_type \<Rightarrow> uuid \<Rightarrow> claim set \<Rightarrow> runner_error \<Rightarrow> ('d, 'f, 'z) node_scheme \<Rightarrow> bool" where
  "fails_absent t u L x \<equiv> inside (if x = WorkloadNotFound then gone L (contract_workload_name t u) else L)"

lemma shown:
  assumes "owns t u c" and "describes i c"
    and "inside (if wi_status i \<in> active_states then only_as L (contract_workload_name t u) c
      else only_as L (contract_workload_name t u) c - {claim_of c}) s"
  shows "shows_workload t u L i s"
proof
  show "owned t u i" using owns_describes assms(1,2) .
  show "inside (if wi_status i \<in> active_states then L else gone L (contract_workload_name t u)) s"
    using assms(3) by (cases "wi_status i \<in> active_states") (simp_all only: if_True if_False, blast+)
qed

lemma to_info_shows:
  assumes "owns t u c"
  shows "finds (only_as L (contract_workload_name t u) c) (to_info V c) (\<lambda>i. shows_workload t u L i)"
  by (rule weaken [OF to_info_found]) (assumption, rule shown [OF assms], blast+)

lemma removed_absent:
  "finds (only_as L (contract_workload_name t u) c)
     (and_then (call_docker (e_remove (av_engine V) f v c)) (\<lambda>_. give None)) (shows_or_absent t u L)"
  by (rule and_then_rule [OF call_remove_found], rule give_rule) (simp only: option.case, erule inside_gone)

text \<open>After the lookup of a workload and its inspection, the container is the one the name stands for.\<close>

lemma owned_reload:
  assumes c0: "owns t u c0"
    and f: "\<And>c. owns t u c \<Longrightarrow> establishes (inside (only_as L (contract_workload_name t u) c)) (f c) Q (fails_in L)"
  shows "establishes (inside (only_as L (contract_workload_name t u) c0))
     (and_then (call_docker (e_reload (av_engine V) c0)) f) Q (fails_in L)"
proof -
  let ?L = "only_as L (contract_workload_name t u) c0"
  have reload: "establishes (inside ?L) (call_docker (e_reload (av_engine V) c0))
      (\<lambda>c s. (same_container c0 c \<and> (active c \<and> is_managed c0 \<longrightarrow> claim_of c0 \<in> ?L))
        \<and> inside (if active c then ?L else ?L - {claim_of c0}) s) (fails_in L)"
    by (rule weaken [OF call_reload_found], assumption, assumption) (use inside_only in blast)
  show ?thesis
  proof (rule bind_fact [OF reload])
    fix c
    assume "same_container c0 c \<and> (active c \<and> is_managed c0 \<longrightarrow> claim_of c0 \<in> ?L)"
    then have c: "owns t u c" "claim_of c = claim_of c0"
      using c0 owns_same same_claim by blast+
    show "establishes (inside (if active c then ?L else ?L - {claim_of c0})) (f c) Q (fails_in L)"
      by (rule weaken [OF f [OF c(1), unfolded c(2)]], rule inside_if(2))
  qed
qed

lemma managed_owned:
  "establishes (inside L) (managed_container V (contract_workload_name t u))
     (\<lambda>c s. owns t u c \<and> inside (only_as L (contract_workload_name t u) c) s) (fails_absent t u L)"
  by (rule weaken [OF managed_container_found [OF safe_contract_name]]) (assumption, simp only: owns_def, blast)

lemma lookup_and_reload:
  assumes "\<And>c. owns t u c \<Longrightarrow> establishes (inside (only_as L (contract_workload_name t u) c)) (f c) Q (fails_in L)"
  shows "establishes (inside L)
     (and_then (managed_container V (contract_workload_name t u)) (\<lambda>c0. and_then (call_docker (e_reload (av_engine V) c0)) f))
     Q (fails_absent t u L)"
  by (rule bind_fact [OF managed_owned], rule weaken [OF owned_reload [OF _ assms]]) (assumption+, simp_all)

lemma stop_contract_workload_found:
  "establishes (inside L) (stop_contract_workload V t u g tm) (shows_or_absent t u L) (fails_absent t u L)"
  unfolding stop_contract_workload_def Let_def
proof (rule lookup_and_reload)
  fix c
  assume c: "owns t u c"
  let ?L = "only_as L (contract_workload_name t u) c"
  let ?remove = "and_then (call_docker (e_remove (av_engine V) False True c)) (\<lambda>_. give None)"
  let ?again = "and_then (to_info V c) (\<lambda>i'. if finished_well t i' then give (Some i') else ?remove)"
  have remove: "establishes (inside ?L) ?remove (shows_or_absent t u L) (fails_in L)"
    by (rule weaken [OF removed_absent]) (assumption, assumption, use inside_only in blast)
  have give_shown: "establishes (inside (if wi_status i \<in> active_states then ?L else ?L - {claim_of c})) (give (Some i))
      (shows_or_absent t u L) (fails_in L)" if "describes i c" for i
    by (rule give_rule, unfold option.case, rule shown [OF c that])
  have info: "establishes (inside ?L) (to_info V c)
      (\<lambda>i s. describes i c \<and> inside (if wi_status i \<in> active_states then ?L else ?L - {claim_of c}) s) (fails_in L)"
    by (rule weaken [OF to_info_found]) (assumption, assumption, use inside_only in blast)
  have again: "establishes (inside ?L) ?again (shows_or_absent t u L) (fails_in L)"
    by (rule bind_fact [OF info], rule if_rule, erule give_shown, rule weaken [OF remove], rule inside_if(2))
  have stop: "establishes (inside ?L) (call_docker (e_stop (av_engine V) tm c)) (\<lambda>_. inside ?L) (fails_in L)"
    by (rule weaken [OF calls_find(6)]) (assumption, assumption, use inside_only in blast)
  show "establishes (inside ?L) (and_then (require (generation_from_labels (c_labels c) = g)
       (WorkloadConflict ''stop generation differs'')) (\<lambda>_.
       and_then (to_info V c) (\<lambda>i. if finished_well t i then give (Some i)
         else if wi_status i \<in> active_states then and_then (call_docker (e_stop (av_engine V) tm c)) (\<lambda>_. ?again)
         else ?remove)))
     (shows_or_absent t u L) (fails_in L)"
  proof (rule bind_require, rule bind_fact [OF info])
    fix i assume i: "describes i c"
    have "establishes (inside (if wi_status i \<in> active_states then ?L else ?L - {claim_of c}))
        (if wi_status i \<in> active_states then and_then (call_docker (e_stop (av_engine V) tm c)) (\<lambda>_. ?again) else ?remove)
        (shows_or_absent t u L) (fails_in L)"
      by (rule weaken [where P = "inside ?L"], rule if_rule, rule and_then_rule [OF stop], rule again, rule remove)
         (erule inside_if(2))
    then show "establishes (inside (if wi_status i \<in> active_states then ?L else ?L - {claim_of c}))
        (if finished_well t i then give (Some i)
         else if wi_status i \<in> active_states then and_then (call_docker (e_stop (av_engine V) tm c)) (\<lambda>_. ?again)
         else ?remove) (shows_or_absent t u L) (fails_in L)"
      using give_shown [OF i] by (rule if_rule [rotated])
  qed (use inside_only in blast)
qed

lemma get_contract_workload_found:
  "establishes (inside L) (get_contract_workload V t u) (\<lambda>i. shows_workload t u L i) (fails_absent t u L)"
  unfolding get_contract_workload_def get_workload_def
proof (rule bind_fact [OF managed_owned])
  fix c assume "owns t u c"
  then show "establishes (inside (only_as L (contract_workload_name t u) c)) (to_info V c)
      (\<lambda>i. shows_workload t u L i) (fails_absent t u L)"
    by (rule weaken [OF to_info_shows]) (assumption, assumption, use inside_only in auto)
qed

lemma prepare_contract_start_found:
  "establishes (inside L) (prepare_contract_start V t u g) (shows_or_absent t u L) (\<lambda>_. inside L)"
  unfolding prepare_contract_start_def Let_def
proof (rule and_then_rule)
  let ?n = "contract_workload_name t u"
  let ?R = "\<lambda>found s. case found of None \<Rightarrow> inside (gone L ?n) s | Some c0 \<Rightarrow> owns t u c0 \<and> inside (only_as L ?n c0) s"
  show "establishes (inside L)
      (rescue (and_then (managed_container V ?n) (\<lambda>c. give (Some c)))
        (\<lambda>e. if e = WorkloadNotFound then give None else throw e)) ?R (\<lambda>_. inside L)"
    by (rule rescue_rule, rule and_then_rule [OF managed_owned], rule give_rule)
       (auto intro!: if_rule give_rule throw_rule)
  fix found
  show "establishes (?R found)
      (case found of None \<Rightarrow> give None
       | Some c0 \<Rightarrow> and_then (call_docker (e_reload (av_engine V) c0)) (\<lambda>c.
           if generation_from_labels (c_labels c) > g then throw (WorkloadConflict ''command generation is older'')
           else if generation_from_labels (c_labels c) = g then and_then (to_info V c) (\<lambda>i. give (Some i))
           else if active c then throw (WorkloadConflict ''older generation still runs'')
           else and_then (call_docker (e_remove (av_engine V) False True c)) (\<lambda>_. give None)))
      (shows_or_absent t u L) (\<lambda>_. inside L)"
  proof (cases found)
    case (Some c0)
    have step: "establishes (inside (only_as L ?n c))
       (if generation_from_labels (c_labels c) > g then throw (WorkloadConflict ''command generation is older'')
        else if generation_from_labels (c_labels c) = g then and_then (to_info V c) (\<lambda>i. give (Some i))
        else if active c then throw (WorkloadConflict ''older generation still runs'')
        else and_then (call_docker (e_remove (av_engine V) False True c)) (\<lambda>_. give None))
       (shows_or_absent t u L) (fails_in L)" if c: "owns t u c" for c
    proof (intro if_rule)
      show "establishes (inside (only_as L ?n c)) (and_then (to_info V c) (\<lambda>i. give (Some i)))
          (shows_or_absent t u L) (fails_in L)"
        by (rule weaken [where X = "fails_in (only_as L ?n c)"], rule and_then_rule [OF to_info_shows [OF c]], rule give_rule)
           (simp_all only: option.case, use inside_only in blast)
      show "establishes (inside (only_as L ?n c))
          (and_then (call_docker (e_remove (av_engine V) False True c)) (\<lambda>_. give None)) (shows_or_absent t u L) (fails_in L)"
        by (rule weaken [OF removed_absent]) (assumption, assumption, use inside_only in blast)
    qed (rule throw_rule, use inside_only in blast)+
    show ?thesis
      unfolding Some option.case
      by (rule fact_rule, rule weaken [OF owned_reload [OF _ step]]) simp_all
  qed (auto intro: give_rule)
qed

lemma cleanup_contract_workload_found:
  "establishes (inside L) (cleanup_contract_workload V t u g)
     (\<lambda>_. inside (gone L (contract_workload_name t u))) (\<lambda>_. inside L)"
  unfolding cleanup_contract_workload_def Let_def
proof (rule attempt_cases [OF get_found], unfold sum.case)
  let ?n = "contract_workload_name t u"
  fix c0
  let ?L = "{k \<in> L. holder k = ?n \<longrightarrow> k = claim_of c0 \<and> is_managed c0}"
  have left: "inside (?L - {claim_of c0}) s \<Longrightarrow> inside (gone L ?n) s" and kept: "inside ?L s \<Longrightarrow> inside L s"
    for s :: "('d, 'f, 'z) node_scheme" by blast+
  have absent: "establishes (inside (if x = NotFoundError then ?L - {claim_of c0} else ?L))
      (if x = NotFoundError then give () else throw (DockerRaised x)) (\<lambda>_. inside (gone L ?n)) (\<lambda>_. inside L)" for x
  proof (cases "x = NotFoundError")
    case True
    show ?thesis
      unfolding if_P [OF True] by (rule give_rule, erule left)
  next
    case False
    show ?thesis
      unfolding if_not_P [OF False] by (rule throw_rule, erule kept)
  qed
  show "establishes (\<lambda>s. inside ?L s \<and> (c_name c0 = ?n \<and> (is_managed c0 \<longrightarrow> labels_fit_name c0)))
      (and_then (attempt (docker (e_reload (av_engine V) c0))) (\<lambda>r.
         case r of
           Inl e \<Rightarrow> (if e = NotFoundError then give () else throw (DockerRaised e))
         | Inr c \<Rightarrow>
             if map_of (c_labels c) managed_label \<noteq> Some ''true'' \<or> map_of (c_labels c) id_label \<noteq> Some (uuid_str u)
                \<or> map_of (c_labels c) kind_label \<noteq> Some (owner_kind t) \<or> map_of (c_labels c) owner_type_label \<noteq> Some (owner_type_value t)
             then throw (WorkloadConflict ''cleanup target has no trusted owner labels'')
             else if \<not> (case map_of (c_labels c) generation_label of None \<Rightarrow> False | Some w \<Rightarrow> positive_decimal w)
             then throw (WorkloadConflict ''cleanup target has no trusted generation label'')
             else if (case map_of (c_labels c) generation_label of None \<Rightarrow> None | Some w \<Rightarrow> py_int w) \<noteq> Some g
             then throw (WorkloadConflict ''cleanup generation differs'')
             else if active c then throw (WorkloadConflict ''cleanup only removes finished workloads'')
             else if c_status c = ''removing'' then throw (WorkloadConflict ''cleanup target is being removed'')
             else if c_status c \<notin> terminal_states then throw (WorkloadConflict ''cleanup cannot confirm the end'')
             else
               and_then (attempt (docker (e_remove (av_engine V) False False c))) (\<lambda>r'.
               case r' of
                 Inl e \<Rightarrow> (if e = NotFoundError then give () else throw (DockerRaised e))
               | Inr _ \<Rightarrow> give ())))
      (\<lambda>_. inside (gone L ?n)) (\<lambda>_. inside L)"
  proof (rule weaken [where P = "inside ?L"], rule attempt_cases [OF reload_found], unfold sum.case, rule fact_rule)
    fix c
    assume "same_container c0 c \<and> (active c \<and> is_managed c0 \<longrightarrow> claim_of c0 \<in> ?L)"
    then have same: "claim_of c = claim_of c0" using same_claim by blast
    have refuse: "establishes (inside ?L) (throw y) (\<lambda>_. inside (gone L ?n)) (\<lambda>_. inside L)" for y :: runner_error
      by (rule throw_rule, erule kept)
    have remove: "establishes (inside ?L)
        (and_then (attempt (docker (e_remove (av_engine V) False False c))) (\<lambda>r'.
         case r' of Inl e \<Rightarrow> (if e = NotFoundError then give () else throw (DockerRaised e)) | Inr _ \<Rightarrow> give ()))
        (\<lambda>_. inside (gone L ?n)) (\<lambda>_. inside L)"
      by (rule attempt_cases [OF remove_found [where L = ?L and c = c, unfolded same]], unfold sum.case,
          rule give_rule, erule left, rule absent)
    show "establishes (inside (if active c then ?L else ?L - {claim_of c0}))
      (if map_of (c_labels c) managed_label \<noteq> Some ''true'' \<or> map_of (c_labels c) id_label \<noteq> Some (uuid_str u)
          \<or> map_of (c_labels c) kind_label \<noteq> Some (owner_kind t) \<or> map_of (c_labels c) owner_type_label \<noteq> Some (owner_type_value t)
       then throw (WorkloadConflict ''cleanup target has no trusted owner labels'')
       else if \<not> (case map_of (c_labels c) generation_label of None \<Rightarrow> False | Some w \<Rightarrow> positive_decimal w)
       then throw (WorkloadConflict ''cleanup target has no trusted generation label'')
       else if (case map_of (c_labels c) generation_label of None \<Rightarrow> None | Some w \<Rightarrow> py_int w) \<noteq> Some g
       then throw (WorkloadConflict ''cleanup generation differs'')
       else if active c then throw (WorkloadConflict ''cleanup only removes finished workloads'')
       else if c_status c = ''removing'' then throw (WorkloadConflict ''cleanup target is being removed'')
       else if c_status c \<notin> terminal_states then throw (WorkloadConflict ''cleanup cannot confirm the end'')
       else and_then (attempt (docker (e_remove (av_engine V) False False c))) (\<lambda>r'.
         case r' of Inl e \<Rightarrow> (if e = NotFoundError then give () else throw (DockerRaised e)) | Inr _ \<Rightarrow> give ()))
      (\<lambda>_. inside (gone L ?n)) (\<lambda>_. inside L)"
      by (rule weaken [where P = "inside ?L" and Q = "\<lambda>_. inside (gone L ?n)" and X = "\<lambda>_. inside L"],
          (rule if_rule refuse remove)+, erule inside_if(2))
  next
    fix x
    show "establishes (inside (if x = NotFoundError then ?L - {claim_of c0} else ?L))
        (if x = NotFoundError then give () else throw (DockerRaised x)) (\<lambda>_. inside (gone L ?n)) (\<lambda>_. inside L)"
      by (rule absent)
  qed blast+
next
  fix x
  show "establishes (inside (if x = NotFoundError then gone L (contract_workload_name t u) else L))
      (if x = NotFoundError then give () else throw (DockerRaised x))
      (\<lambda>_. inside (gone L (contract_workload_name t u))) (\<lambda>_. inside L)"
    by (auto intro!: if_rule give_rule throw_rule)
qed

section \<open>Allocation\<close>

text \<open>The claim's cards are all recorded under its name.\<close>

abbreviation seen :: "allocations \<Rightarrow> claim \<Rightarrow> bool" where
  "seen taken k \<equiv> \<forall>g \<in> cards k. map_of taken g = Some (holder k)"

lemma get_fold_set: "map_of (fold (\<lambda>g. dict_set g n) gs d) g = (if g \<in> set gs then Some n else map_of d g)"
  by (induction gs arbitrary: d) (auto simp: dict_get_set)

lemma seen_after:
  assumes "exclusive L" "claim_of c \<in> L" "k \<in> L" "k = claim_of c \<or> seen taken k"
  shows "seen (fold (\<lambda>g. dict_set g (c_name c)) (gpu_ids_from_labels (c_labels c)) taken) k"
proof (cases "k = claim_of c")
  case True
  then show ?thesis by (simp add: get_fold_set claim_of_def)
next
  case False
  then have "cards k \<inter> cards (claim_of c) = {}" using assms(1-3) unfolding exclusive_def by blast
  then have "\<forall>g \<in> cards k. g \<notin> set (gpu_ids_from_labels (c_labels c))" by (auto simp: claim_of_def)
  then show ?thesis using assms(4) False by (simp add: get_fold_set)
qed

lemma allocation_loop_found:
  assumes "exclusive L"
  shows "\<forall>c \<in> set cs. is_managed c \<Longrightarrow>
    establishes (inside {k \<in> L. k \<in> claim_of ` set cs \<or> seen taken k}) (allocation_loop V cs taken :: ('d, 'f, 'z, allocations) operation)
      (\<lambda>h. inside {k \<in> L. seen h k}) (fails_in L)"
proof (induction cs arbitrary: taken)
  case Nil
  show ?case by (simp, rule give_rule) simp
next
  case (Cons c0 cs)
  let ?L = "{k \<in> L. k \<in> claim_of ` set (c0 # cs) \<or> seen taken k}"
  have managed: "is_managed c0" "\<forall>c \<in> set cs. is_managed c" using Cons.prems by simp_all
  have reload: "establishes (inside ?L) (call_docker (e_reload (av_engine V) c0))
      (\<lambda>c s. (same_container c0 c \<and> (active c \<and> is_managed c0 \<longrightarrow> claim_of c0 \<in> ?L))
        \<and> inside (if active c then ?L else ?L - {claim_of c0}) s) (fails_in L)"
    by (rule weaken [OF call_reload_found], assumption, assumption) blast
  show ?case
    unfolding allocation_loop.simps
  proof (rule bind_fact [OF reload])
    fix c
    assume c: "same_container c0 c \<and> (active c \<and> is_managed c0 \<longrightarrow> claim_of c0 \<in> ?L)"
    then have same: "claim_of c = claim_of c0" using same_claim by blast
    let ?t = "if active c then fold (\<lambda>g. dict_set g (c_name c)) (gpu_ids_from_labels (c_labels c)) taken else taken"
    have step: "(if active c then ?L else ?L - {claim_of c0}) \<subseteq> {k \<in> L. k \<in> claim_of ` set cs \<or> seen ?t k}"
    proof (cases "active c")
      case True
      then have "claim_of c \<in> L" using c managed(1) same by auto
      then have "k \<in> claim_of ` set cs \<or> seen ?t k" if "k \<in> ?L" for k
        using that seen_after [OF assms, of c k taken] same True by auto
      then show ?thesis using True by auto
    next
      case False
      then show ?thesis by auto
    qed
    have rest: "establishes (inside {k \<in> L. k \<in> claim_of ` set cs \<or> seen ?t k}) (allocation_loop V cs ?t :: ('d, 'f, 'z, allocations) operation)
        (\<lambda>h. inside {k \<in> L. seen h k}) (fails_in L)"
      by (rule Cons.IH [OF managed(2)])
    show "establishes (inside (if active c then ?L else ?L - {claim_of c0})) (allocation_loop V cs ?t :: ('d, 'f, 'z, allocations) operation)
        (\<lambda>h. inside {k \<in> L. seen h k}) (fails_in L)"
      by (rule weaken [OF rest subset_trans [OF _ step]])
  qed
qed

lemma list_found:
  "finds L (call_docker (e_list (av_engine V)))
     (\<lambda>cs s. (\<forall>c \<in> set cs. is_managed c) \<and> inside {k \<in> L. k \<in> claim_of ` set cs} s)"
proof (rule call_raises, rule establishesI)
  fix s s' :: "('d, 'f, 'z) node_scheme" and cs
  assume L: "inside L s" and m: "docker (e_list (av_engine V)) s = (s', Inr cs)"
  have "inside L s'" using value_of [OF calls_keep(2) L m] .
  then show "(\<forall>c \<in> set cs. is_managed c) \<and> inside {k \<in> L. k \<in> claim_of ` set cs} s'"
    using docker_cases [OF m] laws unfolding docker_laws_def list_reports_def by fastforce
next
  fix s s' :: "('d, 'f, 'z) node_scheme" and x
  assume L: "inside L s" and m: "docker (e_list (av_engine V)) s = (s', Inl x)"
  show "inside L s'" using error_of [OF calls_keep(2) L m] .
qed simp

lemma gpu_allocations_found:
  assumes "exclusive L"
  shows "finds L (gpu_allocations V) (\<lambda>h. inside {k \<in> L. seen h k})"
  unfolding gpu_allocations_def
proof (rule bind_fact [OF list_found])
  fix cs assume "\<forall>c \<in> set cs. is_managed c"
  then show "establishes (inside {k \<in> L. k \<in> claim_of ` set cs}) (allocation_loop V cs [])
      (\<lambda>h. inside {k \<in> L. seen h k}) (fails_in L)"
    by (rule weaken [OF allocation_loop_found [OF assms]]) blast+
qed

lemmas nvml_calls = nvml_shrink [OF laws]

lemma shrinks_rules:
  "only_shrinks live (give a)" "only_shrinks live (throw x)" "only_shrinks live (from_sum v)"
  by (simp_all add: only_shrinks_def action_defs)

lemma shrinks_keeps: "only_shrinks live m \<longleftrightarrow> (\<forall>L. keeps (\<lambda>d. live d \<subseteq> L) m)"
proof
  assume m: "only_shrinks live m"
  show "\<forall>L. keeps (\<lambda>d. live d \<subseteq> L) m"
    using m unfolding establishes_iff only_shrinks_def by (metis fst_conv subset_trans)
next
  assume "\<forall>L. keeps (\<lambda>d. live d \<subseteq> L) m"
  then show "only_shrinks live m" unfolding only_shrinks_def using kept by fastforce
qed

lemma busy_loop_keeps: "keeps (\<lambda>d. live d \<subseteq> L) (busy_loop (av_engine V) gs busy)"
proof (induction gs arbitrary: busy)
  case (Cons g gs)
  have "keeps (\<lambda>d. live d \<subseteq> L) (process_count (av_engine V) b g)" for b
    unfolding process_count_def using nvml_calls shrinks_keeps by (intro keep_rules) blast
  then show ?case
    using nvml_calls shrinks_keeps Cons.IH unfolding busy_loop.simps by (intro keep_rules) blast+
qed (simp add: keeps_give)

lemma read_busy_shrinks: "only_shrinks live (read_busy_gpu_ids (av_engine V) gs)"
  unfolding shrinks_keeps read_busy_gpu_ids_def
  using nvml_calls shrinks_keeps busy_loop_keeps by (intro allI keep_rules) blast+

lemma assert_gpus_available_found:
  assumes "exclusive L"
  shows "finds L (assert_gpus_available V gs exclude)
     (\<lambda>_. inside {k \<in> L. Some (holder k) = exclude \<or> cards k \<inter> set gs = {}})"
  unfolding assert_gpus_available_def
proof (rule and_then_rule [OF gpu_allocations_found [OF assms]], rule bind_require)
  fix h
  let ?free = "{k \<in> L. Some (holder k) = exclude \<or> cards k \<inter> set gs = {}}"
  assume c: "\<forall>g \<in> set gs. case map_of h g of None \<Rightarrow> True | Some n \<Rightarrow> Some n = exclude"
  have sub: "{k \<in> L. seen h k} \<subseteq> ?free" using c by fastforce
  have nvml: "keeps (inside {k \<in> L. seen h k}) (rescue (docker (read_busy_gpu_ids (av_engine V) gs))
        (\<lambda>_. throw (OtherRunnerError ''NVML unavailable'')))"
    by (intro keep_rules docker_shrinks read_busy_shrinks)
  have check: "establishes (inside {k \<in> L. seen h k})
      (and_then (rescue (docker (read_busy_gpu_ids (av_engine V) gs))
          (\<lambda>_. throw (OtherRunnerError ''NVML unavailable'')))
        (\<lambda>busy. require (busy = []) (WorkloadConflict ''card runs an unmanaged process'')))
      (\<lambda>_. inside {k \<in> L. seen h k}) (\<lambda>x s. x \<noteq> WorkloadNotFound \<and> inside {k \<in> L. seen h k} s)"
    by (rule bind_keep, rule rescue_rule, rule docker_shrinks [OF read_busy_shrinks], rule throw_rule, simp,
        rule require_rule) simp_all
  have "establishes (inside {k \<in> L. seen h k})
      (if \<not> st_enforce_nvml (av_settings V) then give ()
       else and_then (rescue (docker (read_busy_gpu_ids (av_engine V) gs))
           (\<lambda>_. throw (OtherRunnerError ''NVML unavailable'')))
         (\<lambda>busy. require (busy = []) (WorkloadConflict ''card runs an unmanaged process'')))
      (\<lambda>_. inside {k \<in> L. seen h k}) (\<lambda>x s. x \<noteq> WorkloadNotFound \<and> inside {k \<in> L. seen h k} s)"
    by (rule if_rule, rule give_rule, assumption, rule check)
  then show "establishes (inside {k \<in> L. seen h k})
      (if \<not> st_enforce_nvml (av_settings V) then give ()
       else and_then (rescue (docker (read_busy_gpu_ids (av_engine V) gs))
           (\<lambda>_. throw (OtherRunnerError ''NVML unavailable'')))
         (\<lambda>busy. require (busy = []) (WorkloadConflict ''card runs an unmanaged process'')))
      (\<lambda>_. inside ?free) (fails_in L)"
    by (rule weaken) (use sub in auto)
qed auto

text \<open>Everything a launch does before it creates the container is passive.\<close>

lemma assert_name_available_keeps: "keeps (inside L) (assert_name_available V n)"
  unfolding assert_name_available_def by (intro keep_rules calls_keep)

lemma run_container_found:
  assumes "exclusive L" "\<forall>k \<in> L. cards k \<inter> set (rq_gpu_ids q) = {}"
  shows "establishes (inside L) (run_container V q) (\<lambda>_ s. exclusive (live (nd_docker s))) (\<lambda>_ s. exclusive (live (nd_docker s)))"
  unfolding run_container_def
proof (rule rescue_rule [where R = "\<lambda>_ s. exclusive (live (nd_docker s))"])
  have *: "exclusive (live (nd_docker s'))"
    if L: "inside L s" and m: "docker (e_run (av_engine V) (run_spec_of (av_settings V) q)) s = (s', r)"
    for s s' :: "('d, 'f, 'z) node_scheme" and r
  proof -
    obtain d where d: "e_run (av_engine V) (run_spec_of (av_settings V) q) (nd_docker s) = (d, r)" "s' = s\<lparr>nd_docker := d\<rparr>"
      using docker_cases [OF m] by blast
    let ?spec = "run_spec_of (av_settings V) q"
    have "\<forall>q d d' r. e_run (av_engine V) q d = (d', r) \<longrightarrow>
        (\<exists>i. live d' \<subseteq> insert (i, rs_name q, gpu_ids_from_labels (rs_labels q)) (live d))"
      using laws unfolding docker_laws_def run_creates_def by blast
    then obtain i where "live d \<subseteq> insert (i, rs_name ?spec, gpu_ids_from_labels (rs_labels ?spec)) (live (nd_docker s))"
      using d(1) by blast
    then have "live d \<subseteq> insert (i, rq_name q, gpu_ids_from_labels (run_labels q)) (live (nd_docker s))"
      by (simp add: run_spec_of_def)
    then have "live d \<subseteq> insert (i, rq_name q, rq_gpu_ids q) L" using L by (auto simp: run_labels_gpus)
    moreover have "exclusive (insert (i, rq_name q, rq_gpu_ids q) L)"
      by (rule exclusive_insert [OF assms(1)]) (use assms(2) in auto)
    ultimately show ?thesis using exclusive_subset d(2) by simp
  qed
  show "establishes (inside L) (docker (e_run (av_engine V) (run_spec_of (av_settings V) q)))
      (\<lambda>_ s. exclusive (live (nd_docker s))) (\<lambda>_ s. exclusive (live (nd_docker s)))"
    by (rule establishesI) (use * in blast)+
qed (rule throw_rule)

lemma allocate_found:
  assumes "exclusive L"
  shows "establishes (inside L) (allocate V q) (\<lambda>_ s. exclusive (live (nd_docker s))) (\<lambda>_ s. exclusive (live (nd_docker s)))"
proof -
  have excl: "inside L s \<Longrightarrow> exclusive (live (nd_docker s))" for s :: "('d, 'f, 'z) node_scheme"
    using exclusive_subset [OF assms] .
  let ?free = "{k \<in> L. Some (holder k) = None \<or> cards k \<inter> set (rq_gpu_ids q) = {}}"
  have run: "establishes (inside ?free) (run_container V q)
      (\<lambda>_ s. exclusive (live (nd_docker s))) (\<lambda>_ s. exclusive (live (nd_docker s)))"
    by (rule run_container_found) (auto intro: exclusive_subset [OF assms])
  show ?thesis
    unfolding allocate_def
    by (rule bind_keep, rule weaken [OF assert_name_available_keeps], assumption, assumption, erule excl,
        rule and_then_rule [OF weaken [OF assert_gpus_available_found [OF assms]] run], assumption, assumption)
       (use excl in blast)
qed

section \<open>Every operation keeps the cards exclusive\<close>

abbreviation excl :: "('d, 'f, 'z) node_scheme \<Rightarrow> bool" where
  "excl s \<equiv> exclusive (live (nd_docker s))"

lemma excl_from:
  assumes "\<And>L. exclusive L \<Longrightarrow> establishes (inside L) m (\<lambda>_. excl) (\<lambda>_. excl)"
  shows "keeps excl m"
proof (rule establishesI)
  fix s s' a assume "excl s" "m s = (s', Inr a)"
  then show "excl s'" using value_of [OF assms [of "live (nd_docker s)"]] by blast
next
  fix s s' x assume "excl s" "m s = (s', Inl x)"
  then show "excl s'" using error_of [OF assms [of "live (nd_docker s)"]] by blast
qed

lemma passive_excl: "(\<And>L. keeps (inside L) m) \<Longrightarrow> keeps excl m"
  by (rule excl_from, rule weaken, assumption) (use exclusive_subset in blast)+

lemmas operations_passive =
  managed_container_keeps [THEN passive_excl] to_info_keeps [THEN passive_excl]
  get_workload_keeps [THEN passive_excl] prepare_contract_start_keeps [THEN passive_excl]
  stop_contract_workload_keeps [THEN passive_excl] cleanup_contract_workload_keeps [THEN passive_excl]
  quiesce_failed_inference_keeps [THEN passive_excl] call_files_keep [THEN passive_excl]
  files_keep [THEN passive_excl] calls_keep(1-14) [THEN passive_excl]

lemma allocate_excl: "keeps excl (allocate V q)"
  by (rule excl_from, rule allocate_found)

lemma verified_image_excl: "keeps excl (verified_image_id V f r)"
  unfolding verified_image_id_def by (intro keep_rules operations_passive)

lemma launch_inference_excl: "keeps excl (launch_inference V q)"
  unfolding launch_inference_def inference_request_def Let_def
  by (intro keep_rules operations_passive allocate_excl verified_image_excl)

lemma launch_training_excl: "keeps excl (launch_training V q)"
  unfolding launch_training_def training_request_def Let_def
  by (intro keep_rules operations_passive allocate_excl verified_image_excl)

lemma launch_evaluation_excl: "keeps excl (launch_evaluation V q)"
  unfolding launch_evaluation_def evaluation_request_def Let_def
  by (intro keep_rules operations_passive allocate_excl verified_image_excl)

lemma stop_workload_excl: "keeps excl (stop_workload V n tm)"
  unfolding stop_workload_def by (intro keep_rules operations_passive)

lemma delete_container_excl: "keeps excl (delete_container V n force)"
  unfolding delete_container_def by (intro keep_rules operations_passive)

lemma start_call_found:
  assumes "exclusive L" "\<forall>k \<in> L. k \<noteq> claim_of c \<longrightarrow> cards k \<inter> cards (claim_of c) = {}"
  shows "establishes (inside L) (call_docker (e_start (av_engine V) c)) (\<lambda>_. excl) (\<lambda>_. excl)"
proof -
  have *: "excl s'" if L: "inside L s" and m: "docker (e_start (av_engine V) c) s = (s', r)"
    for s s' :: "('d, 'f, 'z) node_scheme" and r
  proof -
    have "live (nd_docker s') \<subseteq> insert (claim_of c) (live (nd_docker s))"
    proof -
      obtain d where d: "e_start (av_engine V) c (nd_docker s) = (d, r)" "s' = s\<lparr>nd_docker := d\<rparr>"
        using docker_cases [OF m] by blast
      have "start_activates (av_engine V) live" using laws unfolding docker_laws_def by blast
      then have "live (fst (e_start (av_engine V) c (nd_docker s))) \<subseteq> insert (claim_of c) (live (nd_docker s))"
        unfolding start_activates_def by blast
      then show ?thesis using d by simp
    qed
    then have "live (nd_docker s') \<subseteq> insert (claim_of c) L" using L by blast
    then show ?thesis
      using exclusive_subset [OF exclusive_insert [OF assms]] by blast
  qed
  show ?thesis
    unfolding call_docker_def
    by (rule rescue_rule [where R = "\<lambda>_. excl"], rule establishesI) (use * in blast, use * in blast, rule throw_rule)
qed

lemma start_workload_excl: "keeps excl (start_workload V n)"
proof (rule excl_from)
  fix L assume L: "exclusive L"
  have still: "inside L s \<Longrightarrow> excl s" for s :: "('d, 'f, 'z) node_scheme" using exclusive_subset [OF L] .
  show "establishes (inside L) (start_workload V n) (\<lambda>_. excl) (\<lambda>_. excl)"
  proof (cases "safe_name n")
    case False
    then show ?thesis
      by (simp add: start_workload_def managed_container_def establishes_def action_defs)
         (blast intro: exclusive_subset [OF L])
  next
    case True
    have managed: "establishes (inside L) (managed_container V n)
        (\<lambda>c s. (c_name c = n \<and> is_managed c \<and> labels_fit_name c) \<and> inside (only_as L n c) s) (\<lambda>_. excl)"
      by (rule weaken [OF managed_container_found [OF True]], assumption, assumption, rule still) (simp split: if_splits, blast)
    show ?thesis
      unfolding start_workload_def
    proof (rule bind_fact [OF managed])
      fix c assume "c_name c = n \<and> is_managed c \<and> labels_fit_name c"
      let ?L = "only_as L n c"
      have L': "exclusive ?L" by (rule exclusive_subset [OF L]) blast
      have still': "inside ?L s \<Longrightarrow> excl s" for s :: "('d, 'f, 'z) node_scheme" using exclusive_subset [OF L'] .
      have info: "establishes (inside ?L) (to_info V c) (\<lambda>i s. describes i c \<and> inside ?L s) (\<lambda>_. excl)"
        by (rule weaken [OF to_info_found]) (assumption, use inside_if(2) in blast, use still' in blast)
      show "establishes (inside ?L) (and_then (to_info V c) (\<lambda>i.
          if wi_status i \<in> {''running'', ''restarting''} then give i
          else if wi_status i = ''paused'' then throw (WorkloadConflict ''workload is paused'')
          else and_then (assert_gpus_available V (wi_gpu_ids i) (Some n)) (\<lambda>_.
            and_then (call_docker (e_start (av_engine V) c)) (\<lambda>_. to_info V c)))) (\<lambda>_. excl) (\<lambda>_. excl)"
      proof (rule bind_fact [OF info], intro if_rule)
        fix i assume i: "describes i c"
        let ?free = "{k \<in> ?L. Some (holder k) = Some n \<or> cards k \<inter> set (wi_gpu_ids i) = {}}"
        have check: "establishes (inside ?L) (assert_gpus_available V (wi_gpu_ids i) (Some n)) (\<lambda>_. inside ?free) (\<lambda>_. excl)"
          by (rule weaken [OF assert_gpus_available_found [OF L']]) (assumption, assumption, use still' in blast)
        have free: "\<forall>k \<in> ?free. k \<noteq> claim_of c \<longrightarrow> cards k \<inter> cards (claim_of c) = {}"
          using i by (auto simp: describes_def claim_of_def)
        show "establishes (inside ?L) (and_then (assert_gpus_available V (wi_gpu_ids i) (Some n)) (\<lambda>_.
            and_then (call_docker (e_start (av_engine V) c)) (\<lambda>_. to_info V c))) (\<lambda>_. excl) (\<lambda>_. excl)"
          by (rule and_then_rule [OF check], rule and_then_rule [OF start_call_found [OF _ free]],
              rule exclusive_subset [OF L'], blast, rule operations_passive(2))
      qed (rule give_rule throw_rule, rule still', assumption)+
    qed
  qed
qed

end

end
