(* ===== verification/PyFloat.thy ===== *)
theory PyFloat
  imports PyStrings "HOL-Library.Log_Nat"
begin

text \<open>
  Python's finite floats as the rationals they denote: rounding to the nearest double (ties to even),
  on which the division of two integers, the difference, product and quotient of two floats and
  \<open>round(x, n)\<close> are defined, as CPython computes them. Exponents are not bounded: the numbers of the
  program lie far from the ends of the range.
\<close>

section \<open>Rounding to an integer, ties to even\<close>

definition nearest :: "rat \<Rightarrow> int" where
  "nearest x =
     (let f = \<lfloor>x\<rfloor>; d = x - of_int f in
      if d < 1 / 2 then f else if 1 / 2 < d then f + 1 else if even f then f else f + 1)"

lemma nearest_floor: "nearest x = \<lfloor>x\<rfloor> \<or> nearest x = \<lfloor>x\<rfloor> + 1"
  by (simp add: nearest_def Let_def)

lemma nearest_int [simp]: "nearest (of_int n) = n"
  by (simp add: nearest_def)

lemma nearest_mono:
  assumes "x \<le> y" shows "nearest x \<le> nearest y"
proof (cases "\<lfloor>x\<rfloor> = \<lfloor>y\<rfloor>")
  case True
  then show ?thesis using assms by (simp add: nearest_def Let_def)
next
  case False
  then have "\<lfloor>x\<rfloor> + 1 \<le> \<lfloor>y\<rfloor>" using floor_mono [OF assms] by simp
  then show ?thesis using nearest_floor [of x] nearest_floor [of y] by linarith
qed

section \<open>Rounding to a double\<close>

text \<open>The exponent \<open>e\<close> with \<open>2 ^ e \<le> x < 2 ^ (e + 1)\<close>.\<close>

definition binade :: "rat \<Rightarrow> int" where
  "binade x =
     (let (p, q) = quotient_of x; k = bitlen p - bitlen q in if 2 powi k \<le> x then k else k - 1)"

definition round_positive :: "rat \<Rightarrow> rat" where
  "round_positive x = (let u = 2 powi (binade x - 52) in of_int (nearest (x / u)) * u)"

definition to_double :: "rat \<Rightarrow> rat" where
  "to_double x = (if x = 0 then 0 else if x < 0 then - round_positive (- x) else round_positive x)"

lemma binade_bounds:
  assumes "0 < x" shows "2 powi (binade x) \<le> x" and "x < 2 powi (binade x + 1)"
proof -
  obtain p q where pq: "quotient_of x = (p, q)" by (cases "quotient_of x")
  have q: "0 < q" using quotient_of_denom_pos [OF pq] .
  have x: "x = of_int p / of_int q" using quotient_of_div [OF pq] .
  then have p: "0 < p" using assms q by (simp add: zero_less_divide_iff)
  define a b where "a = bitlen p" and "b = bitlen q"
  have ab: "1 \<le> a" "1 \<le> b"
    using p q by (simp_all add: a_def b_def bitlen_ge_iff_power)
  have powi: "2 powi k = (of_int (2 ^ nat k) :: rat)" if "0 \<le> k" for k :: int
    using that by (simp add: power_int_def)
  have lp: "2 powi (a - 1) \<le> (of_int p :: rat)" and up: "(of_int p :: rat) < 2 powi a"
    using bitlen_bounds [OF p] ab powi [of "a - 1"] powi [of a]
    by (simp_all only: a_def of_int_le_iff of_int_less_iff diff_ge_0_iff_ge order_trans [OF zero_le_one])
  have lq: "2 powi (b - 1) \<le> (of_int q :: rat)" and uq: "(of_int q :: rat) < 2 powi b"
    using bitlen_bounds [OF q] ab powi [of "b - 1"] powi [of b]
    by (simp_all only: b_def of_int_le_iff of_int_less_iff diff_ge_0_iff_ge order_trans [OF zero_le_one])
  have split1: "(2 powi a :: rat) = 2 powi (a - b + 1) * 2 powi (b - 1)" by (simp flip: power_int_add)
  have split2: "(2 powi (a - 1) :: rat) = 2 powi (a - b - 1) * 2 powi b" by (simp flip: power_int_add)
  have upper: "x < 2 powi (a - b + 1)"
  proof -
    have "of_int p < 2 powi (a - b + 1) * (of_int q :: rat)"
      using up lq unfolding split1
      by (meson less_le_trans mult_le_cancel_left_pos zero_less_numeral zero_less_power_int)
    then show ?thesis using q by (simp add: x divide_less_eq)
  qed
  have lower: "2 powi (a - b - 1) \<le> x"
  proof -
    have "2 powi (a - b - 1) * (of_int q :: rat) \<le> of_int p"
      using lp uq unfolding split2
      by (meson less_imp_le mult_le_cancel_left_pos order_trans zero_less_numeral zero_less_power_int)
    then show ?thesis using q by (simp add: x le_divide_eq)
  qed
  have "binade x = (if 2 powi (a - b) \<le> x then a - b else a - b - 1)"
    by (simp add: binade_def pq a_def b_def)
  then show "2 powi (binade x) \<le> x" "x < 2 powi (binade x + 1)"
    using upper lower by (auto split: if_splits)
qed

lemma round_positive_bounds:
  assumes "0 < x"
  shows "2 powi (binade x) \<le> round_positive x" and "round_positive x \<le> 2 powi (binade x + 1)"
proof -
  let ?u = "2 powi (binade x - 52) :: rat"
  have u: "0 < ?u" by simp
  have s: "2 powi (binade x) = of_int (2 ^ 52) * ?u" "2 powi (binade x + 1) = of_int (2 ^ 53) * ?u"
    using power_int_add [of "2 :: rat" 52 "binade x - 52"] power_int_add [of "2 :: rat" 53 "binade x - 52"]
    by (simp_all add: power_int_def [of _ 52] power_int_def [of _ 53] add.commute)
  have "of_int (2 ^ 52) \<le> x / ?u" "x / ?u \<le> of_int (2 ^ 53)"
    using binade_bounds [OF assms] s u by (simp_all add: le_divide_eq divide_le_eq)
  then have "2 ^ 52 \<le> nearest (x / ?u)" "nearest (x / ?u) \<le> 2 ^ 53"
    by (auto dest: nearest_mono simp only: nearest_int)
  then show "2 powi (binade x) \<le> round_positive x" "round_positive x \<le> 2 powi (binade x + 1)"
    unfolding s round_positive_def Let_def using u by (simp_all only: mult_le_cancel_right_pos of_int_le_iff)
qed

lemma round_positive_mono:
  assumes "0 < x" "x \<le> y" shows "round_positive x \<le> round_positive y"
proof (cases "binade x = binade y")
  case True
  have "x / 2 powi (binade y - 52) \<le> y / 2 powi (binade y - 52)"
    using assms(2) by (intro divide_right_mono) auto
  then have "nearest (x / 2 powi (binade y - 52)) \<le> nearest (y / 2 powi (binade y - 52))"
    by (rule nearest_mono)
  then show ?thesis by (simp add: round_positive_def Let_def True)
next
  case False
  have y: "0 < y" using assms by simp
  have "(2 :: rat) powi (binade x) < 2 powi (binade y + 1)"
    using binade_bounds [OF assms(1)] binade_bounds [OF y] assms(2) by linarith
  then have "binade x < binade y + 1"
    by (meson not_le power_int_increasing one_le_numeral)
  then have "binade x + 1 \<le> binade y" using False by simp
  then have "(2 :: rat) powi (binade x + 1) \<le> 2 powi (binade y)"
    by (intro power_int_increasing) auto
  then show ?thesis using round_positive_bounds [OF assms(1)] round_positive_bounds [OF y] by linarith
qed

lemma round_positive_pos: "0 < x \<Longrightarrow> 0 < round_positive x"
  using round_positive_bounds(1) [of x] by (meson less_le_trans zero_less_numeral zero_less_power_int)

lemma to_double_0 [simp]: "to_double 0 = 0"
  by (simp add: to_double_def)

lemma to_double_mono:
  assumes "x \<le> y" shows "to_double x \<le> to_double y"
proof -
  consider "0 < x" | "x \<le> 0" "0 \<le> y" | "y < 0" by linarith
  then show ?thesis
  proof cases
    case 1
    then show ?thesis using assms round_positive_mono by (simp add: to_double_def)
  next
    case 2
    then show ?thesis
      using round_positive_pos [of y] round_positive_pos [of "- x"] by (auto simp: to_double_def)
  next
    case 3
    then show ?thesis using assms round_positive_mono [of "- y" "- x"] by (simp add: to_double_def)
  qed
qed

section \<open>\<open>round(x, n)\<close> and arithmetic\<close>

definition py_round :: "nat \<Rightarrow> rat \<Rightarrow> rat" where
  "py_round n x = to_double (of_int (nearest (x * 10 ^ n)) / 10 ^ n)"

definition float_sub :: "rat \<Rightarrow> rat \<Rightarrow> rat" where "float_sub a b = to_double (a - b)"
definition float_mul :: "rat \<Rightarrow> rat \<Rightarrow> rat" where "float_mul a b = to_double (a * b)"
definition float_div :: "rat \<Rightarrow> rat \<Rightarrow> rat" where "float_div a b = to_double (a / b)"

text \<open>\<open>a / b\<close> on integers.\<close>

definition int_div :: "int \<Rightarrow> int \<Rightarrow> rat" where "int_div a b = to_double (of_int a / of_int b)"

lemma py_round_mono: "x \<le> y \<Longrightarrow> py_round n x \<le> py_round n y"
  unfolding py_round_def by (intro to_double_mono divide_right_mono) (auto intro!: nearest_mono mult_right_mono)

lemma py_round_int: "py_round n (of_int k) = to_double (of_int k)"
proof -
  have "(of_int k :: rat) * 10 ^ n = of_int (k * 10 ^ n)" by simp
  then have "nearest (of_int k * 10 ^ n :: rat) = k * 10 ^ n" by (simp only: nearest_int)
  then show ?thesis by (simp add: py_round_def)
qed

lemma py_round_0 [simp]: "py_round n 0 = 0"
  using py_round_int [of n 0] by simp

lemma hundred_exact: "to_double 100 = 100" "to_double (- 100) = - 100"
  by code_simp+

lemma py_round_hundred: "py_round n 100 = 100" "py_round n (- 100) = - 100"
  using py_round_int [of n 100] py_round_int [of n "- 100"] by (simp_all add: hundred_exact)

lemma py_round_nonneg: "0 \<le> x \<Longrightarrow> 0 \<le> py_round n x"
  using py_round_mono [of 0 x n] by simp

text \<open>A share of a whole, in per cent, lies between 0 and 100.\<close>

lemma percent_bounds:
  assumes "0 \<le> a" "a \<le> b" "0 < b"
  shows "0 \<le> py_round n (int_div (a * 100) b)" and "py_round n (int_div (a * 100) b) \<le> 100"
proof -
  have "(0 :: rat) \<le> of_int (a * 100) / of_int b" using assms by simp
  moreover have "of_int (a * 100) / of_int b \<le> (100 :: rat)"
  proof -
    have "(of_int (a * 100) :: rat) \<le> of_int (100 * b)" using assms(2) by (simp only: of_int_le_iff)
    then show ?thesis using assms(3) by (simp add: divide_le_eq)
  qed
  ultimately have "0 \<le> int_div (a * 100) b" "int_div (a * 100) b \<le> 100"
    using to_double_mono [of 0] to_double_mono [of _ 100] by (simp_all add: int_div_def hundred_exact)
  then show "0 \<le> py_round n (int_div (a * 100) b)" "py_round n (int_div (a * 100) b) \<le> 100"
    using py_round_nonneg py_round_mono [of _ 100 n] by (simp_all add: py_round_hundred)
qed

text \<open>The difference of two percentages lies between -100 and 100.\<close>

lemma point_change_bounds:
  assumes "0 \<le> a" "a \<le> 100" "0 \<le> b" "b \<le> 100"
  shows "- 100 \<le> py_round n (float_sub a b)" and "py_round n (float_sub a b) \<le> 100"
proof -
  have "- 100 \<le> float_sub a b" "float_sub a b \<le> 100"
    using assms to_double_mono [of "- 100" "a - b"] to_double_mono [of "a - b" 100]
    by (simp_all add: float_sub_def hundred_exact)
  then show "- 100 \<le> py_round n (float_sub a b)" "py_round n (float_sub a b) \<le> 100"
    using py_round_mono [of "- 100" _ n] py_round_mono [of _ 100 n] by (simp_all only: py_round_hundred)
qed

end
