(* ===== verification/Checks.thy ===== *)
theory Checks
  imports PyFloat
begin

text \<open>
  Checks that raise: an error is the left of a sum, the checks run one after the other and stop at the
  first that fails. The readers of JSON fields that the evaluation and training code share.
\<close>

section \<open>Sequences of checks\<close>

fun on_ok :: "'x + 'a \<Rightarrow> ('a \<Rightarrow> 'x + 'b) \<Rightarrow> 'x + 'b" where
  "on_ok (Inl x) f = Inl x"
| "on_ok (Inr a) f = f a"

definition check :: "bool \<Rightarrow> 'x \<Rightarrow> 'x + unit" where
  "check b x = (if b then Inr () else Inl x)"

fun check_each :: "('a \<Rightarrow> 'x + 'b) \<Rightarrow> 'a list \<Rightarrow> 'x + 'b list" where
  "check_each f [] = Inr []"
| "check_each f (a # as) = on_ok (f a) (\<lambda>b. on_ok (check_each f as) (\<lambda>bs. Inr (b # bs)))"

named_theorems check_simps

lemma on_ok_Inr [check_simps]: "on_ok m f = Inr b \<longleftrightarrow> (\<exists>a. m = Inr a \<and> f a = Inr b)"
  by (cases m) auto

lemma check_Inr [check_simps]: "check b x = Inr u \<longleftrightarrow> b"
  by (simp add: check_def)

lemma check_True [simp]: "check True x = Inr ()"
  by (simp add: check_def)

lemma check_each_Inr: "check_each f as = Inr bs \<longleftrightarrow> list_all2 (\<lambda>a b. f a = Inr b) as bs"
proof (induction as arbitrary: bs)
  case Nil
  then show ?case by (cases bs) auto
next
  case (Cons a as)
  then show ?case by (cases bs) (auto simp: on_ok_Inr)
qed

lemma check_each_map: "(\<And>a. a \<in> set as \<Longrightarrow> f (g a) = Inr (h a)) \<Longrightarrow> check_each f (map g as) = Inr (map h as)"
  by (induction as) auto

section \<open>Fields of a JSON object\<close>

text \<open>\<open>dict.get\<close>: a missing field reads as \<open>None\<close>.\<close>

definition jget :: "string \<Rightarrow> json_obj \<Rightarrow> json" where
  "jget k kvs = (case map_of kvs k of None \<Rightarrow> JNull | Some v \<Rightarrow> v)"

lemma jget_Cons [simp]: "jget k ((j, v) # kvs) = (if j = k then v else jget k kvs)"
  by (simp add: jget_def)

lemma jget_Nil [simp]: "jget k [] = JNull"
  by (simp add: jget_def)

fun int_value :: "json \<Rightarrow> int option" where
  "int_value (JInt n) = Some n"
| "int_value _ = None"

fun str_value :: "json \<Rightarrow> string option" where
  "str_value (JStr s) = Some s"
| "str_value _ = None"

fun arr_value :: "json \<Rightarrow> json list option" where
  "arr_value (JArr vs) = Some vs"
| "arr_value _ = None"

fun obj_value :: "json \<Rightarrow> json_obj option" where
  "obj_value (JObj kvs) = Some kvs"
| "obj_value _ = None"

definition some_or :: "'x \<Rightarrow> 'a option \<Rightarrow> 'x + 'a" where
  "some_or x m = (case m of None \<Rightarrow> Inl x | Some a \<Rightarrow> Inr a)"

lemma some_or_simps [simp]: "some_or x (Some a) = Inr a" "some_or x None = Inl x"
  by (simp_all add: some_or_def)

text \<open>\<open>float(value)\<close> of a JSON number; an integer that rounds past the largest double raises.\<close>

definition number_value :: "json \<Rightarrow> rat option" where
  "number_value v =
     (case v of
        JInt n \<Rightarrow> (if \<bar>n\<bar> < 2 ^ 1024 - 2 ^ 970 then Some (to_double (of_int n)) else None)
      | JFloat r \<Rightarrow> Some r
      | _ \<Rightarrow> None)"

lemma number_value_float [simp]: "number_value (JFloat r) = Some r"
  by (simp add: number_value_def)

section \<open>Fingerprints and short texts\<close>

definition lower_hex :: "char \<Rightarrow> bool" where
  "lower_hex c \<longleftrightarrow> is_dec c \<or> 97 \<le> code c \<and> code c \<le> 102"

definition is_sha256 :: "string \<Rightarrow> bool" where
  "is_sha256 s \<longleftrightarrow> length s = 64 \<and> list_all lower_hex s"

end
