(* ===== verification/EvaluationReport.thy ===== *)
theory EvaluationReport
  imports Checks "HOL-Library.List_Lexorder" "HOL-Library.Char_ord"
begin

text \<open>
  The evaluation runner, \<open>evaluation/src/openllmops_eval\<close>: scoring of answers, aggregation of a run
  into a report, comparison of two reports, and the JSON they are written as (\<open>metrics.py\<close>, \<open>models.py\<close>,
  \<open>runner.py\<close>, \<open>orchestrator.py\<close>). The text normalisation (Unicode NFKC, Chinese punctuation) and the
  answer of the model server are parameters.
\<close>

section \<open>\<open>models.py\<close>\<close>

datatype eval_task = MULTIPLE_CHOICE | CLASSIFICATION | SHORT_QA

record eval_sample =
  sample_id :: string
  sample_task :: eval_task
  question :: string
  answers :: "string list"
  sample_category :: string
  choices :: "(string \<times> string) list"
  sample_context :: "string option"

record sample_result =
  sr_id :: string
  sr_category :: string
  sr_prediction :: string
  sr_expected :: "string list"
  sr_correct :: bool
  sr_valid :: bool
  sr_latency :: rat

record category_metric =
  cm_category :: string
  cm_total :: int
  cm_correct :: int
  cm_invalid :: int
  cm_accuracy :: rat

record evaluation_report =
  er_sha256 :: string
  er_model :: string
  er_template :: string
  er_total :: int
  er_correct :: int
  er_invalid :: int
  er_accuracy :: rat
  er_latency :: rat
  er_categories :: "category_metric list"
  er_sample_ids :: "string list"

text \<open>One entry of \<open>category_changes\<close>, a dictionary of the code with fixed keys.\<close>

record category_change =
  cc_category :: string
  cc_baseline :: rat
  cc_candidate :: rat
  cc_change :: rat

record comparison_report =
  cr_sha256 :: string
  cr_baseline_model :: string
  cr_candidate_model :: string
  cr_baseline :: rat
  cr_candidate :: rat
  cr_change :: rat
  cr_relative :: "rat option"
  cr_comparable :: bool
  cr_reason :: "string option"
  cr_categories :: "category_change list"

section \<open>Scoring\<close>

record text_tools =
  tt_normalize :: "string \<Rightarrow> string"
  tt_choice :: "string \<Rightarrow> string list \<Rightarrow> string option"

definition score_answer :: "text_tools \<Rightarrow> eval_sample \<Rightarrow> string \<Rightarrow> rat \<Rightarrow> sample_result" where
  "score_answer T x prediction latency =
     (let (valid, correct) =
        (if sample_task x = MULTIPLE_CHOICE then
           (case tt_choice T prediction (map fst (choices x)) of
              None \<Rightarrow> (False, False)
            | Some parsed \<Rightarrow> (True, parsed = hd (answers x)))
         else
           (let parsed = tt_normalize T prediction; v = (parsed \<noteq> []) in
            (v, v \<and> parsed \<in> set (map (tt_normalize T) (answers x)))))
      in \<lparr>sr_id = sample_id x, sr_category = sample_category x, sr_prediction = prediction,
          sr_expected = answers x, sr_correct = correct, sr_valid = valid, sr_latency = max 0 latency\<rparr>)"

section \<open>Aggregation\<close>

definition count_where :: "('a \<Rightarrow> bool) \<Rightarrow> 'a list \<Rightarrow> int" where
  "count_where P xs = int (length (filter P xs))"

definition percent :: "int \<Rightarrow> int \<Rightarrow> rat" where
  "percent numerator denominator =
     (if denominator = 0 then 0 else py_round 4 (int_div (numerator * 100) denominator))"

text \<open>\<open>sorted(grouped.items())\<close>.\<close>

definition grouped :: "sample_result list \<Rightarrow> (string \<times> sample_result list) list" where
  "grouped results =
     map (\<lambda>n. (n, filter (\<lambda>r. sr_category r = n) results)) (sort (remdups (map sr_category results)))"

definition category_metric_of :: "string \<times> sample_result list \<Rightarrow> category_metric" where
  "category_metric_of g =
     (let items = snd g in
      \<lparr>cm_category = fst g, cm_total = int (length items), cm_correct = count_where sr_correct items,
       cm_invalid = count_where (\<lambda>r. \<not> sr_valid r) items,
       cm_accuracy = percent (count_where sr_correct items) (int (length items))\<rparr>)"

text \<open>The sum of the latencies is a parameter: how \<open>sum\<close> adds floats depends on the Python version.\<close>

definition aggregate_results ::
  "(rat list \<Rightarrow> rat) \<Rightarrow> string \<Rightarrow> string \<Rightarrow> string \<Rightarrow> sample_result list \<Rightarrow> evaluation_report option" where
  "aggregate_results sum_floats sha model template results =
     (if results = [] then None
      else
        (let n = int (length results); correct = count_where sr_correct results in
         Some \<lparr>er_sha256 = sha, er_model = model, er_template = template, er_total = n, er_correct = correct,
               er_invalid = count_where (\<lambda>r. \<not> sr_valid r) results, er_accuracy = percent correct n,
               er_latency = py_round 3 (float_div (sum_floats (map sr_latency results)) (of_int n)),
               er_categories = map category_metric_of (grouped results),
               er_sample_ids = sort (map sr_id results)\<rparr>))"

section \<open>\<open>runner.py\<close>: one model\<close>

datatype run_error = BadConcurrency | RequestFailed string | NothingToAggregate

text \<open>
  The server's answer to a sample: None is any exception of the request. The gathered results are in the
  order of the samples; one failed request fails the run.
\<close>

definition evaluate ::
  "text_tools \<Rightarrow> (rat list \<Rightarrow> rat) \<Rightarrow> (eval_sample \<Rightarrow> (string \<times> rat) option) \<Rightarrow> eval_sample list \<Rightarrow> string
     \<Rightarrow> string \<Rightarrow> string \<Rightarrow> int \<Rightarrow> run_error + evaluation_report" where
  "evaluate T sum_floats generate samples sha model template concurrency =
     on_ok (check (1 \<le> concurrency \<and> concurrency \<le> 64) BadConcurrency) (\<lambda>_.
     on_ok (check_each (\<lambda>x. case generate x of
         None \<Rightarrow> Inl (RequestFailed (sample_id x))
       | Some (prediction, latency) \<Rightarrow> Inr (score_answer T x prediction latency)) samples) (\<lambda>results.
     some_or NothingToAggregate (aggregate_results sum_floats sha model template results)))"

section \<open>Comparison\<close>

definition by_category :: "evaluation_report \<Rightarrow> string \<Rightarrow> category_metric option" where
  "by_category r = map_of (map (\<lambda>m. (cm_category m, m)) (er_categories r))"

definition common_categories :: "evaluation_report \<Rightarrow> evaluation_report \<Rightarrow> string list" where
  "common_categories b c =
     sort (remdups (filter (\<lambda>n. by_category c n \<noteq> None) (map cm_category (er_categories b))))"

definition category_change_of :: "evaluation_report \<Rightarrow> evaluation_report \<Rightarrow> string \<Rightarrow> category_change" where
  "category_change_of b c n =
     (let x = cm_accuracy (the (by_category b n)); y = cm_accuracy (the (by_category c n)) in
      \<lparr>cc_category = n, cc_baseline = x, cc_candidate = y, cc_change = py_round 4 (float_sub y x)\<rparr>)"

definition relative_change :: "rat \<Rightarrow> rat \<Rightarrow> rat option" where
  "relative_change delta base =
     (if base \<noteq> 0 then Some (py_round 4 (float_div (float_mul delta 100) base)) else None)"

definition compare_reports :: "evaluation_report \<Rightarrow> evaluation_report \<Rightarrow> comparison_report" where
  "compare_reports b c =
     (let reason = (if er_sha256 b \<noteq> er_sha256 c then Some ''dataset fingerprints differ''
                    else if er_sample_ids b \<noteq> er_sample_ids c then Some ''sample sets differ'' else None);
          delta = py_round 4 (float_sub (er_accuracy c) (er_accuracy b))
      in \<lparr>cr_sha256 = er_sha256 b, cr_baseline_model = er_model b, cr_candidate_model = er_model c,
          cr_baseline = er_accuracy b, cr_candidate = er_accuracy c, cr_change = delta,
          cr_relative = relative_change delta (er_accuracy b), cr_comparable = (reason = None),
          cr_reason = reason,
          cr_categories = map (category_change_of b c) (common_categories b c)\<rparr>)"

section \<open>The written report\<close>

definition category_json :: "category_metric \<Rightarrow> json" where
  "category_json m =
     JObj [(''category'', JStr (cm_category m)), (''total'', JInt (cm_total m)),
           (''correct'', JInt (cm_correct m)), (''invalid'', JInt (cm_invalid m)),
           (''accuracy_percent'', JFloat (cm_accuracy m))]"

definition report_fields :: "evaluation_report \<Rightarrow> json_obj" where
  "report_fields r =
     [(''dataset_sha256'', JStr (er_sha256 r)), (''model_name'', JStr (er_model r)),
      (''template'', JStr (er_template r)), (''total'', JInt (er_total r)), (''correct'', JInt (er_correct r)),
      (''invalid'', JInt (er_invalid r)), (''accuracy_percent'', JFloat (er_accuracy r)),
      (''average_latency_ms'', JFloat (er_latency r)),
      (''categories'', JArr (map category_json (er_categories r)))]"

definition report_json :: "evaluation_report \<Rightarrow> json" where
  "report_json r = JObj (report_fields r @ [(''sample_ids'', JArr (map JStr (er_sample_ids r)))])"

definition change_json :: "category_change \<Rightarrow> json" where
  "change_json c =
     JObj [(''category'', JStr (cc_category c)), (''baseline_percent'', JFloat (cc_baseline c)),
           (''candidate_percent'', JFloat (cc_candidate c)), (''percentage_point_change'', JFloat (cc_change c))]"

definition opt_json :: "('a \<Rightarrow> json) \<Rightarrow> 'a option \<Rightarrow> json" where
  "opt_json f v = (case v of None \<Rightarrow> JNull | Some a \<Rightarrow> f a)"

definition comparison_json :: "comparison_report \<Rightarrow> json" where
  "comparison_json c =
     JObj [(''dataset_sha256'', JStr (cr_sha256 c)), (''baseline_model'', JStr (cr_baseline_model c)),
           (''candidate_model'', JStr (cr_candidate_model c)), (''baseline_percent'', JFloat (cr_baseline c)),
           (''candidate_percent'', JFloat (cr_candidate c)), (''percentage_point_change'', JFloat (cr_change c)),
           (''relative_change_percent'', opt_json JFloat (cr_relative c)), (''comparable'', JBool (cr_comparable c)),
           (''reason'', opt_json JStr (cr_reason c)), (''category_changes'', JArr (map change_json (cr_categories c)))]"

definition pair_json :: "evaluation_report \<Rightarrow> evaluation_report \<Rightarrow> json" where
  "pair_json b c =
     JObj [(''baseline'', report_json b), (''candidate'', report_json c),
           (''comparison'', comparison_json (compare_reports b c))]"

end
