(* ===== verification/ReportReader.thy ===== *)
theory ReportReader
  imports EvaluationReport
begin

text \<open>
  How the node agent reads the report an evaluation container leaves behind:
  \<open>agent/openllmops_agent/evaluation_runtime.py\<close>. An error is the label of the field or rule at fault.
\<close>

section \<open>Fields\<close>

definition max_dataset_records :: int where "max_dataset_records = 200000"
definition max_report_categories :: nat where "max_report_categories = 4096"
definition max_report_json_nodes :: nat where "max_report_json_nodes = 600000"

definition control_char :: "char \<Rightarrow> bool" where
  "control_char c \<longleftrightarrow> code c < 32"

definition safe_short_text :: "nat \<Rightarrow> string option \<Rightarrow> string \<Rightarrow> json \<Rightarrow> string + string" where
  "safe_short_text max_length dflt field v =
     (let v' = (if v = JNull then (case dflt of Some d \<Rightarrow> JStr d | None \<Rightarrow> JNull) else v) in
      on_ok (some_or field (str_value v')) (\<lambda>s.
      let n = strip s in
      on_ok (check (n \<noteq> [] \<and> length n \<le> max_length \<and> \<not> list_ex control_char n) field) (\<lambda>_. Inr n)))"

abbreviation short_text :: "string \<Rightarrow> json \<Rightarrow> string + string" where
  "short_text \<equiv> safe_short_text 256 None"

definition finite_number :: "rat option \<Rightarrow> string \<Rightarrow> json \<Rightarrow> string + rat" where
  "finite_number minimum field v =
     on_ok (some_or field (number_value v)) (\<lambda>r.
     on_ok (check (case minimum of None \<Rightarrow> True | Some m \<Rightarrow> m \<le> r) field) (\<lambda>_. Inr r))"

definition sha256_field :: "string \<Rightarrow> json \<Rightarrow> string + string" where
  "sha256_field field v =
     on_ok (some_or field (str_value v)) (\<lambda>s. on_ok (check (is_sha256 s) field) (\<lambda>_. Inr s))"

text \<open>A list or an object cannot be looked up in a set: a \<open>TypeError\<close>, which nobody catches.\<close>

definition template_field :: "string \<Rightarrow> json \<Rightarrow> string + string" where
  "template_field field v =
     (case v of
        JStr s \<Rightarrow> (if s \<in> {''base'', ''instruct''} then Inr s else Inl field)
      | JArr _ \<Rightarrow> Inl ''TypeError''
      | JObj _ \<Rightarrow> Inl ''TypeError''
      | _ \<Rightarrow> Inl field)"

section \<open>The size of a JSON tree\<close>

text \<open>The counter of the code runs through the tree; None is its error.\<close>

fun bounded_tree :: "nat \<Rightarrow> json \<Rightarrow> nat \<Rightarrow> nat option"
  and bounded_items :: "nat \<Rightarrow> json list \<Rightarrow> nat \<Rightarrow> nat option"
  and bounded_members :: "nat \<Rightarrow> json_obj \<Rightarrow> nat \<Rightarrow> nat option" where
  "bounded_tree depth v counter =
     (let n = counter + 1 in
      if n > max_report_json_nodes \<or> depth > 32 then None
      else (case v of
          JStr s \<Rightarrow> (if length s > 8192 then None else Some n)
        | JArr vs \<Rightarrow> bounded_items (depth + 1) vs n
        | JObj kvs \<Rightarrow> bounded_members (depth + 1) kvs n
        | _ \<Rightarrow> Some n))"
| "bounded_items depth [] n = Some n"
| "bounded_items depth (v # vs) n =
     (case bounded_tree depth v n of None \<Rightarrow> None | Some m \<Rightarrow> bounded_items depth vs m)"
| "bounded_members depth [] n = Some n"
| "bounded_members depth ((k, v) # kvs) n =
     (if length k > 256 then None
      else (case bounded_tree depth v n of None \<Rightarrow> None | Some m \<Rightarrow> bounded_members depth kvs m))"

section \<open>One model's metrics\<close>

definition counts_ok :: "int \<Rightarrow> int \<Rightarrow> int \<Rightarrow> int \<Rightarrow> bool" where
  "counts_ok bound t c i \<longleftrightarrow> 1 \<le> t \<and> t \<le> bound \<and> 0 \<le> c \<and> c \<le> t \<and> 0 \<le> i \<and> i \<le> t \<and> c + i \<le> t"

definition count_fields :: "int \<Rightarrow> string \<Rightarrow> json_obj \<Rightarrow> string + int \<times> int \<times> int" where
  "count_fields bound field kvs =
     (case (int_value (jget ''total'' kvs), int_value (jget ''correct'' kvs), int_value (jget ''invalid'' kvs)) of
        (Some t, Some c, Some i) \<Rightarrow> on_ok (check (counts_ok bound t c i) field) (\<lambda>_. Inr (t, c, i))
      | _ \<Rightarrow> Inl field)"

definition accuracy_field :: "string \<Rightarrow> json_obj \<Rightarrow> int \<Rightarrow> int \<Rightarrow> string + rat" where
  "accuracy_field field kvs c t =
     on_ok (finite_number (Some 0) field (jget ''accuracy_percent'' kvs)) (\<lambda>a.
     on_ok (check (a \<le> 100) field) (\<lambda>_.
     on_ok (check (a = py_round 4 (int_div (c * 100) t)) field) (\<lambda>_. Inr a)))"

text \<open>One turn of the loop over \<open>categories\<close>, with the names seen so far.\<close>

definition read_category :: "int \<Rightarrow> string list \<Rightarrow> json \<Rightarrow> string + category_metric" where
  "read_category n seen v =
     on_ok (some_or ''category'' (obj_value v)) (\<lambda>kvs.
     on_ok (short_text ''category'' (jget ''category'' kvs)) (\<lambda>name.
     on_ok (check (name \<notin> set seen) ''category repeated'') (\<lambda>_.
     on_ok (count_fields n ''category counts'' kvs) (\<lambda>(t, c, i).
     on_ok (accuracy_field ''category accuracy'' kvs c t) (\<lambda>a.
     Inr \<lparr>cm_category = name, cm_total = t, cm_correct = c, cm_invalid = i, cm_accuracy = a\<rparr>)))))"

fun read_categories :: "int \<Rightarrow> string list \<Rightarrow> json list \<Rightarrow> string + category_metric list" where
  "read_categories n seen [] = Inr []"
| "read_categories n seen (v # vs) =
     on_ok (read_category n seen v) (\<lambda>m.
     on_ok (read_categories n (cm_category m # seen) vs) (\<lambda>ms. Inr (m # ms)))"

definition totals :: "category_metric list \<Rightarrow> int \<times> int \<times> int" where
  "totals ms = (sum_list (map cm_total ms), sum_list (map cm_correct ms), sum_list (map cm_invalid ms))"

definition metric_summary :: "json \<Rightarrow> string + evaluation_report" where
  "metric_summary v =
     on_ok (some_or ''report'' (obj_value v)) (\<lambda>kvs.
     on_ok (sha256_field ''dataset_sha256'' (jget ''dataset_sha256'' kvs)) (\<lambda>digest.
     on_ok (short_text ''model_name'' (jget ''model_name'' kvs)) (\<lambda>model.
     on_ok (template_field ''template'' (jget ''template'' kvs)) (\<lambda>template.
     on_ok (count_fields max_dataset_records ''counts'' kvs) (\<lambda>(t, c, i).
     on_ok (finite_number (Some 0) ''accuracy_percent'' (jget ''accuracy_percent'' kvs)) (\<lambda>_.
     on_ok (finite_number (Some 0) ''average_latency_ms'' (jget ''average_latency_ms'' kvs)) (\<lambda>latency.
     on_ok (accuracy_field ''accuracy_percent'' kvs c t) (\<lambda>accuracy.
     on_ok (some_or ''categories'' (arr_value (jget ''categories'' kvs))) (\<lambda>cats.
     on_ok (check (length cats \<le> max_report_categories) ''categories'') (\<lambda>_.
     on_ok (some_or ''sample_ids'' (arr_value (jget ''sample_ids'' kvs))) (\<lambda>ids.
     on_ok (check (int (length ids) = t) ''sample_ids'') (\<lambda>_.
     on_ok (check_each (short_text ''sample_ids'') ids) (\<lambda>names.
     on_ok (check (distinct names) ''sample_ids repeated'') (\<lambda>_.
     on_ok (read_categories t [] cats) (\<lambda>ms.
     on_ok (check (totals ms = (t, c, i)) ''category sums'') (\<lambda>_.
     Inr \<lparr>er_sha256 = digest, er_model = model, er_template = template, er_total = t, er_correct = c,
          er_invalid = i, er_accuracy = accuracy, er_latency = latency, er_categories = ms,
          er_sample_ids = names\<rparr>))))))))))))))))"

section \<open>The comparison\<close>

definition read_change ::
  "evaluation_report \<Rightarrow> evaluation_report \<Rightarrow> json \<times> string \<Rightarrow> string + category_change" where
  "read_change b c p =
     on_ok (some_or ''category_changes'' (obj_value (fst p))) (\<lambda>kvs.
     on_ok (short_text ''change category'' (jget ''category'' kvs)) (\<lambda>name.
     on_ok (finite_number (Some 0) ''change baseline'' (jget ''baseline_percent'' kvs)) (\<lambda>x.
     on_ok (finite_number (Some 0) ''change candidate'' (jget ''candidate_percent'' kvs)) (\<lambda>y.
     on_ok (finite_number None ''change'' (jget ''percentage_point_change'' kvs)) (\<lambda>d.
     let r = \<lparr>cc_category = name, cc_baseline = x, cc_candidate = y, cc_change = d\<rparr> in
     on_ok (check (r = category_change_of b c (snd p)) ''category change'') (\<lambda>_. Inr r))))))"

definition same_category_totals :: "evaluation_report \<Rightarrow> evaluation_report \<Rightarrow> bool" where
  "same_category_totals b c \<longleftrightarrow>
     list_all (\<lambda>m. map_option cm_total (by_category b (cm_category m))
       = map_option cm_total (by_category c (cm_category m))) (er_categories b)"

definition comparison_summary ::
  "json \<Rightarrow> evaluation_report \<Rightarrow> evaluation_report \<Rightarrow> string + comparison_report" where
  "comparison_summary v b c =
     on_ok (some_or ''comparison'' (obj_value v)) (\<lambda>kvs.
     on_ok (check (jget ''comparable'' kvs = JBool True) ''comparable'') (\<lambda>_.
     on_ok (sha256_field ''dataset_sha256'' (jget ''dataset_sha256'' kvs)) (\<lambda>digest.
     on_ok (short_text ''baseline_model'' (jget ''baseline_model'' kvs)) (\<lambda>bm.
     on_ok (short_text ''candidate_model'' (jget ''candidate_model'' kvs)) (\<lambda>cm.
     on_ok (finite_number (Some 0) ''baseline_percent'' (jget ''baseline_percent'' kvs)) (\<lambda>bp.
     on_ok (finite_number (Some 0) ''candidate_percent'' (jget ''candidate_percent'' kvs)) (\<lambda>cp.
     on_ok (finite_number None ''percentage_point_change'' (jget ''percentage_point_change'' kvs)) (\<lambda>delta.
     on_ok (case jget ''relative_change_percent'' kvs of
         JNull \<Rightarrow> Inr None
       | w \<Rightarrow> on_ok (finite_number None ''relative_change_percent'' w) (\<lambda>r. Inr (Some r))) (\<lambda>relative.
     on_ok (check (jget ''reason'' kvs = JNull) ''reason'') (\<lambda>_.
     let expected_delta = py_round 4 (float_sub (er_accuracy c) (er_accuracy b)) in
     on_ok (check (digest = er_sha256 b \<and> bm = er_model b \<and> cm = er_model c \<and> bp = er_accuracy b
         \<and> cp = er_accuracy c \<and> delta = expected_delta
         \<and> relative = relative_change expected_delta (er_accuracy b)) ''comparison'') (\<lambda>_.
     on_ok (some_or ''category_changes'' (arr_value (jget ''category_changes'' kvs))) (\<lambda>changes.
     on_ok (check (length changes \<le> max_report_categories) ''category_changes'') (\<lambda>_.
     on_ok (check (set (map cm_category (er_categories b)) = set (map cm_category (er_categories c))) ''category sets'') (\<lambda>_.
     on_ok (check (same_category_totals b c) ''category totals'') (\<lambda>_.
     on_ok (check_each (read_change b c) (zip changes (common_categories b c))) (\<lambda>rs.
     on_ok (check (length changes = length (common_categories b c)) ''category_changes'') (\<lambda>_.
     Inr \<lparr>cr_sha256 = digest, cr_baseline_model = bm, cr_candidate_model = cm, cr_baseline = bp,
          cr_candidate = cp, cr_change = delta, cr_relative = relative, cr_comparable = True,
          cr_reason = None, cr_categories = rs\<rparr>)))))))))))))))))"

section \<open>The pair\<close>

text \<open>What the caller expects of the report; None is an expectation not stated.\<close>

record report_expectation =
  rx_sha256 :: "string option"
  rx_total :: "int option"
  rx_base_template :: "string option"
  rx_candidate_template :: "string option"

definition expected :: "'a option \<Rightarrow> 'a \<Rightarrow> bool" where
  "expected e v = (case e of None \<Rightarrow> True | Some w \<Rightarrow> v = w)"

definition report_warnings :: "evaluation_report \<Rightarrow> evaluation_report \<Rightarrow> string list" where
  "report_warnings b c =
     (if er_invalid b = er_total b then [''baseline_all_outputs_invalid''] else [])
     @ (if er_invalid c = er_total c then [''candidate_all_outputs_invalid''] else [])"

definition pair_metadata ::
  "string \<Rightarrow> evaluation_report \<Rightarrow> evaluation_report \<Rightarrow> comparison_report \<Rightarrow> json_obj" where
  "pair_metadata report_path b c cmp =
     [(''metrics'', JObj [(''baseline'', JObj (report_fields b)), (''candidate'', JObj (report_fields c))]),
      (''comparison'', comparison_json cmp), (''result_path'', JStr report_path)]
     @ (if report_warnings b c = [] then [] else [(''warnings'', JArr (map JStr (report_warnings b c)))])"

definition read_pair_report :: "report_expectation \<Rightarrow> string \<Rightarrow> json \<Rightarrow> string + json_obj" where
  "read_pair_report X report_path v =
     on_ok (check (bounded_tree 0 v 0 \<noteq> None) ''report size'') (\<lambda>_.
     on_ok (some_or ''report'' (obj_value v)) (\<lambda>kvs.
     on_ok (check (set (map fst kvs) = {''baseline'', ''candidate'', ''comparison''}) ''report'') (\<lambda>_.
     on_ok (metric_summary (jget ''baseline'' kvs)) (\<lambda>b.
     on_ok (metric_summary (jget ''candidate'' kvs)) (\<lambda>c.
     on_ok (check (er_model b = ''baseline'' \<and> er_model c = ''candidate'') ''model names'') (\<lambda>_.
     on_ok (check (expected (rx_base_template X) (er_template b)) ''baseline template'') (\<lambda>_.
     on_ok (check (expected (rx_candidate_template X) (er_template c)) ''candidate template'') (\<lambda>_.
     on_ok (comparison_summary (jget ''comparison'' kvs) b c) (\<lambda>cmp.
     on_ok (check (er_sha256 b = er_sha256 c \<and> er_sha256 b = cr_sha256 cmp \<and> er_total b = er_total c) ''pair'') (\<lambda>_.
     on_ok (check (er_sample_ids b = er_sample_ids c) ''pair samples'') (\<lambda>_.
     on_ok (check (expected (rx_sha256 X) (er_sha256 b)) ''other data'') (\<lambda>_.
     on_ok (check (expected (rx_total X) (er_total b)) ''other data size'') (\<lambda>_.
     Inr (pair_metadata report_path b c cmp))))))))))))))"

end
