(* ===== verification/EvaluationFiles.thy ===== *)
theory EvaluationFiles
  imports ControlledPaths ReportReader CanonicalJson "HOL-Library.Product_Lexorder"
begin

text \<open>
  The files of an evaluation on the node: \<open>prepare_evaluation_workspace\<close>, which merges the data sets of a
  run into one JSON-lines file with a manifest, and the reading of the manifest and of the pair report
  (\<open>agent/openllmops_agent/evaluation_runtime.py\<close>).
\<close>

section \<open>File access\<close>

text \<open>
  What one pass over a data file sees: whether it is a regular file, its size, the pieces that
  \<open>readline(limit + 1)\<close> returns, and whether the file was another one after the pass than before.
  A file is written in one step: temporary file, \<open>fsync\<close>, \<open>chmod\<close> and \<open>os.replace\<close>.
\<close>

record source_text =
  so_regular :: bool
  so_size :: nat
  so_lines :: "string list"
  so_changed :: bool

record 'f file_access =
  fa_host :: "'f host"
  fa_lstat :: "path \<Rightarrow> ('f, os_error, file_kind \<times> nat) action"   \<comment> \<open>kind and size of one \<open>lstat\<close>\<close>
  fa_size :: "path \<Rightarrow> ('f, os_error, nat) action"
  fa_read :: "path \<Rightarrow> ('f, os_error, string) action"
  fa_source :: "path \<Rightarrow> ('f, os_error, source_text) action"
  fa_replace :: "path \<Rightarrow> string \<Rightarrow> ('f, os_error, unit) action"
  fa_loads :: "string \<Rightarrow> string + json"          \<comment> \<open>\<open>_loads_json\<close>, with the label of its error\<close>
  fa_sha256 :: "string \<Rightarrow> string"
  fa_float :: "rat \<Rightarrow> string"
  fa_text :: "json \<Rightarrow> string"                    \<comment> \<open>\<open>str\<close> of a float, a list, an object\<close>

datatype input_error = PathFault path_error | BadInput string | RawOsError os_error

definition try_path :: "('f, path_error, 'a) action \<Rightarrow> ('f, input_error, 'a) action" where
  "try_path m = rescue m (\<lambda>e. throw (PathFault e))"

text \<open>\<open>except OSError\<close>: the \<open>RuntimeError\<close> of a loop of links is not one.\<close>

definition try_os :: "string \<Rightarrow> ('f, os_error, 'a) action \<Rightarrow> ('f, input_error, 'a) action" where
  "try_os label m = rescue m (\<lambda>e. throw (if e = LinkLoop then RawOsError e else BadInput label))"

text \<open>A path check inside \<open>try: ... except OSError\<close>.\<close>

definition try_path_os :: "string \<Rightarrow> ('f, path_error, 'a) action \<Rightarrow> ('f, input_error, 'a) action" where
  "try_path_os label m = rescue m (\<lambda>e. throw (case e of
     UncaughtOsError x \<Rightarrow> (if x = LinkLoop then RawOsError x else BadInput label) | _ \<Rightarrow> PathFault e))"

definition uncaught :: "('f, os_error, 'a) action \<Rightarrow> ('f, input_error, 'a) action" where
  "uncaught m = rescue m (\<lambda>e. throw (RawOsError e))"

definition judged :: "string + 'a \<Rightarrow> ('f, input_error, 'a) action" where
  "judged v = from_sum (case v of Inl e \<Rightarrow> Inl (BadInput e) | Inr a \<Rightarrow> Inr a)"

definition max_dataset_files :: nat where "max_dataset_files = 16"
definition max_dataset_file_bytes :: nat where "max_dataset_file_bytes = 256 * 1024 * 1024"
definition max_dataset_total_bytes :: nat where "max_dataset_total_bytes = 512 * 1024 * 1024"
definition max_dataset_line_bytes :: nat where "max_dataset_line_bytes = 1048576"
definition max_report_bytes :: nat where "max_report_bytes = 128 * 1024 * 1024"
definition max_report_sample_id_bytes :: nat where "max_report_sample_id_bytes = 32 * 1024 * 1024"
definition max_manifest_bytes :: nat where "max_manifest_bytes = 1024 * 1024"

section \<open>Text\<close>

text \<open>\<open>bytes.strip\<close> leaves nothing.\<close>

definition blank_bytes :: "string \<Rightarrow> bool" where
  "blank_bytes s \<longleftrightarrow> list_all (\<lambda>c. 9 \<le> code c \<and> code c \<le> 13 \<or> code c = 32) s"

fun py_str :: "(json \<Rightarrow> string) \<Rightarrow> json \<Rightarrow> string" where
  "py_str other JNull = ''None''"
| "py_str other (JBool b) = (if b then ''True'' else ''False'')"
| "py_str other (JInt n) = str_int n"
| "py_str other (JStr s) = s"
| "py_str other v = other v"

text \<open>Equality with an integer: \<open>1.0\<close> and \<open>True\<close> equal \<open>1\<close>.\<close>

fun equals_int :: "int \<Rightarrow> json \<Rightarrow> bool" where
  "equals_int n (JInt m) = (m = n)"
| "equals_int n (JFloat r) = (r = of_int n)"
| "equals_int n (JBool b) = ((if b then 1 else 0) = n)"
| "equals_int n _ = False"

text \<open>\<open>dict.get(k, default)\<close>.\<close>

definition jget_or :: "json \<Rightarrow> string \<Rightarrow> json_obj \<Rightarrow> json" where
  "jget_or d k kvs = (case map_of kvs k of None \<Rightarrow> d | Some v \<Rightarrow> v)"

text \<open>\<open>Path.suffix\<close> and \<open>Path.with_suffix\<close>, on the last part.\<close>

fun last_dot :: "string \<Rightarrow> nat \<Rightarrow> nat option \<Rightarrow> nat option" where
  "last_dot [] i found = found"
| "last_dot (c # cs) i found = last_dot cs (i + 1) (if c = CHR ''.'' then Some i else found)"

definition suffix_at :: "string \<Rightarrow> nat" where
  "suffix_at name =
     (case last_dot name 0 None of
        None \<Rightarrow> length name
      | Some i \<Rightarrow> (if 0 < i \<and> i < length name - 1 then i else length name))"

definition path_suffix :: "path \<Rightarrow> string" where
  "path_suffix p = (case rev p of [] \<Rightarrow> [] | name # _ \<Rightarrow> (if is_root_part name then [] else drop (suffix_at name) name))"

definition with_suffix :: "string \<Rightarrow> path \<Rightarrow> path" where
  "with_suffix sfx p = butlast p @ [take (suffix_at (last p)) (last p) @ sfx]"

section \<open>Merging one line\<close>

record merged =
  mg_ids :: "string list"
  mg_categories :: "string list"
  mg_id_bytes :: nat
  mg_lines :: "string list"                 \<comment> \<open>written so far, latest first\<close>
  mg_records :: nat

definition nothing_merged :: merged where
  "nothing_merged = \<lparr>mg_ids = [], mg_categories = [], mg_id_bytes = 0, mg_lines = [], mg_records = 0\<rparr>"

definition merged_row :: "string \<Rightarrow> string \<Rightarrow> string \<Rightarrow> string \<Rightarrow> json_obj \<Rightarrow> json_obj \<Rightarrow> json_obj" where
  "merged_row name original mid mcat md row =
     dict_set ''metadata'' (JObj (md @ [(''openllmops_source'',
         JObj [(''name'', JStr name), (''original_id'', JStr original)])]))
       (dict_set ''category'' (JStr mcat) (dict_set ''id'' (JStr mid) row))"

definition merge_row ::
  "'f file_access \<Rightarrow> string \<Rightarrow> nat \<Rightarrow> json_obj \<Rightarrow> merged \<Rightarrow> string + merged" where
  "merge_row F name line_number row st =
     on_ok (safe_short_text 191 None ''id'' (JStr (py_str (fa_text F) (jget_or (JInt (int line_number)) ''id'' row)))) (\<lambda>original.
     let mid = name @ '':'' @ original in
     on_ok (check (mid \<notin> set (mg_ids st)) ''sample id repeated'') (\<lambda>_.
     let bytes = mg_id_bytes st + length (encode_utf8 mid) in
     on_ok (check (bytes \<le> max_report_sample_id_bytes) ''sample ids too long'') (\<lambda>_.
     on_ok (safe_short_text 191 (Some ''default'') ''category'' (jget ''category'' row)) (\<lambda>category.
     on_ok (some_or ''metadata'' (obj_value (jget_or (JObj []) ''metadata'' row))) (\<lambda>md.
     on_ok (check (''openllmops_source'' \<notin> set (map fst md)) ''metadata'') (\<lambda>_.
     let mcat = name @ ''/'' @ category; cats = List.insert mcat (mg_categories st) in
     on_ok (check (length cats \<le> max_report_categories) ''too many categories'') (\<lambda>_.
     let line = canonical_json (fa_float F) (JObj (merged_row name original mid mcat md row)) @ [CHR 0x0A] in
     on_ok (check (mg_records st + 1 \<le> nat max_dataset_records) ''too many records'') (\<lambda>_.
     Inr \<lparr>mg_ids = mid # mg_ids st, mg_categories = cats, mg_id_bytes = bytes,
          mg_lines = line # mg_lines st, mg_records = mg_records st + 1\<rparr>))))))))"

fun merge_lines ::
  "'f file_access \<Rightarrow> string \<Rightarrow> nat \<Rightarrow> string list \<Rightarrow> merged \<Rightarrow> string + merged" where
  "merge_lines F name n [] st = Inr st"
| "merge_lines F name n (raw # raws) st =
     on_ok (check (length raw \<le> max_dataset_line_bytes) ''line too long'') (\<lambda>_.
     if blank_bytes raw then merge_lines F name (n + 1) raws st
     else
       on_ok (fa_loads F raw) (\<lambda>v.
       on_ok (some_or ''row'' (obj_value v)) (\<lambda>row.
       on_ok (merge_row F name (n + 1) row st) (\<lambda>st'. merge_lines F name (n + 1) raws st'))))"

section \<open>One source, all sources\<close>

definition read_json :: "'f file_access \<Rightarrow> string \<Rightarrow> path \<Rightarrow> ('f, input_error, json) action" where
  "read_json F label p = and_then (try_os label (fa_read F p)) (\<lambda>bytes. judged (fa_loads F bytes))"

definition validate_prepared_manifest ::
  "'f file_access \<Rightarrow> path \<Rightarrow> path \<Rightarrow> string \<Rightarrow> nat \<Rightarrow> ('f, input_error, path) action" where
  "validate_prepared_manifest F dataset_path base sha n =
     and_then (try_path_os ''manifest'' (strict_existing_path (fa_host F) (with_suffix ''.manifest.json'' dataset_path) [base] False)) (\<lambda>(p, _).
     and_then (try_os ''manifest'' (fa_size F p)) (\<lambda>size.
     and_then (judged (check (1 \<le> size \<and> size \<le> max_manifest_bytes) ''manifest size'')) (\<lambda>_.
     and_then (read_json F ''manifest'' p) (\<lambda>v.
     and_then (judged (some_or ''manifest'' (obj_value (case obj_value v of None \<Rightarrow> JNull | Some kvs \<Rightarrow> jget ''output'' kvs)))) (\<lambda>out.
     and_then (judged (check (jget ''sha256'' out = JStr sha \<and> equals_int (int n) (jget ''record_count'' out)) ''manifest disagrees'')) (\<lambda>_.
     give p))))))"

definition source_json :: "string \<Rightarrow> path \<Rightarrow> string \<Rightarrow> nat \<Rightarrow> nat \<Rightarrow> path option \<Rightarrow> json" where
  "source_json name p sha sz n prepared =
     JObj [(''name'', JStr name), (''path'', JStr (path_str p)), (''sha256'', JStr sha),
       (''size_bytes'', JInt (int sz)), (''record_count'', JInt (int n)),
       (''prepared_manifest_path'', (case prepared of None \<Rightarrow> JNull | Some q \<Rightarrow> JStr (path_str q)))]"

definition merge_source ::
  "'f file_access \<Rightarrow> path \<Rightarrow> string \<times> path \<times> path \<Rightarrow> nat \<Rightarrow> merged \<Rightarrow> ('f, input_error, nat \<times> merged \<times> json) action" where
  "merge_source F evaluation_root source total_bytes st =
     (let (name, p, matched) = source in
      and_then (try_os ''open'' (fa_source F p)) (\<lambda>src.
      and_then (judged (check (so_regular src) ''not a regular file'')) (\<lambda>_.
      and_then (judged (check (1 \<le> so_size src \<and> so_size src \<le> max_dataset_file_bytes) ''file size'')) (\<lambda>_.
      let bytes = total_bytes + so_size src in
      and_then (judged (check (bytes \<le> max_dataset_total_bytes) ''total size'')) (\<lambda>_.
      and_then (judged (merge_lines F name 0 (so_lines src) st)) (\<lambda>st'.
      and_then (judged (check (\<not> so_changed src) ''file changed'')) (\<lambda>_.
      let n = mg_records st' - mg_records st; sha = fa_sha256 F (concat (so_lines src)) in
      and_then (judged (check (n \<noteq> 0) ''no records'')) (\<lambda>_.
      and_then (try_os ''root'' (h_resolve (fa_host F) True evaluation_root)) (\<lambda>base.
      and_then (if matched = base
          then and_then (validate_prepared_manifest F p evaluation_root sha n) (\<lambda>q. give (Some q))
          else give None) (\<lambda>prepared.
      give (bytes, st', source_json name p sha (so_size src) n prepared)))))))))))"

fun merge_sources ::
  "'f file_access \<Rightarrow> path \<Rightarrow> (string \<times> path \<times> path) list \<Rightarrow> nat \<Rightarrow> merged \<Rightarrow> ('f, input_error, merged \<times> json list) action" where
  "merge_sources F base [] bytes st = give (st, [])"
| "merge_sources F base (s # ss) bytes st =
     and_then (merge_source F base s bytes st) (\<lambda>(bytes', st', j).
     and_then (merge_sources F base ss bytes' st') (\<lambda>(st'', js).
     give (st'', j # js)))"

section \<open>\<open>prepare_evaluation_workspace\<close>\<close>

definition source_order :: "string \<times> path \<Rightarrow> string \<times> string" where
  "source_order s = (fst s, path_str (snd s))"

fun resolve_sources ::
  "'f file_access \<Rightarrow> path list \<Rightarrow> (string \<times> path) list \<Rightarrow> path list \<Rightarrow> ('f, input_error, (string \<times> path \<times> path) list) action" where
  "resolve_sources F roots [] seen = give []"
| "resolve_sources F roots (s # ss) seen =
     and_then (try_path (strict_existing_path (fa_host F) (snd s) roots False)) (\<lambda>(p, matched).
     and_then (judged (check (lower (path_suffix p) = ''.jsonl'') ''not a .jsonl file'')) (\<lambda>_.
     and_then (judged (check (p \<notin> set seen) ''file named twice'')) (\<lambda>_.
     and_then (resolve_sources F roots ss (p # seen)) (\<lambda>rest. give ((fst s, p, matched) # rest)))))"

definition merged_text :: "merged \<Rightarrow> string" where
  "merged_text st = concat (rev (mg_lines st))"

definition manifest_json :: "'f file_access \<Rightarrow> path \<Rightarrow> merged \<Rightarrow> nat \<Rightarrow> json list \<Rightarrow> json" where
  "manifest_json F merged_path st sz sources =
     JObj [(''schema_version'', JInt 1),
       (''combined'', JObj [(''path'', JStr (path_str merged_path)), (''record_count'', JInt (int (mg_records st))),
          (''sha256'', JStr (fa_sha256 F (merged_text st))), (''size_bytes'', JInt (int sz))]),
       (''sources'', JArr sources)]"

definition prepare_evaluation_workspace ::
  "'f file_access \<Rightarrow> uuid \<Rightarrow> int \<Rightarrow> (string \<times> path) list \<Rightarrow> path \<Rightarrow> path \<Rightarrow> path \<Rightarrow> path \<Rightarrow> path
     \<Rightarrow> ('f, input_error, path \<times> path \<times> path) action" where
  "prepare_evaluation_workspace F run_id gen sources dataset_root evaluation_root output_root requested runtime_root =
     (let H = fa_host F in
      and_then (judged (check (1 \<le> length sources \<and> length sources \<le> max_dataset_files) ''number of data sets'')) (\<lambda>_.
      and_then (judged (check (distinct (map fst sources)) ''name repeated'')) (\<lambda>_.
      and_then (try_path (prepare_output_directory H requested output_root run_id)) (\<lambda>output_path.
      and_then (try_path (derived_runtime_directory H runtime_root run_id gen)) (\<lambda>workspace.
      let merged_path = workspace @ [''evaluation.jsonl'']; manifest_path = workspace @ [''dataset-manifest.json''] in
      and_then (resolve_sources F [evaluation_root, dataset_root] (sort_key source_order sources) []) (\<lambda>resolved.
      and_then (merge_sources F evaluation_root resolved 0 nothing_merged) (\<lambda>(st, manifests).
      and_then (judged (check (mg_records st \<noteq> 0) ''no records'')) (\<lambda>_.
      and_then (try_os ''merged file'' (fa_replace F merged_path (merged_text st))) (\<lambda>_.
      and_then (uncaught (fa_size F merged_path)) (\<lambda>size.
      and_then (uncaught (fa_replace F manifest_path (canonical_json (fa_float F) (manifest_json F merged_path st size manifests)))) (\<lambda>_.
      give (merged_path, manifest_path, output_path))))))))))))"

section \<open>Reading the manifest and the report\<close>

definition manifest_summary :: "json \<Rightarrow> string + string \<times> int" where
  "manifest_summary v =
     on_ok (some_or ''manifest'' (obj_value v)) (\<lambda>kvs.
     on_ok (check (equals_int 1 (jget ''schema_version'' kvs)) ''manifest version'') (\<lambda>_.
     on_ok (some_or ''combined'' (obj_value (jget ''combined'' kvs))) (\<lambda>combined.
     on_ok (some_or ''sources'' (arr_value (jget ''sources'' kvs))) (\<lambda>sources.
     on_ok (check (sources \<noteq> []) ''sources'') (\<lambda>_.
     on_ok (sha256_field ''manifest sha256'' (jget ''sha256'' combined)) (\<lambda>digest.
     on_ok (some_or ''record_count'' (int_value (jget ''record_count'' combined))) (\<lambda>n.
     on_ok (check (1 \<le> n \<and> n \<le> max_dataset_records) ''record_count'') (\<lambda>_.
     Inr (digest, n)))))))))"

definition read_plain_file ::
  "'f file_access \<Rightarrow> string \<Rightarrow> nat \<Rightarrow> path \<Rightarrow> ('f, input_error, string) action" where
  "read_plain_file F label limit p =
     and_then (try_os label (fa_lstat F p)) (\<lambda>(k, size).
     and_then (judged (check (k = RegularFile) label)) (\<lambda>_.
     and_then (judged (check (1 \<le> size \<and> size \<le> limit) label)) (\<lambda>_.
     try_os label (fa_read F p))))"

definition load_dataset_manifest_summary :: "'f file_access \<Rightarrow> path \<Rightarrow> ('f, input_error, string \<times> int) action" where
  "load_dataset_manifest_summary F p =
     and_then (read_plain_file F ''manifest'' max_manifest_bytes p) (\<lambda>bytes.
     judged (on_ok (fa_loads F bytes) manifest_summary))"

definition load_pair_report_metadata ::
  "'f file_access \<Rightarrow> path \<Rightarrow> report_expectation \<Rightarrow> ('f, input_error, json_obj) action" where
  "load_pair_report_metadata F output_path X =
     (let p = output_path @ [''pair-report.json''] in
      and_then (read_plain_file F ''pair-report.json'' max_report_bytes p) (\<lambda>bytes.
      and_then (judged (check (length bytes \<le> max_report_bytes) ''pair-report.json'')) (\<lambda>_.
      judged (on_ok (fa_loads F bytes) (read_pair_report X (path_str p))))))"

end
