(* ===== verification/CommandService.thy ===== *)
theory CommandService
  imports CommandRequests CardExclusion EvaluationFiles
begin

text \<open>
  \<open>CommandProcessor\<close> of \<open>agent/openllmops_agent/command_service.py\<close>: how the node agent executes a
  verified command. The lock makes one execution uninterrupted; an exception keeps the state reached so
  far. Fixed (Chinese) sentences of the source are stood for by short ASCII labels.
\<close>

section \<open>What the processor works on\<close>

record ('d, 'f) agent = "('d, 'f) node" +
  ag_store :: command_store

text \<open>
  The environment: the runner, the texts of floats and times, SHA-256 (as a hexadecimal text), the
  conversions of pydantic, writing the state file and a JSON file, reading a file, \<open>json.loads\<close>, the
  access to the files of an evaluation, and what is read from the outputs of a training.
\<close>

record ('d, 'f) service_env =
  sv_node :: "('d, 'f) agent_env"
  sv_codec :: codec
  sv_sha256 :: "string \<Rightarrow> string"
  sv_lax :: lax_reader
  sv_save :: "json \<Rightarrow> ('f, execution_error, unit) action"
  sv_write_json :: "path \<Rightarrow> json \<Rightarrow> ('f, unit, unit) action"
  sv_read :: "path \<Rightarrow> ('f, unit, string) action"
  sv_loads :: "string \<Rightarrow> json option"
  sv_files :: "'f file_access"
  sv_training_files :: "path \<Rightarrow> string \<Rightarrow> bool \<Rightarrow> ('f, runner_error, json_obj) action"

type_synonym ('d, 'f, 'x, 'a) service = "(('d, 'f) agent, 'x, 'a) action"

section \<open>Results\<close>

definition accepted_absent :: "uuid \<Rightarrow> timestamp \<Rightarrow> command_outcome" where
  "accepted_absent rq stamp =
     \<lparr>out_response = \<lparr>res_request_id = rq, accepted = True, observed_state = ABSENT, observed_at = stamp,
        res_message = None, error_code = None, metadata = []\<rparr>, out_status = 200\<rparr>"

definition rejected :: "uuid \<Rightarrow> timestamp \<Rightarrow> int \<Rightarrow> string \<Rightarrow> string \<Rightarrow> command_outcome" where
  "rejected rq stamp status message err =
     \<lparr>out_response = \<lparr>res_request_id = rq, accepted = False, observed_state = FAILED, observed_at = stamp,
        res_message = Some message, error_code = Some err, metadata = []\<rparr>, out_status = status\<rparr>"

section \<open>\<open>_state_from_info\<close> and the start-up bounds\<close>

definition state_from_info :: "workload_info \<Rightarrow> agent_workload_state" where
  "state_from_info i =
     (let w = wi_status i in
      if wi_kind i = ''inference'' then
        (if w \<in> {''created'', ''restarting'', ''paused''} then STARTING
         else if w = ''running'' then (if wi_health_status i = Some ''healthy'' then RUNNING else STARTING)
         else if w = ''removing'' then STOPPING else FAILED)
      else if w \<in> {''created'', ''restarting''} then STARTING
      else if w \<in> {''running'', ''paused''} then RUNNING
      else if w = ''removing'' then STOPPING
      else if w = ''exited'' \<and> wi_kind i \<in> {''training'', ''evaluation''} \<and> wi_exit_code i = Some 0 then SUCCEEDED
      else FAILED)"

definition startup_timeout_reason :: "settings \<Rightarrow> timestamp \<Rightarrow> timestamp option \<Rightarrow> string option" where
  "startup_timeout_reason st now started =
     (case started of
        None \<Rightarrow> Some ''no trusted start time''
      | Some t \<Rightarrow> (if max 0 (now - t) \<ge> seconds (st_startup_timeout st) then Some ''not ready in time'' else None))"

fun or_time :: "timestamp option \<Rightarrow> timestamp option \<Rightarrow> timestamp option" where
  "or_time (Some t) b = Some t"
| "or_time None b = b"

definition inference_failure_reason :: "settings \<Rightarrow> timestamp \<Rightarrow> workload_info \<Rightarrow> string option" where
  "inference_failure_reason st now i =
     (if wi_health_status i = Some ''healthy'' \<and> wi_status i = ''running'' then None
      else if wi_restart_count i \<ge> inference_max_restarts then Some ''restart limit reached''
      else if wi_status i = ''restarting'' then
        startup_timeout_reason st now (or_time (wi_finished_at i) (wi_created_at i))
      else if wi_health_status i = Some ''unhealthy'' then
        (if wi_health_failing_streak i \<le> 0 then Some ''unhealthy without a failure count''
         else if wi_health_failing_streak i * inference_health_interval_seconds \<ge> st_unhealthy_timeout st
         then Some ''health checks fail for too long'' else None)
      else startup_timeout_reason st now (or_time (wi_started_at i) (wi_created_at i)))"

section \<open>Metadata\<close>

text \<open>An \<open>EvaluationInputError\<close> becomes an \<open>InvalidWorkload\<close>, an operating system error stays what it is.\<close>

definition input_fault :: "input_error \<Rightarrow> runner_error" where
  "input_fault e =
     (case e of PathFault p \<Rightarrow> path_fault p | BadInput m \<Rightarrow> InvalidWorkload m | RawOsError _ \<Rightarrow> OsRaised)"

definition call_inputs :: "('f, input_error, 'a) action \<Rightarrow> ('d, 'f, 'z, 'a) operation" where
  "call_inputs m = rescue (files m) (\<lambda>e. throw (input_fault e))"

text \<open>One host, one hash and one text of floats for the runner and the evaluation files.\<close>

definition evaluation_access :: "('d, 'f) service_env \<Rightarrow> 'f file_access" where
  "evaluation_access E = (sv_files E)\<lparr>fa_host := av_host (sv_node E), fa_sha256 := sv_sha256 E,
     fa_float := float_repr (sv_codec E)\<rparr>"

definition opt_member :: "string \<Rightarrow> ('a \<Rightarrow> json) \<Rightarrow> 'a option \<Rightarrow> json_obj" where
  "opt_member k f v = (case v of None \<Rightarrow> [] | Some w \<Rightarrow> [(k, f w)])"

definition deployment_metadata :: "workload_info \<Rightarrow> agent_workload_state \<Rightarrow> json_obj" where
  "deployment_metadata i state =
     opt_member ''health_status'' JStr (wi_health_status i)
     @ (if state = RUNNING
        then opt_member ''endpoint'' JStr (wi_endpoint i) @ opt_member ''port'' JInt (wi_port i)
          @ opt_member ''service_type'' JStr (wi_service_type i)
        else [])"

definition training_metadata ::
  "('d, 'f) service_env \<Rightarrow> uuid \<Rightarrow> bool \<Rightarrow> ('d, 'f, runner_error, json_obj) service" where
  "training_metadata E u completed =
     (let V = sv_node E in
      and_then (managed_container V (workload_name ''training'' u)) (\<lambda>c.
      let out = map_of (c_labels c) output_path_label; algorithm = map_of (c_labels c) algorithm_label in
      and_then (require (truthy_str out \<and> algorithm \<in> {Some ''freeze'', Some ''lora'', Some ''qlora''})
        (InvalidWorkload ''training container without output or algorithm label'')) (\<lambda>_.
      and_then (call_files (training_output_path (av_host V) (st_checkpoint_root (av_settings V))
        (path_of (the out)) u False False)) (\<lambda>p.
      files (sv_training_files E p (the algorithm) completed)))))"

definition evaluation_metadata ::
  "('d, 'f) service_env \<Rightarrow> uuid \<Rightarrow> ('d, 'f, runner_error, json_obj) service" where
  "evaluation_metadata E u =
     (let V = sv_node E; H = av_host V; st = av_settings V in
      and_then (managed_container V (workload_name ''evaluation'' u)) (\<lambda>c.
      let out = map_of (c_labels c) output_path_label; manifest = map_of (c_labels c) manifest_path_label;
          base = map_of (c_labels c) base_template_label; candidate = map_of (c_labels c) candidate_template_label in
      and_then (require (truthy_str out \<and> truthy_str manifest)
        (InvalidWorkload ''evaluation container without output labels'')) (\<lambda>_.
      and_then (require (base \<in> Some ` template_names \<and> candidate \<in> Some ` template_names)
        (InvalidWorkload ''evaluation container without template labels'')) (\<lambda>_.
      and_then (call_files (strict_existing_path H (path_of (the out)) [st_evaluation_output_root st] True)) (\<lambda>(p, _).
      and_then (call_files (raw_call (h_resolve H True (st_evaluation_output_root st)))) (\<lambda>base_dir.
      and_then (require (p = base_dir @ [uuid_str u]) (InvalidWorkload ''output of another run'')) (\<lambda>_.
      and_then (call_files (strict_existing_path H (path_of (the manifest)) [st_runtime_root st] False)) (\<lambda>(q, _).
      and_then (call_inputs (load_dataset_manifest_summary (evaluation_access E) q)) (\<lambda>(sha, n).
      and_then (call_inputs (load_pair_report_metadata (evaluation_access E) p
        \<lparr>rx_sha256 = Some sha, rx_total = Some n, rx_base_template = base, rx_candidate_template = candidate\<rparr>)) (\<lambda>md.
      give (dict_set ''dataset_manifest_path'' (JStr (path_str q)) md)))))))))))"

definition metadata_for ::
  "('d, 'f) service_env \<Rightarrow> agent_command \<Rightarrow> workload_info \<Rightarrow> agent_workload_state
     \<Rightarrow> ('d, 'f, runner_error, json_obj) service" where
  "metadata_for E c i state =
     (case ag_type (cmd_owner c) of
        DEPLOYMENT \<Rightarrow> give (deployment_metadata i state)
      | TRAINING \<Rightarrow> training_metadata E (ag_id (cmd_owner c)) (state = SUCCEEDED)
      | EVALUATION \<Rightarrow> (if state = SUCCEEDED then evaluation_metadata E (ag_id (cmd_owner c)) else give []))"

section \<open>\<open>_response_from_info\<close>\<close>

definition starting_message :: "string option \<Rightarrow> workload_info \<Rightarrow> string" where
  "starting_message uncertain i =
     (case uncertain of
        Some reason \<Rightarrow> reason @ ''; stop not confirmed''
      | None \<Rightarrow>
          (if wi_status i = ''restarting'' then ''restarting''
           else if wi_health_status i = Some ''unhealthy'' then ''health check fails''
           else if wi_health_status i = Some ''starting'' then ''loading the model''
           else ''no trusted health status''))"

definition reply_message ::
  "workload_info \<Rightarrow> string option \<Rightarrow> agent_workload_state \<Rightarrow> bool \<Rightarrow> string option" where
  "reply_message i failure state uncertain =
     (if state = FAILED then
        (case failure of
           Some reason \<Rightarrow> Some reason
         | None \<Rightarrow> Some (case wi_exit_code i of
             Some n \<Rightarrow> ''workload ended, exit_code='' @ str_int n | None \<Rightarrow> ''workload failed''))
      else if wi_kind i = ''inference'' \<and> state = STARTING
      then Some (starting_message (if uncertain then failure else None) i)
      else None)"

definition settle_failure ::
  "('d, 'f) service_env \<Rightarrow> workload_info \<Rightarrow> agent_workload_state \<Rightarrow> string option
     \<Rightarrow> ('d, 'f, runner_error, agent_workload_state \<times> bool) service" where
  "settle_failure E i state failure =
     (case failure of
        None \<Rightarrow> give (state, False)
      | Some _ \<Rightarrow>
          and_then (quiesce_failed_inference (sv_node E) (wi_workload_id i) (wi_generation i)
            (st_failure_stop_timeout (av_settings (sv_node E)))) (\<lambda>quiesced.
          give (if quiesced then (FAILED, False) else (state, True))))"

definition response_from_info ::
  "('d, 'f) service_env \<Rightarrow> timestamp \<Rightarrow> timestamp \<Rightarrow> agent_command \<Rightarrow> workload_info
     \<Rightarrow> ('d, 'f, runner_error, command_outcome) service" where
  "response_from_info E now stamp c i =
     (let state0 = state_from_info i;
          failure = (if wi_kind i = ''inference'' \<and> state0 = STARTING
            then inference_failure_reason (av_settings (sv_node E)) now i else None) in
      and_then (settle_failure E i state0 failure) (\<lambda>(state, uncertain).
      and_then (metadata_for E c i state) (\<lambda>md.
      give \<lparr>out_response = \<lparr>res_request_id = request_id c, accepted = True, observed_state = state,
         observed_at = stamp, res_message = reply_message i failure state uncertain, error_code = None,
         metadata = md\<rparr>, out_status = 200\<rparr>)))"

section \<open>\<open>_start\<close>\<close>

definition runner_for :: "lease_owner_type \<Rightarrow> string" where
  "runner_for t = (case t of DEPLOYMENT \<Rightarrow> ''vllm'' | TRAINING \<Rightarrow> ''llamafactory'' | EVALUATION \<Rightarrow> ''evaluation'')"

definition start_inference ::
  "('d, 'f) service_env \<Rightarrow> agent_command \<Rightarrow> ('d, 'f, runner_error, workload_info) service" where
  "start_inference E c =
     (let V = sv_node E; st = av_settings V in
      and_then (from_sum (case parse_vllm (sv_lax E) (execution c) of None \<Rightarrow> Inl ValidationRaised | Some x \<Rightarrow> Inr x)) (\<lambda>x.
      and_then (require (vx_tensor_parallel_size x = int (length (cmd_gpu_ids c)))
        (InvalidWorkload ''tensor_parallel_size'')) (\<lambda>_.
      and_then (from_sum (merge_vllm_arguments (vx_simplified_config x) (vx_vllm_args x))) (\<lambda>arguments.
      and_then (from_sum (case vllm_runtime_image st of None \<Rightarrow> Inl UnexpectedRaised | Some w \<Rightarrow> Inr w)) (\<lambda>img.
      and_then (require (launch_fields_ok img (cmd_gpu_ids c) \<and> list_all (\<lambda>(_, v). json_scalar v) arguments)
        ValidationRaised) (\<lambda>_.
      launch_inference V
        \<lparr>il_id = ag_id (cmd_owner c), il_generation = ag_generation (cmd_owner c), il_image = img,
         il_gpu_ids = cmd_gpu_ids c, il_model_path = vx_model_path x,
         il_served_model_name = vx_served_model_name x, il_service_type = vx_service_type x,
         il_port = (case vx_port x of Some p \<Rightarrow> p | None \<Rightarrow> 8000), il_vllm_args = arguments,
         il_environment = []\<rparr>))))))"

definition write_json :: "('d, 'f) service_env \<Rightarrow> path \<Rightarrow> json \<Rightarrow> ('d, 'f, runner_error, unit) service" where
  "write_json E p v = rescue (files (sv_write_json E p v)) (\<lambda>_. throw OsRaised)"

definition make_directories :: "('d, 'f) service_env \<Rightarrow> path \<Rightarrow> ('d, 'f, runner_error, unit) service" where
  "make_directories E p = call_files (raw_call (h_mkdir (av_host (sv_node E)) True True p))"

definition materialize_training_files ::
  "('d, 'f) service_env \<Rightarrow> agent_command \<Rightarrow> training_execution
     \<Rightarrow> ('d, 'f, runner_error, path \<times> path \<times> dataset_format) service" where
  "materialize_training_files E c x =
     (let V = sv_node E; H = av_host V; st = av_settings V;
          u = uuid_str (ag_id (cmd_owner c)); g = str_int (ag_generation (cmd_owner c)) in
      and_then (call_files (raw_call (h_resolve H True (st_checkpoint_root st)))) (\<lambda>base.
      and_then (require (is_absolute (tx_output_dir x) \<and> abspath (h_cwd H) (tx_output_dir x) = base @ [u])
        (InvalidWorkload ''output directory is not the derived one'')) (\<lambda>_.
      and_then (call_files (strict_existing_path H (tx_dataset_path x) [st_dataset_root st] False)) (\<lambda>(data, _).
      let dataset_dir = st_runtime_root st @ [''contract'', ''training'', u, g, ''dataset''] in
      and_then (make_directories E dataset_dir) (\<lambda>_.
      and_then (rescue (files (sv_read E data)) (\<lambda>_. throw (InvalidWorkload ''first training record cannot be parsed''))) (\<lambda>bytes.
      and_then (from_sum (first_record (sv_loads E) bytes)) (\<lambda>record1.
      and_then (from_sum (describe_dataset record1 (tx_stage x))) (\<lambda>(info, format).
      and_then (write_json E (dataset_dir @ [''dataset_info.json'']) (JObj [(default_dataset_name, JObj info)])) (\<lambda>_.
      and_then (from_sum (case build_training_config
           \<lparr>tr_hyper = tx_config x, tr_stage = tx_stage x, tr_algorithm = tx_algorithm x,
            tr_model_path = workspace_model, tr_dataset_dir = workspace_dataset, tr_output_dir = workspace_output,
            tr_dataset_name = default_dataset_name, tr_format = format\<rparr> of
         Inl _ \<Rightarrow> Inl (InvalidWorkload ''training combination'') | Inr w \<Rightarrow> Inr w)) (\<lambda>config.
      let config_dir = st_training_config_root st @ [u]; config_path = config_dir @ [''generation-'' @ g @ ''.json''] in
      and_then (make_directories E config_dir) (\<lambda>_.
      and_then (write_json E config_path (JObj config)) (\<lambda>_.
      give (config_path, dataset_dir, format)))))))))))))"

definition start_training ::
  "('d, 'f) service_env \<Rightarrow> agent_command \<Rightarrow> ('d, 'f, runner_error, workload_info) service" where
  "start_training E c =
     (let V = sv_node E; img = first_image (st_llamafactory_allowed (av_settings V)) in
      and_then (from_sum (case parse_training (execution c) of None \<Rightarrow> Inl ValidationRaised | Some x \<Rightarrow> Inr x)) (\<lambda>x.
      and_then (materialize_training_files E c x) (\<lambda>(config_path, dataset_dir, format).
      and_then (require (launch_fields_ok img (cmd_gpu_ids c)) ValidationRaised) (\<lambda>_.
      launch_training V
        \<lparr>tl_id = ag_id (cmd_owner c), tl_generation = ag_generation (cmd_owner c), tl_image = img,
         tl_gpu_ids = cmd_gpu_ids c, tl_model_path = tx_model_path x, tl_dataset_path = tx_dataset_path x,
         tl_dataset_dir = dataset_dir, tl_config_path = config_path, tl_output_path = tx_output_dir x,
         tl_stage = tx_stage x, tl_algorithm = tx_algorithm x, tl_dataset_format = format,
         tl_environment = []\<rparr>))))"

definition start_evaluation ::
  "('d, 'f) service_env \<Rightarrow> agent_command \<Rightarrow> ('d, 'f, runner_error, workload_info) service" where
  "start_evaluation E c =
     (let V = sv_node E; img = first_image (st_evaluation_allowed (av_settings V));
          u = ag_id (cmd_owner c); g = ag_generation (cmd_owner c) in
      and_then (from_sum (case parse_evaluation (sv_lax E) (execution c) of None \<Rightarrow> Inl ValidationRaised | Some x \<Rightarrow> Inr x)) (\<lambda>x.
      and_then (require (ex_tensor_parallel_size x = int (length (cmd_gpu_ids c)))
        (InvalidWorkload ''tensor_parallel_size'')) (\<lambda>_.
      and_then (call_inputs (prepare_evaluation_workspace (evaluation_access E) u g (ex_datasets x)
        (st_dataset_root (av_settings V)) (st_evaluation_dataset_root (av_settings V))
        (st_evaluation_output_root (av_settings V)) (ex_output_dir x) (st_runtime_root (av_settings V)))) (\<lambda>(data, manifest, out).
      and_then (require (launch_fields_ok img (cmd_gpu_ids c)) ValidationRaised) (\<lambda>_.
      launch_evaluation V
        \<lparr>el_id = u, el_generation = g, el_image = img, el_gpu_ids = cmd_gpu_ids c,
         el_baseline_path = ex_base_model_path x, el_candidate_path = ex_candidate_model_path x,
         el_dataset_path = data, el_manifest_path = manifest, el_output_path = out,
         el_base_template = ex_base_template x, el_candidate_template = ex_candidate_template x,
         el_tensor_parallel_size = ex_tensor_parallel_size x,
         el_gpu_memory_utilization = ex_gpu_memory_utilization x, el_concurrency = ex_concurrency x,
         el_max_tokens = ex_max_tokens x\<rparr>)))))"

definition launch_for ::
  "('d, 'f) service_env \<Rightarrow> agent_command \<Rightarrow> ('d, 'f, runner_error, workload_info) service" where
  "launch_for E c =
     (case ag_type (cmd_owner c) of
        DEPLOYMENT \<Rightarrow> start_inference E c | TRAINING \<Rightarrow> start_training E c | EVALUATION \<Rightarrow> start_evaluation E c)"

definition start_command ::
  "('d, 'f) service_env \<Rightarrow> timestamp \<Rightarrow> timestamp \<Rightarrow> agent_command \<Rightarrow> ('d, 'f, runner_error, command_outcome) service" where
  "start_command E now stamp c =
     (let t = ag_type (cmd_owner c) in
      and_then (require (map_of (execution c) ''runner'' = Some (JStr (runner_for t)))
        (InvalidWorkload ''wrong execution.runner'')) (\<lambda>_.
      and_then (prepare_contract_start (sv_node E) t (ag_id (cmd_owner c)) (ag_generation (cmd_owner c))) (\<lambda>existing.
      and_then (case existing of Some i \<Rightarrow> give i | None \<Rightarrow> launch_for E c) (\<lambda>i.
      response_from_info E now stamp c i))))"

section \<open>\<open>_stop\<close>, \<open>_cleanup\<close>, \<open>_observe\<close>\<close>

definition stop_timeout_seconds :: int where "stop_timeout_seconds = 30"

definition stop_command ::
  "('d, 'f) service_env \<Rightarrow> timestamp \<Rightarrow> timestamp \<Rightarrow> agent_command \<Rightarrow> ('d, 'f, runner_error, command_outcome) service" where
  "stop_command E now stamp c =
     (let o1 = cmd_owner c in
      and_then (attempt (stop_contract_workload (sv_node E) (ag_type o1) (ag_id o1) (ag_generation o1) stop_timeout_seconds)) (\<lambda>r.
      case r of
        Inl e \<Rightarrow> (if e = WorkloadNotFound then give (accepted_absent (request_id c) stamp) else throw e)
      | Inr None \<Rightarrow> give (accepted_absent (request_id c) stamp)
      | Inr (Some i) \<Rightarrow> response_from_info E now stamp c i))"

definition cleanup_command ::
  "('d, 'f) service_env \<Rightarrow> timestamp \<Rightarrow> agent_command \<Rightarrow> ('d, 'f, runner_error, command_outcome) service" where
  "cleanup_command E stamp c =
     (let o1 = cmd_owner c in
      and_then (cleanup_contract_workload (sv_node E) (ag_type o1) (ag_id o1) (ag_generation o1)) (\<lambda>_.
      give (accepted_absent (request_id c) stamp)))"

definition observe_command ::
  "('d, 'f) service_env \<Rightarrow> timestamp \<Rightarrow> timestamp \<Rightarrow> agent_command \<Rightarrow> ('d, 'f, runner_error, command_outcome) service" where
  "observe_command E now stamp c =
     (let o1 = cmd_owner c in
      and_then (attempt (get_contract_workload (sv_node E) (ag_type o1) (ag_id o1))) (\<lambda>r.
      case r of
        Inl e \<Rightarrow> (if e = WorkloadNotFound then give (accepted_absent (request_id c) stamp) else throw e)
      | Inr i \<Rightarrow>
          and_then (require (wi_generation i = ag_generation o1) (WorkloadConflict ''status generation differs'')) (\<lambda>_.
          response_from_info E now stamp c i)))"

definition dispatch ::
  "('d, 'f) service_env \<Rightarrow> timestamp \<Rightarrow> timestamp \<Rightarrow> agent_command \<Rightarrow> ('d, 'f, runner_error, command_outcome) service" where
  "dispatch E now stamp c =
     (case cmd_action c of
        START \<Rightarrow> start_command E now stamp c
      | STOP \<Rightarrow>
          (if execution c \<noteq> []
           then and_then (require (cleanup_ok (execution c)) ValidationRaised) (\<lambda>_. cleanup_command E stamp c)
           else stop_command E now stamp c)
      | STATUS \<Rightarrow>
          and_then (require (execution c = []) (InvalidWorkload ''status takes no execution'')) (\<lambda>_.
          observe_command E now stamp c))"

section \<open>\<open>execute\<close>\<close>

text \<open>What leaves \<open>execute\<close> as an exception, as \<open>execute_command\<close> of \<open>main.py\<close> tells them apart.\<close>

definition raised :: "runner_error \<Rightarrow> execution_error" where
  "raised e =
     (case e of
        DockerRaised x \<Rightarrow> (if is_docker_exception x then RunnerFailed ''Docker unavailable'' else RunnerFailed ''executor unavailable'')
      | ValidationRaised \<Rightarrow> UnexpectedException
      | UnexpectedRaised \<Rightarrow> UnexpectedException
      | _ \<Rightarrow> RunnerFailed ''executor unavailable'')"

definition answer ::
  "('d, 'f) service_env \<Rightarrow> timestamp \<Rightarrow> timestamp \<Rightarrow> agent_command \<Rightarrow> ('d, 'f, execution_error, command_outcome) service" where
  "answer E now stamp c =
     rescue (dispatch E now stamp c) (\<lambda>e.
       case e of
         ValidationRaised \<Rightarrow> give (rejected (request_id c) stamp 422 ''execution is invalid'' ''invalid_execution'')
       | InvalidWorkload m \<Rightarrow> give (rejected (request_id c) stamp 422 m ''invalid_workload'')
       | WorkloadConflict m \<Rightarrow> give (rejected (request_id c) stamp 409 m ''workload_conflict'')
       | _ \<Rightarrow> throw (raised e))"

definition fingerprint :: "('d, 'f) service_env \<Rightarrow> agent_command \<Rightarrow> string" where
  "fingerprint E c = sv_sha256 E (command_bytes (sv_codec E) c)"

definition start_json :: "agent_command \<Rightarrow> json" where
  "start_json c = (case command_json c of JObj kvs \<Rightarrow> JObj (filter (\<lambda>(k, _). k \<noteq> ''request_id'') kvs) | v \<Rightarrow> v)"

definition start_fingerprint :: "('d, 'f) service_env \<Rightarrow> agent_command \<Rightarrow> string" where
  "start_fingerprint E c = sv_sha256 E (canonical_json (float_repr (sv_codec E)) (start_json c))"

definition persist :: "('d, 'f) service_env \<Rightarrow> ('d, 'f, execution_error, unit) service" where
  "persist E = and_then (get_state ag_store) (\<lambda>st. files (sv_save E (store_json (time_repr (sv_codec E)) st)))"

definition update_store :: "('d, 'f) service_env \<Rightarrow> command_store \<times> bool \<Rightarrow> ('d, 'f, execution_error, unit) service" where
  "update_store E w =
     and_then (set_state (\<lambda>s. s\<lparr>ag_store := fst w\<rparr>)) (\<lambda>_. if snd w then persist E else give ())"

definition remember ::
  "('d, 'f) service_env \<Rightarrow> agent_command \<Rightarrow> command_outcome \<Rightarrow> ('d, 'f, execution_error, command_outcome) service" where
  "remember E c out =
     and_then (get_state ag_store) (\<lambda>st.
     and_then (update_store E (put_request (request_id c) (fingerprint E c) out st, True)) (\<lambda>_.
     give out))"

definition admit ::
  "('d, 'f) service_env \<Rightarrow> agent_command \<Rightarrow> command_store \<Rightarrow> (command_store \<times> bool) option" where
  "admit E c st =
     (let o1 = cmd_owner c in
      if cmd_action c = START
      then bind_start (ag_type o1) (ag_id o1) (ag_generation o1) (start_fingerprint E c) st
      else Some (advance_generation (ag_type o1) (ag_id o1) (ag_generation o1) st))"

definition execute ::
  "('d, 'f) service_env \<Rightarrow> timestamp \<Rightarrow> timestamp \<Rightarrow> agent_command \<Rightarrow> ('d, 'f, execution_error, command_outcome) service" where
  "execute E now stamp c =
     and_then (get_state ag_store) (\<lambda>st.
     if ag_generation (cmd_owner c) < generation (ag_type (cmd_owner c)) (ag_id (cmd_owner c)) st
     then give (rejected (request_id c) stamp 409 ''generation is older'' ''stale_generation'')
     else
       case get_request (request_id c) st of
         Some cached \<Rightarrow>
           (if cc_fingerprint cached \<noteq> fingerprint E c
            then give (rejected (request_id c) stamp 409 ''request_id bound to another command'' ''request_id_reused'')
            else give (cc_result cached))
       | None \<Rightarrow>
           (case admit E c st of
              None \<Rightarrow> remember E c (rejected (request_id c) stamp 409 ''generation bound to another start'' ''generation_reused'')
            | Some w \<Rightarrow>
                and_then (update_store E w) (\<lambda>_.
                and_then (answer E now stamp c) (remember E c))))"

end
