(* ===== verification/SampleDaemon.thy ===== *)
theory SampleDaemon
  imports CardExclusion
begin

text \<open>
  A small Docker daemon that obeys the laws: its state maps names to containers, \<open>run\<close> refuses a taken
  name, \<open>stop\<close> ends a container, \<open>remove\<close> refuses a running one unless forced. It instantiates the
  interface \<open>daemon\<close>, and the theorems about the node are stated and exercised on it.
\<close>

type_synonym daemon_state = "(string \<times> container) list"

definition fits :: "string \<Rightarrow> container \<Rightarrow> bool" where
  "fits n c \<longleftrightarrow>
     (case (map_of (c_labels c) kind_label, map_of (c_labels c) id_label) of
        (Some k, Some t) \<Rightarrow> (case parse_uuid t of
            Some u \<Rightarrow> t = uuid_str u \<and> u < 2 ^ 128 \<and> n = workload_name k u | None \<Rightarrow> False)
      | _ \<Rightarrow> False)"

text \<open>A managed label on a container it was not made for counts as no container.\<close>

definition entry :: "daemon_state \<Rightarrow> string \<Rightarrow> container option" where
  "entry d n =
     (case map_of d n of
        None \<Rightarrow> None
      | Some c \<Rightarrow> (if is_managed c \<and> \<not> fits n c then None else Some (c\<lparr>c_id := n, c_name := n\<rparr>)))"

definition sample_live :: "daemon_state \<Rightarrow> claim set" where
  "sample_live d = {k. \<exists>c. entry d (holder k) = Some c \<and> k = claim_of c \<and> is_managed c \<and> active c}"

definition find_claim :: "daemon_state \<Rightarrow> container \<Rightarrow> container option" where
  "find_claim d c =
     (case entry d (c_name c) of None \<Rightarrow> None | Some c' \<Rightarrow> (if claim_of c' = claim_of c then Some c' else None))"

definition new_container :: "run_spec \<Rightarrow> container" where
  "new_container q = \<lparr>c_id = rs_name q, c_name = rs_name q, c_labels = rs_labels q, c_status = ''running'',
     c_created = JNull, c_started = JNull, c_finished = JNull,
     c_health = JObj [(''Status'', JStr ''starting'')], c_restarts = JInt 0, c_exit_code = Some 0\<rparr>"

definition sample_image :: image where
  "sample_image = \<lparr>img_id = Some ''sha256:0'', img_tags = [''image''],
     img_labels = expected_security_labels @ expected_evaluation_labels\<rparr>"

definition sample_engine :: "daemon_state engine" where
  "sample_engine =
     \<lparr>e_get = (\<lambda>n d. (d, case entry d n of None \<Rightarrow> Inl NotFoundError | Some c \<Rightarrow> Inr c)),
      e_list = (\<lambda>d. (d, Inr (filter is_managed (List.map_filter (entry d) (remdups (map fst d)))))),
      e_reload = (\<lambda>c d. (d, case find_claim d c of
          None \<Rightarrow> Inl NotFoundError
        | Some c' \<Rightarrow> (if c_labels c' = c_labels c then Inr c' else Inl ApiFault))),
      e_image_of = (\<lambda>c d. (d, Inr sample_image)),
      e_image = (\<lambda>r d. (d, Inr sample_image)),
      e_run = (\<lambda>q d. if entry d (rs_name q) \<noteq> None then (d, Inl ApiFault)
         else ((rs_name q, new_container q) # d, Inr (new_container q))),
      e_start = (\<lambda>c d. case find_claim d c of
          None \<Rightarrow> (d, Inl NotFoundError)
        | Some c' \<Rightarrow> ((c_name c, c'\<lparr>c_status := ''running''\<rparr>) # d, Inr ())),
      e_stop = (\<lambda>t c d. case find_claim d c of
          None \<Rightarrow> (d, Inl NotFoundError)
        | Some c' \<Rightarrow> ((c_name c, c'\<lparr>c_status := ''exited'', c_exit_code := Some 137\<rparr>) # d, Inr ())),
      e_remove = (\<lambda>force v c d. case find_claim d c of
          None \<Rightarrow> (d, Inl NotFoundError)
        | Some c' \<Rightarrow> (if active c' \<and> \<not> force \<and> c_status c' \<noteq> ''created'' then (d, Inl ApiFault)
            else (filter (\<lambda>(n, _). n \<noteq> c_name c) d, Inr ()))),
      e_nvml_init = give (), e_nvml_handle = (\<lambda>g. give ()), e_nvml_processes = (\<lambda>b g. give 0),
      e_nvml_shutdown = give ()\<rparr>"

section \<open>It obeys the laws\<close>

lemma entry_name: "entry d n = Some c \<Longrightarrow> c_name c = n \<and> c_id c = n"
  by (auto simp: entry_def split: option.splits if_splits)

lemma fits_fit: "is_managed c \<Longrightarrow> entry d n = Some c \<Longrightarrow> labels_fit_name c"
  by (auto simp: entry_def fits_def labels_fit_name_def is_managed_def split: option.splits if_splits)

lemma live_iff: "k \<in> sample_live d \<longleftrightarrow> (\<exists>c. entry d (holder k) = Some c \<and> k = claim_of c \<and> is_managed c \<and> active c)"
  by (simp add: sample_live_def)

lemma find_claim_iff: "find_claim d c = Some c' \<longleftrightarrow> entry d (c_name c) = Some c' \<and> claim_of c' = claim_of c"
  by (auto simp: find_claim_def split: option.splits if_splits)

lemma find_claim_none: "find_claim d c = None \<Longrightarrow> claim_of c \<notin> sample_live d"
  by (auto simp: live_iff find_claim_def claim_of_def split: option.splits if_splits)

lemma entry_other: "m \<noteq> n \<Longrightarrow> entry ((n, c) # d) m = entry d m"
  by (simp add: entry_def)

lemma entry_same: "entry ((n, c) # d) n = Some c' \<Longrightarrow> c' = c\<lparr>c_id := n, c_name := n\<rparr>"
  by (simp add: entry_def split: if_splits)

lemma entry_filter: "entry (filter (\<lambda>(n, _). n \<noteq> a) d) m = (if m = a then None else entry d m)"
proof -
  have "map_of (filter (\<lambda>(n, _). n \<noteq> a) d) m = (if m = a then None else map_of d m)"
    by (induction d) auto
  then show ?thesis by (simp add: entry_def)
qed

lemma live_cons:
  "k \<in> sample_live ((n, c) # d) \<Longrightarrow>
     k = (n, n, gpu_ids_from_labels (c_labels c)) \<and> active c \<or> k \<in> sample_live d"
proof -
  assume "k \<in> sample_live ((n, c) # d)"
  then obtain c' where c': "entry ((n, c) # d) (holder k) = Some c'" "k = claim_of c'" "is_managed c'" "active c'"
    unfolding live_iff by blast
  show ?thesis
  proof (cases "holder k = n")
    case True
    then have "c' = c\<lparr>c_id := n, c_name := n\<rparr>" using c'(1) entry_same by blast
    then show ?thesis using c'(2,4) by (simp add: claim_of_def active_def)
  next
    case False
    then have "entry d (holder k) = Some c'" using c'(1) by (simp add: entry_other)
    then show ?thesis using c'(2-4) unfolding live_iff by blast
  qed
qed

lemma live_removed: "k \<in> sample_live (filter (\<lambda>(n, _). n \<noteq> a) d) \<longleftrightarrow> k \<in> sample_live d \<and> holder k \<noteq> a"
  by (auto simp: live_iff entry_filter)

lemma sample_calls:
  "e_get sample_engine n d = (d, case entry d n of None \<Rightarrow> Inl NotFoundError | Some c \<Rightarrow> Inr c)"
  "e_list sample_engine d = (d, Inr (filter is_managed (List.map_filter (entry d) (remdups (map fst d)))))"
  "e_reload sample_engine c d = (d, case find_claim d c of None \<Rightarrow> Inl NotFoundError
     | Some c' \<Rightarrow> (if c_labels c' = c_labels c then Inr c' else Inl ApiFault))"
  "e_stop sample_engine t c d = (case find_claim d c of None \<Rightarrow> (d, Inl NotFoundError)
     | Some c' \<Rightarrow> ((c_name c, c'\<lparr>c_status := ''exited'', c_exit_code := Some 137\<rparr>) # d, Inr ()))"
  "e_start sample_engine c d = (case find_claim d c of None \<Rightarrow> (d, Inl NotFoundError)
     | Some c' \<Rightarrow> ((c_name c, c'\<lparr>c_status := ''running''\<rparr>) # d, Inr ()))"
  "e_remove sample_engine f v c d = (case find_claim d c of None \<Rightarrow> (d, Inl NotFoundError)
     | Some c' \<Rightarrow> (if active c' \<and> \<not> f \<and> c_status c' \<noteq> ''created'' then (d, Inl ApiFault)
          else (filter (\<lambda>(n, _). n \<noteq> c_name c) d, Inr ())))"
  "e_run sample_engine q d = (if entry d (rs_name q) \<noteq> None then (d, Inl ApiFault)
     else ((rs_name q, new_container q) # d, Inr (new_container q)))"
  by (simp_all add: sample_engine_def)

lemma sample_stop_shrinks: "sample_live (fst (e_stop sample_engine t c d)) \<subseteq> sample_live d"
proof (cases "find_claim d c")
  case (Some c')
  let ?c = "c'\<lparr>c_status := ''exited'', c_exit_code := Some 137\<rparr>"
  have "\<not> active ?c" by (simp add: active_def active_states_def)
  then have "sample_live ((c_name c, ?c) # d) \<subseteq> sample_live d"
    by (intro subsetI) (drule live_cons, simp)
  then show ?thesis using Some by (simp add: sample_calls)
qed (simp add: sample_calls)

lemma sample_remove_shrinks: "sample_live (fst (e_remove sample_engine f v c d)) \<subseteq> sample_live d"
  by (auto simp: sample_calls live_removed split: option.split)

lemma sample_passive: "passive_calls sample_engine sample_live"
  by (simp add: passive_calls_def only_shrinks_def sample_stop_shrinks sample_remove_shrinks)
     (simp add: sample_engine_def give_def)

lemma sample_get: "get_reports sample_engine sample_live"
  unfolding get_reports_def
proof (intro conjI allI impI)
  fix n d d' c
  assume "e_get sample_engine n d = (d', Inr c)"
  then have e: "entry d n = Some c" "d' = d" by (auto simp: sample_calls split: option.splits)
  show "c_name c = n" using entry_name [OF e(1)] by simp
  show "\<forall>k \<in> sample_live d'. holder k = n \<longrightarrow> k = claim_of c \<and> is_managed c"
    using e by (auto simp: live_iff)
  show "labels_fit_name c" if "is_managed c" using fits_fit [OF that e(1)] .
next
  fix n d d'
  assume "e_get sample_engine n d = (d', Inl NotFoundError)"
  then show "\<forall>k \<in> sample_live d'. holder k \<noteq> n"
    by (auto simp: sample_calls live_iff split: option.splits)
qed

lemma entry_listed: "entry d n = Some c \<Longrightarrow> n \<in> set (map fst d)"
  by (cases "map_of d n") (auto simp: entry_def dest: map_of_SomeD intro: rev_image_eqI)

lemma sample_list: "list_reports sample_engine sample_live"
  unfolding list_reports_def
proof (intro conjI allI impI subsetI)
  fix d d' cs k
  assume "e_list sample_engine d = (d', Inr cs)" and k: "k \<in> sample_live d'"
  then have cs: "cs = filter is_managed (List.map_filter (entry d) (remdups (map fst d)))" "d' = d"
    by (auto simp: sample_calls)
  obtain c where c: "entry d (holder k) = Some c" "k = claim_of c" "is_managed c"
    using k cs(2) by (auto simp: live_iff)
  have "c \<in> set cs"
    using c(1,3) entry_listed [OF c(1)] by (force simp: cs(1) List.map_filter_def)
  then show "k \<in> claim_of ` set cs" using c(2) by blast
next
  fix d d' cs
  assume "e_list sample_engine d = (d', Inr cs)"
  then show "\<forall>c \<in> set cs. is_managed c" by (auto simp: sample_calls)
qed

lemma sample_reload: "reload_reports sample_engine sample_live"
  unfolding reload_reports_def
proof (intro allI impI conjI)
  fix c d d' c'
  assume "e_reload sample_engine c d = (d', Inr c')"
  then have f: "find_claim d c = Some c'" "c_labels c' = c_labels c" "d' = d"
    by (auto simp: sample_calls split: option.splits if_splits)
  then have e: "entry d (c_name c) = Some c'" "claim_of c' = claim_of c" by (simp_all add: find_claim_iff)
  show "c_id c' = c_id c" "c_name c' = c_name c" using e(2) by (simp_all add: claim_of_def)
  show "c_labels c' = c_labels c" using f(2) .
  have holder: "holder (claim_of c) = c_name c" by (simp add: claim_of_def)
  have managed: "is_managed c' = is_managed c" using f(2) by (simp add: is_managed_def)
  show "if active c' then is_managed c \<longrightarrow> claim_of c \<in> sample_live d else claim_of c \<notin> sample_live d'"
    using e f(3) holder managed by (auto simp: live_iff)
next
  fix c d d'
  assume "e_reload sample_engine c d = (d', Inl NotFoundError)"
  then show "claim_of c \<notin> sample_live d'"
    using find_claim_none by (auto simp: sample_calls split: option.splits if_splits)
qed

lemma sample_remove: "remove_reports sample_engine sample_live"
  unfolding remove_reports_def
proof (intro conjI allI impI)
  fix f v c d d'
  assume "e_remove sample_engine f v c d = (d', Inr ())"
  then have "d' = filter (\<lambda>(n, _). n \<noteq> c_name c) d"
    by (auto simp: sample_calls split: option.splits if_splits)
  moreover have "holder (claim_of c) = c_name c" by (simp add: claim_of_def)
  ultimately show "claim_of c \<notin> sample_live d'" by (simp add: live_removed)
next
  fix f v c d d'
  assume "e_remove sample_engine f v c d = (d', Inl NotFoundError)"
  then show "claim_of c \<notin> sample_live d'"
    using find_claim_none by (auto simp: sample_calls split: option.splits if_splits)
qed

lemma sample_run: "run_creates sample_engine sample_live"
  unfolding run_creates_def
proof (intro conjI allI impI)
  fix q d d' r
  assume "e_run sample_engine q d = (d', r)"
  then have "d' = d \<or> d' = (rs_name q, new_container q) # d" by (auto simp: sample_calls split: if_splits)
  moreover have "sample_live ((rs_name q, new_container q) # d)
      \<subseteq> insert (rs_name q, rs_name q, gpu_ids_from_labels (rs_labels q)) (sample_live d)"
    by (intro subsetI) (drule live_cons, auto simp: new_container_def)
  ultimately show "\<exists>i. sample_live d' \<subseteq> insert (i, rs_name q, gpu_ids_from_labels (rs_labels q)) (sample_live d)"
    by blast
next
  fix q d d' c
  assume "e_run sample_engine q d = (d', Inr c)"
  then have c: "entry d (rs_name q) = None" "d' = (rs_name q, new_container q) # d" "c = new_container q"
    by (auto simp: sample_calls split: if_splits)
  show "c_name c = rs_name q" "c_labels c = rs_labels q" using c(3) by (simp_all add: new_container_def)
  show "\<forall>k \<in> sample_live d'. holder k = rs_name q \<longrightarrow> k = claim_of c"
  proof (intro ballI impI)
    fix k assume k: "k \<in> sample_live d'" "holder k = rs_name q"
    have "k \<notin> sample_live d" using k(2) c(1) by (auto simp: live_iff)
    then show "k = claim_of c"
      using live_cons [of k "rs_name q" "new_container q" d] k(1) c(2,3)
      by (simp add: claim_of_def new_container_def)
  qed
qed

lemma sample_start: "start_activates sample_engine sample_live"
  unfolding start_activates_def
proof (intro allI subsetI)
  fix c d k
  assume k: "k \<in> sample_live (fst (e_start sample_engine c d))"
  show "k \<in> insert (claim_of c) (sample_live d)"
  proof (cases "find_claim d c")
    case (Some c')
    then have e: "entry d (c_name c) = Some c'" "claim_of c' = claim_of c" by (simp_all add: find_claim_iff)
    have "k \<in> sample_live ((c_name c, c'\<lparr>c_status := ''running''\<rparr>) # d)" using k Some by (simp add: sample_calls)
    then have "k = (c_name c, c_name c, gpu_ids_from_labels (c_labels c')) \<or> k \<in> sample_live d"
      by (auto dest: live_cons)
    moreover have "(c_name c, c_name c, gpu_ids_from_labels (c_labels c')) = claim_of c"
      using e entry_name [OF e(1)] by (simp add: claim_of_def)
    ultimately show ?thesis by blast
  qed (use k in \<open>simp add: sample_calls\<close>)
qed

lemma sample_laws: "docker_laws sample_engine sample_live"
  unfolding docker_laws_def
  by (intro conjI sample_passive sample_get sample_list sample_reload sample_remove sample_run sample_start)

section \<open>An agent on it\<close>

definition sample_settings :: settings where
  "sample_settings = \<lparr>st_gpu_count = 4, st_model_root = [''/'', ''models''], st_dataset_root = [''/'', ''data''],
     st_evaluation_dataset_root = [''/'', ''eval''], st_evaluation_output_root = [''/'', ''out''],
     st_checkpoint_root = [''/'', ''ckpt''], st_training_config_root = [''/'', ''config''],
     st_runtime_root = [''/'', ''run''], st_runtime_network = ''runtime'', st_vllm_allowed = ''vllm:1'',
     st_llamafactory_allowed = ''factory:1'', st_evaluation_allowed = ''eval:1'', st_startup_timeout = 1800,
     st_unhealthy_timeout = 60, st_failure_stop_timeout = 30, st_uid = 1000, st_gid = 1000,
     st_shm_size = ''16g'', st_enforce_nvml = True\<rparr>"

definition sample_node :: "(daemon_state, tree) agent_env" where
  "sample_node = \<lparr>av_engine = sample_engine, av_host = demo_host, av_settings = sample_settings,
     av_times = (\<lambda>_. None), av_float = (\<lambda>_. ''0.5''), av_read_json = (\<lambda>_. throw ())\<rparr>"

lemma sample_node_laws: "docker_laws (av_engine sample_node) sample_live"
  by (simp add: sample_node_def sample_laws)

interpretation sample: daemon sample_node sample_live
  by unfold_locales (rule sample_node_laws)

text \<open>A daemon with one running container, which holds card 0.\<close>

definition sample_container :: container where
  "sample_container = \<lparr>c_id = ''c0'', c_name = workload_name ''inference'' 3,
     c_labels = [(managed_label, ''true''), (kind_label, ''inference''), (id_label, uuid_str 3),
       (gpu_label, ''0''), (generation_label, ''1'')],
     c_status = ''running'', c_created = JNull, c_started = JNull, c_finished = JNull,
     c_health = JObj [(''Status'', JStr ''healthy'')], c_restarts = JInt 0, c_exit_code = Some 0\<rparr>"

definition sample_state :: daemon_state where
  "sample_state = [(workload_name ''inference'' 3, sample_container)]"

lemma sample_state_exclusive: "exclusive (sample_live sample_state)"
proof -
  have "sample_live [] = {}" by (auto simp: live_iff entry_def)
  then have "sample_live sample_state \<subseteq> {(workload_name ''inference'' 3, workload_name ''inference'' 3,
      gpu_ids_from_labels (c_labels sample_container))}"
    unfolding sample_state_def by (auto dest!: live_cons)
  then show ?thesis by (rule exclusive_subset [rotated]) (simp add: exclusive_def)
qed

lemma sample_state_live: "(workload_name ''inference'' 3, workload_name ''inference'' 3, [0]) \<in> sample_live sample_state"
proof -
  have "str_int 0 = ''0''" by code_simp
  then have "gpu_ids_from_labels (c_labels sample_container) = [0]"
    by (intro gpu_ids_round_trip) (simp add: sample_container_def label_defs)
  then show ?thesis
    by (simp add: live_iff entry_def fits_def sample_state_def sample_container_def is_managed_def active_def active_states_def
        claim_of_def label_defs parse_uuid_str)
qed

end
