(* ===== verification/CommandSafety.thy ===== *)
theory CommandSafety
  imports CommandService SampleDaemon
begin

text \<open>
  What an executed command means for the cards of the node: the card exclusion is kept by every command
  and runner operation, and an accepted reply that reports a workload absent, finished or failed is
  only given when no active container holds the workload's name any more.
\<close>

section \<open>Anything may happen\<close>

abbreviation ends :: "('s, 'x, 'a) action \<Rightarrow> ('a \<Rightarrow> 's \<Rightarrow> bool) \<Rightarrow> bool" where
  "ends m Q \<equiv> establishes (\<lambda>_. True) m Q (\<lambda>_ _. True)"

lemma ends_bind: "(\<And>a. ends (f a) Q) \<Longrightarrow> ends (and_then m f) Q"
  by (rule and_then_rule [where R = "\<lambda>_ _. True"]) (simp_all add: establishes_def split: prod.split sum.split)

lemma ends_if: "(b \<Longrightarrow> ends m Q) \<Longrightarrow> (\<not> b \<Longrightarrow> ends n Q) \<Longrightarrow> ends (if b then m else n) Q"
  by simp

lemma ends_give: "(\<And>s. Q a s) \<Longrightarrow> ends (give a) Q"
  by (rule give_rule)

lemma ends_throw: "ends (throw x) Q"
  by (rule throw_rule) simp

section \<open>Launches create the container of their workload\<close>

definition request_for :: "lease_owner_type \<Rightarrow> uuid \<Rightarrow> run_request \<Rightarrow> bool" where
  "request_for t u r \<longleftrightarrow> rq_name r = contract_workload_name t u \<and> rq_kind r = owner_kind t \<and> rq_workload_id r = u"

lemma run_requests:
  "request_for DEPLOYMENT (il_id q) (inference_run st q img model cache gpus command env)"
  "request_for TRAINING (tl_id r) (training_run r img model data dir config out cache gpus env)"
  "request_for EVALUATION (el_id e) (evaluation_run fr e img base cand data manifest out gpus)"
  by (simp_all add: request_for_def inference_run_def training_run_def evaluation_run_def Let_def
      contract_workload_name_def owner_kind_def)

lemma inference_request_for: "ends (inference_request V q) (\<lambda>r _. request_for DEPLOYMENT (il_id q) r)"
  unfolding inference_request_def Let_def by (intro ends_bind ends_give run_requests)

lemma training_request_for: "ends (training_request V q) (\<lambda>r _. request_for TRAINING (tl_id q) r)"
  unfolding training_request_def Let_def by (intro ends_bind ends_give run_requests)

lemma evaluation_request_for: "ends (evaluation_request V q) (\<lambda>r _. request_for EVALUATION (el_id q) r)"
  unfolding evaluation_request_def Let_def by (intro ends_bind ends_give run_requests)

section \<open>Replies that settle a workload\<close>

text \<open>
  An accepted reply with one of these states ends the workload for the control plane, which then frees
  its cards.
\<close>

definition settles :: "command_outcome \<Rightarrow> bool" where
  "settles out \<longleftrightarrow> accepted (out_response out) \<and> observed_state (out_response out) \<in> {ABSENT, SUCCEEDED, FAILED}"

lemma settles_rejected [simp]: "\<not> settles (rejected rq stamp status message err)"
  by (simp add: settles_def rejected_def)

lemma settled_states:
  assumes "state_from_info i \<in> {ABSENT, SUCCEEDED, FAILED}" shows "wi_status i \<notin> active_states"
  using assms by (auto simp: state_from_info_def active_states_def Let_def split: if_splits)

context daemon
begin

abbreviation empty_name :: "lease_owner_type \<Rightarrow> uuid \<Rightarrow> ('d, 'f, 'z) node_scheme \<Rightarrow> bool" where
  "empty_name t u \<equiv> inside (gone UNIV (contract_workload_name t u))"

abbreviation sound :: "lease_owner_type \<Rightarrow> uuid \<Rightarrow> command_outcome \<Rightarrow> ('d, 'f, 'z) node_scheme \<Rightarrow> bool" where
  "sound t u out s \<equiv> settles out \<longrightarrow> empty_name t u s"

lemma created_owns:
  assumes "request_for t u r" "u < 2 ^ 128" "c_name c = rq_name r" "c_labels c = run_labels r"
  shows "owns t u c"
  using assms unfolding owns_def labels_fit_name_def request_for_def
  by (auto simp: run_labels_fixed contract_workload_name_def)

lemma allocated_shows:
  assumes "request_for t u r" "u < 2 ^ 128"
  shows "ends (and_then (allocate V r) (to_info V)) (\<lambda>i. shows_workload t u UNIV i)"
  unfolding allocate_def
proof (rule and_then_rule)
  let ?n = "contract_workload_name t u"
  have run: "ends (run_container V r) (\<lambda>c s. owns t u c \<and> inside (only_as UNIV ?n c) s)"
    unfolding run_container_def
  proof (rule rescue_rule)
    show "establishes (\<lambda>_. True) (docker (e_run (av_engine V) (run_spec_of (av_settings V) r)))
        (\<lambda>c s. owns t u c \<and> inside (only_as UNIV ?n c) s) (\<lambda>_ _. True)"
    proof (rule establishesI)
      fix s s' :: "('d, 'f, 'z) node_scheme" and c
      assume m: "docker (e_run (av_engine V) (run_spec_of (av_settings V) r)) s = (s', Inr c)"
      obtain d where d: "e_run (av_engine V) (run_spec_of (av_settings V) r) (nd_docker s) = (d, Inr c)" "s' = s\<lparr>nd_docker := d\<rparr>"
        using docker_cases [OF m] by blast
      have law: "\<forall>q d d' c. e_run (av_engine V) q d = (d', Inr c) \<longrightarrow> c_name c = rs_name q \<and> c_labels c = rs_labels q
          \<and> (\<forall>k \<in> live d'. holder k = rs_name q \<longrightarrow> k = claim_of c)"
        using laws unfolding docker_laws_def run_creates_def by blast
      have c: "c_name c = rq_name r" "c_labels c = run_labels r" "\<forall>k \<in> live d. holder k = rq_name r \<longrightarrow> k = claim_of c"
        using law d(1) by (auto simp: run_spec_of_def)
      moreover have "rq_name r = ?n" using assms(1) by (simp add: request_for_def)
      moreover have "is_managed c" using c(2) by (simp add: is_managed_def run_labels_fixed)
      ultimately show "owns t u c \<and> inside (only_as UNIV ?n c) s'"
        using created_owns [OF assms c(1,2)] d(2) by auto
    qed simp
  qed (rule ends_throw)
  show "ends (and_then (assert_name_available V (rq_name r)) (\<lambda>_.
      and_then (assert_gpus_available V (rq_gpu_ids r) None) (\<lambda>_. run_container V r)))
      (\<lambda>c s. owns t u c \<and> inside (only_as UNIV ?n c) s)"
    by (intro ends_bind run)
  fix c
  show "establishes (\<lambda>s. owns t u c \<and> inside (only_as UNIV ?n c) s) (to_info V c) (\<lambda>i. shows_workload t u UNIV i) (\<lambda>_ _. True)"
    by (rule fact_rule, rule weaken [OF to_info_shows]) auto
qed

lemma launched_shows:
  assumes "ends m (\<lambda>r _. request_for t u r)" "u < 2 ^ 128"
  shows "ends (and_then m (\<lambda>r. and_then (allocate V r) (to_info V))) (\<lambda>i. shows_workload t u UNIV i)"
proof (rule bind_fact)
  show "ends m (\<lambda>r s. request_for t u r \<and> True)" using assms(1) by simp
qed (rule allocated_shows [OF _ assms(2)])

lemma launches_show:
  "u < 2 ^ 128 \<Longrightarrow> il_id q = u \<Longrightarrow> ends (launch_inference V q) (\<lambda>i. shows_workload DEPLOYMENT u UNIV i)"
  "u < 2 ^ 128 \<Longrightarrow> tl_id r = u \<Longrightarrow> ends (launch_training V r) (\<lambda>i. shows_workload TRAINING u UNIV i)"
  "u < 2 ^ 128 \<Longrightarrow> el_id e = u \<Longrightarrow> ends (launch_evaluation V e) (\<lambda>i. shows_workload EVALUATION u UNIV i)"
proof -
  assume u: "u < 2 ^ 128"
  show "ends (launch_inference V q) (\<lambda>i. shows_workload DEPLOYMENT u UNIV i)" if "il_id q = u"
    unfolding launch_inference_def
    by (rule launched_shows [OF inference_request_for [of V q, unfolded that] u])
  show "ends (launch_training V r) (\<lambda>i. shows_workload TRAINING u UNIV i)" if "tl_id r = u"
    unfolding launch_training_def
    by (rule launched_shows [OF training_request_for [of V r, unfolded that] u])
  show "ends (launch_evaluation V e) (\<lambda>i. shows_workload EVALUATION u UNIV i)" if "el_id e = u"
    unfolding launch_evaluation_def
    by (rule launched_shows [OF evaluation_request_for [of V e, unfolded that] u])
qed

text \<open>What only reads the daemon or works on files leaves every bound on the active containers.\<close>

lemma call_inputs_keep: "keeps (live_in live L) (call_inputs m)"
  unfolding call_inputs_def by (intro keep_rules files_keep)

lemma training_metadata_keeps: "sv_node E = V \<Longrightarrow> keeps (inside L) (training_metadata E u b)"
  unfolding training_metadata_def Let_def
  by (intro keep_rules files_keep call_files_keep) (simp only: managed_container_keeps)

lemma evaluation_metadata_keeps: "sv_node E = V \<Longrightarrow> keeps (inside L) (evaluation_metadata E u)"
  unfolding evaluation_metadata_def Let_def
  by (intro keep_rules call_inputs_keep call_files_keep) (simp only: managed_container_keeps)

lemma metadata_keeps: "sv_node E = V \<Longrightarrow> keeps (inside L) (metadata_for E c i state)"
  unfolding metadata_for_def
  by (simp split: lease_owner_type.split add: keeps_give training_metadata_keeps evaluation_metadata_keeps)

lemma settle_sound:
  assumes "sv_node E = V" and "failure \<noteq> None \<Longrightarrow> wi_kind i = ''inference'' \<and> state_from_info i = STARTING"
    and "u < 2 ^ 128"
  shows "establishes (shows_workload t u UNIV i) (settle_failure E i (state_from_info i) failure)
     (\<lambda>(state, _) s. state \<in> {ABSENT, SUCCEEDED, FAILED} \<longrightarrow> empty_name t u s) (\<lambda>_ _. True)"
proof (cases failure)
  case None
  have "empty_name t u s" if i: "shows_workload t u UNIV i s" and st: "state_from_info i \<in> {ABSENT, SUCCEEDED, FAILED}"
    for s :: "('d, 'f) agent"
    using conjunct2 [OF i] settled_states [OF st] by (simp only: if_False)
  then show ?thesis
    unfolding settle_failure_def None option.case by (intro give_rule, unfold prod.case) blast
next
  case (Some reason)
  have st: "state_from_info i = STARTING" and k: "wi_kind i = ''inference''" using assms(2) Some by auto
  show ?thesis
    unfolding settle_failure_def Some option.case assms(1)
  proof (rule fact_rule, rule and_then_rule)
    assume "owned t u i"
    then have t: "owner_kind t = ''inference''" and w: "wi_workload_id i = u" using assms(3) k by (auto simp: owned_def)
    have n: "contract_workload_name t u = workload_name ''inference'' (wi_workload_id i)"
      by (simp add: contract_workload_name_def t w)
    show "establishes (\<lambda>s. inside (if wi_status i \<in> active_states then UNIV else gone UNIV (contract_workload_name t u)) s)
        (quiesce_failed_inference V (wi_workload_id i) (wi_generation i) (st_failure_stop_timeout (av_settings V)))
        (\<lambda>b. inside (if b then gone UNIV (contract_workload_name t u) else UNIV)) (\<lambda>_ _. True)"
      by (rule weaken [OF quiesce_failed_inference_found [OF safe_contract_name n, of UNIV]]) simp_all
  next
    fix quiesced
    show "establishes (inside (if quiesced then gone UNIV (contract_workload_name t u) else UNIV))
        (give (if quiesced then (FAILED, False) else (state_from_info i, True)))
        (\<lambda>(state, _) s. state \<in> {ABSENT, SUCCEEDED, FAILED} \<longrightarrow> empty_name t u s) (\<lambda>_ _. True)"
      by (cases quiesced) (auto intro!: give_rule simp: st)
  qed
qed

lemma response_sound:
  assumes "sv_node E = V" and "u < 2 ^ 128"
  shows "establishes (shows_workload t u UNIV i) (response_from_info E now stamp c i) (sound t u) (\<lambda>_ _. True)"
  unfolding response_from_info_def Let_def
proof (rule and_then_rule [OF settle_sound [OF assms(1) _ assms(2)]])
  fix r :: "agent_workload_state \<times> bool"
  obtain state b where r: "r = (state, b)" by (cases r)
  let ?K = "if state \<in> {ABSENT, SUCCEEDED, FAILED} then gone UNIV (contract_workload_name t u) else UNIV"
  let ?out = "\<lambda>md. \<lparr>out_response = \<lparr>res_request_id = request_id c, accepted = True, observed_state = state, observed_at = stamp,
      res_message = reply_message i (if wi_kind i = ''inference'' \<and> state_from_info i = STARTING
        then inference_failure_reason (av_settings (sv_node E)) now i else None) state b,
      error_code = None, metadata = md\<rparr>, out_status = 200\<rparr>"
  have md: "establishes (inside ?K) (metadata_for E c i state) (\<lambda>_. inside ?K) (\<lambda>_ _. True)"
    by (rule weaken [OF metadata_keeps [OF assms(1)]]) simp_all
  have "establishes (inside ?K) (and_then (metadata_for E c i state) (\<lambda>md. give (?out md))) (sound t u) (\<lambda>_ _. True)"
    by (rule and_then_rule [OF md], rule give_rule) (auto simp: settles_def)
  then show "establishes (case r of (state, _) \<Rightarrow> \<lambda>s. state \<in> {ABSENT, SUCCEEDED, FAILED} \<longrightarrow> empty_name t u s)
      (case r of (state, uncertain) \<Rightarrow> and_then (metadata_for E c i state) (\<lambda>md.
         give \<lparr>out_response = \<lparr>res_request_id = request_id c, accepted = True, observed_state = state, observed_at = stamp,
           res_message = reply_message i (if wi_kind i = ''inference'' \<and> state_from_info i = STARTING
             then inference_failure_reason (av_settings (sv_node E)) now i else None) state uncertain,
           error_code = None, metadata = md\<rparr>, out_status = 200\<rparr>))
      (sound t u) (\<lambda>_ _. True)"
    unfolding r prod.case by (rule weaken) auto
qed (simp split: if_splits)

lemma start_shows:
  assumes "sv_node E = V" "ag_id (cmd_owner c) < 2 ^ 128"
  shows "ends (start_inference E c) (\<lambda>i. shows_workload DEPLOYMENT (ag_id (cmd_owner c)) UNIV i)"
    and "ends (start_training E c) (\<lambda>i. shows_workload TRAINING (ag_id (cmd_owner c)) UNIV i)"
    and "ends (start_evaluation E c) (\<lambda>i. shows_workload EVALUATION (ag_id (cmd_owner c)) UNIV i)"
proof -
  have pair: "ends (case p of (a, b, d) \<Rightarrow> f a b d) Q" if "\<And>a b d. ends (f a b d) Q" for p f and Q :: "_ \<Rightarrow> ('d, 'f) agent \<Rightarrow> bool"
    using that by (simp split: prod.split)
  show "ends (start_inference E c) (\<lambda>i. shows_workload DEPLOYMENT (ag_id (cmd_owner c)) UNIV i)"
    unfolding start_inference_def Let_def assms(1)
    by (intro ends_bind launches_show assms(2)) simp
  show "ends (start_training E c) (\<lambda>i. shows_workload TRAINING (ag_id (cmd_owner c)) UNIV i)"
    unfolding start_training_def Let_def assms(1)
    by (intro ends_bind pair launches_show assms(2)) simp
  show "ends (start_evaluation E c) (\<lambda>i. shows_workload EVALUATION (ag_id (cmd_owner c)) UNIV i)"
    unfolding start_evaluation_def Let_def assms(1)
    by (intro ends_bind pair launches_show assms(2)) simp
qed

lemma launch_for_shows:
  assumes "sv_node E = V" "ag_type (cmd_owner c) = t" "ag_id (cmd_owner c) = u" "u < 2 ^ 128"
  shows "ends (launch_for E c) (\<lambda>i. shows_workload t u UNIV i)"
  unfolding launch_for_def assms(2)
  using start_shows [OF assms(1), of c, unfolded assms(3), OF assms(4)]
  by (cases t) (simp_all only: lease_owner_type.case)

lemma absent_sound:
  "(\<And>s. P s \<Longrightarrow> empty_name t u s) \<Longrightarrow> establishes P (give (accepted_absent rq stamp)) (sound t u) (\<lambda>_ _. True)"
  by (rule give_rule) simp

lemma absent_or_raise:
  "establishes (fails_absent t u UNIV x) (if x = WorkloadNotFound then give (accepted_absent rq stamp) else throw x)
     (sound t u) (\<lambda>_ _. True)"
proof (cases "x = WorkloadNotFound")
  case True
  show ?thesis unfolding if_P [OF True] by (rule absent_sound)
next
  case False
  show ?thesis unfolding if_not_P [OF False] by (rule throw_rule) simp
qed

lemma start_command_sound:
  assumes "sv_node E = V" "ag_type (cmd_owner c) = t" "ag_id (cmd_owner c) = u" "u < 2 ^ 128"
  shows "ends (start_command E now stamp c) (sound t u)"
  unfolding start_command_def Let_def assms(1-3)
proof (rule ends_bind, rule and_then_rule)
  show "ends (prepare_contract_start V t u (ag_generation (cmd_owner c))) (shows_or_absent t u UNIV)"
    by (rule weaken [OF prepare_contract_start_found [of UNIV]]) simp_all
  fix existing
  show "establishes (shows_or_absent t u UNIV existing)
      (and_then (case existing of None \<Rightarrow> launch_for E c | Some i \<Rightarrow> give i) (\<lambda>i. response_from_info E now stamp c i))
      (sound t u) (\<lambda>_ _. True)"
  proof (rule and_then_rule [OF _ response_sound [OF assms(1,4)]], cases existing)
    case None
    show "establishes (shows_or_absent t u UNIV existing) (case existing of None \<Rightarrow> launch_for E c | Some i \<Rightarrow> give i)
        (\<lambda>i. shows_workload t u UNIV i) (\<lambda>_ _. True)"
      unfolding None option.case
      by (rule weaken [OF launch_for_shows [OF assms]], simp, assumption, assumption)
  next
    case (Some i)
    show "establishes (shows_or_absent t u UNIV existing) (case existing of None \<Rightarrow> launch_for E c | Some i \<Rightarrow> give i)
        (\<lambda>i. shows_workload t u UNIV i) (\<lambda>_ _. True)"
      unfolding Some option.case by (rule give_rule)
  qed
qed

lemma stop_command_sound:
  assumes "sv_node E = V" "ag_type (cmd_owner c) = t" "ag_id (cmd_owner c) = u" "u < 2 ^ 128"
  shows "ends (stop_command E now stamp c) (sound t u)"
  unfolding stop_command_def Let_def assms(1-3)
proof (rule attempt_cases, unfold sum.case)
  show "establishes (\<lambda>_. True) (stop_contract_workload V t u (ag_generation (cmd_owner c)) stop_timeout_seconds)
      (shows_or_absent t u UNIV) (fails_absent t u UNIV)"
    by (rule weaken [OF stop_contract_workload_found [of UNIV]], simp, assumption, assumption)
next
  fix r
  show "establishes (shows_or_absent t u UNIV r)
      (case r of None \<Rightarrow> give (accepted_absent (request_id c) stamp) | Some i \<Rightarrow> response_from_info E now stamp c i)
      (sound t u) (\<lambda>_ _. True)"
  proof (cases r)
    case None
    show ?thesis unfolding None option.case by (rule absent_sound)
  next
    case (Some i)
    show ?thesis unfolding Some option.case by (rule response_sound [OF assms(1,4)])
  qed
next
  fix x
  show "establishes (fails_absent t u UNIV x)
      (if x = WorkloadNotFound then give (accepted_absent (request_id c) stamp) else throw x) (sound t u) (\<lambda>_ _. True)"
    by (rule absent_or_raise)
qed

lemma observe_command_sound:
  assumes "sv_node E = V" "ag_type (cmd_owner c) = t" "ag_id (cmd_owner c) = u" "u < 2 ^ 128"
  shows "ends (observe_command E now stamp c) (sound t u)"
  unfolding observe_command_def Let_def assms(1-3)
proof (rule attempt_cases, unfold sum.case)
  show "establishes (\<lambda>_. True) (get_contract_workload V t u) (\<lambda>i. shows_workload t u UNIV i) (fails_absent t u UNIV)"
    by (rule weaken [OF get_contract_workload_found [of UNIV]], simp, assumption, assumption)
next
  fix i
  show "establishes (shows_workload t u UNIV i)
      (and_then (require (wi_generation i = ag_generation (cmd_owner c)) (WorkloadConflict ''status generation differs''))
        (\<lambda>_. response_from_info E now stamp c i)) (sound t u) (\<lambda>_ _. True)"
    by (rule bind_require, rule response_sound [OF assms(1,4)]) simp
next
  fix x
  show "establishes (fails_absent t u UNIV x)
      (if x = WorkloadNotFound then give (accepted_absent (request_id c) stamp) else throw x) (sound t u) (\<lambda>_ _. True)"
    by (rule absent_or_raise)
qed

lemma cleanup_command_sound:
  assumes "sv_node E = V" "ag_type (cmd_owner c) = t" "ag_id (cmd_owner c) = u"
  shows "ends (cleanup_command E stamp c) (sound t u)"
  unfolding cleanup_command_def Let_def assms
  by (rule and_then_rule, rule weaken [OF cleanup_contract_workload_found [of UNIV]], simp, assumption, simp)
     (rule absent_sound)

lemma dispatch_sound:
  assumes "sv_node E = V" "ag_type (cmd_owner c) = t" "ag_id (cmd_owner c) = u" "u < 2 ^ 128"
  shows "ends (dispatch E now stamp c) (sound t u)"
proof (cases "cmd_action c")
  case START
  show ?thesis unfolding dispatch_def START agent_action.case by (rule start_command_sound [OF assms])
next
  case STOP
  show ?thesis
    unfolding dispatch_def STOP agent_action.case
    by (intro ends_if ends_bind cleanup_command_sound [OF assms(1-3)] stop_command_sound [OF assms])
next
  case STATUS
  show ?thesis
    unfolding dispatch_def STATUS agent_action.case by (intro ends_bind observe_command_sound [OF assms])
qed

lemma answer_sound:
  assumes "sv_node E = V" "ag_type (cmd_owner c) = t" "ag_id (cmd_owner c) = u" "u < 2 ^ 128"
  shows "ends (answer E now stamp c) (sound t u)"
  unfolding answer_def
proof (rule rescue_rule [OF dispatch_sound [OF assms]])
  fix x
  show "establishes (\<lambda>_. True) (case x of
         ValidationRaised \<Rightarrow> give (rejected (request_id c) stamp 422 ''execution is invalid'' ''invalid_execution'')
       | InvalidWorkload m \<Rightarrow> give (rejected (request_id c) stamp 422 m ''invalid_workload'')
       | WorkloadConflict m \<Rightarrow> give (rejected (request_id c) stamp 409 m ''workload_conflict'')
       | _ \<Rightarrow> throw (raised x)) (sound t u) (\<lambda>_ _. True)"
    by (cases x) (auto intro!: give_rule throw_rule)
qed

section \<open>Executing\<close>

lemma remember_keeps: "keeps (inside L) (remember E c out)"
  unfolding remember_def update_store_def persist_def
  by (intro keep_rules files_keep set_state_rule) simp

lemma execute_sound:
  assumes "sv_node E = V" "ag_type (cmd_owner c) = t" "ag_id (cmd_owner c) = u" "u < 2 ^ 128"
  shows "establishes (\<lambda>s. get_request (request_id c) (ag_store s) = None) (execute E now stamp c) (sound t u) (\<lambda>_ _. True)"
proof -
  have refused: "ends (remember E c (rejected rq stamp st m e)) (sound t u)" for rq st m e
    unfolding remember_def by (intro ends_bind ends_give) simp
  have stored: "establishes (sound t u out) (remember E c out) (sound t u) (\<lambda>_ _. True)" for out
  proof -
    let ?K = "if settles out then gone UNIV (contract_workload_name t u) else UNIV"
    have "ends (remember E c out) (\<lambda>r _. r = out)"
      unfolding remember_def by (intro ends_bind ends_give) simp
    then have gives: "establishes (inside ?K) (remember E c out) (\<lambda>r _. r = out) (\<lambda>_ _. True)"
      by (rule weaken) simp_all
    show ?thesis
      by (rule weaken [OF both [OF remember_keeps [of ?K E c out] gives]]) auto
  qed
  show ?thesis
    unfolding execute_def
  proof (rule bind_fact)
    show "establishes (\<lambda>s. get_request (request_id c) (ag_store s) = None) (get_state ag_store)
        (\<lambda>st s. get_request (request_id c) st = None \<and> True) (\<lambda>_ _. True)"
      by (rule get_state_rule) simp
    fix st assume none: "get_request (request_id c) st = None"
    show "ends (if ag_generation (cmd_owner c) < generation (ag_type (cmd_owner c)) (ag_id (cmd_owner c)) st
        then give (rejected (request_id c) stamp 409 ''generation is older'' ''stale_generation'')
        else case get_request (request_id c) st of
           None \<Rightarrow> (case admit E c st of
              None \<Rightarrow> remember E c (rejected (request_id c) stamp 409 ''generation bound to another start'' ''generation_reused'')
            | Some w \<Rightarrow> and_then (update_store E w) (\<lambda>_. and_then (answer E now stamp c) (remember E c)))
         | Some cached \<Rightarrow>
           (if cc_fingerprint cached \<noteq> fingerprint E c
            then give (rejected (request_id c) stamp 409 ''request_id bound to another command'' ''request_id_reused'')
            else give (cc_result cached))) (sound t u)"
      unfolding none option.case
      by (intro ends_if option_rule refused ends_bind and_then_rule [OF answer_sound [OF assms]] stored) (rule ends_give, simp)
  qed
qed

lemma launch_for_excl:
  assumes "sv_node E = V" shows "keeps excl (launch_for E c)"
proof -
  have m: "keeps excl (materialize_training_files E c x)" for x
    unfolding materialize_training_files_def make_directories_def write_json_def Let_def assms
    by (intro keep_rules operations_passive)
  show ?thesis
    unfolding launch_for_def start_inference_def start_training_def start_evaluation_def Let_def assms
    by (cases "ag_type (cmd_owner c)"; simp only: lease_owner_type.case)
       (intro keep_rules operations_passive call_inputs_keep [THEN passive_excl] m launch_inference_excl launch_training_excl launch_evaluation_excl)+
qed

lemma response_excl:
  assumes "sv_node E = V" shows "keeps excl (response_from_info E now stamp c i)"
  unfolding response_from_info_def settle_failure_def Let_def assms
  by (intro keep_rules passive_excl [OF metadata_keeps [OF assms]] operations_passive)

lemma get_contract_workload_excl: "keeps excl (get_contract_workload V t u)"
  unfolding get_contract_workload_def by (intro operations_passive)

lemma dispatch_excl:
  assumes "sv_node E = V" shows "keeps excl (dispatch E now stamp c)"
  unfolding dispatch_def start_command_def stop_command_def cleanup_command_def observe_command_def Let_def assms
  by (cases "cmd_action c"; simp only: agent_action.case)
     (intro keep_rules operations_passive launch_for_excl response_excl assms get_contract_workload_excl)+

lemma execute_excl:
  assumes "sv_node E = V" shows "keeps excl (execute E now stamp c)"
proof -
  have handler: "keeps excl (case e of
         ValidationRaised \<Rightarrow> give (rejected (request_id c) stamp 422 ''execution is invalid'' ''invalid_execution'')
       | InvalidWorkload m \<Rightarrow> give (rejected (request_id c) stamp 422 m ''invalid_workload'')
       | WorkloadConflict m \<Rightarrow> give (rejected (request_id c) stamp 409 m ''workload_conflict'')
       | _ \<Rightarrow> throw (raised e))" for e
    by (cases e) (simp_all add: keeps_give keeps_throw)
  have store: "keeps excl (set_state (\<lambda>s. s\<lparr>ag_store := st\<rparr>))" for st by (rule set_state_rule) simp
  show ?thesis
    unfolding execute_def answer_def update_store_def persist_def
    by (intro keep_rules operations_passive store handler dispatch_excl assms passive_excl [OF remember_keeps])
qed

end

section \<open>What a reply and a history guarantee\<close>

text \<open>
  Everything a node agent is asked: contract commands, and start, stop and delete of a named workload.
\<close>

datatype node_operation =
    Execute timestamp timestamp agent_command
  | StartNamed string
  | StopNamed string int
  | DeleteNamed string bool

fun perform :: "('d, 'f) service_env \<Rightarrow> node_operation \<Rightarrow> ('d, 'f) agent \<Rightarrow> ('d, 'f) agent" where
  "perform E (Execute now stamp c) s = fst (execute E now stamp c s)"
| "perform E (StartNamed n) s = fst (start_workload (sv_node E) n s)"
| "perform E (StopNamed n t) s = fst (stop_workload (sv_node E) n t s)"
| "perform E (DeleteNamed n f) s = fst (delete_container (sv_node E) n f s)"

definition perform_all :: "('d, 'f) service_env \<Rightarrow> node_operation list \<Rightarrow> ('d, 'f) agent \<Rightarrow> ('d, 'f) agent" where
  "perform_all E ops = fold (perform E) ops"

lemma perform_exclusive:
  assumes "docker_laws (av_engine (sv_node E)) live" "exclusive (live (nd_docker s))"
  shows "exclusive (live (nd_docker (perform E a s)))"
proof -
  note d = daemon.intro [OF assms(1)]
  show ?thesis
    using kept [OF daemon.execute_excl [OF d refl] assms(2)] kept [OF daemon.start_workload_excl [OF d] assms(2)]
      kept [OF daemon.stop_workload_excl [OF d] assms(2)] kept [OF daemon.delete_container_excl [OF d] assms(2)]
    by (cases a) simp_all
qed

text \<open>
  C2. Cards are never shared on a node: under the documented behaviour of the Docker daemon, whatever
  sequence of commands and runner operations the agent performs - starts of all three kinds, stops,
  cleanups, retries, failed launches - and whichever containers end by themselves meanwhile, no two
  active managed containers hold the same GPU.
\<close>

theorem node_never_shares_cards:
  assumes "docker_laws (av_engine (sv_node E)) live" and "exclusive (live (nd_docker s))"
  shows "exclusive (live (nd_docker (perform_all E ops s)))"
  unfolding perform_all_def using assms(2)
  by (induction ops arbitrary: s) (simp_all add: perform_exclusive [OF assms(1)])

text \<open>
  C6. A settled reply is a promise: when a fresh command is answered with an accepted reply that says
  absent, succeeded or failed - on which the control plane frees the workload's cards - no active
  managed container has the workload's name, also for a start whose container died at once and for an
  inference service that was given up.
\<close>

theorem settled_reply_means_no_container:
  assumes "docker_laws (av_engine (sv_node E)) live" and "ag_id (cmd_owner c) < 2 ^ 128"
    and "get_request (request_id c) (ag_store s) = None"
    and "execute E now stamp c s = (s', Inr out)" and "settles out"
  shows "\<forall>k \<in> live (nd_docker s'). holder k \<noteq> contract_workload_name (ag_type (cmd_owner c)) (ag_id (cmd_owner c))"
  using value_of [OF daemon.execute_sound [OF daemon.intro [OF assms(1)] refl refl refl assms(2)] assms(3,4)] assms(5)
  by blast

section \<open>A sample agent\<close>

definition sample_service :: "(daemon_state, tree) service_env" where
  "sample_service = \<lparr>sv_node = sample_node, sv_codec = demo_codec, sv_sha256 = id,
     sv_lax = \<lparr>lx_int = (\<lambda>v. case v of JInt i \<Rightarrow> Some i | _ \<Rightarrow> None), lx_float = number\<rparr>,
     sv_save = (\<lambda>_. give ()), sv_write_json = (\<lambda>p _ t. ((p, RegularFile) # t, Inr ())), sv_read = (\<lambda>_. give []),
     sv_loads = (\<lambda>_. None),
     sv_files = \<lparr>fa_host = demo_host, fa_lstat = (\<lambda>_. give (RegularFile, 1)), fa_size = (\<lambda>_. give 1),
       fa_read = (\<lambda>_. give []),
       fa_source = (\<lambda>_. give \<lparr>so_regular = True, so_size = 1, so_lines = [], so_changed = False\<rparr>),
       fa_replace = (\<lambda>p _ t. ((p, RegularFile) # t, Inr ())), fa_loads = (\<lambda>_. Inl ''json''), fa_sha256 = id,
       fa_float = demo_float, fa_text = (\<lambda>_. [])\<rparr>,
     sv_training_files = (\<lambda>_ _ _. give [])\<rparr>"

lemma sample_service_laws: "docker_laws (av_engine (sv_node sample_service)) sample_live"
  by (simp add: sample_service_def sample_node_laws)

definition sample_agent :: "(daemon_state, tree) agent" where
  "sample_agent = \<lparr>nd_docker = sample_state, nd_files = demo_tree, ag_store = empty_store\<rparr>"

definition ask :: "agent_action \<Rightarrow> lease_owner_type \<Rightarrow> uuid \<Rightarrow> int \<Rightarrow> json_obj \<Rightarrow> agent_command" where
  "ask a t u g x = \<lparr>request_id = 5, cmd_action = a,
     cmd_owner = \<lparr>ag_type = t, ag_id = u, ag_name = ''w'', ag_generation = g\<rparr>, cmd_gpu_ids = [0], execution = x\<rparr>"

lemma node_never_shares_cards_witness:
  "exclusive (sample_live (nd_docker (perform_all sample_service
     [Execute 0 0 (ask STOP TRAINING 9 2 []), StartNamed (workload_name ''inference'' 3),
      DeleteNamed (workload_name ''inference'' 3) True] sample_agent)))"
  by (rule node_never_shares_cards [OF sample_service_laws]) (simp add: sample_agent_def sample_state_exclusive)

lemma stop_sample:
  "execute sample_service 0 7 (ask STOP TRAINING 9 2 []) sample_agent
     = (sample_agent\<lparr>ag_store := put_request 5 (fingerprint sample_service (ask STOP TRAINING 9 2 [])) (accepted_absent 5 7)
          (fst (advance_generation TRAINING 9 2 empty_store))\<rparr>, Inr (accepted_absent 5 7))"
proof -
  have other: "contract_workload_name TRAINING 9 \<noteq> workload_name ''inference'' 3"
    by (simp add: contract_workload_name_def owner_kind_def workload_name_def)
  have "entry sample_state (contract_workload_name TRAINING 9) = None"
    unfolding entry_def sample_state_def using other by simp
  then show ?thesis
    by (simp add: execute_def admit_def answer_def dispatch_def stop_command_def stop_contract_workload_def
        managed_container_def safe_contract_name sample_service_def sample_node_def sample_calls docker_def
        action_defs remember_def update_store_def persist_def files_def ask_def sample_agent_def Let_def
        empty_store_def get_request_def generation_def generation_at_def)
qed

lemma settled_reply_means_no_container_witness:
  "contract_workload_name TRAINING 9
     \<notin> holder ` sample_live (nd_docker (fst (execute sample_service 0 7 (ask STOP TRAINING 9 2 []) sample_agent)))"
proof -
  have "ag_id (cmd_owner (ask STOP TRAINING 9 2 [])) < 2 ^ 128" by (simp add: ask_def)
  moreover have "get_request (request_id (ask STOP TRAINING 9 2 [])) (ag_store sample_agent) = None"
    by (simp add: sample_agent_def get_request_def empty_store_def)
  moreover have "settles (accepted_absent 5 7)" by (simp add: settles_def accepted_absent_def)
  ultimately have all: "\<forall>k \<in> sample_live (nd_docker (sample_agent\<lparr>ag_store := put_request 5
      (fingerprint sample_service (ask STOP TRAINING 9 2 [])) (accepted_absent 5 7)
      (fst (advance_generation TRAINING 9 2 empty_store))\<rparr>)).
      holder k \<noteq> contract_workload_name (ag_type (cmd_owner (ask STOP TRAINING 9 2 []))) (ag_id (cmd_owner (ask STOP TRAINING 9 2 [])))"
    using settled_reply_means_no_container [OF sample_service_laws _ _ stop_sample] by blast
  have "ag_type (cmd_owner (ask STOP TRAINING 9 2 [])) = TRAINING" "ag_id (cmd_owner (ask STOP TRAINING 9 2 [])) = 9"
    by (simp_all add: ask_def)
  then have none: "k \<in> sample_live (nd_docker (sample_agent\<lparr>ag_store := put_request 5
      (fingerprint sample_service (ask STOP TRAINING 9 2 [])) (accepted_absent 5 7)
      (fst (advance_generation TRAINING 9 2 empty_store))\<rparr>)) \<Longrightarrow> holder k \<noteq> contract_workload_name TRAINING 9" for k
    using all by simp
  show ?thesis
    unfolding stop_sample fst_conv
  proof
    assume "contract_workload_name TRAINING 9 \<in> holder ` sample_live (nd_docker (sample_agent\<lparr>ag_store := put_request 5
      (fingerprint sample_service (ask STOP TRAINING 9 2 [])) (accepted_absent 5 7)
      (fst (advance_generation TRAINING 9 2 empty_store))\<rparr>))"
    then show False by (rule imageE) (drule none, simp)
  qed
qed

end
