(* ===== verification/CommandHistory.thy ===== *)
theory CommandHistory
  imports CommandSafety
begin

text \<open>
  How the command state store fences the commands of a node: an abstract fence per workload (the highest
  generation seen and the start bound to it), which every execution refines; repeated deliveries; the
  invariant of the store over a history; the bounds on a service that is still starting.
\<close>

section \<open>What the runner does not touch\<close>

text \<open>A part of the agent's state that no call of the daemon or of the file system changes.\<close>

locale node_frame =
  fixes P :: "('d, 'f, 'z) node_scheme \<Rightarrow> bool"
  assumes docker_frame: "P s \<Longrightarrow> P (s\<lparr>nd_docker := d\<rparr>)"
    and files_frame: "P s \<Longrightarrow> P (s\<lparr>nd_files := f\<rparr>)"
begin

lemma docker_kept: "keeps P (docker m)"
  by (auto simp: establishes_def docker_def docker_frame split: prod.splits sum.splits)

lemma files_kept: "keeps P (files m)"
  by (auto simp: establishes_def files_def files_frame split: prod.splits sum.splits)

lemma calls_kept: "keeps P (call_docker m)" "keeps P (call_files m')" "keeps P (call_inputs m'')"
  unfolding call_docker_def call_files_def call_inputs_def by (intro keep_rules docker_kept files_kept)+

lemma inspection_kept:
  "keeps P (to_info V c)" "keeps P (managed_container V n)" "keeps P (get_contract_workload V t u)"
proof -
  show i: "keeps P (to_info V c)" for c
    unfolding to_info_def image_text_def by (intro keep_rules calls_kept)
  show m: "keeps P (managed_container V n)" for n
    unfolding managed_container_def by (intro keep_rules docker_kept)
  show "keeps P (get_contract_workload V t u)"
    unfolding get_contract_workload_def get_workload_def by (intro keep_rules i m)
qed

lemma contract_kept:
  "keeps P (prepare_contract_start V t u g)" "keeps P (stop_contract_workload V t u g tm)"
  "keeps P (cleanup_contract_workload V t u g)"
  unfolding prepare_contract_start_def stop_contract_workload_def cleanup_contract_workload_def Let_def
  by (intro keep_rules docker_kept calls_kept inspection_kept)+

lemma quiesce_kept: "keeps P (quiesce_failed_inference V u g tm)"
proof -
  have e: "keeps P (case e of WorkloadNotFound \<Rightarrow> give True
      | DockerRaised x \<Rightarrow> (if is_docker_exception x then give False else throw e) | _ \<Rightarrow> throw e)" for e
    by (cases e) (simp_all add: keeps_give keeps_throw keeps_if)
  show ?thesis
    unfolding quiesce_failed_inference_def quiesce_container_def confirm_inactive_def
    by (intro keep_rules docker_kept inspection_kept e)
qed

lemma allocation_loop_kept: "keeps P (allocation_loop V cs taken)"
  by (induction cs arbitrary: taken) (auto intro!: keep_rules calls_kept)

lemma allocate_kept: "keeps P (allocate V q)"
  unfolding allocate_def assert_name_available_def assert_gpus_available_def gpu_allocations_def run_container_def
  by (intro keep_rules docker_kept calls_kept allocation_loop_kept)

lemma verified_image_kept: "keeps P (verified_image_id V ok r)"
  unfolding verified_image_id_def by (intro keep_rules docker_kept)

lemma launch_kept: "keeps P (launch_inference V q)" "keeps P (launch_training V r)" "keeps P (launch_evaluation V e)"
  unfolding launch_inference_def inference_request_def launch_training_def training_request_def
    launch_evaluation_def evaluation_request_def Let_def
  by (intro keep_rules files_kept calls_kept inspection_kept allocate_kept verified_image_kept)+

lemma named_kept:
  "keeps P (start_workload V n)" "keeps P (stop_workload V n tm)" "keeps P (delete_container V n force)"
  unfolding start_workload_def stop_workload_def delete_container_def assert_gpus_available_def gpu_allocations_def
  by (intro keep_rules docker_kept calls_kept inspection_kept allocation_loop_kept)+

end

interpretation store_frame: node_frame "\<lambda>s :: ('d, 'f) agent. ag_store s = st" for st
  by unfold_locales simp_all

lemmas store_frame_rules = keep_rules store_frame.docker_kept store_frame.files_kept store_frame.calls_kept
  store_frame.inspection_kept store_frame.contract_kept store_frame.quiesce_kept store_frame.launch_kept

lemma metadata_store: "keeps (\<lambda>s. ag_store s = st) (metadata_for E c i state)"
  unfolding metadata_for_def training_metadata_def evaluation_metadata_def Let_def
  by (cases "ag_type (cmd_owner c)"; simp only: lease_owner_type.case) (intro store_frame_rules)+

lemma response_store: "keeps (\<lambda>s. ag_store s = st) (response_from_info E now stamp c i)"
  unfolding response_from_info_def settle_failure_def Let_def by (intro store_frame_rules metadata_store)

lemma launch_for_store: "keeps (\<lambda>s. ag_store s = st) (launch_for E c)"
  unfolding launch_for_def start_inference_def start_training_def start_evaluation_def
    materialize_training_files_def make_directories_def write_json_def Let_def
  by (cases "ag_type (cmd_owner c)"; simp only: lease_owner_type.case) (intro store_frame_rules)+

lemma answer_store: "keeps (\<lambda>s. ag_store s = st) (answer E now stamp c)"
proof -
  have handler: "keeps (\<lambda>s. ag_store s = st) (case e of
         ValidationRaised \<Rightarrow> give (rejected (request_id c) stamp 422 ''execution is invalid'' ''invalid_execution'')
       | InvalidWorkload m \<Rightarrow> give (rejected (request_id c) stamp 422 m ''invalid_workload'')
       | WorkloadConflict m \<Rightarrow> give (rejected (request_id c) stamp 409 m ''workload_conflict'')
       | _ \<Rightarrow> throw (raised e))" for e
    by (cases e) (simp_all add: keeps_give keeps_throw)
  have "keeps (\<lambda>s. ag_store s = st) (dispatch E now stamp c)"
    unfolding dispatch_def start_command_def stop_command_def cleanup_command_def observe_command_def Let_def
    by (cases "cmd_action c"; simp only: agent_action.case)
       (intro store_frame_rules launch_for_store response_store)+
  then show ?thesis
    unfolding answer_def by (rule keeps_rescue) (rule handler)
qed

section \<open>What an execution does to the store\<close>

lemma update_store_state:
  "update_store E (st, w) s = (s', r) \<Longrightarrow> ag_store s' = st \<and> nd_docker s' = nd_docker s"
  by (auto simp: update_store_def persist_def action_defs files_def split: if_splits prod.splits sum.splits)

lemma remember_state:
  assumes "remember E c out s = (s', r)"
  shows "ag_store s' = put_request (request_id c) (fingerprint E c) out (ag_store s) \<and> nd_docker s' = nd_docker s
    \<and> (\<forall>x. r = Inr x \<longrightarrow> x = out)"
proof -
  obtain s1 r1 where u: "update_store E (put_request (request_id c) (fingerprint E c) out (ag_store s), True) s = (s1, r1)"
    by fastforce
  have "s' = s1" and "\<forall>x. r = Inr x \<longrightarrow> x = out"
    using assms u by (auto simp: remember_def and_then_def get_state_def give_def split: sum.splits)
  then show ?thesis using update_store_state [OF u] by simp
qed

text \<open>The ways through \<open>execute\<close>.\<close>

definition stale :: "agent_command \<Rightarrow> command_store \<Rightarrow> bool" where
  "stale c st \<longleftrightarrow> ag_generation (cmd_owner c) < generation (ag_type (cmd_owner c)) (ag_id (cmd_owner c)) st"

lemma execute_known:
  assumes "stale c (ag_store s) \<or> get_request (request_id c) (ag_store s) \<noteq> None"
  shows "fst (execute E now stamp c s) = s"
  using assms by (auto simp: execute_def stale_def and_then_def get_state_def give_def split: option.split)

lemma execute_cached:
  assumes "\<not> stale c (ag_store s)" "get_request (request_id c) (ag_store s) = Some k" "cc_fingerprint k = fingerprint E c"
  shows "execute E now stamp c s = (s, Inr (cc_result k))"
  using assms by (simp add: execute_def stale_def and_then_def get_state_def give_def)

lemma execute_fresh:
  assumes "\<not> stale c (ag_store s)" "get_request (request_id c) (ag_store s) = None"
    and x: "execute E now stamp c s = (s', r)"
  shows "(admit E c (ag_store s) = None \<and> nd_docker s' = nd_docker s
       \<and> (\<exists>out. ag_store s' = put_request (request_id c) (fingerprint E c) out (ag_store s) \<and> (\<forall>y. r = Inr y \<longrightarrow> y = out)))
    \<or> (\<exists>st w. admit E c (ag_store s) = Some (st, w)
       \<and> (ag_store s' = st \<and> (\<exists>e. r = Inl e)
          \<or> (\<exists>out. ag_store s' = put_request (request_id c) (fingerprint E c) out st \<and> (\<forall>y. r = Inr y \<longrightarrow> y = out))))"
proof (cases "admit E c (ag_store s)")
  case None
  then have "remember E c (rejected (request_id c) stamp 409 ''generation bound to another start'' ''generation_reused'') s = (s', r)"
    using assms by (simp add: execute_def stale_def and_then_def get_state_def)
  from remember_state [OF this] show ?thesis using None by blast
next
  case (Some sw)
  obtain st w where sw: "sw = (st, w)" by (cases sw)
  let ?rest = "and_then (answer E now stamp c) (remember E c)"
  have run: "and_then (update_store E (st, w)) (\<lambda>_. ?rest) s = (s', r)"
    using assms Some sw by (simp add: execute_def stale_def and_then_def get_state_def)
  from and_then_cases [OF run] have "ag_store s' = st \<and> (\<exists>e. r = Inl e)
      \<or> (\<exists>out. ag_store s' = put_request (request_id c) (fingerprint E c) out st \<and> (\<forall>y. r = Inr y \<longrightarrow> y = out))"
  proof (elim disjE exE conjE)
    fix s1 a assume u: "update_store E (st, w) s = (s1, Inr a)" and rest: "?rest s1 = (s', r)"
    have s1: "ag_store s1 = st" using update_store_state [OF u] by simp
    from and_then_cases [OF rest] show ?thesis
    proof (elim disjE exE conjE)
      fix s2 out assume a: "answer E now stamp c s1 = (s2, Inr out)" and m: "remember E c out s2 = (s', r)"
      have "ag_store s2 = st" using value_of [OF answer_store s1 a] .
      then show ?thesis using remember_state [OF m] by auto
    next
      fix e assume "answer E now stamp c s1 = (s', Inl e)" "r = Inl e"
      then show ?thesis using error_of [OF answer_store s1] by blast
    qed
  next
    fix e assume "update_store E (st, w) s = (s', Inl e)" "r = Inl e"
    then show ?thesis using update_store_state by blast
  qed
  then show ?thesis using Some sw by blast
qed

section \<open>The fence of a workload\<close>

text \<open>
  The abstract view of the store: per owner the highest generation seen, and the start bound to that
  generation. A command is its owner's key, its generation and, for a start, its fingerprint.
\<close>

type_synonym fence = "string \<Rightarrow> int \<times> string option"

definition fence_of :: "command_store \<Rightarrow> fence" where
  "fence_of st k =
     (generation_at k st,
      case map_of (cs_starts st) k of
        None \<Rightarrow> None
      | Some b \<Rightarrow> (if sb_generation b = generation_at k st then Some (sb_fingerprint b) else None))"

definition fence_admits :: "string \<Rightarrow> int \<Rightarrow> string option \<Rightarrow> fence \<Rightarrow> bool" where
  "fence_admits k g sf f \<longleftrightarrow> fst (f k) \<le> g
     \<and> (case sf of None \<Rightarrow> True | Some p \<Rightarrow> fst (f k) = g \<longrightarrow> snd (f k) \<in> {None, Some p})"

definition fence_step :: "string \<Rightarrow> int \<Rightarrow> string option \<Rightarrow> fence \<Rightarrow> fence" where
  "fence_step k g sf f =
     f(k := (g, case sf of Some p \<Rightarrow> Some p | None \<Rightarrow> (if fst (f k) = g then snd (f k) else None)))"

definition start_of :: "('d, 'f) service_env \<Rightarrow> agent_command \<Rightarrow> string option" where
  "start_of E c = (if cmd_action c = START then Some (start_fingerprint E c) else None)"

definition command_key :: "agent_command \<Rightarrow> string" where
  "command_key c = owner_key (ag_type (cmd_owner c)) (ag_id (cmd_owner c))"

lemma put_frame [simp]:
  "generation_at k (put_request r fp out st) = generation_at k st" "cs_starts (put_request r fp out st) = cs_starts st"
  by (simp_all add: generation_at_def put_request_def)

lemma fence_of_put [simp]: "fence_of (put_request r fp out st) = fence_of st"
  by (simp add: fence_of_def fun_eq_iff split: option.split)

lemma fence_of_raise:
  assumes "generation_at k st \<le> g" and "\<forall>b. map_of (cs_starts st) k = Some b \<longrightarrow> sb_generation b \<le> generation_at k st"
  shows "fence_of (fst (raise_generation k g st)) = fence_step k g None (fence_of st)"
  unfolding fence_of_def fence_step_def fun_eq_iff
  using assms by (auto simp: generation_at_raise max_def split: option.splits)

lemma fence_of_bind:
  assumes "generation_at k st \<le> g"
  shows "fence_of (fst (raise_generation k g (st\<lparr>cs_starts := dict_set k \<lparr>sb_generation = g, sb_fingerprint = fp\<rparr> (cs_starts st)\<rparr>)))
     = fence_step k g (Some fp) (fence_of st)"
proof -
  have g: "generation_at k' (st\<lparr>cs_starts := ss\<rparr>) = generation_at k' st" for k' ss by (simp add: generation_at_def)
  show ?thesis
    unfolding fence_of_def fence_step_def fun_eq_iff
    using assms by (auto simp: generation_at_raise g dict_get_set max_def split: option.splits)
qed

lemma starts_below:
  "store_ok st \<Longrightarrow> map_of (cs_starts st) k = Some b \<Longrightarrow> sb_generation b \<le> generation_at k st"
  unfolding store_ok_def by (fastforce dest: map_of_SomeD)

lemma admit_refines:
  assumes "store_ok st" "\<not> stale c st" "admit E c st = Some (st', w)"
  shows "fence_admits (command_key c) (ag_generation (cmd_owner c)) (start_of E c) (fence_of st)
     \<and> fence_of st' = fence_step (command_key c) (ag_generation (cmd_owner c)) (start_of E c) (fence_of st)"
proof -
  let ?k = "command_key c" and ?g = "ag_generation (cmd_owner c)"
  have le: "generation_at ?k st \<le> ?g" using assms(2) by (simp add: stale_def generation_def command_key_def)
  have below: "\<forall>b. map_of (cs_starts st) ?k = Some b \<longrightarrow> sb_generation b \<le> generation_at ?k st"
    using starts_below [OF assms(1)] by blast
  show ?thesis
  proof (cases "cmd_action c = START")
    case False
    then have "st' = fst (raise_generation ?k ?g st)"
      using assms(3) by (simp add: admit_def Let_def advance_generation_def command_key_def)
    then show ?thesis
      using fence_of_raise [OF le below] le False by (simp add: start_of_def fence_admits_def fence_of_def)
  next
    case True
    let ?fp = "start_fingerprint E c"
    have b: "bind_start (ag_type (cmd_owner c)) (ag_id (cmd_owner c)) ?g ?fp st = Some (st', w)"
      using assms(3) True by (simp add: admit_def Let_def)
    have adm: "fence_admits ?k ?g (Some ?fp) (fence_of st)"
      using b le unfolding bind_start_def command_key_def [symmetric] Let_def
      by (auto simp: fence_admits_def fence_of_def split: option.splits if_splits)
    from bind_start_cases [OF b, folded command_key_def] show ?thesis
    proof (elim disjE exE conjE)
      fix b' assume b': "map_of (cs_starts st) ?k = Some b'" "sb_generation b' = ?g" "sb_fingerprint b' = ?fp"
        and st': "st' = fst (raise_generation ?k ?g st)"
      have "fence_step ?k ?g None (fence_of st) = fence_step ?k ?g (Some ?fp) (fence_of st)"
        using b' below le by (auto simp: fence_step_def fence_of_def)
      then show ?thesis using fence_of_raise [OF le below] st' adm True by (simp add: start_of_def)
    next
      assume "st' = fst (raise_generation ?k ?g
          (st\<lparr>cs_starts := dict_set ?k \<lparr>sb_generation = ?g, sb_fingerprint = ?fp\<rparr> (cs_starts st)\<rparr>))"
      then show ?thesis using fence_of_bind [OF le] adm True by (simp add: start_of_def)
    qed
  qed
qed

text \<open>
  C7. Every execution refines the fence: either it leaves fence and Docker as they are (a command of an
  older generation, a repeated or reused request id, a second start with other parameters in the same
  generation), or the fence admits the command and takes exactly its step - also when the execution
  ends in an exception. So Docker is only ever touched for commands the fence admits.
\<close>

theorem execution_refines_fence:
  assumes "store_ok (ag_store s)" and "execute E now stamp c s = (s', r)"
  shows "(fence_of (ag_store s') = fence_of (ag_store s) \<and> nd_docker s' = nd_docker s)
    \<or> (fence_admits (command_key c) (ag_generation (cmd_owner c)) (start_of E c) (fence_of (ag_store s))
       \<and> fence_of (ag_store s')
           = fence_step (command_key c) (ag_generation (cmd_owner c)) (start_of E c) (fence_of (ag_store s)))"
proof (cases "stale c (ag_store s) \<or> get_request (request_id c) (ag_store s) \<noteq> None")
  case True
  then show ?thesis using execute_known [OF True, of E now stamp] assms(2) by simp
next
  case False
  then have fresh: "\<not> stale c (ag_store s)" "get_request (request_id c) (ag_store s) = None" by auto
  from execute_fresh [OF fresh assms(2)] show ?thesis
    using admit_refines [OF assms(1) fresh(1), of E] by auto
qed

text \<open>What the abstract fence promises over any history of admitted steps.\<close>

lemma fence_step_monotone:
  "fence_admits k g sf f \<Longrightarrow> fst (f k') \<le> fst (fence_step k g sf f k')"
  by (auto simp: fence_admits_def fence_step_def)

lemma fence_step_keeps_start:
  "fence_admits k g sf f \<Longrightarrow> f k' = (h, Some p) \<Longrightarrow>
     fst (fence_step k g sf f k') = h \<Longrightarrow> fence_step k g sf f k' = (h, Some p)"
  by (auto simp: fence_admits_def fence_step_def split: option.splits if_splits)

section \<open>The store over a history\<close>

definition operation_ok :: "node_operation \<Rightarrow> bool" where
  "operation_ok a = (case a of
      Execute _ _ c \<Rightarrow> command_fields_ok c \<and> request_id c < 2 ^ 128 | _ \<Rightarrow> True)"

lemma admit_ok:
  assumes "store_ok st" "\<not> stale c st" "1 \<le> ag_generation (cmd_owner c)" "admit E c st = Some (st', w)"
  shows "store_ok st'"
proof (cases "cmd_action c = START")
  case True
  have "generation (ag_type (cmd_owner c)) (ag_id (cmd_owner c)) st \<le> ag_generation (cmd_owner c)"
    using assms(2) by (simp add: stale_def)
  then show ?thesis
    using bind_start_ok [OF assms(1,3)] assms(4) True by (simp add: admit_def Let_def)
next
  case False
  then have "st' = fst (advance_generation (ag_type (cmd_owner c)) (ag_id (cmd_owner c)) (ag_generation (cmd_owner c)) st)"
    using assms(4) by (simp add: admit_def Let_def)
  then show ?thesis using advance_ok [OF assms(1,3)] by simp
qed

lemma admit_requests:
  assumes "admit E c st = Some (st', w)" shows "cs_requests st' = cs_requests st"
proof (cases "cmd_action c = START")
  case True
  then have "bind_start (ag_type (cmd_owner c)) (ag_id (cmd_owner c)) (ag_generation (cmd_owner c)) (start_fingerprint E c) st
      = Some (st', w)"
    using assms by (simp add: admit_def Let_def)
  from bind_start_cases [OF this] show ?thesis by auto
next
  case False
  then show ?thesis using assms by (auto simp: admit_def Let_def advance_generation_def raise_generation_def split: if_splits)
qed

lemma execute_store:
  assumes "store_ok (ag_store s)" "command_fields_ok c" "request_id c < 2 ^ 128" "execute E now stamp c s = (s', r)"
  shows "store_ok (ag_store s') \<and> generation_at k (ag_store s) \<le> generation_at k (ag_store s')"
proof
  have gen: "generation_at k st = fst (fence_of st k)" for st by (simp add: fence_of_def)
  show "generation_at k (ag_store s) \<le> generation_at k (ag_store s')"
    using execution_refines_fence [OF assms(1,4)] unfolding gen by (elim disjE conjE) (simp_all add: fence_step_monotone)
  show "store_ok (ag_store s')"
  proof (cases "stale c (ag_store s) \<or> get_request (request_id c) (ag_store s) \<noteq> None")
    case True
    then show ?thesis using execute_known [OF True, of E now stamp] assms(1,4) by simp
  next
    case False
    then have fresh: "\<not> stale c (ag_store s)" "get_request (request_id c) (ag_store s) = None" by auto
    have "1 \<le> ag_generation (cmd_owner c)" using assms(2) by (simp add: command_fields_ok_def)
    note ok = admit_ok [OF assms(1) fresh(1) this, of E]
    from execute_fresh [OF fresh assms(4)] show ?thesis
      using ok put_request_ok assms(1,3) by (elim disjE exE conjE) metis+
  qed
qed

lemma named_store:
  fixes s :: "('d, 'f) agent"
  shows "ag_store (fst (start_workload V n s)) = ag_store s" "ag_store (fst (stop_workload V n tm s)) = ag_store s"
    "ag_store (fst (delete_container V n force s)) = ag_store s"
  by (rule kept [OF store_frame.named_kept(1) refl], rule kept [OF store_frame.named_kept(2) refl],
      rule kept [OF store_frame.named_kept(3) refl])

lemma perform_store:
  assumes "store_ok (ag_store s)" "operation_ok a"
  shows "store_ok (ag_store (perform E a s)) \<and> generation_at k (ag_store s) \<le> generation_at k (ag_store (perform E a s))"
proof (cases a)
  case (Execute now stamp c)
  obtain s' r where x: "execute E now stamp c s = (s', r)" by fastforce
  then show ?thesis using execute_store [OF assms(1) _ _ x] assms(2) Execute by (simp add: operation_ok_def)
qed (use assms(1) in \<open>simp_all add: named_store\<close>)

text \<open>
  C28. The command store stays well formed over any history: keys are unique, no bound generation is
  above its watermark, the cache holds at most 2,048 results under well-formed ids - and watermarks
  never go down, so a generation once superseded stays superseded.
\<close>

theorem history_keeps_store:
  assumes "store_ok (ag_store s)" and "\<forall>a \<in> set ops. operation_ok a"
  shows "store_ok (ag_store (perform_all E ops s))
    \<and> length (cs_requests (ag_store (perform_all E ops s))) \<le> 2048
    \<and> generation_at k (ag_store s) \<le> generation_at k (ag_store (perform_all E ops s))"
proof -
  have "store_ok (ag_store (perform_all E ops s)) \<and> generation_at k (ag_store s) \<le> generation_at k (ag_store (perform_all E ops s))"
    using assms
  proof (induction ops arbitrary: s)
    case (Cons a ops)
    have a: "store_ok (ag_store (perform E a s))" "generation_at k (ag_store s) \<le> generation_at k (ag_store (perform E a s))"
      using perform_store [OF Cons.prems(1)] Cons.prems(2) by auto
    then show ?case using Cons.IH [OF a(1)] Cons.prems(2) by (fastforce simp: perform_all_def)
  qed (simp add: perform_all_def)
  then show ?thesis by (simp add: store_ok_def max_cached_requests_def)
qed

section \<open>Repeated deliveries\<close>

text \<open>
  C29. Commands are executed at most once: after an execution that answered, delivering the same command
  again - at any later time, whatever happened meanwhile to containers and files - gives the same
  answer and does nothing, as long as the store is as the execution left it.
\<close>

theorem repeated_command_is_answered_from_the_store:
  assumes "store_ok (ag_store s)" and "command_fields_ok c"
    and "\<not> stale c (ag_store s)"
    and "\<forall>k. get_request (request_id c) (ag_store s) = Some k \<longrightarrow> cc_fingerprint k = fingerprint E c"
    and "execute E now stamp c s = (s', Inr out)" and "ag_store t = ag_store s'"
  shows "execute E now' stamp' c t = (t, Inr out)"
proof (cases "get_request (request_id c) (ag_store s)")
  case (Some k)
  have "s' = s" "out = cc_result k"
    using execute_cached [OF assms(3) Some] assms(4,5) Some by auto
  then show ?thesis using execute_cached [of c t k E now' stamp'] assms(3,4,6) Some by simp
next
  case None
  have pos: "1 \<le> ag_generation (cmd_owner c)" using assms(2) by (simp add: command_fields_ok_def)
  have fence: "stale c x \<longleftrightarrow> ag_generation (cmd_owner c) < fst (fence_of x (command_key c))" for x
    by (simp add: stale_def generation_def fence_of_def command_key_def)
  obtain st where st: "ag_store s' = put_request (request_id c) (fingerprint E c) out st"
      "st = ag_store s \<or> (\<exists>w. admit E c (ag_store s) = Some (st, w))"
    using execute_fresh [OF assms(3) None assms(5)] by auto
  have ok: "store_ok st \<and> get_request (request_id c) st = None \<and> \<not> stale c st"
    using st(2)
  proof (elim disjE exE)
    fix w assume a: "admit E c (ag_store s) = Some (st, w)"
    have "cs_requests st = cs_requests (ag_store s)" using admit_requests [OF a] .
    then show ?thesis
      using admit_ok [OF assms(1,3) pos a] admit_refines [OF assms(1,3) a] None
      by (simp add: get_request_def fence fence_step_def)
  qed (use assms(1,3) None in simp)
  show ?thesis
    using execute_cached [of c t "\<lparr>cc_fingerprint = fingerprint E c, cc_result = out\<rparr>" E now' stamp']
      get_after_put [of "request_id c" st] st(1) ok assms(6) by (simp add: stale_def generation_def)
qed

section \<open>A service that is starting\<close>

text \<open>The bounds on a service that is not ready, by what is known of it.\<close>

definition within_bounds :: "settings \<Rightarrow> timestamp \<Rightarrow> workload_info \<Rightarrow> bool" where
  "within_bounds st now i \<longleftrightarrow> wi_restart_count i < 3
     \<and> (if wi_status i \<noteq> ''restarting'' \<and> wi_health_status i = Some ''unhealthy''
        then 0 < wi_health_failing_streak i \<and> 5 * wi_health_failing_streak i < st_unhealthy_timeout st
        else \<exists>t \<in> set_option (wi_started_at i) \<union> set_option (wi_finished_at i) \<union> set_option (wi_created_at i).
          now < t + seconds (st_startup_timeout st))"

lemma or_time_member: "or_time a b = Some t \<Longrightarrow> t \<in> set_option a \<union> set_option b"
  by (cases a) auto

lemma startup_in_time:
  "startup_timeout_reason st now (or_time a b) = None \<Longrightarrow>
     \<exists>t \<in> set_option a \<union> set_option b. now < t + seconds (st_startup_timeout st)"
  using or_time_member [of a b]
  by (cases "or_time a b") (fastforce simp: startup_timeout_reason_def split: if_splits)+

lemma no_failure_within_bounds:
  assumes "inference_failure_reason st now i = None" "\<not> (wi_health_status i = Some ''healthy'' \<and> wi_status i = ''running'')"
  shows "within_bounds st now i"
proof -
  have r: "wi_restart_count i < 3"
    using assms by (auto simp: inference_failure_reason_def inference_max_restarts_def split: if_splits)
  show ?thesis
  proof (cases "wi_status i \<noteq> ''restarting'' \<and> wi_health_status i = Some ''unhealthy''")
    case True
    then show ?thesis
      using assms r by (auto simp: within_bounds_def inference_failure_reason_def inference_max_restarts_def
          inference_health_interval_seconds_def split: if_splits)
  next
    case False
    then have "startup_timeout_reason st now (or_time (wi_finished_at i) (wi_created_at i)) = None
        \<or> startup_timeout_reason st now (or_time (wi_started_at i) (wi_created_at i)) = None"
      using assms r by (auto simp: inference_failure_reason_def inference_max_restarts_def split: if_splits)
    then show ?thesis
      unfolding within_bounds_def if_not_P [OF False] using startup_in_time r by blast
  qed
qed

text \<open>
  C30. No service starts for ever: as long as a model service is reported as starting, it has restarted
  less than three times and is inside its readiness window (or its run of failed health checks is
  shorter than the limit) - or this very command tried to stop it and could not confirm the stop. So
  once the bounds have passed, the next confirmed stop turns the report into a failure.
\<close>

theorem starting_report_is_bounded:
  assumes "response_from_info E now stamp c i s = (s', Inr out)" and "wi_kind i = ''inference''"
    and "observed_state (out_response out) = STARTING"
  shows "within_bounds (av_settings (sv_node E)) now i
    \<or> (\<exists>s1. quiesce_failed_inference (sv_node E) (wi_workload_id i) (wi_generation i)
          (st_failure_stop_timeout (av_settings (sv_node E))) s = (s1, Inr False))"
proof -
  let ?failure = "if wi_kind i = ''inference'' \<and> state_from_info i = STARTING
    then inference_failure_reason (av_settings (sv_node E)) now i else None"
  obtain s1 state b where settle: "settle_failure E i (state_from_info i) ?failure s = (s1, Inr (state, b))"
    and md: "\<exists>s2 md. metadata_for E c i state s1 = (s2, Inr md) \<and> observed_state (out_response out) = state"
    using assms(1) unfolding response_from_info_def Let_def
    by (fastforce simp: give_def dest!: and_then_cases)
  have st: "state = STARTING" using md assms(3) by auto
  show ?thesis
  proof (cases ?failure)
    case None
    then have "state_from_info i = STARTING" using settle st by (simp add: settle_failure_def give_def)
    moreover from this have "\<not> (wi_health_status i = Some ''healthy'' \<and> wi_status i = ''running'')"
      by (auto simp: state_from_info_def Let_def assms(2))
    ultimately show ?thesis using None assms(2) no_failure_within_bounds by simp
  next
    case (Some reason)
    then show ?thesis
      using settle st unfolding settle_failure_def
      by (auto simp: give_def dest!: and_then_cases split: if_splits)
  qed
qed

section \<open>Instances\<close>

lemma sample_store: "store_ok (ag_store sample_agent)"
  by (simp add: sample_agent_def store_ok_empty)

lemma execution_refines_fence_witness:
  "let c = ask STOP TRAINING 9 2 []; s' = fst (execute sample_service 0 7 c sample_agent) in
     (fence_of (ag_store s') = fence_of empty_store \<and> nd_docker s' = sample_state)
     \<or> (fence_admits (command_key c) 2 None (fence_of empty_store)
        \<and> fence_of (ag_store s') = fence_step (command_key c) 2 None (fence_of empty_store))"
  using execution_refines_fence [OF sample_store stop_sample]
  by (simp add: Let_def stop_sample) (simp add: ask_def sample_agent_def start_of_def)

lemma history_keeps_store_witness:
  "store_ok (ag_store (perform_all sample_service
     [Execute 0 7 (ask STOP TRAINING 9 2 []), Execute 1 8 (ask STATUS TRAINING 9 1 []), StopNamed ''x'' 3] sample_agent))"
  using history_keeps_store [OF sample_store, of "[Execute 0 7 (ask STOP TRAINING 9 2 []),
     Execute 1 8 (ask STATUS TRAINING 9 1 []), StopNamed ''x'' 3]" sample_service]
  by (simp add: operation_ok_def command_fields_ok_def ask_def)

lemma repeated_command_is_answered_from_the_store_witness:
  "let c = ask STOP TRAINING 9 2 []; t = (fst (execute sample_service 0 7 c sample_agent))\<lparr>nd_docker := []\<rparr> in
     execute sample_service 100 200 c t = (t, Inr (accepted_absent 5 7))"
proof -
  let ?c = "ask STOP TRAINING 9 2 []"
  have "command_fields_ok ?c" "\<not> stale ?c (ag_store sample_agent)"
    "\<forall>k. get_request (request_id ?c) (ag_store sample_agent) = Some k \<longrightarrow> cc_fingerprint k = fingerprint sample_service ?c"
    by (simp_all add: ask_def command_fields_ok_def stale_def generation_def generation_at_def sample_agent_def
        empty_store_def get_request_def)
  from repeated_command_is_answered_from_the_store [OF sample_store this stop_sample, of _ 100 200]
  show ?thesis by (simp add: Let_def stop_sample)
qed

definition sample_starting :: workload_info where
  "sample_starting = \<lparr>wi_name = ''n'', wi_workload_id = 3, wi_kind = ''inference'', wi_image = ''image'',
     wi_status = ''running'', wi_gpu_ids = [0], wi_service_type = None, wi_endpoint = None, wi_port = None,
     wi_generation = 1, wi_exit_code = None, wi_health_status = Some ''starting'', wi_health_failing_streak = 0,
     wi_restart_count = 0, wi_started_at = Some 1000, wi_finished_at = None, wi_created_at = Some 0\<rparr>"

lemma starting_report_is_bounded_witness:
  "within_bounds sample_settings (seconds 1000) sample_starting
   \<or> (\<exists>s1. quiesce_failed_inference sample_node 3 1 30 sample_agent = (s1, Inr False))"
proof -
  have "\<exists>out. response_from_info sample_service (seconds 1000) 7 (ask STATUS DEPLOYMENT 3 1 []) sample_starting sample_agent
      = (sample_agent, Inr out) \<and> observed_state (out_response out) = STARTING"
    by (simp add: response_from_info_def Let_def settle_failure_def metadata_for_def action_defs ask_def
        state_from_info_def sample_starting_def inference_failure_reason_def inference_max_restarts_def
        startup_timeout_reason_def seconds_def sample_service_def sample_node_def sample_settings_def)
  then show ?thesis
    using starting_report_is_bounded
    by (fastforce simp: sample_starting_def sample_service_def sample_node_def sample_settings_def)
qed

end
