(* ===== verification/EvaluationDataset.thy ===== *)
theory EvaluationDataset
  imports EvaluationFiles
begin

text \<open>
  How the evaluation runner reads its data set: \<open>evaluation/src/openllmops_eval/dataset.py\<close>. The texts
  of \<open>str\<close> on floats, lists and objects, \<open>str.upper\<close>, \<open>json.loads\<close> and SHA-256 are parameters.
\<close>

record dataset_tools =
  dt_loads :: "string \<Rightarrow> json option"
  dt_upper :: "string \<Rightarrow> string"
  dt_text :: "json \<Rightarrow> string"
  dt_sha256 :: "string \<Rightarrow> string"

section \<open>Fields\<close>

definition nonblank :: "json \<Rightarrow> string option" where
  "nonblank v = (case v of JStr s \<Rightarrow> (if strip s \<noteq> [] then Some (strip s) else None) | _ \<Rightarrow> None)"

definition required_text :: "string \<Rightarrow> json_obj \<Rightarrow> string + string" where
  "required_text k row = some_or k (nonblank (jget k row))"

definition parse_answers :: "json_obj \<Rightarrow> string + string list" where
  "parse_answers row =
     (let raw = jget_or (jget ''answer'' row) ''answers'' row;
          vals = (case raw of JArr vs \<Rightarrow> vs | v \<Rightarrow> [v]) in
      on_ok (check (vals \<noteq> []) ''answers'') (\<lambda>_. check_each (\<lambda>v. some_or ''answers'' (nonblank v)) vals))"

definition choice_pairs :: "json \<Rightarrow> string + (string \<times> json) list" where
  "choice_pairs raw =
     (case raw of
        JObj kvs \<Rightarrow> Inr kvs
      | JArr vs \<Rightarrow> (if length vs > 26 then Inl ''too many choices''
          else Inr (zip (map (\<lambda>i. [char_of (65 + i)]) [0..<length vs]) vs))
      | _ \<Rightarrow> Inl ''choices'')"

definition parse_choices :: "dataset_tools \<Rightarrow> json_obj \<Rightarrow> string + (string \<times> string) list" where
  "parse_choices D row =
     on_ok (choice_pairs (jget ''choices'' row)) (\<lambda>pairs.
     on_ok (check_each (\<lambda>(label, v). on_ok (some_or ''empty choice'' (nonblank v)) (\<lambda>t.
       Inr (dt_upper D (strip label), t))) pairs) (\<lambda>normalized.
     on_ok (check (2 \<le> length normalized \<and> distinct (map fst normalized)) ''choice labels'') (\<lambda>_. Inr normalized)))"

definition task_of :: "json \<Rightarrow> string + eval_task" where
  "task_of v =
     (if v = JStr ''multiple_choice'' then Inr MULTIPLE_CHOICE
      else if v = JStr ''classification'' then Inr CLASSIFICATION
      else if v = JStr ''short_qa'' then Inr SHORT_QA else Inl ''task_type'')"

section \<open>Rows and files\<close>

definition nonempty_or :: "string \<Rightarrow> string \<Rightarrow> string" where
  "nonempty_or s d = (if s = [] then d else s)"

definition parse_row :: "dataset_tools \<Rightarrow> json_obj \<Rightarrow> nat \<Rightarrow> string + eval_sample" where
  "parse_row D row line_number =
     on_ok (task_of (jget_or (JStr ''multiple_choice'') ''task_type'' row)) (\<lambda>task.
     let i = strip (py_str (dt_text D) (jget_or (JInt (int line_number)) ''id'' row)) in
     on_ok (check (i \<noteq> []) ''id'') (\<lambda>_.
     on_ok (if task = MULTIPLE_CHOICE then parse_choices D row else Inr []) (\<lambda>cs.
     on_ok (parse_answers row) (\<lambda>raw_answers.
     on_ok (if task = MULTIPLE_CHOICE
         then on_ok (check (dt_upper D (hd raw_answers) \<in> set (map fst cs)) ''answer not a choice'') (\<lambda>_.
           Inr [dt_upper D (hd raw_answers)])
         else Inr raw_answers) (\<lambda>ans.
     on_ok (some_or ''metadata'' (obj_value (jget_or (JObj []) ''metadata'' row))) (\<lambda>_.
     on_ok (required_text ''question'' row) (\<lambda>q.
     Inr \<lparr>sample_id = i, sample_task = task, question = q, answers = ans,
          sample_category = nonempty_or (strip (py_str (dt_text D) (jget_or (JStr ''default'') ''category'' row))) ''default'',
          choices = cs,
          sample_context = (if jget ''context'' row = JNull then None
            else Some (py_str (dt_text D) (jget ''context'' row)))\<rparr>)))))))"

fun load_lines :: "dataset_tools \<Rightarrow> nat \<Rightarrow> string list \<Rightarrow> string list \<Rightarrow> string + eval_sample list" where
  "load_lines D n [] seen = Inr []"
| "load_lines D n (raw # raws) seen =
     on_ok (check (length raw \<le> max_dataset_line_bytes) ''line too long'') (\<lambda>_.
     if blank_bytes raw then load_lines D (n + 1) raws seen
     else
       on_ok (some_or ''json'' (dt_loads D raw)) (\<lambda>v.
       on_ok (some_or ''row'' (obj_value v)) (\<lambda>row.
       on_ok (parse_row D row (n + 1)) (\<lambda>x.
       on_ok (check (sample_id x \<notin> set seen) ''sample id repeated'') (\<lambda>_.
       on_ok (load_lines D (n + 1) raws (sample_id x # seen)) (\<lambda>xs. Inr (x # xs)))))))"

text \<open>Iterating over a binary file: the pieces up to and including each line feed.\<close>

fun file_lines :: "string \<Rightarrow> string list" where
  "file_lines [] = []"
| "file_lines (c # cs) =
     (if c = CHR 0x0A then [c] # file_lines cs
      else (case file_lines cs of [] \<Rightarrow> [[c]] | w # ws \<Rightarrow> (c # w) # ws))"

definition load_jsonl :: "dataset_tools \<Rightarrow> string \<Rightarrow> string + eval_sample list \<times> string" where
  "load_jsonl D bytes =
     on_ok (load_lines D 0 (file_lines bytes) []) (\<lambda>xs.
     on_ok (check (xs \<noteq> []) ''no samples'') (\<lambda>_. Inr (xs, dt_sha256 D bytes)))"

end
