(* ===== verification/ReportSchema.thy ===== *)
theory ReportSchema
  imports EvaluationReport
begin

text \<open>
  What the control plane accepts as the result of a finished evaluation: the strict models of
  \<open>backend/app/schemas/evaluation.py\<close>. Unknown fields are refused, an integer field takes no boolean, a
  float field also an integer, and the validators recompute what the report claims.
\<close>

section \<open>Strict fields\<close>

definition strict_str :: "nat \<Rightarrow> nat \<Rightarrow> string \<Rightarrow> json_obj \<Rightarrow> string + string" where
  "strict_str lo hi k kvs =
     on_ok (some_or k (str_value (jget k kvs))) (\<lambda>s.
     on_ok (check (lo \<le> length s \<and> length s \<le> hi) k) (\<lambda>_. Inr s))"

definition strict_int :: "int \<Rightarrow> int option \<Rightarrow> string \<Rightarrow> json_obj \<Rightarrow> string + int" where
  "strict_int lo hi k kvs =
     on_ok (some_or k (int_value (jget k kvs))) (\<lambda>n.
     on_ok (check (lo \<le> n \<and> (case hi of None \<Rightarrow> True | Some h \<Rightarrow> n \<le> h)) k) (\<lambda>_. Inr n))"

definition strict_float :: "rat option \<Rightarrow> rat option \<Rightarrow> string \<Rightarrow> json_obj \<Rightarrow> string + rat" where
  "strict_float lo hi k kvs =
     on_ok (some_or k (number_value (jget k kvs))) (\<lambda>r.
     on_ok (check ((case lo of None \<Rightarrow> True | Some l \<Rightarrow> l \<le> r) \<and> (case hi of None \<Rightarrow> True | Some h \<Rightarrow> r \<le> h)) k) (\<lambda>_.
     Inr r))"

definition strict_list :: "nat \<Rightarrow> nat \<Rightarrow> string \<Rightarrow> json_obj \<Rightarrow> string + json list" where
  "strict_list lo hi k kvs =
     on_ok (some_or k (arr_value (jget k kvs))) (\<lambda>vs.
     on_ok (check (lo \<le> length vs \<and> length vs \<le> hi) k) (\<lambda>_. Inr vs))"

text \<open>Every field required, none besides: \<open>extra="forbid"\<close>.\<close>

definition model_fields :: "string list \<Rightarrow> json \<Rightarrow> string + json_obj" where
  "model_fields names v =
     on_ok (some_or ''object'' (obj_value v)) (\<lambda>kvs.
     on_ok (check (set (map fst kvs) = set names) ''fields'') (\<lambda>_. Inr kvs))"

definition digest_field :: "string \<Rightarrow> json_obj \<Rightarrow> string + string" where
  "digest_field k kvs =
     on_ok (some_or k (str_value (jget k kvs))) (\<lambda>s. on_ok (check (is_sha256 s) k) (\<lambda>_. Inr s))"

definition literal_field :: "string list \<Rightarrow> string \<Rightarrow> json_obj \<Rightarrow> string + string" where
  "literal_field names k kvs =
     on_ok (some_or k (str_value (jget k kvs))) (\<lambda>s. on_ok (check (s \<in> set names) k) (\<lambda>_. Inr s))"

section \<open>Metrics\<close>

text \<open>\<open>abs(a - b) > 0.0001\<close> is refused; the literal is a double.\<close>

definition near :: "rat \<Rightarrow> rat \<Rightarrow> bool" where
  "near a b \<longleftrightarrow> \<not> \<bar>float_sub a b\<bar> > to_double (1 / 10000)"

lemma near_refl [simp]: "near a a"
  using to_double_mono [of 0 "1 / 10000"] by (simp add: near_def float_sub_def)

definition max_evaluation_records :: int where "max_evaluation_records = 200000"
definition max_evaluation_categories :: nat where "max_evaluation_categories = 4096"

definition parse_category :: "json \<Rightarrow> string + category_metric" where
  "parse_category v =
     on_ok (model_fields [''category'', ''total'', ''correct'', ''invalid'', ''accuracy_percent''] v) (\<lambda>kvs.
     on_ok (strict_str 1 256 ''category'' kvs) (\<lambda>name.
     on_ok (strict_int 1 (Some max_evaluation_records) ''total'' kvs) (\<lambda>t.
     on_ok (strict_int 0 None ''correct'' kvs) (\<lambda>c.
     on_ok (strict_int 0 None ''invalid'' kvs) (\<lambda>i.
     on_ok (strict_float (Some 0) (Some 100) ''accuracy_percent'' kvs) (\<lambda>a.
     on_ok (check (c \<le> t \<and> i \<le> t \<and> c + i \<le> t) ''counts'') (\<lambda>_.
     on_ok (check (near a (py_round 4 (int_div (c * 100) t))) ''accuracy'') (\<lambda>_.
     Inr \<lparr>cm_category = name, cm_total = t, cm_correct = c, cm_invalid = i, cm_accuracy = a\<rparr>))))))))"

definition metric_fields :: "string list" where
  "metric_fields =
     [''dataset_sha256'', ''model_name'', ''template'', ''total'', ''correct'', ''invalid'', ''accuracy_percent'',
      ''average_latency_ms'', ''categories'']"

definition parse_metrics :: "json \<Rightarrow> string + evaluation_report" where
  "parse_metrics v =
     on_ok (model_fields metric_fields v) (\<lambda>kvs.
     on_ok (digest_field ''dataset_sha256'' kvs) (\<lambda>digest.
     on_ok (strict_str 1 256 ''model_name'' kvs) (\<lambda>model.
     on_ok (literal_field [''base'', ''instruct''] ''template'' kvs) (\<lambda>template.
     on_ok (strict_int 1 (Some max_evaluation_records) ''total'' kvs) (\<lambda>t.
     on_ok (strict_int 0 None ''correct'' kvs) (\<lambda>c.
     on_ok (strict_int 0 None ''invalid'' kvs) (\<lambda>i.
     on_ok (strict_float (Some 0) (Some 100) ''accuracy_percent'' kvs) (\<lambda>a.
     on_ok (strict_float (Some 0) None ''average_latency_ms'' kvs) (\<lambda>latency.
     on_ok (strict_list 1 max_evaluation_categories ''categories'' kvs) (\<lambda>cats.
     on_ok (check_each parse_category cats) (\<lambda>ms.
     on_ok (check (c \<le> t \<and> i \<le> t \<and> c + i \<le> t) ''counts'') (\<lambda>_.
     on_ok (check (distinct (map cm_category ms)) ''category repeated'') (\<lambda>_.
     on_ok (check (sum_list (map cm_total ms) = t) ''totals'') (\<lambda>_.
     on_ok (check (sum_list (map cm_correct ms) = c) ''correct totals'') (\<lambda>_.
     on_ok (check (sum_list (map cm_invalid ms) = i) ''invalid totals'') (\<lambda>_.
     on_ok (check (near a (py_round 4 (int_div (c * 100) t))) ''accuracy'') (\<lambda>_.
     Inr \<lparr>er_sha256 = digest, er_model = model, er_template = template, er_total = t, er_correct = c,
          er_invalid = i, er_accuracy = a, er_latency = latency, er_categories = ms,
          er_sample_ids = []\<rparr>)))))))))))))))))"

definition parse_metrics_pair :: "json \<Rightarrow> string + evaluation_report \<times> evaluation_report" where
  "parse_metrics_pair v =
     on_ok (model_fields [''baseline'', ''candidate''] v) (\<lambda>kvs.
     on_ok (parse_metrics (jget ''baseline'' kvs)) (\<lambda>b.
     on_ok (parse_metrics (jget ''candidate'' kvs)) (\<lambda>c.
     on_ok (check (er_sha256 b = er_sha256 c) ''fingerprints'') (\<lambda>_.
     on_ok (check (er_total b = er_total c) ''sizes'') (\<lambda>_. Inr (b, c))))))"

section \<open>Comparison\<close>

definition parse_change :: "json \<Rightarrow> string + category_change" where
  "parse_change v =
     on_ok (model_fields [''category'', ''baseline_percent'', ''candidate_percent'', ''percentage_point_change''] v) (\<lambda>kvs.
     on_ok (strict_str 1 256 ''category'' kvs) (\<lambda>name.
     on_ok (strict_float (Some 0) (Some 100) ''baseline_percent'' kvs) (\<lambda>x.
     on_ok (strict_float (Some 0) (Some 100) ''candidate_percent'' kvs) (\<lambda>y.
     on_ok (strict_float (Some (- 100)) (Some 100) ''percentage_point_change'' kvs) (\<lambda>d.
     on_ok (check (near d (py_round 4 (float_sub y x))) ''change'') (\<lambda>_.
     Inr \<lparr>cc_category = name, cc_baseline = x, cc_candidate = y, cc_change = d\<rparr>))))))"

definition comparison_fields :: "string list" where
  "comparison_fields =
     [''dataset_sha256'', ''baseline_model'', ''candidate_model'', ''baseline_percent'', ''candidate_percent'',
      ''percentage_point_change'', ''relative_change_percent'', ''comparable'', ''reason'', ''category_changes'']"

definition relative_ok :: "rat \<Rightarrow> rat \<Rightarrow> rat option \<Rightarrow> bool" where
  "relative_ok expected_delta base r =
     (if base = 0 then r = None
      else (case r of None \<Rightarrow> False
        | Some x \<Rightarrow> near x (py_round 4 (float_div (float_mul expected_delta 100) base))))"

definition parse_comparison :: "json \<Rightarrow> string + comparison_report" where
  "parse_comparison v =
     on_ok (model_fields comparison_fields v) (\<lambda>kvs.
     on_ok (digest_field ''dataset_sha256'' kvs) (\<lambda>digest.
     on_ok (strict_str 1 256 ''baseline_model'' kvs) (\<lambda>bm.
     on_ok (strict_str 1 256 ''candidate_model'' kvs) (\<lambda>cm.
     on_ok (strict_float (Some 0) (Some 100) ''baseline_percent'' kvs) (\<lambda>bp.
     on_ok (strict_float (Some 0) (Some 100) ''candidate_percent'' kvs) (\<lambda>cp.
     on_ok (strict_float (Some (- 100)) (Some 100) ''percentage_point_change'' kvs) (\<lambda>delta.
     on_ok (case jget ''relative_change_percent'' kvs of
         JNull \<Rightarrow> Inr None
       | _ \<Rightarrow> on_ok (strict_float None None ''relative_change_percent'' kvs) (\<lambda>r. Inr (Some r))) (\<lambda>relative.
     on_ok (check (jget ''comparable'' kvs = JBool True) ''comparable'') (\<lambda>_.
     on_ok (check (jget ''reason'' kvs = JNull) ''reason'') (\<lambda>_.
     on_ok (strict_list 1 max_evaluation_categories ''category_changes'' kvs) (\<lambda>changes.
     on_ok (check_each parse_change changes) (\<lambda>rs.
     on_ok (check (distinct (map cc_category rs)) ''change repeated'') (\<lambda>_.
     let expected_delta = py_round 4 (float_sub cp bp) in
     on_ok (check (near delta expected_delta) ''change'') (\<lambda>_.
     on_ok (check (relative_ok expected_delta bp relative) ''relative change'') (\<lambda>_.
     Inr \<lparr>cr_sha256 = digest, cr_baseline_model = bm, cr_candidate_model = cm, cr_baseline = bp,
          cr_candidate = cp, cr_change = delta, cr_relative = relative, cr_comparable = True,
          cr_reason = None, cr_categories = rs\<rparr>)))))))))))))))"

section \<open>The success metadata\<close>

record success_metadata =
  sm_baseline :: evaluation_report
  sm_candidate :: evaluation_report
  sm_comparison :: comparison_report
  sm_result_path :: string
  sm_manifest_path :: string
  sm_warnings :: "string list"

definition warning_names :: "string list" where
  "warning_names = [''baseline_all_outputs_invalid'', ''candidate_all_outputs_invalid'']"

definition warnings_field :: "json_obj \<Rightarrow> string + string list" where
  "warnings_field kvs =
     (if ''warnings'' \<notin> set (map fst kvs) then Inr []
      else on_ok (strict_list 0 2 ''warnings'' kvs) (\<lambda>vs.
        check_each (\<lambda>v. on_ok (some_or ''warnings'' (str_value v)) (\<lambda>s.
          on_ok (check (s \<in> set warning_names) ''warnings'') (\<lambda>_. Inr s))) vs))"

definition expected_warnings :: "evaluation_report \<Rightarrow> evaluation_report \<Rightarrow> string set" where
  "expected_warnings b c =
     (if er_invalid b = er_total b then {''baseline_all_outputs_invalid''} else {})
     \<union> (if er_invalid c = er_total c then {''candidate_all_outputs_invalid''} else {})"

definition change_consistent :: "evaluation_report \<Rightarrow> evaluation_report \<Rightarrow> category_change \<Rightarrow> bool" where
  "change_consistent b c r \<longleftrightarrow>
     map_option cm_accuracy (by_category b (cc_category r)) = Some (cc_baseline r)
     \<and> map_option cm_accuracy (by_category c (cc_category r)) = Some (cc_candidate r)"

definition report_consistent :: "success_metadata \<Rightarrow> bool" where
  "report_consistent m \<longleftrightarrow>
     (let b = sm_baseline m; c = sm_candidate m; k = sm_comparison m in
      er_model b = ''baseline'' \<and> er_model c = ''candidate''
      \<and> cr_sha256 k = er_sha256 b \<and> cr_baseline_model k = er_model b \<and> cr_candidate_model k = er_model c
      \<and> cr_baseline k = er_accuracy b \<and> cr_candidate k = er_accuracy c
      \<and> set (map cm_category (er_categories b)) = set (map cm_category (er_categories c))
      \<and> set (map cc_category (cr_categories k)) = set (map cm_category (er_categories b))
      \<and> list_all (change_consistent b c) (cr_categories k)
      \<and> set (sm_warnings m) = expected_warnings b c)"

definition parse_success :: "json_obj \<Rightarrow> string + success_metadata" where
  "parse_success kvs =
     on_ok (check ({''metrics'', ''comparison'', ''result_path'', ''dataset_manifest_path''} \<subseteq> set (map fst kvs)
        \<and> set (map fst kvs) \<subseteq> {''metrics'', ''comparison'', ''result_path'', ''dataset_manifest_path'', ''warnings''})
        ''fields'') (\<lambda>_.
     on_ok (parse_metrics_pair (jget ''metrics'' kvs)) (\<lambda>(b, c).
     on_ok (parse_comparison (jget ''comparison'' kvs)) (\<lambda>k.
     on_ok (strict_str 1 1024 ''result_path'' kvs) (\<lambda>result.
     on_ok (strict_str 1 1024 ''dataset_manifest_path'' kvs) (\<lambda>manifest.
     on_ok (warnings_field kvs) (\<lambda>ws.
     let m = \<lparr>sm_baseline = b, sm_candidate = c, sm_comparison = k, sm_result_path = result,
              sm_manifest_path = manifest, sm_warnings = ws\<rparr> in
     on_ok (check (report_consistent m) ''consistency'') (\<lambda>_. Inr m)))))))"

end
