(* ===== verification/EvaluationFlow.thy ===== *)
theory EvaluationFlow
  imports ReportReader ReportSchema
begin

text \<open>
  The three readers of an evaluation agree: what the runner writes for two models over the same samples
  is accepted by the node agent, and what the agent reports of it is accepted by the control plane, which
  stores the runner's numbers unchanged.
\<close>

section \<open>The size of a report\<close>

fun nodes :: "json \<Rightarrow> nat" where
  "nodes (JArr vs) = Suc (sum_list (map nodes vs))"
| "nodes (JObj kvs) = Suc (sum_list (map (\<lambda>p. nodes (snd p)) kvs))"
| "nodes _ = 1"

fun tree_ok :: "nat \<Rightarrow> json \<Rightarrow> bool" where
  "tree_ok depth (JStr s) \<longleftrightarrow> depth \<le> 32 \<and> length s \<le> 8192"
| "tree_ok depth (JArr vs) \<longleftrightarrow> depth \<le> 32 \<and> (\<forall>v \<in> set vs. tree_ok (depth + 1) v)"
| "tree_ok depth (JObj kvs) \<longleftrightarrow> depth \<le> 32 \<and> (\<forall>p \<in> set kvs. length (fst p) \<le> 256 \<and> tree_ok (depth + 1) (snd p))"
| "tree_ok depth _ \<longleftrightarrow> depth \<le> 32"

lemma nodes_pos: "0 < nodes v"
  by (cases v) auto

lemma bounded_tree_nodes:
  "tree_ok depth v \<Longrightarrow> counter + nodes v \<le> max_report_json_nodes \<Longrightarrow>
     bounded_tree depth v counter = Some (counter + nodes v)"
  "\<forall>v \<in> set vs. tree_ok depth v \<Longrightarrow> counter + sum_list (map nodes vs) \<le> max_report_json_nodes \<Longrightarrow>
     bounded_items depth vs counter = Some (counter + sum_list (map nodes vs))"
  "\<forall>p \<in> set kvs. length (fst p) \<le> 256 \<and> tree_ok depth (snd p) \<Longrightarrow>
     counter + sum_list (map (\<lambda>p. nodes (snd p)) kvs) \<le> max_report_json_nodes \<Longrightarrow>
     bounded_members depth kvs counter = Some (counter + sum_list (map (\<lambda>p. nodes (snd p)) kvs))"
proof (induction depth v counter and depth vs counter and depth kvs counter
    rule: bounded_tree_bounded_items_bounded_members.induct)
  case (1 depth v counter)
  then show ?case by (cases v) (auto simp: Let_def)
qed auto

section \<open>Texts and reports that are accepted\<close>

definition text_ok :: "string \<Rightarrow> bool" where
  "text_ok s \<longleftrightarrow> s \<noteq> [] \<and> length s \<le> 256 \<and> strip s = s \<and> \<not> list_ex control_char s"

lemma short_text_ok: "text_ok s \<Longrightarrow> short_text field (JStr s) = Inr s"
  by (simp add: text_ok_def safe_short_text_def Let_def)

definition category_ok :: "int \<Rightarrow> category_metric \<Rightarrow> bool" where
  "category_ok n m \<longleftrightarrow> text_ok (cm_category m) \<and> counts_ok n (cm_total m) (cm_correct m) (cm_invalid m)
     \<and> cm_accuracy m = py_round 4 (int_div (cm_correct m * 100) (cm_total m))"

definition report_ok :: "evaluation_report \<Rightarrow> bool" where
  "report_ok r \<longleftrightarrow>
     is_sha256 (er_sha256 r) \<and> text_ok (er_model r) \<and> er_template r \<in> {''base'', ''instruct''}
     \<and> counts_ok max_dataset_records (er_total r) (er_correct r) (er_invalid r)
     \<and> er_accuracy r = py_round 4 (int_div (er_correct r * 100) (er_total r)) \<and> 0 \<le> er_latency r
     \<and> er_categories r \<noteq> [] \<and> length (er_categories r) \<le> max_report_categories
     \<and> int (length (er_sample_ids r)) = er_total r \<and> list_all text_ok (er_sample_ids r)
     \<and> distinct (er_sample_ids r) \<and> list_all (category_ok (er_total r)) (er_categories r)
     \<and> distinct (map cm_category (er_categories r)) \<and> sorted (map cm_category (er_categories r))
     \<and> totals (er_categories r) = (er_total r, er_correct r, er_invalid r)"

lemma accuracy_bounds:
  assumes "counts_ok n t c i" "a = py_round 4 (int_div (c * 100) t)"
  shows "0 \<le> a" and "a \<le> 100"
  using assms percent_bounds [of c t 4] by (simp_all add: counts_ok_def)

lemma accuracy_field_ok:
  assumes "counts_ok n t c i" "a = py_round 4 (int_div (c * 100) t)"
    and "jget ''accuracy_percent'' kvs = JFloat a"
  shows "accuracy_field field kvs c t = Inr a"
  using accuracy_bounds [OF assms(1,2)] assms(2,3) by (simp add: accuracy_field_def finite_number_def)

lemma read_category_ok:
  assumes "category_ok n m" and "cm_category m \<notin> set seen"
  shows "read_category n seen (category_json m) = Inr m"
proof -
  have a: "accuracy_field ''category accuracy''
      [(''category'', JStr (cm_category m)), (''total'', JInt (cm_total m)), (''correct'', JInt (cm_correct m)),
       (''invalid'', JInt (cm_invalid m)), (''accuracy_percent'', JFloat (cm_accuracy m))]
      (cm_correct m) (cm_total m) = Inr (cm_accuracy m)"
    using assms(1) by (intro accuracy_field_ok) (auto simp: category_ok_def)
  show ?thesis
    using assms a by (simp add: read_category_def category_json_def count_fields_def category_ok_def short_text_ok)
qed

lemma read_categories_ok:
  "list_all (category_ok n) ms \<Longrightarrow> distinct (map cm_category ms) \<Longrightarrow>
     set (map cm_category ms) \<inter> set seen = {} \<Longrightarrow>
     read_categories n seen (map category_json ms) = Inr ms"
  by (induction ms arbitrary: seen) (auto simp: read_category_ok)

lemma metric_summary_ok:
  assumes "report_ok r" shows "metric_summary (report_json r) = Inr r"
proof -
  let ?kvs = "report_fields r @ [(''sample_ids'', JArr (map JStr (er_sample_ids r)))]"
  have a: "accuracy_field ''accuracy_percent'' ?kvs (er_correct r) (er_total r) = Inr (er_accuracy r)"
    using assms by (intro accuracy_field_ok) (auto simp: report_ok_def report_fields_def)
  have ids: "check_each (short_text ''sample_ids'') (map JStr (er_sample_ids r)) = Inr (er_sample_ids r)"
    using check_each_map [of "er_sample_ids r" "short_text ''sample_ids''" JStr id] assms
    by (simp add: report_ok_def list_all_iff short_text_ok)
  have cats: "read_categories (er_total r) [] (map category_json (er_categories r)) = Inr (er_categories r)"
    using assms by (intro read_categories_ok) (auto simp: report_ok_def)
  have fields: "jget ''dataset_sha256'' ?kvs = JStr (er_sha256 r)" "jget ''model_name'' ?kvs = JStr (er_model r)"
    "jget ''template'' ?kvs = JStr (er_template r)" "jget ''total'' ?kvs = JInt (er_total r)"
    "jget ''correct'' ?kvs = JInt (er_correct r)" "jget ''invalid'' ?kvs = JInt (er_invalid r)"
    "jget ''accuracy_percent'' ?kvs = JFloat (er_accuracy r)" "jget ''average_latency_ms'' ?kvs = JFloat (er_latency r)"
    "jget ''categories'' ?kvs = JArr (map category_json (er_categories r))"
    "jget ''sample_ids'' ?kvs = JArr (map JStr (er_sample_ids r))"
    by (simp_all add: report_fields_def)
  have "0 \<le> er_accuracy r" using assms accuracy_bounds unfolding report_ok_def by blast
  then show ?thesis
    unfolding metric_summary_def report_json_def obj_value.simps some_or_simps on_ok.simps fields
    using assms a ids cats
    by (simp add: report_ok_def sha256_field_def short_text_ok template_field_def count_fields_def fields finite_number_def)
qed

section \<open>The comparison is accepted\<close>

text \<open>Two reports over the same data and samples.\<close>

definition comparable :: "evaluation_report \<Rightarrow> evaluation_report \<Rightarrow> bool" where
  "comparable b c \<longleftrightarrow> er_sha256 b = er_sha256 c \<and> er_sample_ids b = er_sample_ids c
     \<and> map (\<lambda>m. (cm_category m, cm_total m)) (er_categories b)
       = map (\<lambda>m. (cm_category m, cm_total m)) (er_categories c)"

lemma comparable_names:
  assumes "comparable b c" shows "map cm_category (er_categories b) = map cm_category (er_categories c)"
proof -
  have "map fst (map (\<lambda>m. (cm_category m, cm_total m)) (er_categories b))
      = map fst (map (\<lambda>m. (cm_category m, cm_total m)) (er_categories c))"
    using assms by (simp only: comparable_def)
  then show ?thesis by (simp add: comp_def)
qed

lemma by_category_Some:
  "by_category r n = Some m \<Longrightarrow> m \<in> set (er_categories r) \<and> cm_category m = n"
  by (auto simp: by_category_def dest: map_of_SomeD)

lemma by_category_iff: "by_category r n \<noteq> None \<longleftrightarrow> n \<in> set (map cm_category (er_categories r))"
  by (simp add: by_category_def map_of_eq_None_iff image_image)

lemma by_category_member:
  assumes "distinct (map cm_category (er_categories r))" "m \<in> set (er_categories r)"
  shows "by_category r (cm_category m) = Some m"
  using assms unfolding by_category_def by (intro map_of_is_SomeI) (auto simp: comp_def)

lemma common_categories_same:
  assumes "comparable b c" "distinct (map cm_category (er_categories b))" "sorted (map cm_category (er_categories b))"
  shows "common_categories b c = map cm_category (er_categories b)"
proof -
  have "filter (\<lambda>n. by_category c n \<noteq> None) (map cm_category (er_categories b)) = map cm_category (er_categories b)"
    using comparable_names [OF assms(1)] by (intro filter_True) (simp only: by_category_iff, simp)
  then show ?thesis
    using assms(2,3) by (simp only: common_categories_def distinct_remdups_id sorted_sort_id)
qed

lemma category_accuracy_bounds:
  assumes "report_ok r" "by_category r n = Some m"
  shows "0 \<le> cm_accuracy m" and "cm_accuracy m \<le> 100"
proof -
  have "category_ok (er_total r) m"
    using by_category_Some [OF assms(2)] assms(1) by (simp add: report_ok_def list_all_iff)
  then have "counts_ok (er_total r) (cm_total m) (cm_correct m) (cm_invalid m)"
    "cm_accuracy m = py_round 4 (int_div (cm_correct m * 100) (cm_total m))"
    by (simp_all add: category_ok_def)
  from accuracy_bounds [OF this] show "0 \<le> cm_accuracy m" "cm_accuracy m \<le> 100" .
qed

lemma change_bounds:
  assumes "report_ok b" "report_ok c" "comparable b c" "n \<in> set (map cm_category (er_categories b))"
    and "r = category_change_of b c n"
  shows "cc_category r = n" and "0 \<le> cc_baseline r" and "cc_baseline r \<le> 100" and "0 \<le> cc_candidate r"
    and "cc_candidate r \<le> 100" and "- 100 \<le> cc_change r" and "cc_change r \<le> 100"
    and "cc_change r = py_round 4 (float_sub (cc_candidate r) (cc_baseline r))"
    and "change_consistent b c r"
proof -
  have "n \<in> set (map cm_category (er_categories c))" using assms(4) comparable_names [OF assms(3)] by simp
  then obtain x y where xy: "by_category b n = Some x" "by_category c n = Some y"
    using assms(4) unfolding by_category_iff [symmetric] by blast
  note r = assms(5) xy category_change_of_def Let_def
  show "cc_category r = n" "0 \<le> cc_baseline r" "cc_baseline r \<le> 100" "0 \<le> cc_candidate r" "cc_candidate r \<le> 100"
    "- 100 \<le> cc_change r" "cc_change r \<le> 100" "cc_change r = py_round 4 (float_sub (cc_candidate r) (cc_baseline r))"
    "change_consistent b c r"
    using category_accuracy_bounds [OF assms(1) xy(1)] category_accuracy_bounds [OF assms(2) xy(2)]
      point_change_bounds [of "cm_accuracy y" "cm_accuracy x" 4]
    by (simp_all add: r change_consistent_def)
qed

lemma read_changes_ok:
  assumes "report_ok b" "report_ok c" "comparable b c" "set ns \<subseteq> set (map cm_category (er_categories b))"
  shows "check_each (read_change b c) (zip (map change_json (map (category_change_of b c) ns)) ns)
    = Inr (map (category_change_of b c) ns)"
proof -
  have "zip (map change_json (map (category_change_of b c) ns)) ns
      = map (\<lambda>n. (change_json (category_change_of b c n), n)) ns"
    by (simp add: zip_map1 zip_same_conv_map)
  moreover have "read_change b c (change_json (category_change_of b c n), n) = Inr (category_change_of b c n)"
    if "n \<in> set ns" for n
  proof -
    have n: "n \<in> set (map cm_category (er_categories b))" using that assms(4) by blast
    then have "text_ok n" using assms(1) by (auto simp: report_ok_def list_all_iff category_ok_def)
    then show ?thesis
      using change_bounds [OF assms(1-3) n refl]
      by (simp add: read_change_def change_json_def finite_number_def short_text_ok Let_def)
  qed
  ultimately show ?thesis
    using check_each_map [of ns "read_change b c" "\<lambda>n. (change_json (category_change_of b c n), n)"
        "category_change_of b c"] by simp
qed

lemma comparison_summary_ok:
  assumes "report_ok b" "report_ok c" "comparable b c"
  shows "comparison_summary (comparison_json (compare_reports b c)) b c = Inr (compare_reports b c)"
proof -
  let ?k = "compare_reports b c"
  let ?L = "map cm_category (er_categories b)"
  have names: "common_categories b c = ?L"
    using common_categories_same [OF assms(3)] assms(1) by (simp add: report_ok_def)
  have reason: "cr_reason ?k = None" "cr_comparable ?k"
    using assms(3) by (simp_all add: compare_reports_def comparable_def Let_def)
  have cats: "cr_categories ?k = map (category_change_of b c) ?L"
    by (simp add: compare_reports_def Let_def names)
  have changes: "check_each (read_change b c) (zip (map change_json (cr_categories ?k)) (common_categories b c))
      = Inr (cr_categories ?k)"
    unfolding names cats using read_changes_ok [OF assms, of ?L] by simp
  have totals: "same_category_totals b c"
    unfolding same_category_totals_def list_all_iff
  proof
    fix m assume m: "m \<in> set (er_categories b)"
    have d: "distinct (map cm_category (er_categories b))" "distinct (map cm_category (er_categories c))"
      using assms(1,2) by (simp_all add: report_ok_def)
    have "(cm_category m, cm_total m) \<in> set (map (\<lambda>m. (cm_category m, cm_total m)) (er_categories c))"
      using m assms(3) by (metis (mono_tags, lifting) comparable_def image_eqI list.set_map)
    then obtain m' where m': "m' \<in> set (er_categories c)" "cm_category m' = cm_category m" "cm_total m' = cm_total m"
      by auto
    then show "map_option cm_total (by_category b (cm_category m)) = map_option cm_total (by_category c (cm_category m))"
      using by_category_member [OF d(1) m] by_category_member [OF d(2) m'(1)] by simp
  qed
  have len: "length (cr_categories ?k) \<le> max_report_categories" "length (cr_categories ?k) = length (common_categories b c)"
    using assms(1) by (simp_all add: cats names report_ok_def)
  have b: "is_sha256 (er_sha256 b)" "text_ok (er_model b)" "0 \<le> er_accuracy b"
    and c: "text_ok (er_model c)" "0 \<le> er_accuracy c"
    using assms(1,2) accuracy_bounds unfolding report_ok_def by blast+
  have sets: "set ?L = set (map cm_category (er_categories c))" using comparable_names [OF assms(3)] by simp
  have k: "cr_sha256 ?k = er_sha256 b" "cr_baseline_model ?k = er_model b" "cr_candidate_model ?k = er_model c"
    "cr_baseline ?k = er_accuracy b" "cr_candidate ?k = er_accuracy c"
    "cr_change ?k = py_round 4 (float_sub (er_accuracy c) (er_accuracy b))"
    "cr_relative ?k = relative_change (cr_change ?k) (er_accuracy b)"
    by (simp_all add: compare_reports_def Let_def)
  have relative: "(case opt_json JFloat (cr_relative ?k) of JNull \<Rightarrow> Inr None
       | w \<Rightarrow> on_ok (finite_number None ''relative_change_percent'' w) (\<lambda>r. Inr (Some r))) = Inr (cr_relative ?k)"
    by (cases "cr_relative ?k") (simp_all add: opt_json_def finite_number_def)
  have len': "length (common_categories b c) \<le> max_report_categories" using len by simp
  have sets': "cm_category ` set (er_categories b) = cm_category ` set (er_categories c)" using sets by simp
  have whole: "\<lparr>cr_sha256 = er_sha256 b, cr_baseline_model = er_model b, cr_candidate_model = er_model c,
      cr_baseline = er_accuracy b, cr_candidate = er_accuracy c, cr_change = cr_change ?k,
      cr_relative = cr_relative ?k, cr_comparable = True, cr_reason = None, cr_categories = cr_categories ?k\<rparr> = ?k"
    using reason by (simp add: compare_reports_def Let_def)
  show ?thesis
    unfolding comparison_summary_def comparison_json_def obj_value.simps some_or_simps on_ok.simps
    using whole k(6)
    by (simp add: relative)
      (simp add: sha256_field_def short_text_ok finite_number_def b c reason opt_json_def k len len' totals sets'
        changes Let_def del: length_map)
qed

section \<open>The pair is accepted\<close>

lemma nodes_map_const:
  "(\<And>x. x \<in> set xs \<Longrightarrow> nodes (f x) = k) \<Longrightarrow> sum_list (map nodes (map f xs)) = k * length xs"
  by (induction xs) auto

lemma report_json_nodes: "nodes (report_json r) = 11 + 6 * length (er_categories r) + length (er_sample_ids r)"
  using nodes_map_const [of "er_categories r" category_json 6] nodes_map_const [of "er_sample_ids r" JStr 1]
  by (simp add: report_json_def report_fields_def category_json_def)

lemma comparison_json_nodes: "nodes (comparison_json k) = 11 + 5 * length (cr_categories k)"
  using nodes_map_const [of "cr_categories k" change_json 5]
  by (cases "cr_relative k"; cases "cr_reason k") (simp_all add: comparison_json_def change_json_def opt_json_def)

lemma text_ok_length: "text_ok s \<Longrightarrow> length s \<le> 8192"
  by (simp add: text_ok_def)

lemma report_tree_ok:
  assumes "report_ok r" shows "tree_ok 1 (report_json r)"
proof -
  have cats: "\<forall>m \<in> set (er_categories r). text_ok (cm_category m)" and ids: "\<forall>s \<in> set (er_sample_ids r). text_ok s"
    using assms by (auto simp: report_ok_def list_all_iff category_ok_def)
  have "length (er_sha256 r) = 64" "length (er_model r) \<le> 8192" "length (er_template r) \<le> 8192"
    using assms by (auto simp: report_ok_def is_sha256_def text_ok_length)
  then show ?thesis
    using cats ids by (auto simp: report_json_def report_fields_def category_json_def text_ok_length)
qed

lemma read_pair_report_ok:
  assumes "report_ok b" "report_ok c" "comparable b c" "er_model b = ''baseline''" "er_model c = ''candidate''"
  shows "read_pair_report \<lparr>rx_sha256 = Some (er_sha256 b), rx_total = Some (er_total b),
      rx_base_template = Some (er_template b), rx_candidate_template = Some (er_template c)\<rparr> path (pair_json b c)
    = Inr (pair_metadata path b c (compare_reports b c))"
proof -
  let ?k = "compare_reports b c"
  have names: "common_categories b c = map cm_category (er_categories b)"
    using common_categories_same [OF assms(3)] assms(1) by (simp add: report_ok_def)
  have sizes: "length (er_categories b) \<le> 4096" "length (er_categories c) \<le> 4096"
    "length (er_sample_ids b) \<le> 200000" "length (er_sample_ids c) \<le> 200000" "length (cr_categories ?k) \<le> 4096"
    using assms(1,2) names
    by (auto simp: report_ok_def max_report_categories_def counts_ok_def max_dataset_records_def compare_reports_def Let_def)
  have "nodes (pair_json b c) \<le> max_report_json_nodes"
    using sizes by (simp add: pair_json_def report_json_nodes comparison_json_nodes max_report_json_nodes_def)
  moreover have "tree_ok 1 (comparison_json ?k)"
  proof -
    have k: "length (cr_sha256 ?k) = 64" "length (cr_baseline_model ?k) \<le> 8192" "length (cr_candidate_model ?k) \<le> 8192"
      "cr_reason ?k = None"
      using assms by (auto simp: compare_reports_def Let_def report_ok_def is_sha256_def comparable_def)
    have "\<forall>r \<in> set (cr_categories ?k). length (cc_category r) \<le> 8192"
      using assms(1) names
      by (auto simp: compare_reports_def Let_def category_change_of_def report_ok_def list_all_iff category_ok_def text_ok_length)
    then show ?thesis
      using k by (cases "cr_relative ?k") (auto simp: comparison_json_def change_json_def opt_json_def)
  qed
  ultimately have tree: "bounded_tree 0 (pair_json b c) 0 \<noteq> None"
    using bounded_tree_nodes(1) [of 0 "pair_json b c" 0] report_tree_ok [OF assms(1)] report_tree_ok [OF assms(2)]
    by (simp add: pair_json_def)
  have totals: "er_total b = er_total c"
    using assms(1-3) by (simp add: report_ok_def comparable_def)
  have k: "cr_sha256 ?k = er_sha256 b" by (simp add: compare_reports_def Let_def)
  show ?thesis
    using assms(3) tree
    by (simp add: read_pair_report_def pair_json_def metric_summary_ok assms comparison_summary_ok expected_def
        totals k comparable_def insert_commute)
qed

section \<open>The control plane accepts what the agent reports\<close>

lemma text_ok_strict: "text_ok s \<Longrightarrow> jget k kvs = JStr s \<Longrightarrow> strict_str (Suc 0) 256 k kvs = Inr s"
  by (cases s) (auto simp: text_ok_def strict_str_def)

lemma counts_ok_weaken: "counts_ok n t c i \<Longrightarrow> n \<le> m \<Longrightarrow> counts_ok m t c i"
  by (simp add: counts_ok_def)

lemma parse_category_ok:
  assumes "category_ok n m" "n \<le> max_evaluation_records"
  shows "parse_category (category_json m) = Inr m"
proof -
  have n: "counts_ok max_evaluation_records (cm_total m) (cm_correct m) (cm_invalid m)"
    "cm_accuracy m = py_round 4 (int_div (cm_correct m * 100) (cm_total m))" "text_ok (cm_category m)"
    using assms counts_ok_weaken by (auto simp: category_ok_def)
  note name = text_ok_strict [OF n(3), of "''category''"]
  show ?thesis
    using n accuracy_bounds [OF n(1,2)]
    by (simp add: parse_category_def category_json_def model_fields_def strict_int_def strict_float_def counts_ok_def name)
qed

lemma parse_metrics_ok:
  assumes "report_ok r"
  shows "parse_metrics (JObj (report_fields r)) = Inr (r\<lparr>er_sample_ids := []\<rparr>)"
proof -
  let ?kvs = "report_fields r"
  have fields: "jget ''dataset_sha256'' ?kvs = JStr (er_sha256 r)" "jget ''model_name'' ?kvs = JStr (er_model r)"
    "jget ''template'' ?kvs = JStr (er_template r)" "jget ''total'' ?kvs = JInt (er_total r)"
    "jget ''correct'' ?kvs = JInt (er_correct r)" "jget ''invalid'' ?kvs = JInt (er_invalid r)"
    "jget ''accuracy_percent'' ?kvs = JFloat (er_accuracy r)" "jget ''average_latency_ms'' ?kvs = JFloat (er_latency r)"
    "jget ''categories'' ?kvs = JArr (map category_json (er_categories r))"
    by (simp_all add: report_fields_def)
  have all: "model_fields metric_fields (JObj ?kvs) = Inr ?kvs"
    by (simp add: model_fields_def metric_fields_def report_fields_def)
  have n: "counts_ok max_evaluation_records (er_total r) (er_correct r) (er_invalid r)"
    "er_accuracy r = py_round 4 (int_div (er_correct r * 100) (er_total r))"
    using assms by (simp_all add: report_ok_def max_dataset_records_def max_evaluation_records_def)
  have cats: "check_each parse_category (map category_json (er_categories r)) = Inr (er_categories r)"
  proof -
    have "parse_category (category_json m) = Inr (id m)" if "m \<in> set (er_categories r)" for m
      using parse_category_ok [of "er_total r" m] that n(1) assms
      by (simp add: report_ok_def list_all_iff counts_ok_def)
    then show ?thesis
      using check_each_map [of "er_categories r" parse_category category_json id] by (simp only: list.map_id)
  qed
  have model: "strict_str (Suc 0) 256 ''model_name'' ?kvs = Inr (er_model r)"
    using assms fields by (intro text_ok_strict) (auto simp: report_ok_def)
  have len: "er_categories r \<noteq> []" "length (er_categories r) \<le> max_evaluation_categories"
    using assms by (simp_all add: report_ok_def max_report_categories_def max_evaluation_categories_def)
  show ?thesis
    unfolding parse_metrics_def all on_ok.simps
    using assms n accuracy_bounds [OF n] len
    by (simp add: digest_field_def literal_field_def strict_int_def strict_float_def strict_list_def fields model cats
        report_ok_def counts_ok_def totals_def Suc_le_eq)
qed

lemma parse_change_ok:
  assumes "report_ok b" "report_ok c" "comparable b c" "n \<in> set (map cm_category (er_categories b))"
  shows "parse_change (change_json (category_change_of b c n)) = Inr (category_change_of b c n)"
proof -
  let ?r = "category_change_of b c n"
  note r = change_bounds [OF assms refl]
  have "text_ok (cc_category ?r)" using r(1) assms(1,4) by (auto simp: report_ok_def list_all_iff category_ok_def)
  note name = text_ok_strict [OF this, of "''category''"]
  have "near (cc_change ?r) (py_round 4 (float_sub (cc_candidate ?r) (cc_baseline ?r)))"
    by (subst r(8)) (rule near_refl)
  then show ?thesis
    using r(2-7) by (simp add: parse_change_def change_json_def model_fields_def strict_float_def name)
qed

lemma parse_comparison_ok:
  assumes "report_ok b" "report_ok c" "comparable b c"
  shows "parse_comparison (comparison_json (compare_reports b c)) = Inr (compare_reports b c)"
proof -
  let ?k = "compare_reports b c"
  let ?L = "map cm_category (er_categories b)"
  have names: "common_categories b c = ?L"
    using common_categories_same [OF assms(3)] assms(1) by (simp add: report_ok_def)
  have cats: "cr_categories ?k = map (category_change_of b c) ?L"
    by (simp add: compare_reports_def Let_def names)
  have changes: "check_each parse_change (map change_json (cr_categories ?k)) = Inr (cr_categories ?k)"
    unfolding cats map_map [symmetric]
    using check_each_map [of ?L parse_change "\<lambda>n. change_json (category_change_of b c n)" "category_change_of b c"]
      parse_change_ok [OF assms] by (simp add: comp_def)
  have distinct: "distinct (map cc_category (cr_categories ?k))"
  proof -
    have "map cc_category (cr_categories ?k) = ?L"
      unfolding cats by (simp add: category_change_of_def Let_def)
    then show ?thesis using assms(1) by (simp add: report_ok_def)
  qed
  have reason: "cr_reason ?k = None" "cr_comparable ?k"
    using assms(3) by (simp_all add: compare_reports_def comparable_def Let_def)
  have ab: "0 \<le> er_accuracy b" "er_accuracy b \<le> 100" "0 \<le> er_accuracy c" "er_accuracy c \<le> 100"
    using assms(1,2) accuracy_bounds unfolding report_ok_def by blast+
  have k: "cr_sha256 ?k = er_sha256 b" "cr_baseline_model ?k = er_model b" "cr_candidate_model ?k = er_model c"
    "cr_baseline ?k = er_accuracy b" "cr_candidate ?k = er_accuracy c"
    "cr_change ?k = py_round 4 (float_sub (er_accuracy c) (er_accuracy b))"
    "cr_relative ?k = relative_change (py_round 4 (float_sub (er_accuracy c) (er_accuracy b))) (er_accuracy b)"
    by (simp_all add: compare_reports_def Let_def)
  have bounds: "- 100 \<le> cr_change ?k" "cr_change ?k \<le> 100"
    using point_change_bounds [OF ab(3,4,1,2), of 4] by (simp_all add: k)
  have len: "cr_categories ?k \<noteq> []" "length (cr_categories ?k) \<le> max_evaluation_categories"
    using assms(1) by (simp_all add: cats report_ok_def max_report_categories_def max_evaluation_categories_def)
  have sha: "is_sha256 (er_sha256 b)" using assms(1) by (simp add: report_ok_def)
  have models: "text_ok (er_model b)" "text_ok (er_model c)" using assms(1,2) by (simp_all add: report_ok_def)
  have rel: "relative_ok (cr_change ?k) (er_accuracy b) (cr_relative ?k)"
    by (simp add: relative_ok_def k relative_change_def)
  have whole: "\<lparr>cr_sha256 = er_sha256 b, cr_baseline_model = er_model b, cr_candidate_model = er_model c,
      cr_baseline = er_accuracy b, cr_candidate = er_accuracy c, cr_change = cr_change ?k,
      cr_relative = cr_relative ?k, cr_comparable = True, cr_reason = None, cr_categories = cr_categories ?k\<rparr> = ?k"
    using reason k by simp
  obtain kvs where kvs: "comparison_json ?k = JObj kvs" by (simp add: comparison_json_def)
  have fields: "jget ''dataset_sha256'' kvs = JStr (er_sha256 b)" "jget ''baseline_model'' kvs = JStr (er_model b)"
    "jget ''candidate_model'' kvs = JStr (er_model c)" "jget ''baseline_percent'' kvs = JFloat (er_accuracy b)"
    "jget ''candidate_percent'' kvs = JFloat (er_accuracy c)" "jget ''percentage_point_change'' kvs = JFloat (cr_change ?k)"
    "jget ''relative_change_percent'' kvs = opt_json JFloat (cr_relative ?k)" "jget ''comparable'' kvs = JBool True"
    "jget ''reason'' kvs = JNull" "jget ''category_changes'' kvs = JArr (map change_json (cr_categories ?k))"
    using kvs reason k by (auto simp: comparison_json_def opt_json_def)
  have "map fst kvs = comparison_fields"
    using kvs by (auto simp: comparison_json_def comparison_fields_def)
  then have all: "model_fields comparison_fields (JObj kvs) = Inr kvs"
    by (simp add: model_fields_def del: list.set_map set_map)
  have relative: "(case jget ''relative_change_percent'' kvs of JNull \<Rightarrow> Inr None
       | _ \<Rightarrow> on_ok (strict_float None None ''relative_change_percent'' kvs) (\<lambda>r. Inr (Some r))) = Inr (cr_relative ?k)"
    by (cases "cr_relative ?k") (simp_all add: fields opt_json_def strict_float_def)
  have read: "digest_field ''dataset_sha256'' kvs = Inr (er_sha256 b)"
    "strict_str 1 256 ''baseline_model'' kvs = Inr (er_model b)"
    "strict_str 1 256 ''candidate_model'' kvs = Inr (er_model c)"
    "strict_float (Some 0) (Some 100) ''baseline_percent'' kvs = Inr (er_accuracy b)"
    "strict_float (Some 0) (Some 100) ''candidate_percent'' kvs = Inr (er_accuracy c)"
    "strict_float (Some (- 100)) (Some 100) ''percentage_point_change'' kvs = Inr (cr_change ?k)"
    "strict_list 1 max_evaluation_categories ''category_changes'' kvs = Inr (map change_json (cr_categories ?k))"
    using text_ok_strict models fields ab bounds sha len
    by (simp_all add: digest_field_def strict_float_def strict_list_def Suc_le_eq)
  show ?thesis
    unfolding kvs parse_comparison_def all on_ok.simps relative read fields(8,9) changes Let_def
    by (simp only: k(6) [symmetric] rel distinct whole near_refl check_True on_ok.simps simp_thms)
qed

lemma parse_metrics_pair_ok:
  assumes "report_ok b" "report_ok c" "comparable b c"
  shows "parse_metrics_pair (JObj [(''baseline'', JObj (report_fields b)), (''candidate'', JObj (report_fields c))])
    = Inr (b\<lparr>er_sample_ids := []\<rparr>, c\<lparr>er_sample_ids := []\<rparr>)"
proof -
  have "er_total b = er_total c" using assms by (simp add: report_ok_def comparable_def)
  then show ?thesis
    using assms(3) by (simp add: parse_metrics_pair_def model_fields_def parse_metrics_ok assms comparable_def)
qed

lemma warnings_ok:
  assumes "map_of kvs ''warnings'' = (if report_warnings b c = [] then None
      else Some (JArr (map JStr (report_warnings b c))))"
  shows "warnings_field kvs = Inr (report_warnings b c)"
proof (cases "report_warnings b c = []")
  case True
  then show ?thesis using assms by (simp add: warnings_field_def map_of_eq_None_iff)
next
  case False
  let ?ws = "report_warnings b c"
  have here: "''warnings'' \<in> set (map fst kvs)" and field: "jget ''warnings'' kvs = JArr (map JStr ?ws)"
    using assms False by (auto simp: jget_def intro: map_of_SomeD dest!: map_of_SomeD intro!: image_eqI [where x = "(''warnings'', _)"])
  have ws: "length ?ws \<le> 2" "\<forall>s \<in> set ?ws. s \<in> set warning_names"
    by (auto simp: report_warnings_def warning_names_def)
  let ?read = "\<lambda>v. on_ok (some_or ''warnings'' (str_value v)) (\<lambda>s.
    on_ok (check (s \<in> set warning_names) ''warnings'') (\<lambda>_. Inr s))"
  have "check_each ?read (map JStr ?ws) = Inr (map id ?ws)"
    by (rule check_each_map) (use ws in simp)
  then show ?thesis
    using here field ws(1) by (simp add: warnings_field_def strict_list_def)
qed

lemma parse_success_ok:
  assumes "report_ok b" "report_ok c" "comparable b c" "er_model b = ''baseline''" "er_model c = ''candidate''"
    and paths: "path \<noteq> []" "length path \<le> 1024" "manifest \<noteq> []" "length manifest \<le> 1024"
  shows "parse_success (dict_set ''dataset_manifest_path'' (JStr manifest)
      (pair_metadata path b c (compare_reports b c)))
    = Inr \<lparr>sm_baseline = b\<lparr>er_sample_ids := []\<rparr>, sm_candidate = c\<lparr>er_sample_ids := []\<rparr>,
        sm_comparison = compare_reports b c, sm_result_path = path, sm_manifest_path = manifest,
        sm_warnings = report_warnings b c\<rparr>" (is "_ = Inr ?m")
proof -
  let ?k = "compare_reports b c"
  let ?kvs = "dict_set ''dataset_manifest_path'' (JStr manifest) (pair_metadata path b c ?k)"
  have keys: "set (map fst ?kvs) = {''metrics'', ''comparison'', ''result_path'', ''dataset_manifest_path''}
      \<union> (if report_warnings b c = [] then {} else {''warnings''})"
    by (auto simp: pair_metadata_def)
  have fields: "jget ''metrics'' ?kvs = JObj [(''baseline'', JObj (report_fields b)), (''candidate'', JObj (report_fields c))]"
    "jget ''comparison'' ?kvs = comparison_json ?k" "jget ''result_path'' ?kvs = JStr path"
    "jget ''dataset_manifest_path'' ?kvs = JStr manifest"
    by (simp_all add: pair_metadata_def)
  have ws: "warnings_field ?kvs = Inr (report_warnings b c)"
    by (rule warnings_ok) (simp add: pair_metadata_def)
  have strict: "strict_str 1 1024 ''result_path'' ?kvs = Inr path"
    "strict_str 1 1024 ''dataset_manifest_path'' ?kvs = Inr manifest"
    using paths by (simp_all add: strict_str_def fields Suc_le_eq)
  have "report_consistent ?m"
  proof -
    have names: "map cc_category (cr_categories ?k) = map cm_category (er_categories b)"
      "cr_categories ?k = map (category_change_of b c) (map cm_category (er_categories b))"
      using common_categories_same [OF assms(3)] assms(1)
      by (simp_all add: compare_reports_def Let_def category_change_of_def report_ok_def)
    have "list_all (change_consistent b c) (cr_categories ?k)"
      using change_bounds(9) [OF assms(1-3)] by (auto simp: names(2) list_all_iff)
    moreover have "change_consistent (b\<lparr>er_sample_ids := []\<rparr>) (c\<lparr>er_sample_ids := []\<rparr>) = change_consistent b c"
      by (intro ext) (simp add: change_consistent_def by_category_def)
    moreover have "cm_category ` set (er_categories b) = cm_category ` set (er_categories c)"
      using comparable_names [OF assms(3)] by (metis list.set_map)
    moreover have "cc_category ` set (cr_categories ?k) = cm_category ` set (er_categories b)"
      using names(1) by (metis list.set_map)
    moreover have "set (report_warnings b c) = expected_warnings b c"
      by (simp add: report_warnings_def expected_warnings_def)
    ultimately show ?thesis
      using assms(4,5) by (simp add: report_consistent_def expected_warnings_def) (simp add: compare_reports_def Let_def)
  qed
  then show ?thesis
    unfolding parse_success_def fields parse_metrics_pair_ok [OF assms(1-3)] parse_comparison_ok [OF assms(1-3)] keys
      on_ok.simps prod.case strict ws Let_def
    by simp
qed

section \<open>What the runner writes\<close>

definition samples_ok :: "eval_sample list \<Rightarrow> bool" where
  "samples_ok xs \<longleftrightarrow> xs \<noteq> [] \<and> int (length xs) \<le> max_dataset_records \<and> distinct (map sample_id xs)
     \<and> list_all (\<lambda>x. text_ok (sample_id x) \<and> text_ok (sample_category x)) xs
     \<and> card (set (map sample_category xs)) \<le> max_report_categories"

definition result_of :: "eval_sample \<Rightarrow> sample_result \<Rightarrow> bool" where
  "result_of x r \<longleftrightarrow> sr_id r = sample_id x \<and> sr_category r = sample_category x
     \<and> (sr_correct r \<longrightarrow> sr_valid r) \<and> 0 \<le> sr_latency r"

lemma score_answer_result: "result_of x (score_answer T x prediction latency)"
  by (auto simp: result_of_def score_answer_def Let_def split: option.split)

lemma evaluate_results:
  assumes "evaluate T sumf generate xs sha model template n = Inr r"
  obtains rs where "list_all2 result_of xs rs" "aggregate_results sumf sha model template rs = Some r"
proof -
  obtain rs where rs: "check_each (\<lambda>x. case generate x of None \<Rightarrow> Inl (RequestFailed (sample_id x))
       | Some (prediction, latency) \<Rightarrow> Inr (score_answer T x prediction latency)) xs = Inr rs"
    and r: "some_or NothingToAggregate (aggregate_results sumf sha model template rs) = Inr r"
    using assms by (auto simp: evaluate_def on_ok_Inr)
  have "list_all2 result_of xs rs"
    using rs unfolding check_each_Inr
    by (rule list_all2_mono) (auto simp: score_answer_result split: option.splits prod.splits)
  moreover have "aggregate_results sumf sha model template rs = Some r"
    using r by (simp add: some_or_def split: option.splits)
  ultimately show thesis using that by blast
qed

lemma group_counts:
  "finite S \<Longrightarrow> f ` set xs \<subseteq> S \<Longrightarrow>
     (\<Sum>n \<in> S. length (filter P (filter (\<lambda>x. f x = n) xs))) = length (filter P xs)"
proof (induction xs)
  case (Cons x xs)
  have "(\<Sum>n \<in> S. length (filter P (filter (\<lambda>x. f x = n) (x # xs))))
      = (\<Sum>n \<in> S. (if n = f x then (if P x then 1 else 0) else 0) + length (filter P (filter (\<lambda>x. f x = n) xs)))"
    by (intro sum.cong) auto
  also have "\<dots> = (if P x then 1 else 0) + length (filter P xs)"
    using Cons by (simp add: sum.distrib sum.delta')
  finally show ?case by simp
qed simp

lemma int_sum_map: "int (sum_list (map f xs)) = sum_list (map (\<lambda>x. int (f x)) xs)"
  by (induction xs) auto

lemma group_sum:
  "sum_list (map (\<lambda>n. count_where P (filter (\<lambda>r. f r = n) rs)) (sort (remdups (map f rs)))) = count_where P rs"
proof -
  have "sum_list (map (\<lambda>n. length (filter P (filter (\<lambda>r. f r = n) rs))) (sort (remdups (map f rs))))
      = (\<Sum>n \<in> f ` set rs. length (filter P (filter (\<lambda>r. f r = n) rs)))"
    by (simp add: sum_list_distinct_conv_sum_set)
  also have "\<dots> = length (filter P rs)" by (rule group_counts) auto
  finally have "int (sum_list (map (\<lambda>n. length (filter P (filter (\<lambda>r. f r = n) rs))) (sort (remdups (map f rs)))))
      = int (length (filter P rs))" by simp
  then show ?thesis by (simp add: count_where_def int_sum_map)
qed

lemma length_count: "int (length xs) = count_where (\<lambda>_. True) xs"
  by (simp add: count_where_def)

lemma totals_of_groups:
  "totals (map category_metric_of (grouped rs))
     = (int (length rs), count_where sr_correct rs, count_where (\<lambda>r. \<not> sr_valid r) rs)"
  by (simp add: totals_def grouped_def category_metric_of_def Let_def comp_def length_count group_sum)

lemma counts_of_results:
  assumes "\<And>r. r \<in> set rs \<Longrightarrow> sr_correct r \<longrightarrow> sr_valid r" "rs \<noteq> []" "int (length rs) \<le> n"
  shows "counts_ok n (int (length rs)) (count_where sr_correct rs) (count_where (\<lambda>r. \<not> sr_valid r) rs)"
proof -
  have "length (filter sr_correct rs) \<le> length (filter sr_valid rs)"
    using assms(1) by (induction rs) (auto intro: le_SucI)
  moreover have "length (filter sr_valid rs) + length (filter (\<lambda>r. \<not> sr_valid r) rs) = length rs"
    by (rule sum_length_filter_compl)
  moreover have "1 \<le> length rs" using assms(2) by (simp add: Suc_le_eq)
  ultimately show ?thesis using assms(3) by (simp add: counts_ok_def count_where_def)
qed

lemma result_columns:
  assumes "list_all2 result_of xs rs"
  shows "map sr_id rs = map sample_id xs" and "map sr_category rs = map sample_category xs"
  using assms by (induction rule: list_all2_induct) (auto simp: result_of_def)

lemma aggregated_report_ok:
  assumes xs: "samples_ok xs" and rs: "list_all2 result_of xs rs" and sha: "is_sha256 sha"
    and model: "text_ok model" and template: "template \<in> {''base'', ''instruct''}"
    and sumf: "\<And>ls. (\<And>l. l \<in> set ls \<Longrightarrow> 0 \<le> l) \<Longrightarrow> 0 \<le> sumf ls"
    and r: "aggregate_results sumf sha model template rs = Some r"
  shows "report_ok r"
proof -
  have len: "length rs = length xs" using rs by (simp add: list_all2_lengthD)
  note ids = result_columns(1) [OF rs] and cats = result_columns(2) [OF rs]
  have each: "(sr_correct q \<longrightarrow> sr_valid q) \<and> 0 \<le> sr_latency q" if "q \<in> set rs" for q
    using rs that by (induction rule: list_all2_induct) (auto simp: result_of_def)
  have ne: "rs \<noteq> []" using xs len by (auto simp: samples_ok_def)
  let ?n = "int (length rs)"
  have n: "?n \<le> max_dataset_records" using xs len by (simp add: samples_ok_def)
  have counts: "counts_ok max_dataset_records ?n (count_where sr_correct rs) (count_where (\<lambda>r. \<not> sr_valid r) rs)"
    using counts_of_results [OF _ ne n] each by blast
  have latency: "0 \<le> py_round 3 (float_div (sumf (map sr_latency rs)) (of_int ?n))"
  proof -
    have "0 \<le> sumf (map sr_latency rs)" using each by (intro sumf) auto
    then have "0 \<le> float_div (sumf (map sr_latency rs)) (of_int ?n)"
      unfolding float_div_def using to_double_mono [of 0] by simp
    then show ?thesis by (rule py_round_nonneg)
  qed
  have names: "map cm_category (map category_metric_of (grouped rs)) = sort (remdups (map sr_category rs))"
    by (simp add: grouped_def category_metric_of_def Let_def comp_def)
  have members: "category_ok ?n (category_metric_of (m, filter (\<lambda>r. sr_category r = m) rs))"
    if "m \<in> set (map sr_category rs)" for m
  proof -
    let ?g = "filter (\<lambda>r. sr_category r = m) rs"
    have g: "?g \<noteq> []" using that by (auto simp: filter_empty_conv)
    moreover have "int (length ?g) \<le> ?n" by simp
    ultimately have "counts_ok ?n (int (length ?g)) (count_where sr_correct ?g) (count_where (\<lambda>r. \<not> sr_valid r) ?g)"
      using each by (intro counts_of_results) auto
    moreover have "text_ok m" using that xs unfolding cats by (auto simp: samples_ok_def list_all_iff)
    ultimately show ?thesis
      using g by (simp add: category_ok_def category_metric_of_def Let_def percent_def)
  qed
  have groups: "list_all (category_ok ?n) (map category_metric_of (grouped rs))"
    using members by (auto simp: grouped_def list_all_iff)
  have size: "length (grouped rs) \<le> max_report_categories"
    using xs by (simp add: grouped_def samples_ok_def length_remdups_card_conv del: set_map flip: cats)
  have some: "grouped rs \<noteq> []"
  proof
    assume "grouped rs = []"
    then have "sort (remdups (map sr_category rs)) = []" by (simp only: grouped_def map_is_Nil_conv)
    then have "set (sort (remdups (map sr_category rs))) = {}" by (simp only: list.set(1))
    then show False using ne by simp
  qed
  have texts: "list_all text_ok (sort (map sr_id rs))"
    using xs by (simp add: ids samples_ok_def list_all_iff)
  have distinct: "distinct (sort (map sr_id rs))" using xs by (simp add: ids samples_ok_def)
  have acc: "percent (count_where sr_correct rs) ?n = py_round 4 (int_div (count_where sr_correct rs * 100) ?n)"
    using ne by (simp add: percent_def)
  have r_eq: "r = \<lparr>er_sha256 = sha, er_model = model, er_template = template, er_total = ?n,
      er_correct = count_where sr_correct rs, er_invalid = count_where (\<lambda>r. \<not> sr_valid r) rs,
      er_accuracy = percent (count_where sr_correct rs) ?n,
      er_latency = py_round 3 (float_div (sumf (map sr_latency rs)) (of_int ?n)),
      er_categories = map category_metric_of (grouped rs), er_sample_ids = sort (map sr_id rs)\<rparr>"
    using r ne by (simp add: aggregate_results_def Let_def)
  show ?thesis
    unfolding report_ok_def r_eq
    using sha model template counts latency size some texts distinct groups acc totals_of_groups [of rs] names
    by simp
qed

lemma aggregated_comparable:
  assumes "list_all2 result_of xs rs" "list_all2 result_of xs rs'"
    and "aggregate_results sumf sha model template rs = Some b"
    and "aggregate_results sumf sha model' template' rs' = Some c"
  shows "comparable b c"
proof -
  have ids: "map sr_id rs = map sr_id rs'" and cats: "map sr_category rs = map sr_category rs'"
    using result_columns [OF assms(1)] result_columns [OF assms(2)] by simp_all
  have column: "length (filter (\<lambda>r. sr_category r = n) q) = length (filter (\<lambda>v. v = n) (map sr_category q))" for n q
    by (simp add: filter_map comp_def)
  have group: "length (filter (\<lambda>r. sr_category r = n) rs) = length (filter (\<lambda>r. sr_category r = n) rs')" for n
    unfolding column cats ..
  have b: "er_sha256 b = sha" "er_sample_ids b = sort (map sr_id rs)" "er_categories b = map category_metric_of (grouped rs)"
    and c: "er_sha256 c = sha" "er_sample_ids c = sort (map sr_id rs')" "er_categories c = map category_metric_of (grouped rs')"
    using assms(3,4) by (auto simp: aggregate_results_def Let_def split: if_splits)
  show ?thesis
    unfolding comparable_def b c
    by (simp add: ids cats grouped_def category_metric_of_def Let_def comp_def group)
qed

section \<open>The chain\<close>

text \<open>
  C9. A genuine evaluation is never lost on the way. Let the runner evaluate a baseline and a candidate
  over the same samples (well formed identifiers and categories, within the limits of the agent), with
  whatever answers the model servers give. Then the node agent accepts the pair of reports the runner
  writes, also against the fingerprint, size and templates it was started with, and the control plane
  accepts what the agent reports of it; the numbers it stores are the runner's.
\<close>

theorem genuine_report_is_accepted:
  assumes "samples_ok xs" and "is_sha256 sha"
    and "evaluate T sumf generate_b xs sha ''baseline'' tb k = Inr b"
    and "evaluate T sumf generate_c xs sha ''candidate'' tc k = Inr c"
    and "tb \<in> {''base'', ''instruct''}" and "tc \<in> {''base'', ''instruct''}"
    and "\<And>ls. (\<And>l. l \<in> set ls \<Longrightarrow> 0 \<le> l) \<Longrightarrow> 0 \<le> sumf ls"
    and "path \<noteq> []" "length path \<le> 1024" "manifest \<noteq> []" "length manifest \<le> 1024"
  shows "\<exists>md m. read_pair_report \<lparr>rx_sha256 = Some sha, rx_total = Some (int (length xs)),
            rx_base_template = Some tb, rx_candidate_template = Some tc\<rparr> path (pair_json b c) = Inr md
      \<and> parse_success (dict_set ''dataset_manifest_path'' (JStr manifest) md) = Inr m
      \<and> report_fields (sm_baseline m) = report_fields b \<and> report_fields (sm_candidate m) = report_fields c
      \<and> sm_comparison m = compare_reports b c"
proof -
  obtain rs where rs: "list_all2 result_of xs rs" "aggregate_results sumf sha ''baseline'' tb rs = Some b"
    using evaluate_results [OF assms(3)] .
  obtain rs' where rs': "list_all2 result_of xs rs'" "aggregate_results sumf sha ''candidate'' tc rs' = Some c"
    using evaluate_results [OF assms(4)] .
  have names: "text_ok ''baseline''" "text_ok ''candidate''" by code_simp+
  have ok: "report_ok b" "report_ok c"
    using aggregated_report_ok [OF assms(1) rs(1) assms(2) names(1) assms(5,7) rs(2)]
      aggregated_report_ok [OF assms(1) rs'(1) assms(2) names(2) assms(6,7) rs'(2)] by blast+
  have same: "comparable b c" by (rule aggregated_comparable [OF rs(1) rs'(1) rs(2) rs'(2)])
  have len: "length rs = length xs" using rs(1) by (simp add: list_all2_lengthD)
  have b: "er_sha256 b = sha" "er_model b = ''baseline''" "er_template b = tb" "er_total b = int (length xs)"
    and c: "er_model c = ''candidate''" "er_template c = tc"
    using rs(2) rs'(2) by (auto simp: aggregate_results_def Let_def len split: if_splits)
  show ?thesis
    using read_pair_report_ok [OF ok same b(2) c(1), of path]
      parse_success_ok [OF ok same b(2) c(1) assms(8-11)]
    by (simp add: b c report_fields_def)
qed

definition demo_samples :: "eval_sample list" where
  "demo_samples =
     [\<lparr>sample_id = ''a:1'', sample_task = MULTIPLE_CHOICE, question = ''q'', answers = [''A''],
        sample_category = ''a/default'', choices = [(''A'', ''x''), (''B'', ''y'')], sample_context = None\<rparr>,
      \<lparr>sample_id = ''b:1'', sample_task = CLASSIFICATION, question = ''r'', answers = [''yes''],
        sample_category = ''b/default'', choices = [], sample_context = None\<rparr>,
      \<lparr>sample_id = ''a:2'', sample_task = SHORT_QA, question = ''s'', answers = [''one''],
        sample_category = ''a/default'', choices = [], sample_context = None\<rparr>]"

definition demo_tools :: text_tools where
  "demo_tools = \<lparr>tt_normalize = lower,
     tt_choice = (\<lambda>p labels. if p \<in> set labels then Some p else None)\<rparr>"

definition demo_run :: "(eval_sample \<Rightarrow> (string \<times> rat) option) \<Rightarrow> string \<Rightarrow> run_error + evaluation_report" where
  "demo_run generate model =
     evaluate demo_tools sum_list generate demo_samples (replicate 64 (CHR ''0'')) model ''base'' 4"

definition demo_baseline :: evaluation_report where
  "demo_baseline = projr (demo_run (\<lambda>_. Some (''A'', 3 / 2)) ''baseline'')"

definition demo_candidate :: evaluation_report where
  "demo_candidate = projr (demo_run (\<lambda>x. Some (hd (answers x), 1)) ''candidate'')"

lemma demo_runs: "\<not> isl (demo_run (\<lambda>_. Some (''A'', 3 / 2)) ''baseline'')"
  "\<not> isl (demo_run (\<lambda>x. Some (hd (answers x), 1)) ''candidate'')"
  by code_simp+

lemma genuine_report_is_accepted_witness:
  "\<exists>md m. read_pair_report \<lparr>rx_sha256 = Some (replicate 64 (CHR ''0'')), rx_total = Some 3,
       rx_base_template = Some ''base'', rx_candidate_template = Some ''base''\<rparr> ''/out/pair-report.json''
       (pair_json demo_baseline demo_candidate) = Inr md
     \<and> parse_success (dict_set ''dataset_manifest_path'' (JStr ''/run/dataset-manifest.json'') md) = Inr m
     \<and> report_fields (sm_baseline m) = report_fields demo_baseline
     \<and> report_fields (sm_candidate m) = report_fields demo_candidate
     \<and> sm_comparison m = compare_reports demo_baseline demo_candidate"
proof -
  have b: "evaluate demo_tools sum_list (\<lambda>_. Some (''A'', 3 / 2)) demo_samples (replicate 64 (CHR ''0'')) ''baseline'' ''base'' 4
      = Inr demo_baseline"
    using sum.collapse(2) [OF demo_runs(1)] by (simp only: demo_baseline_def demo_run_def)
  have c: "evaluate demo_tools sum_list (\<lambda>x. Some (hd (answers x), 1)) demo_samples (replicate 64 (CHR ''0'')) ''candidate'' ''base'' 4
      = Inr demo_candidate"
    using sum.collapse(2) [OF demo_runs(2)] by (simp only: demo_candidate_def demo_run_def)
  have xs: "samples_ok demo_samples" "is_sha256 (replicate 64 (CHR ''0''))" by code_simp+
  have n: "int (length demo_samples) = 3" by (simp add: demo_samples_def)
  have nonneg: "0 \<le> sum_list ls" if "\<And>l. l \<in> set ls \<Longrightarrow> 0 \<le> l" for ls :: "rat list"
    using that by (rule sum_list_nonneg)
  show ?thesis
    using genuine_report_is_accepted [OF xs b c insertI1 insertI1 nonneg, of "''/out/pair-report.json''" "''/run/dataset-manifest.json''"]
    by (simp add: n)
qed

end
