(* ===== verification/EvaluationWorkspace.thy ===== *)
theory EvaluationWorkspace
  imports EvaluationDataset EvaluationFlow
begin

text \<open>
  The data set the agent prepares fits the limits that are put on the report about it: what the runner
  reads from the merged file is well formed in the sense of theory EvaluationFlow, with the fingerprint and
  the size that the manifest states.
\<close>

section \<open>Reading back a written row\<close>

lemma map_of_find: "map_of kvs k = map_option snd (find (\<lambda>p. fst p = k) kvs)"
  by (induction kvs) auto

lemma find_filter: "find P xs = (case filter P xs of [] \<Rightarrow> None | x # _ \<Rightarrow> Some x)"
  by (induction xs) auto

lemma map_of_sort_key: "map_of (sort_key fst kvs) k = map_of kvs k"
proof -
  have "filter (\<lambda>p. fst p = k) (sort_key fst kvs) = filter (\<lambda>p. fst p = k) kvs"
    by (rule sort_key_stable)
  then show ?thesis by (simp add: map_of_find find_filter)
qed

lemma map_of_canon: "map_of (map (\<lambda>(k, v). (k, canon v)) kvs) k = map_option canon (map_of kvs k)"
  by (induction kvs) auto

definition canon_members :: "json_obj \<Rightarrow> json_obj" where
  "canon_members kvs = sort_key fst (map (\<lambda>(k, v). (k, canon v)) kvs)"

lemma canon_object: "canon (JObj kvs) = JObj (canon_members kvs)"
  by (simp add: canon_members_def)

lemma jget_or_canon: "jget_or d k (canon_members kvs) = (case map_of kvs k of None \<Rightarrow> d | Some v \<Rightarrow> canon v)"
  by (simp add: canon_members_def jget_or_def map_of_sort_key map_of_canon split: option.split)

lemma jget_canon: "jget k (canon_members kvs) = canon (jget k kvs)"
  using jget_or_canon [of JNull k kvs] by (simp add: jget_or_def jget_def split: option.splits)

section \<open>Lines of the merged file\<close>

lemma escape_no_newline: "CHR 0x0A \<notin> set (escape c)"
proof -
  have "hex_char n \<noteq> CHR 0x0A" if "n < 16" for n
  proof -
    have "code (hex_char n) \<noteq> 10" using that by (simp add: hex_char_def)
    then show ?thesis by auto
  qed
  then have "hex_char (code c mod 16) \<noteq> CHR 0x0A" "code c < 32 \<Longrightarrow> hex_char (code c div 16) \<noteq> CHR 0x0A"
    by (simp_all add: div_less_iff_less_mult)
  then show ?thesis by (auto simp: escape_def)
qed

lemma dump_str_no_newline: "CHR 0x0A \<notin> set (dump_str s)"
  using escape_no_newline by (auto simp: dump_str_def)

lemma dump_no_newline:
  assumes "float_text fr"
  shows "CHR 0x0A \<notin> set (dump fr v)" "CHR 0x0A \<notin> set (dump_items fr vs)" "CHR 0x0A \<notin> set (dump_members fr kvs)"
  using assms
proof (induction fr v and fr vs and fr kvs rule: dump_dump_items_dump_members.induct)
  case (3 fr i)
  have "c \<noteq> CHR 0x0A" if "c \<in> set (str_int i)" for c using str_int_chars [OF that] by (auto simp: is_dec_def)
  then show ?case by auto
next
  case (4 fr q)
  then have "\<forall>c \<in> set (fr q). num_char c" by (simp add: float_text_def)
  then show ?case by (auto simp: num_char_def is_dec_def)
qed (auto simp: dump_str_no_newline)

lemma high_char: "128 \<le> code x \<Longrightarrow> x \<noteq> CHR 0x0A"
  by auto

lemma encode_utf8_no_newline: "CHR 0x0A \<notin> set s \<Longrightarrow> CHR 0x0A \<notin> set (encode_utf8 s)"
proof (induction s)
  case (Cons c s)
  have "CHR 0x0A \<notin> set (utf8_char c)"
  proof (cases "code c < 128")
    case True
    then show ?thesis using Cons.prems by (auto simp: utf8_char_def)
  next
    case False
    have "code c < 256" using nat_of_char_less_256 [of c] by simp
    then have "code c div 64 < 4" by (simp add: div_less_iff_less_mult)
    then have "code (char_of (192 + code c div 64)) = 192 + code c div 64"
      "code (char_of (128 + code c mod 64)) = 128 + code c mod 64" by simp_all
    then have "128 \<le> code (char_of (192 + code c div 64))" "128 \<le> code (char_of (128 + code c mod 64))"
      by linarith+
    then have "char_of (192 + code c div 64) \<noteq> CHR 0x0A" "char_of (128 + code c mod 64) \<noteq> CHR 0x0A"
      using high_char by blast+
    then show ?thesis using False by (auto simp: utf8_char_def)
  qed
  then show ?case using Cons by (auto simp: encode_utf8_def)
qed (simp add: encode_utf8_def)

definition row_line :: "(rat \<Rightarrow> string) \<Rightarrow> json_obj \<Rightarrow> string" where
  "row_line fr row = canonical_json fr (JObj row) @ [CHR 0x0A]"

lemma canonical_no_newline: "float_text fr \<Longrightarrow> CHR 0x0A \<notin> set (canonical_json fr v)"
  unfolding canonical_json_def by (intro encode_utf8_no_newline dump_no_newline)

lemma file_lines_append: "CHR 0x0A \<notin> set w \<Longrightarrow> file_lines ((w @ [CHR 0x0A]) @ rest) = (w @ [CHR 0x0A]) # file_lines rest"
  by (induction w) auto

lemma file_lines_concat:
  assumes "float_text fr"
  shows "(\<And>l. l \<in> set ls \<Longrightarrow> \<exists>row. l = row_line fr row) \<Longrightarrow> file_lines (concat ls) = ls"
proof (induction ls)
  case (Cons l ls)
  obtain row where "l = row_line fr row" using Cons.prems by auto
  then show ?case
    using Cons file_lines_append [OF canonical_no_newline [OF assms]] by (simp add: row_line_def)
qed simp

section \<open>What a merge has written\<close>

text \<open>A name of a data set, as the command model admits it.\<close>

definition source_name_ok :: "string \<Rightarrow> bool" where
  "source_name_ok n \<longleftrightarrow> n \<noteq> [] \<and> length n \<le> 64 \<and> \<not> is_space (hd n) \<and> \<not> list_ex control_char n"

definition merged_line :: "'f file_access \<Rightarrow> string \<Rightarrow> string \<times> string \<Rightarrow> bool" where
  "merged_line F raw p \<longleftrightarrow> (\<exists>name original md row. raw = row_line (fa_float F) (merged_row name original (fst p) (snd p) md row))
     \<and> text_ok (fst p) \<and> text_ok (snd p)"

definition merged_ok :: "'f file_access \<Rightarrow> merged \<Rightarrow> bool" where
  "merged_ok F st \<longleftrightarrow> (\<exists>ps. list_all2 (merged_line F) (mg_lines st) ps \<and> map fst ps = mg_ids st
       \<and> set (map snd ps) \<subseteq> set (mg_categories st))
     \<and> distinct (mg_ids st) \<and> length (mg_categories st) \<le> max_report_categories
     \<and> mg_records st = length (mg_lines st) \<and> int (mg_records st) \<le> max_dataset_records"

lemma dropWhile_hd: "dropWhile P xs \<noteq> [] \<Longrightarrow> \<not> P (hd (dropWhile P xs))"
  by (rule hd_dropWhile)

lemma strip_last: "strip s \<noteq> [] \<Longrightarrow> \<not> is_space (last (strip s))"
  unfolding strip_def by (metis dropWhile_hd hd_rev rev_rev_ident rev_is_Nil_conv)

lemma short_text_facts:
  assumes "safe_short_text k d field v = Inr t"
  shows "t \<noteq> []" and "length t \<le> k" and "\<not> list_ex control_char t" and "\<not> is_space (last t)"
proof -
  obtain s where s: "strip s \<noteq> []" "length (strip s) \<le> k" "\<not> list_ex control_char (strip s)" "t = strip s"
    using assms by (auto simp: safe_short_text_def Let_def check_simps)
  then show "t \<noteq> []" "length t \<le> k" "\<not> list_ex control_char t" "\<not> is_space (last t)"
    using strip_last by simp_all
qed

lemma joined_text_ok:
  assumes "source_name_ok n" "safe_short_text 191 d field v = Inr t" "\<not> control_char c"
  shows "text_ok (n @ [c] @ t)"
proof -
  note t = short_text_facts [OF assms(2)]
  have "strip (n @ [c] @ t) = n @ [c] @ t"
    using assms(1) t(1,4) by (intro strip_id) (auto simp: source_name_ok_def)
  then show ?thesis
    using assms(1,3) t by (simp add: text_ok_def source_name_ok_def)
qed

lemma merge_row_ok:
  assumes "merged_ok F st" "source_name_ok name" "merge_row F name n row st = Inr st'"
  shows "merged_ok F st'" and "mg_records st' = mg_records st + 1"
proof -
  obtain original category md where
    o: "safe_short_text 191 None ''id'' (JStr (py_str (fa_text F) (jget_or (JInt (int n)) ''id'' row))) = Inr original"
    and c: "safe_short_text 191 (Some ''default'') ''category'' (jget ''category'' row) = Inr category"
    and new: "name @ '':'' @ original \<notin> set (mg_ids st)"
    and cats: "length (List.insert (name @ ''/'' @ category) (mg_categories st)) \<le> max_report_categories"
    and recs: "mg_records st + 1 \<le> nat max_dataset_records"
    and st': "st' = \<lparr>mg_ids = (name @ '':'' @ original) # mg_ids st,
        mg_categories = List.insert (name @ ''/'' @ category) (mg_categories st),
        mg_id_bytes = mg_id_bytes st + length (encode_utf8 (name @ '':'' @ original)),
        mg_lines = (canonical_json (fa_float F) (JObj (merged_row name original (name @ '':'' @ original)
            (name @ ''/'' @ category) md row)) @ [CHR 0x0A]) # mg_lines st,
        mg_records = mg_records st + 1\<rparr>"
    using assms(3) by (auto simp: merge_row_def Let_def check_simps)
  have texts: "text_ok (name @ '':'' @ original)" "text_ok (name @ ''/'' @ category)"
    using joined_text_ok [OF assms(2) o, of "CHR '':''"] joined_text_ok [OF assms(2) c, of "CHR ''/''"]
    by (simp_all add: control_char_def)
  obtain ps where ps: "list_all2 (merged_line F) (mg_lines st) ps" "map fst ps = mg_ids st"
      "set (map snd ps) \<subseteq> set (mg_categories st)"
    and st: "distinct (mg_ids st)" "mg_records st = length (mg_lines st)"
    using assms(1) by (auto simp: merged_ok_def)
  let ?p = "(name @ '':'' @ original, name @ ''/'' @ category)"
  have "merged_line F (hd (mg_lines st')) ?p"
    using texts by (auto simp: merged_line_def row_line_def st')
  then have "list_all2 (merged_line F) (mg_lines st') (?p # ps)" using ps(1) by (simp add: st')
  moreover have "map fst (?p # ps) = mg_ids st'" "set (map snd (?p # ps)) \<subseteq> set (mg_categories st')"
    using ps(2,3) by (auto simp: st')
  moreover have "distinct (mg_ids st')" using st new by (simp add: st')
  moreover have "length (mg_categories st') \<le> max_report_categories" using cats by (simp add: st')
  moreover have "int (mg_records st') \<le> max_dataset_records" using recs by (simp add: st' max_dataset_records_def)
  moreover have "mg_records st' = length (mg_lines st')" using st by (simp add: st')
  ultimately show "merged_ok F st'" unfolding merged_ok_def by blast
  show "mg_records st' = mg_records st + 1" by (simp add: st')
qed

lemma merge_lines_ok:
  "merge_lines F name n raws st = Inr st' \<Longrightarrow> merged_ok F st \<Longrightarrow> source_name_ok name \<Longrightarrow> merged_ok F st'"
proof (induction F name n raws st rule: merge_lines.induct)
  case (2 F name n raw raws st)
  show ?case
  proof (cases "blank_bytes raw")
    case True
    then show ?thesis using 2 by (auto simp: check_simps)
  next
    case False
    then obtain v row st1 where "fa_loads F raw = Inr v" "merge_row F name (n + 1) row st = Inr st1"
      "merge_lines F name (n + 1) raws st1 = Inr st'" "some_or ''row'' (obj_value v) = Inr row"
      "check (length raw \<le> max_dataset_line_bytes) ''line too long'' = Inr ()"
      using "2.prems"(1) by (auto simp: on_ok_Inr)
    then show ?thesis using 2 False merge_row_ok(1) by metis
  qed
qed simp

lemma judged_value: "judged v s = (s', Inr a) \<longleftrightarrow> v = Inr a \<and> s' = s"
  by (auto simp: judged_def from_sum_def split: sum.splits)

lemma and_then_value: "and_then m f s = (s', Inr b) \<longleftrightarrow> (\<exists>s1 a. m s = (s1, Inr a) \<and> f a s1 = (s', Inr b))"
  by (auto simp: and_then_def split: prod.splits sum.splits)

lemma try_os_value: "try_os label m s = (s', Inr a) \<longleftrightarrow> m s = (s', Inr a)"
  by (auto simp: try_os_def rescue_def throw_def split: prod.splits sum.splits)

lemma give_value: "give a s = (s', Inr b) \<longleftrightarrow> s' = s \<and> b = a"
  by (auto simp: give_def)

lemmas run_simps = and_then_value judged_value try_os_value give_value

lemma merge_source_ok:
  assumes "merge_source F base (name, p, matched) bytes st s = (s', Inr (bytes', st', j))"
    and "merged_ok F st" "source_name_ok name"
  shows "merged_ok F st'"
proof -
  have "\<exists>src :: source_text. merge_lines F name 0 (so_lines src) st = Inr st'"
    using assms(1) by (auto simp: merge_source_def Let_def and_then_value judged_value give_def)
  then show ?thesis using merge_lines_ok [OF _ assms(2,3)] by blast
qed

lemma merge_sources_ok:
  "merge_sources F base sources bytes st s = (s', Inr (st', js)) \<Longrightarrow> merged_ok F st \<Longrightarrow>
     (\<And>x. x \<in> set sources \<Longrightarrow> source_name_ok (fst x)) \<Longrightarrow> merged_ok F st' \<and> length js = length sources"
proof (induction sources arbitrary: bytes st s js)
  case Nil
  then show ?case by (simp add: give_def)
next
  case (Cons x xs)
  obtain name p matched where x: "x = (name, p, matched)" by (cases x)
  obtain s1 bytes1 st1 j js1 where one: "merge_source F base (name, p, matched) bytes st s = (s1, Inr (bytes1, st1, j))"
    and rest: "merge_sources F base xs bytes1 st1 s1 = (s', Inr (st', js1))" "js = j # js1"
    using Cons.prems(1) by (auto simp: x and_then_value give_def)
  have "merged_ok F st1" using merge_source_ok [OF one Cons.prems(2)] Cons.prems(3) [of x] x by simp
  then show ?case using Cons.IH [OF rest(1)] Cons.prems(3) rest(2) by auto
qed

lemma nothing_merged_ok: "merged_ok F nothing_merged"
  by (auto simp: merged_ok_def nothing_merged_def max_report_categories_def max_dataset_records_def)

section \<open>What the runner reads\<close>

lemma merged_row_fields:
  "jget_or d ''id'' (canon_members (merged_row name o1 i c md row)) = JStr i"
  "jget_or d ''category'' (canon_members (merged_row name o1 i c md row)) = JStr c"
  by (simp_all add: jget_or_canon merged_row_def dict_get_set)

lemma parse_row_fields:
  assumes "parse_row D row n = Inr x" "jget_or (JInt (int n)) ''id'' row = JStr i"
    and "jget_or (JStr ''default'') ''category'' row = JStr c" "text_ok i" "text_ok c"
  shows "sample_id x = i" and "sample_category x = c"
  using assms by (auto simp: parse_row_def Let_def check_simps text_ok_def nonempty_or_def)

lemma row_line_not_blank: "\<not> blank_bytes (row_line fr row)"
proof -
  have "take 1 (row_line fr row) = ''{''"
    by (cases "sort_key fst (map (\<lambda>(k, v). (k, canon v)) row)")
      (auto simp: row_line_def canonical_json_def encode_utf8_def utf8_char_def)
  then obtain cs where "row_line fr row = CHR ''{'' # cs" by (cases "row_line fr row") auto
  then show ?thesis by (simp add: blank_bytes_def)
qed

lemma load_lines_ok:
  assumes loads: "\<And>row. row_line fr row \<in> set ls \<Longrightarrow> dt_loads D (row_line fr row) = Some (canon (JObj row))"
    and fr: "fr = fa_float F"
  shows "list_all2 (merged_line F) ls ps \<Longrightarrow> load_lines D n ls seen = Inr xs \<Longrightarrow>
     map (\<lambda>x. (sample_id x, sample_category x)) xs = ps \<and> distinct (map sample_id xs)
       \<and> set (map sample_id xs) \<inter> set seen = {}"
  using loads
proof (induction ls arbitrary: ps n seen xs)
  case Nil
  then show ?case by simp
next
  case (Cons l ls)
  obtain p ps' where p: "ps = p # ps'" "merged_line F l p" "list_all2 (merged_line F) ls ps'"
    using Cons.prems(1) by (auto simp: list_all2_Cons1)
  obtain name original md row where l: "l = row_line fr (merged_row name original (fst p) (snd p) md row)"
    and texts: "text_ok (fst p)" "text_ok (snd p)"
    using p(2) fr by (auto simp: merged_line_def)
  let ?row = "canon_members (merged_row name original (fst p) (snd p) md row)"
  have read: "dt_loads D l = Some (JObj ?row)"
    using Cons.prems(3) [of "merged_row name original (fst p) (snd p) md row"] unfolding l canon_object by simp
  obtain x xs' where x: "parse_row D ?row (n + 1) = Inr x" "sample_id x \<notin> set seen"
    and xs: "load_lines D (n + 1) ls (sample_id x # seen) = Inr xs'" "xs = x # xs'"
    using Cons.prems(2) read row_line_not_blank [of fr] by (auto simp: l check_simps)
  have f: "sample_id x = fst p" "sample_category x = snd p"
    using parse_row_fields [OF x(1) merged_row_fields texts] by simp_all
  have "map (\<lambda>x. (sample_id x, sample_category x)) xs' = ps' \<and> distinct (map sample_id xs')
      \<and> set (map sample_id xs') \<inter> set (sample_id x # seen) = {}"
    by (rule Cons.IH [OF p(3) xs(1)]) (use Cons.prems(3) in simp)
  then show ?case using f x(2) p(1) xs(2) by auto
qed

text \<open>
  C31. The data set that the agent prepares for an evaluation fits. Whatever the source files hold: if the
  merge succeeds and the runner can read the merged file, then the samples have distinct, printable
  identifiers and categories, at most 200000 of them in at most 4096 categories, so that a report about
  them is acceptable; and the manifest written beside the file reads back as the fingerprint the runner
  computes and the number of samples it sees.
\<close>

theorem prepared_data_fits:
  assumes "merge_sources F base sources 0 nothing_merged f = (f', Inr (st, js))"
    and "mg_records st \<noteq> 0" and "\<And>s. s \<in> set sources \<Longrightarrow> source_name_ok (fst s)"
    and "float_text (fa_float F)" and "dt_sha256 D = fa_sha256 F" and "\<And>x. is_sha256 (fa_sha256 F x)"
    and "\<And>row. row_line (fa_float F) row \<in> set (mg_lines st) \<Longrightarrow>
           dt_loads D (row_line (fa_float F) row) = Some (canon (JObj row))"
    and "load_jsonl D (merged_text st) = Inr (xs, sha)"
  shows "samples_ok xs \<and> manifest_summary (canon (manifest_json F p st n js)) = Inr (sha, int (length xs))"
proof -
  have ok: "merged_ok F st" and js: "length js = length sources"
    using merge_sources_ok [OF assms(1) nothing_merged_ok assms(3)] by simp_all
  then obtain ps where ps: "list_all2 (merged_line F) (mg_lines st) ps" "map fst ps = mg_ids st"
      "set (map snd ps) \<subseteq> set (mg_categories st)"
    and st: "distinct (mg_ids st)" "length (mg_categories st) \<le> max_report_categories"
      "mg_records st = length (mg_lines st)" "int (mg_records st) \<le> max_dataset_records"
    by (auto simp: merged_ok_def)
  let ?ls = "rev (mg_lines st)"
  have ls: "list_all2 (merged_line F) ?ls (rev ps)" using ps(1) by (simp add: list_all2_rev)
  have "file_lines (merged_text st) = ?ls"
    unfolding merged_text_def
  proof (rule file_lines_concat [OF assms(4)])
    fix l assume "l \<in> set ?ls"
    then show "\<exists>row. l = row_line (fa_float F) row"
      using ps(1) by (auto simp: list_all2_conv_all_nth in_set_conv_nth merged_line_def)
  qed
  then have read: "load_lines D 0 ?ls [] = Inr xs" and sha: "sha = fa_sha256 F (merged_text st)" and ne: "xs \<noteq> []"
    using assms(5,8) by (auto simp: load_jsonl_def check_simps)
  have fields: "map (\<lambda>x. (sample_id x, sample_category x)) xs = rev ps \<and> distinct (map sample_id xs)
      \<and> set (map sample_id xs) \<inter> set [] = {}"
    by (rule load_lines_ok [OF _ refl ls read]) (use assms(7) in simp)
  have len: "length xs = mg_records st"
    using arg_cong [OF conjunct1 [OF fields], of length] list_all2_lengthD [OF ps(1)] st(3) by simp
  have texts: "text_ok (fst p) \<and> text_ok (snd p)" if "p \<in> set ps" for p
    using ps(1) that by (auto simp: list_all2_conv_all_nth in_set_conv_nth merged_line_def)
  have pairs: "(sample_id x, sample_category x) \<in> set ps" if "x \<in> set xs" for x
    using that arg_cong [OF conjunct1 [OF fields], of set] by auto
  have "set (map sample_category xs) \<subseteq> set (mg_categories st)"
    using pairs ps(3) by force
  then have "card (set (map sample_category xs)) \<le> card (set (mg_categories st))"
    by (intro card_mono) simp_all
  also have "\<dots> \<le> max_report_categories" using card_length [of "mg_categories st"] st(2) by (rule order_trans)
  finally have "card (set (map sample_category xs)) \<le> max_report_categories" .
  moreover have "text_ok (sample_id x) \<and> text_ok (sample_category x)" if "x \<in> set xs" for x
    using texts [OF pairs [OF that]] by simp
  ultimately have samples: "samples_ok xs"
    using fields ne len st(4) by (simp add: samples_ok_def list_all_iff)
  have "sources \<noteq> []"
    using assms(1,2) by (auto simp: give_def nothing_merged_def)
  then have "js \<noteq> []" using js by auto
  then have "manifest_summary (canon (manifest_json F p st n js)) = Inr (sha, int (length xs))"
    using sha len assms(2,6) st(4)
    by (simp add: manifest_summary_def manifest_json_def sha256_field_def max_dataset_records_def canon_object
        jget_canon del: canon.simps(2))
  with samples show ?thesis ..
qed

definition demo_rows :: "(string \<times> json_obj) list" where
  "demo_rows =
     [(''r1'', [(''question'', JStr ''q''), (''task_type'', JStr ''short_qa''), (''answer'', JStr ''y'')]),
      (''r2'', [(''id'', JStr ''z''), (''task_type'', JStr ''classification''), (''question'', JStr ''t''),
         (''answers'', JArr [JStr ''n'']), (''category'', JStr ''c'')])]"

definition demo_access :: "tree file_access" where
  "demo_access = \<lparr>fa_host = demo_host, fa_lstat = (\<lambda>p. give (RegularFile, 1)), fa_size = (\<lambda>p. give 1),
     fa_read = (\<lambda>p. give []),
     fa_source = (\<lambda>p. give \<lparr>so_regular = True, so_size = 6, so_lines = [''r1'', ''r2''], so_changed = False\<rparr>),
     fa_replace = (\<lambda>p w. give ()),
     fa_loads = (\<lambda>w. case map_of demo_rows w of None \<Rightarrow> Inl ''json'' | Some row \<Rightarrow> Inr (JObj row)),
     fa_sha256 = (\<lambda>_. replicate 64 (CHR ''0'')), fa_float = demo_float, fa_text = (\<lambda>_. ''?'')\<rparr>"

definition demo_state :: tree where "demo_state = [([''/''], DirectoryFile)]"

definition demo_sources :: "(string \<times> path \<times> path) list" where
  "demo_sources = [(''a'', [''/'', ''d'', ''a.jsonl''], [''/'', ''d''])]"

definition demo_written :: json_obj where
  "demo_written = merged_row ''a'' ''1'' ''a:1'' ''a/default'' [] (snd (hd demo_rows))"

definition demo_written2 :: json_obj where
  "demo_written2 = merged_row ''a'' ''z'' ''a:z'' ''a/c'' [] (snd (hd (tl demo_rows)))"

definition demo_merged :: merged where
  "demo_merged = \<lparr>mg_ids = [''a:z'', ''a:1''], mg_categories = [''a/c'', ''a/default''], mg_id_bytes = 6,
     mg_lines = [row_line demo_float demo_written2, row_line demo_float demo_written], mg_records = 2\<rparr>"

definition demo_dataset_tools :: dataset_tools where
  "demo_dataset_tools = \<lparr>dt_loads = (\<lambda>w.
       if w = row_line demo_float demo_written then Some (canon (JObj demo_written))
       else if w = row_line demo_float demo_written2 then Some (canon (JObj demo_written2)) else None),
     dt_upper = (\<lambda>s. s), dt_text = (\<lambda>_. ''?''), dt_sha256 = (\<lambda>_. replicate 64 (CHR ''0''))\<rparr>"

lemma demo_texts:
  "safe_short_text 191 None ''id'' (JStr ''1'') = Inr ''1''" "safe_short_text 191 None ''id'' (JStr ''z'') = Inr ''z''"
  "safe_short_text 191 (Some ''default'') ''category'' JNull = Inr ''default''"
  "safe_short_text 191 (Some ''default'') ''category'' (JStr ''c'') = Inr ''c''"
  "length (encode_utf8 ''a:1'') = 3" "length (encode_utf8 ''a:z'') = 3" "str_int 1 = ''1''"
  "blank_bytes ''r1'' = False" "blank_bytes ''r2'' = False"
  by code_simp+

lemma demo_lines: "length (row_line demo_float demo_written) < 200" "length (row_line demo_float demo_written2) < 200"
  by code_simp+

lemma demo_merge_lines:
  "merge_lines demo_access ''a'' 0 [''r1'', ''r2''] nothing_merged = Inr demo_merged"
  by (simp add: demo_texts merge_row_def demo_access_def demo_rows_def nothing_merged_def jget_or_def jget_def
      max_dataset_line_bytes_def max_report_sample_id_bytes_def max_report_categories_def max_dataset_records_def
      demo_merged_def row_line_def demo_written_def demo_written2_def Let_def)

lemma demo_merge:
  "\<exists>js. merge_sources demo_access [''/''] demo_sources 0 nothing_merged demo_state = (demo_state, Inr (demo_merged, js))"
proof -
  have src: "fa_source demo_access p s = (s, Inr \<lparr>so_regular = True, so_size = 6, so_lines = [''r1'', ''r2''], so_changed = False\<rparr>)"
    and res: "h_resolve (fa_host demo_access) True [''/''] demo_state = (demo_state, Inr [''/''])" for p s
    by (simp_all add: demo_access_def give_def demo_host_def demo_state_def)
  have "mg_records demo_merged - mg_records nothing_merged \<noteq> 0" by (simp add: demo_merged_def nothing_merged_def)
  then show ?thesis
    by (simp add: demo_sources_def merge_source_def Let_def run_simps src res demo_merge_lines
        max_dataset_file_bytes_def max_dataset_total_bytes_def split: prod.splits
        del: merge_lines.simps)
qed

lemma demo_lines_differ: "row_line demo_float demo_written \<noteq> row_line demo_float demo_written2"
proof
  assume "row_line demo_float demo_written = row_line demo_float demo_written2"
  then have "canon_members demo_written = canon_members demo_written2"
    using canonical_json_iff [OF demo_float_text] by (simp only: row_line_def append_same_eq canon_object json.inject)
  then have "jget_or JNull ''id'' (canon_members demo_written) = jget_or JNull ''id'' (canon_members demo_written2)"
    by simp
  then show False
    unfolding demo_written_def demo_written2_def merged_row_fields by simp
qed

lemma demo_parse:
  "parse_row demo_dataset_tools (canon_members demo_written) n = Inr \<lparr>sample_id = ''a:1'', sample_task = SHORT_QA,
     question = ''q'', answers = [''y''], sample_category = ''a/default'', choices = [], sample_context = None\<rparr>"
  "parse_row demo_dataset_tools (canon_members demo_written2) n = Inr \<lparr>sample_id = ''a:z'', sample_task = CLASSIFICATION,
     question = ''t'', answers = [''n''], sample_category = ''a/c'', choices = [], sample_context = None\<rparr>"
proof -
  have strips: "strip ''a:1'' = ''a:1''" "strip ''a:z'' = ''a:z''" "strip ''a/default'' = ''a/default''"
    "strip ''a/c'' = ''a/c''" "strip ''q'' = ''q''" "strip ''t'' = ''t''" "strip ''y'' = ''y''" "strip ''n'' = ''n''"
    by code_simp+
  show "parse_row demo_dataset_tools (canon_members demo_written) n = Inr \<lparr>sample_id = ''a:1'', sample_task = SHORT_QA,
     question = ''q'', answers = [''y''], sample_category = ''a/default'', choices = [], sample_context = None\<rparr>"
    "parse_row demo_dataset_tools (canon_members demo_written2) n = Inr \<lparr>sample_id = ''a:z'', sample_task = CLASSIFICATION,
     question = ''t'', answers = [''n''], sample_category = ''a/c'', choices = [], sample_context = None\<rparr>"
    by (simp_all add: parse_row_def jget_canon jget_or_canon demo_written_def demo_written2_def merged_row_def demo_rows_def
        task_of_def parse_answers_def required_text_def nonblank_def nonempty_or_def strips)
qed

lemma demo_load:
  "\<exists>xs. load_jsonl demo_dataset_tools (merged_text demo_merged) = Inr (xs, replicate 64 (CHR ''0'')) \<and> length xs = 2"
proof -
  have lines: "file_lines (merged_text demo_merged) = [row_line demo_float demo_written, row_line demo_float demo_written2]"
    unfolding merged_text_def
    by (subst file_lines_concat [OF demo_float_text]) (auto simp: demo_merged_def)
  have loads: "dt_loads demo_dataset_tools (row_line demo_float demo_written) = Some (JObj (canon_members demo_written))"
    "dt_loads demo_dataset_tools (row_line demo_float demo_written2) = Some (JObj (canon_members demo_written2))"
    using demo_lines_differ by (simp_all add: demo_dataset_tools_def canon_object del: canon.simps)
  obtain xs where "load_lines demo_dataset_tools 0 [row_line demo_float demo_written, row_line demo_float demo_written2] [] = Inr xs"
      and len: "length xs = 2"
    using demo_lines by (simp add: loads demo_parse row_line_not_blank max_dataset_line_bytes_def)
  moreover have "dt_sha256 demo_dataset_tools w = replicate 64 (CHR ''0'')" for w
    by (simp add: demo_dataset_tools_def)
  moreover have "xs \<noteq> []" using len by auto
  ultimately have "load_jsonl demo_dataset_tools (merged_text demo_merged) = Inr (xs, replicate 64 (CHR ''0''))"
    unfolding load_jsonl_def lines by (simp only: on_ok.simps check_True simp_thms)
  with len show ?thesis by blast
qed

lemma prepared_data_fits_witness:
  "\<exists>js xs. load_jsonl demo_dataset_tools (merged_text demo_merged) = Inr (xs, replicate 64 (CHR ''0'')) \<and> samples_ok xs
     \<and> manifest_summary (canon (manifest_json demo_access [''/'', ''e''] demo_merged 9 js)) = Inr (replicate 64 (CHR ''0''), 2)"
proof -
  obtain js where js: "merge_sources demo_access [''/''] demo_sources 0 nothing_merged demo_state = (demo_state, Inr (demo_merged, js))"
    using demo_merge by blast
  obtain xs where xs: "load_jsonl demo_dataset_tools (merged_text demo_merged) = Inr (xs, replicate 64 (CHR ''0''))" "length xs = 2"
    using demo_load by blast
  have fa: "fa_float demo_access = demo_float" "\<And>w. fa_sha256 demo_access w = replicate 64 (CHR ''0'')"
    by (simp_all add: demo_access_def)
  have fr: "float_text (fa_float demo_access)" by (simp add: fa demo_float_text)
  have name: "source_name_ok (fst s)" if "s \<in> set demo_sources" for s
  proof -
    have "source_name_ok ''a''" by code_simp
    then show ?thesis using that by (simp add: demo_sources_def)
  qed
  have sha: "dt_sha256 demo_dataset_tools = fa_sha256 demo_access"
    by (simp add: demo_dataset_tools_def demo_access_def)
  have hex: "is_sha256 (fa_sha256 demo_access w)" for w
  proof -
    have "is_sha256 (replicate 64 (CHR ''0''))" by code_simp
    then show ?thesis by (simp only: fa)
  qed
  have loads: "dt_loads demo_dataset_tools (row_line (fa_float demo_access) row) = Some (canon (JObj row))"
    if row: "row_line (fa_float demo_access) row \<in> set (mg_lines demo_merged)" for row
  proof -
    have same: "canon (JObj row') = canon (JObj row)" if "row_line demo_float row' = row_line demo_float row" for row'
      using that canonical_json_iff [OF demo_float_text] by (simp only: row_line_def append_same_eq)
    have "row_line demo_float row = row_line demo_float demo_written2 \<or> row_line demo_float row = row_line demo_float demo_written"
      using row by (simp add: fa demo_merged_def)
    then show ?thesis
      unfolding fa using same [of demo_written] same [of demo_written2] demo_lines_differ
      by (auto simp: demo_dataset_tools_def simp del: canon.simps)
  qed
  have "mg_records demo_merged \<noteq> 0" by (simp add: demo_merged_def)
  from prepared_data_fits [OF js this name fr sha hex loads xs(1), of "[''/'', ''e'']" 9] xs
  show ?thesis by auto
qed

end
