(* ===== verification/Safetensors.thy ===== *)
theory Safetensors
  imports Checks CanonicalJson "HOL-Library.Product_Lexorder" "HOL-Library.Multiset"
begin

text \<open>
  The header of a safetensors file, as the importer checks it before a model enters the store
  (\<open>openllmops_model_importer/validation.py\<close>) and as the control plane checks it again before a model
  is trained or published (\<open>services/training_control.py\<close>). A file is its bytes; \<open>json.loads\<close> and
  SHA-256 are parameters.
\<close>

section \<open>JSON text\<close>

record file_tools =
  ft_parse :: "string \<Rightarrow> string + json"        \<comment> \<open>\<open>json.loads\<close> without NaN and infinities\<close>
  ft_sha256 :: "string \<Rightarrow> string"
  ft_float :: "rat \<Rightarrow> string"
  ft_text :: "json \<Rightarrow> string"                  \<comment> \<open>\<open>str\<close> of a value that is no string\<close>

text \<open>\<open>object_pairs_hook=_unique_json_object\<close>: no object of the value repeats a field.\<close>

fun unique_fields :: "json \<Rightarrow> bool" where
  "unique_fields (JArr vs) = list_all unique_fields vs"
| "unique_fields (JObj kvs) \<longleftrightarrow> distinct (map fst kvs) \<and> list_all (\<lambda>(_, v). unique_fields v) kvs"
| "unique_fields _ = True"

definition loads_unique :: "file_tools \<Rightarrow> string \<Rightarrow> string + json" where
  "loads_unique T raw =
     on_ok (ft_parse T raw) (\<lambda>v. on_ok (check (unique_fields v) ''field repeated'') (\<lambda>_. Inr v))"

definition json_truthy :: "json \<Rightarrow> bool" where
  "json_truthy v = (case v of
     JNull \<Rightarrow> False | JBool b \<Rightarrow> b | JInt n \<Rightarrow> n \<noteq> 0 | JFloat r \<Rightarrow> r \<noteq> 0
   | JStr s \<Rightarrow> s \<noteq> [] | JArr vs \<Rightarrow> vs \<noteq> [] | JObj kvs \<Rightarrow> kvs \<noteq> [])"

definition max_json_metadata_bytes :: nat where "max_json_metadata_bytes = 16 * 1024 * 1024"

definition load_json :: "file_tools \<Rightarrow> string \<Rightarrow> string \<Rightarrow> string + json_obj" where
  "load_json T label raw =
     on_ok (check (1 \<le> length raw \<and> length raw \<le> max_json_metadata_bytes) label) (\<lambda>_.
     on_ok (loads_unique T raw) (\<lambda>v. some_or label (obj_value v)))"

section \<open>The header of a file\<close>

definition max_safetensors_header_bytes :: nat where
  "max_safetensors_header_bytes = 100 * 1024 * 1024"

definition max_parameter_count :: int where
  "max_parameter_count = 2 ^ 63 - 1"

text \<open>\<open>int.from_bytes(..., "little")\<close>.\<close>

fun from_little :: "string \<Rightarrow> nat" where
  "from_little [] = 0"
| "from_little (c # cs) = code c + 256 * from_little cs"

definition header_length :: "string \<Rightarrow> nat" where
  "header_length bytes = from_little (take 8 bytes)"

definition header_bytes :: "string \<Rightarrow> string" where
  "header_bytes bytes = take (header_length bytes) (drop 8 bytes)"

text \<open>The length of the data region, behind the eight length bytes and the header.\<close>

definition data_length :: "string \<Rightarrow> nat" where
  "data_length bytes = length bytes - 8 - header_length bytes"

definition metadata_key :: string where
  "metadata_key = ''__metadata__''"

definition read_header :: "file_tools \<Rightarrow> string \<Rightarrow> string + json_obj" where
  "read_header T bytes =
     on_ok (check (10 \<le> length bytes) ''file too small'') (\<lambda>_.
     on_ok (check (2 \<le> header_length bytes \<and> header_length bytes \<le> max_safetensors_header_bytes) ''header size'') (\<lambda>_.
     on_ok (check (8 + header_length bytes \<le> length bytes) ''header out of bounds'') (\<lambda>_.
     on_ok (loads_unique T (header_bytes bytes)) (\<lambda>v.
     on_ok (some_or ''no tensors'' (obj_value v)) (\<lambda>kvs.
     on_ok (check (list_ex (\<lambda>k. k \<noteq> metadata_key) (map fst kvs)) ''no tensors'') (\<lambda>_.
     Inr kvs))))))"

section \<open>One tensor\<close>

text \<open>\<open>SAFETENSORS_DTYPE_BITS\<close>.\<close>

definition dtype_bits :: "(string \<times> int) list" where
  "dtype_bits =
     [(''BOOL'', 8), (''F4'', 4), (''F6_E2M3'', 6), (''F6_E3M2'', 6), (''U8'', 8), (''I8'', 8),
      (''F8_E5M2'', 8), (''F8_E4M3'', 8), (''F8_E8M0'', 8), (''F8_E4M3FNUZ'', 8), (''F8_E5M2FNUZ'', 8),
      (''I16'', 16), (''U16'', 16), (''F16'', 16), (''BF16'', 16), (''I32'', 32), (''U32'', 32),
      (''F32'', 32), (''C64'', 64), (''F64'', 64), (''I64'', 64), (''U64'', 64)]"

fun int_values :: "json list \<Rightarrow> int list option" where
  "int_values [] = Some []"
| "int_values (JInt n # vs) = map_option ((#) n) (int_values vs)"
| "int_values (_ # vs) = None"

definition shape_value :: "json \<Rightarrow> int list option" where
  "shape_value v = (case v of
     JArr vs \<Rightarrow> (case int_values vs of
        Some ns \<Rightarrow> (if list_all (\<lambda>n. 0 \<le> n) ns then Some ns else None)
      | None \<Rightarrow> None)
   | _ \<Rightarrow> None)"

definition offsets_value :: "int \<Rightarrow> json \<Rightarrow> (int \<times> int) option" where
  "offsets_value data_size v = (case v of
     JArr vs \<Rightarrow> (case int_values vs of
        Some [a, b] \<Rightarrow> (if 0 \<le> a \<and> a \<le> b \<and> b \<le> data_size then Some (a, b) else None)
      | _ \<Rightarrow> None)
   | _ \<Rightarrow> None)"

record tensor =
  tn_name :: string
  tn_start :: int
  tn_end :: int
  tn_count :: int
  tn_dtype :: string

text \<open>The bytes of a tensor against its shape and element type.\<close>

definition stored_exactly :: "int \<Rightarrow> int \<Rightarrow> int \<Rightarrow> int \<Rightarrow> bool" where
  "stored_exactly elements bits a b \<longleftrightarrow> (elements * bits) mod 8 = 0 \<and> b - a = (elements * bits) div 8"

text \<open>One turn of the loop over the header; \<open>sofar\<close> is the number of parameters so far.\<close>

definition read_tensor :: "int \<Rightarrow> int \<Rightarrow> string \<Rightarrow> json \<Rightarrow> string + tensor" where
  "read_tensor data_size sofar name v =
     on_ok (check (name \<noteq> []) ''tensor'') (\<lambda>_.
     on_ok (some_or ''tensor'' (obj_value v)) (\<lambda>kvs.
     on_ok (some_or ''shape'' (shape_value (jget ''shape'' kvs))) (\<lambda>dims.
     on_ok (some_or ''offsets'' (offsets_value data_size (jget ''data_offsets'' kvs))) (\<lambda>(a, b).
     on_ok (some_or ''dtype'' (str_value (jget ''dtype'' kvs))) (\<lambda>dtype.
     on_ok (some_or ''dtype'' (map_of dtype_bits dtype)) (\<lambda>bits.
     let elements = prod_list dims in
     on_ok (check (sofar + elements \<le> max_parameter_count) ''too many parameters'') (\<lambda>_.
     on_ok (check (stored_exactly elements bits a b) ''tensor size'') (\<lambda>_.
     Inr \<lparr>tn_name = name, tn_start = a, tn_end = b, tn_count = elements, tn_dtype = dtype\<rparr>))))))))"

fun read_tensors :: "int \<Rightarrow> int \<Rightarrow> json_obj \<Rightarrow> string + tensor list" where
  "read_tensors data_size sofar [] = Inr []"
| "read_tensors data_size sofar ((name, v) # kvs) =
     (if name = metadata_key then
        on_ok (some_or ''metadata'' (obj_value v)) (\<lambda>_. read_tensors data_size sofar kvs)
      else
        on_ok (read_tensor data_size sofar name v) (\<lambda>t.
        on_ok (read_tensors data_size (sofar + tn_count t) kvs) (\<lambda>ts. Inr (t # ts))))"

section \<open>The whole file\<close>

record safetensors_summary =
  ss_names :: "string list"
  ss_parameters :: int
  ss_dtypes :: "string list"

definition tensor_range :: "tensor \<Rightarrow> int \<times> int \<times> string" where
  "tensor_range t = (tn_start t, tn_end t, tn_name t)"

text \<open>The loop over the sorted ranges: where it ends, unless there is a gap or an overlap.\<close>

fun tiled_to :: "int \<Rightarrow> (int \<times> int \<times> string) list \<Rightarrow> int option" where
  "tiled_to cursor [] = Some cursor"
| "tiled_to cursor ((a, b, _) # rs) = (if a = cursor then tiled_to b rs else None)"

definition validate_safetensors :: "file_tools \<Rightarrow> string \<Rightarrow> string + safetensors_summary" where
  "validate_safetensors T bytes =
     on_ok (read_header T bytes) (\<lambda>header.
     on_ok (read_tensors (int (data_length bytes)) 0 header) (\<lambda>ts.
     on_ok (some_or ''gap or overlap'' (tiled_to 0 (sort (map tensor_range ts)))) (\<lambda>cursor.
     on_ok (check (cursor = int (data_length bytes)) ''data not covered'') (\<lambda>_.
     Inr \<lparr>ss_names = map tn_name ts, ss_parameters = sum_list (map tn_count ts),
          ss_dtypes = remdups (map tn_dtype ts)\<rparr>))))"

text \<open>\<open>training_control._validate_safetensors\<close>: the same header, fewer conditions on a tensor.\<close>

definition control_tensor_ok :: "int \<Rightarrow> string \<times> json \<Rightarrow> bool" where
  "control_tensor_ok data_size p \<longleftrightarrow> fst p = metadata_key \<or>
     (case obj_value (snd p) of
        None \<Rightarrow> False
      | Some kvs \<Rightarrow> str_value (jget ''dtype'' kvs) \<noteq> None \<and> shape_value (jget ''shape'' kvs) \<noteq> None
          \<and> offsets_value data_size (jget ''data_offsets'' kvs) \<noteq> None)"

definition control_safetensors :: "file_tools \<Rightarrow> string \<Rightarrow> string + unit" where
  "control_safetensors T bytes =
     on_ok (read_header T bytes) (\<lambda>header.
     check (list_all (control_tensor_ok (int (data_length bytes))) header) ''tensor'')"

section \<open>What an accepted file contains\<close>

lemma obj_value_iff: "obj_value v = Some kvs \<longleftrightarrow> v = JObj kvs"
  by (cases v) auto

lemma some_or_Inr [check_simps]: "some_or x m = Inr a \<longleftrightarrow> m = Some a"
  by (cases m) simp_all

lemma sum_list_mset: "mset xs = mset ys \<Longrightarrow> sum_list xs = (sum_list ys :: int)"
  by (metis sum_mset_sum_list)

lemma tiled_to_facts:
  assumes "tiled_to c rs = Some e" "\<forall>(a, b, n) \<in> set rs. a \<le> b"
  shows "c \<le> e \<and> (\<forall>(a, b, n) \<in> set rs. c \<le> a \<and> b \<le> e)
    \<and> (\<forall>i. c \<le> i \<and> i < e \<longrightarrow> (\<exists>!r. r \<in> set rs \<and> fst r \<le> i \<and> i < fst (snd r)))
    \<and> sum_list (map (\<lambda>(a, b, n). b - a) rs) = e - c"
  using assms
proof (induction rs arbitrary: c)
  case Nil
  then show ?case by auto
next
  case (Cons r rs)
  obtain a b n where r: "r = (a, b, n)" by (cases r)
  have step: "a = c" "tiled_to b rs = Some e" "c \<le> b" "\<forall>(a, b, n) \<in> set rs. a \<le> b"
    using Cons.prems by (auto simp: r split: if_splits)
  note IH = Cons.IH [OF step(2,4)]
  have later: "b \<le> fst q" if "q \<in> set rs" for q using IH that by (cases q) auto
  have one: "\<exists>!q. q \<in> set (r # rs) \<and> fst q \<le> i \<and> i < fst (snd q)" if "c \<le> i" "i < e" for i
  proof (cases "i < b")
    case True
    show ?thesis
    proof (rule ex1I [of _ r])
      show "r \<in> set (r # rs) \<and> fst r \<le> i \<and> i < fst (snd r)" using True that step(1) by (simp add: r)
      fix q assume "q \<in> set (r # rs) \<and> fst q \<le> i \<and> i < fst (snd q)"
      then show "q = r" using later [of q] True by auto
    qed
  next
    case False
    have "\<exists>!q. q \<in> set rs \<and> fst q \<le> i \<and> i < fst (snd q)"
      using conjunct1 [OF conjunct2 [OF conjunct2 [OF IH]]] False \<open>i < e\<close> by simp
    moreover have "q \<in> set (r # rs) \<and> fst q \<le> i \<and> i < fst (snd q) \<longleftrightarrow>
        q \<in> set rs \<and> fst q \<le> i \<and> i < fst (snd q)" for q
      using False by (auto simp: r)
    ultimately show ?thesis by presburger
  qed
  show ?case
    using step IH one by (auto simp: r)
qed

lemmas tiled_to_covers = tiled_to_facts [THEN conjunct2, THEN conjunct2, THEN conjunct1, THEN spec, THEN mp]
  tiled_to_facts [THEN conjunct2, THEN conjunct2, THEN conjunct2]

lemma read_tensor_ok:
  assumes "read_tensor d sofar name v = Inr t"
  shows "tn_name t = name" "0 \<le> tn_start t" "tn_start t \<le> tn_end t" "tn_end t \<le> d"
    and "sofar + tn_count t \<le> max_parameter_count" and "0 \<le> tn_count t"
    and "\<exists>bits. map_of dtype_bits (tn_dtype t) = Some bits \<and> 8 * (tn_end t - tn_start t) = tn_count t * bits"
    and "control_tensor_ok d (name, v)"
proof -
  obtain kvs dims a b dtype bits where *: "obj_value v = Some kvs" "shape_value (jget ''shape'' kvs) = Some dims"
      "offsets_value d (jget ''data_offsets'' kvs) = Some (a, b)" "str_value (jget ''dtype'' kvs) = Some dtype"
      "map_of dtype_bits dtype = Some bits" "sofar + prod_list dims \<le> max_parameter_count"
      "stored_exactly (prod_list dims) bits a b"
      "t = \<lparr>tn_name = name, tn_start = a, tn_end = b, tn_count = prod_list dims, tn_dtype = dtype\<rparr>"
    using assms
    by (auto simp: read_tensor_def Let_def check_simps split: prod.splits)
  have dims: "list_all (\<lambda>n. 0 \<le> n) dims"
    using *(2) by (auto simp: shape_value_def split: json.splits option.splits if_splits)
  have "0 \<le> prod_list dims" using dims by (induction dims) auto
  moreover have "0 \<le> a \<and> a \<le> b \<and> b \<le> d"
    using *(3) by (auto simp: offsets_value_def split: json.splits option.splits list.splits if_splits)
  ultimately show "tn_name t = name" "0 \<le> tn_start t" "tn_start t \<le> tn_end t" "tn_end t \<le> d"
      "sofar + tn_count t \<le> max_parameter_count" "0 \<le> tn_count t"
    using *(6,8) by simp_all
  show "\<exists>bits. map_of dtype_bits (tn_dtype t) = Some bits \<and> 8 * (tn_end t - tn_start t) = tn_count t * bits"
    using *(5,7,8) by (auto simp: stored_exactly_def)
  show "control_tensor_ok d (name, v)" using *(1-4) by (simp add: control_tensor_ok_def)
qed

lemma read_tensors_facts:
  assumes "read_tensors d sofar kvs = Inr ts" "0 \<le> sofar" "sofar \<le> max_parameter_count"
  shows "map tn_name ts = filter (\<lambda>k. k \<noteq> metadata_key) (map fst kvs)
    \<and> sofar + sum_list (map tn_count ts) \<le> max_parameter_count \<and> 0 \<le> sum_list (map tn_count ts)
    \<and> (\<forall>t \<in> set ts. 0 \<le> tn_start t \<and> tn_start t \<le> tn_end t \<and> tn_end t \<le> d
      \<and> (\<exists>bits. map_of dtype_bits (tn_dtype t) = Some bits \<and> 8 * (tn_end t - tn_start t) = tn_count t * bits))
    \<and> list_all (control_tensor_ok d) kvs"
  using assms
proof (induction d sofar kvs arbitrary: ts rule: read_tensors.induct)
  case (1 d sofar)
  then show ?case by simp
next
  case (2 d sofar name v kvs)
  show ?case
  proof (cases "name = metadata_key")
    case True
    then have rest: "read_tensors d sofar kvs = Inr ts" using "2.prems"(1) by (auto simp: check_simps)
    have "control_tensor_ok d (name, v)" using True by (simp add: control_tensor_ok_def)
    then show ?thesis using "2.IH"(1) [OF True rest "2.prems"(2,3)] True by simp
  next
    case False
    then obtain t ts' where t: "read_tensor d sofar name v = Inr t"
        and rest: "read_tensors d (sofar + tn_count t) kvs = Inr ts'" and ts: "ts = t # ts'"
      using "2.prems"(1) by (auto simp: check_simps)
    note ok = read_tensor_ok [OF t]
    have "0 \<le> sofar + tn_count t" using "2.prems"(2) ok(6) by simp
    note IH = "2.IH"(2) [OF False rest this ok(5)]
    show ?thesis using IH ok False by (auto simp: ts)
  qed
qed

lemmas read_tensors_ok = read_tensors_facts [THEN conjunct1] read_tensors_facts [THEN conjunct2, THEN conjunct1]
  read_tensors_facts [THEN conjunct2, THEN conjunct2, THEN conjunct1]
  read_tensors_facts [THEN conjunct2, THEN conjunct2, THEN conjunct2, THEN conjunct1]
  read_tensors_facts [THEN conjunct2, THEN conjunct2, THEN conjunct2, THEN conjunct2]

lemma control_accepts_validated:
  assumes "validate_safetensors T bytes = Inr s"
  shows "control_safetensors T bytes = Inr ()"
proof -
  obtain header ts where "read_header T bytes = Inr header" "read_tensors (int (data_length bytes)) 0 header = Inr ts"
    using assms by (auto simp: validate_safetensors_def check_simps)
  moreover have "0 \<le> max_parameter_count" by (simp add: max_parameter_count_def)
  ultimately show ?thesis using read_tensors_ok(5) by (simp add: control_safetensors_def)
qed

text \<open>
  C32. A file the importer accepts is tiled by its tensors: the header lies inside the file, every byte
  of the data region belongs to exactly one tensor, each tensor has exactly the bytes its shape and
  element type need, names do not repeat, and the number of parameters fits a signed 64-bit column.
  The control plane's own check accepts the file as well.
\<close>

theorem accepted_tensors_tile_the_file:
  assumes "validate_safetensors T bytes = Inr s"
  shows "\<exists>header ts. read_header T bytes = Inr header \<and> read_tensors (int (data_length bytes)) 0 header = Inr ts
    \<and> 8 + header_length bytes + data_length bytes = length bytes
    \<and> (\<forall>i. 0 \<le> i \<and> i < int (data_length bytes) \<longrightarrow> (\<exists>!t. t \<in> set ts \<and> tn_start t \<le> i \<and> i < tn_end t))
    \<and> (\<forall>t \<in> set ts. 0 \<le> tn_start t \<and> tn_end t \<le> int (data_length bytes) \<and> (\<exists>bits. map_of dtype_bits (tn_dtype t) = Some bits
        \<and> 8 * (tn_end t - tn_start t) = tn_count t * bits))
    \<and> sum_list (map (\<lambda>t. tn_end t - tn_start t) ts) = int (data_length bytes)
    \<and> ss_names s = map tn_name ts \<and> distinct (ss_names s)
    \<and> ss_parameters s = sum_list (map tn_count ts) \<and> 0 \<le> ss_parameters s \<and> ss_parameters s < 2 ^ 63
    \<and> control_safetensors T bytes = Inr ()"
proof -
  obtain header ts where header: "read_header T bytes = Inr header"
      and ts: "read_tensors (int (data_length bytes)) 0 header = Inr ts"
      and tiled: "tiled_to 0 (sort (map tensor_range ts)) = Some (int (data_length bytes))"
      and s: "s = \<lparr>ss_names = map tn_name ts, ss_parameters = sum_list (map tn_count ts), ss_dtypes = remdups (map tn_dtype ts)\<rparr>"
    using assms by (auto simp: validate_safetensors_def check_simps)
  have keys: "distinct (map fst header)" and size: "8 + header_length bytes \<le> length bytes"
    using header by (auto simp: read_header_def loads_unique_def check_simps obj_value_iff)
  note ok = read_tensors_ok [OF ts]
  have pos: "0 \<le> max_parameter_count" by (simp add: max_parameter_count_def)
  note ok = ok [OF order_refl pos]
  have names: "distinct (map tn_name ts)" using ok(1) keys by simp
  have "\<forall>(a, b, n) \<in> set (sort (map tensor_range ts)). a \<le> b"
    using ok(4) by (auto simp: tensor_range_def)
  note cover = tiled_to_covers [OF tiled this]
  have one: "\<exists>!t. t \<in> set ts \<and> tn_start t \<le> i \<and> i < tn_end t" if i: "0 \<le> i" "i < int (data_length bytes)" for i
  proof -
    obtain r where r: "r \<in> tensor_range ` set ts" "fst r \<le> i" "i < fst (snd r)"
      and uniq: "\<And>q. q \<in> tensor_range ` set ts \<Longrightarrow> fst q \<le> i \<Longrightarrow> i < fst (snd q) \<Longrightarrow> q = r"
      using cover(1) [OF conjI [OF i]] unfolding set_sort set_map by (elim ex1E) blast
    obtain t where t: "t \<in> set ts" "r = tensor_range t" using r(1) by blast
    have same: "u = t" if "u \<in> set ts" "tn_start u \<le> i" "i < tn_end u" for u
    proof -
      have "tensor_range u = r" using uniq [of "tensor_range u"] that by (simp add: tensor_range_def)
      then have "tn_name u = tn_name t" by (simp add: t(2) tensor_range_def)
      then show ?thesis using names that(1) t(1) inj_onD [of tn_name "set ts" u t] by (simp add: distinct_map)
    qed
    have "tn_start t \<le> i" "i < tn_end t" using r(2,3) by (simp_all add: t(2) tensor_range_def)
    with t(1) show ?thesis by (intro ex1I [of _ t]) (simp, elim conjE, rule same)
  qed
  have "sum_list (map (\<lambda>t. tn_end t - tn_start t) ts) = sum_list (map (\<lambda>(a, b, n). b - a) (map tensor_range ts))"
    by (simp add: tensor_range_def comp_def)
  also have "\<dots> = sum_list (map (\<lambda>(a, b, n). b - a) (sort (map tensor_range ts)))"
    by (rule sum_list_mset) (simp only: mset_map mset_sort)
  finally have total: "sum_list (map (\<lambda>t. tn_end t - tn_start t) ts) = int (data_length bytes)" using cover(2) by simp
  show ?thesis
    using control_accepts_validated [OF assms] header ts one total names ok(2,3,4) size
    by (intro exI [of _ header] exI [of _ ts]) (auto simp: s data_length_def max_parameter_count_def)
qed


text \<open>Two tensors, out of order in the header: three bytes of data behind a header of two.\<close>

definition demo_tensors :: json_obj where
  "demo_tensors =
     [(''b'', JObj [(''dtype'', JStr ''BOOL''), (''shape'', JArr []), (''data_offsets'', JArr [JInt 2, JInt 3])]),
      (''__metadata__'', JObj []),
      (''a'', JObj [(''dtype'', JStr ''U8''), (''shape'', JArr [JInt 2]), (''data_offsets'', JArr [JInt 0, JInt 2])])]"

definition demo_weight :: string where
  "demo_weight = [CHR 0x02, CHR 0x00, CHR 0x00, CHR 0x00, CHR 0x00, CHR 0x00, CHR 0x00, CHR 0x00] @ ''{}'' @ ''xyz''"

definition demo_tools :: file_tools where
  "demo_tools = \<lparr>ft_parse = (\<lambda>w. if w = ''{}'' then Inr (JObj demo_tensors) else Inl ''json''), ft_sha256 = id,
     ft_float = demo_float, ft_text = (\<lambda>_. ''?'')\<rparr>"

lemma demo_weight_accepted:
  "validate_safetensors demo_tools demo_weight
     = Inr \<lparr>ss_names = [''b'', ''a''], ss_parameters = 3, ss_dtypes = [''BOOL'', ''U8'']\<rparr>"
  by (simp add: validate_safetensors_def read_header_def loads_unique_def demo_tools_def demo_weight_def
    demo_tensors_def header_length_def header_bytes_def data_length_def metadata_key_def read_tensor_def
    shape_value_def offsets_value_def stored_exactly_def dtype_bits_def max_parameter_count_def
    max_safetensors_header_bytes_def tensor_range_def Let_def check_def less_eq_prod_def)

lemma demo_data_length: "data_length demo_weight = 3"
  by (simp add: data_length_def header_length_def demo_weight_def)

lemma accepted_tensors_tile_the_file_witness:
  "\<exists>header ts. read_header demo_tools demo_weight = Inr header \<and> read_tensors 3 0 header = Inr ts
     \<and> (\<exists>!t. t \<in> set ts \<and> tn_start t \<le> 1 \<and> 1 < tn_end t) \<and> map tn_name ts = [''b'', ''a'']
     \<and> sum_list (map (\<lambda>t. tn_end t - tn_start t) ts) = 3 \<and> control_safetensors demo_tools demo_weight = Inr ()"
proof -
  obtain header ts where *: "read_header demo_tools demo_weight = Inr header" "read_tensors 3 0 header = Inr ts"
      "\<forall>i. 0 \<le> i \<and> i < 3 \<longrightarrow> (\<exists>!t. t \<in> set ts \<and> tn_start t \<le> i \<and> i < tn_end t)"
      "[''b'', ''a''] = map tn_name ts" "sum_list (map (\<lambda>t. tn_end t - tn_start t) ts) = 3"
      "control_safetensors demo_tools demo_weight = Inr ()"
    using accepted_tensors_tile_the_file [OF demo_weight_accepted,
        unfolded demo_data_length safetensors_summary.simps of_nat_numeral]
    by (elim exE conjE) (rule that)
  show ?thesis
    by (intro exI conjI, rule *(1), rule *(2), rule *(3) [rule_format], simp, rule *(4) [symmetric], rule *(5), rule *(6))
qed

end
