(* ===== verification/ModelFiles.thy ===== *)
theory ModelFiles
  imports Safetensors EvaluationFiles
begin

text \<open>
  The directory of a model. \<open>validate_model_directory\<close> of the importer
  (\<open>openllmops_model_importer/validation.py\<close>, \<open>paths.py\<close>) decides what enters the store and fingerprints
  it; \<open>_scan_tree\<close> and \<open>validate_deployable_model\<close> of \<open>services/training_control.py\<close> decide what is
  trained and published. A directory is a tree as one pass over it sees it: the checks of the code that
  a file did not change between two looks have nothing to find.
\<close>

section \<open>Trees\<close>

text \<open>A file has its device, the number of its hard links and its bytes.\<close>

datatype file_tree =
    FileNode nat nat string
  | DirNode nat "(string \<times> file_tree) list"
  | LinkNode nat
  | SpecialNode nat

fun is_link :: "file_tree \<Rightarrow> bool" where
  "is_link (LinkNode _) = True"
| "is_link _ = False"

type_synonym file_entry = "path \<times> string"

definition posix :: "path \<Rightarrow> string" where
  "posix p = join_with (CHR ''/'') p"

section \<open>What the importer reads\<close>

text \<open>\<open>iter_regular_files\<close>: the files of one directory, then its directories, as \<open>os.walk\<close> goes.\<close>

fun plain_files :: "path \<Rightarrow> (string \<times> file_tree) list \<Rightarrow> string + file_entry list" where
  "plain_files d [] = Inr []"
| "plain_files d ((n, FileNode _ _ bytes) # cs) = on_ok (plain_files d cs) (\<lambda>fs. Inr ((d @ [n], bytes) # fs))"
| "plain_files d ((n, DirNode _ _) # cs) = plain_files d cs"
| "plain_files d ((n, _) # cs) = Inl ''special file''"

definition files_here :: "path \<Rightarrow> (string \<times> file_tree) list \<Rightarrow> string + file_entry list" where
  "files_here d cs = on_ok (check (\<not> list_ex (is_link \<circ> snd) cs) ''link'') (\<lambda>_. plain_files d cs)"

fun files_below :: "path \<Rightarrow> (string \<times> file_tree) list \<Rightarrow> string + file_entry list" where
  "files_below d [] = Inr []"
| "files_below d ((n, DirNode _ cs) # rest) =
     on_ok (files_here (d @ [n]) cs) (\<lambda>fs.
     on_ok (files_below (d @ [n]) cs) (\<lambda>gs.
     on_ok (files_below d rest) (\<lambda>hs. Inr (fs @ gs @ hs))))"
| "files_below d (_ # rest) = files_below d rest"

definition iter_regular_files :: "file_tree \<Rightarrow> string + file_entry list" where
  "iter_regular_files base =
     (case base of
        DirNode _ cs \<Rightarrow> on_ok (files_here [] cs) (\<lambda>fs. on_ok (files_below [] cs) (\<lambda>gs. Inr (fs @ gs)))
      | _ \<Rightarrow> Inl ''not a directory'')"

definition top_level :: "file_entry list \<Rightarrow> (string \<times> string) list" where
  "top_level fs = map (\<lambda>f. (hd (fst f), snd f)) (filter (\<lambda>f. length (fst f) = 1) fs)"

section \<open>Weights\<close>

definition weight_file :: string where "weight_file = ''model.safetensors''"
definition index_file :: string where "index_file = ''model.safetensors.index.json''"

text \<open>\<open>SHARD_NAME\<close>: the two numbers of \<open>model-<n>-of-<m>.safetensors\<close>.\<close>

definition strip_prefix :: "string \<Rightarrow> string \<Rightarrow> string option" where
  "strip_prefix p s = (if take (length p) s = p then Some (drop (length p) s) else None)"

definition leading_number :: "string \<Rightarrow> (int \<times> string) option" where
  "leading_number s =
     (case dec_digits (takeWhile is_dec s) 0 False of
        None \<Rightarrow> None
      | Some n \<Rightarrow> Some (n, dropWhile is_dec s))"

definition shard_numbers :: "string \<Rightarrow> (int \<times> int) option" where
  "shard_numbers s =
     Option.bind (strip_prefix ''model-'' s) (\<lambda>s1.
     Option.bind (leading_number s1) (\<lambda>(n, s2).
     Option.bind (strip_prefix ''-of-'' s2) (\<lambda>s3.
     Option.bind (leading_number s3) (\<lambda>(m, s4).
     if s4 = ''.safetensors'' then Some (n, m) else None))))"

definition is_shard :: "string \<Rightarrow> bool" where
  "is_shard s \<longleftrightarrow> shard_numbers s \<noteq> None"

definition validate_shard_sequence :: "string list \<Rightarrow> string + unit" where
  "validate_shard_sequence names =
     on_ok (check (list_all is_shard names) ''shard name'') (\<lambda>_.
     let numbers = map (the \<circ> shard_numbers) names; totals = remdups (map snd numbers) in
     on_ok (check (length totals = 1 \<and> 0 \<notin> set totals) ''shard totals'') (\<lambda>_.
     check (int (length numbers) = hd totals \<and> distinct (map fst numbers)
       \<and> set (map fst numbers) = {1 .. hd totals}) ''shard numbers''))"

definition index_pairs :: "json_obj \<Rightarrow> string + (string \<times> string) list" where
  "index_pairs kvs =
     on_ok (some_or ''weight_map'' (obj_value (jget ''weight_map'' kvs))) (\<lambda>wm.
     on_ok (check (wm \<noteq> []) ''weight_map'') (\<lambda>_.
     check_each (\<lambda>(t, v). on_ok (some_or ''weight_map'' (str_value v)) (\<lambda>s.
       on_ok (check (t \<noteq> [] \<and> s \<noteq> []) ''weight_map'') (\<lambda>_. Inr (t, s)))) wm))"

text \<open>The weight files to read, and the index that maps tensors to shards when there is one.\<close>

definition select_weight_files ::
  "file_tools \<Rightarrow> (string \<times> string) list \<Rightarrow> string list \<Rightarrow> string + string list \<times> (string \<times> string) list option" where
  "select_weight_files T tops safetensors =
     (case (map_of tops weight_file, map_of tops index_file) of
        (Some _, Some _) \<Rightarrow> Inl ''single file and index''
      | (Some _, None) \<Rightarrow>
          on_ok (check (set safetensors \<subseteq> {weight_file}) ''other weights'') (\<lambda>_. Inr ([weight_file], None))
      | (None, None) \<Rightarrow> Inl ''no weights''
      | (None, Some raw) \<Rightarrow>
          on_ok (load_json T index_file raw) (\<lambda>kvs.
          on_ok (index_pairs kvs) (\<lambda>wm.
          let referenced = sort (remdups (map snd wm)) in
          on_ok (validate_shard_sequence referenced) (\<lambda>_.
          on_ok (check (list_all is_shard safetensors) ''other weights'') (\<lambda>_.
          on_ok (check (set referenced = set safetensors) ''index and shards differ'') (\<lambda>_.
          Inr (referenced, Some wm)))))))"

text \<open>The shard a tensor is found in first: \<open>actual_owner.setdefault\<close>.\<close>

definition tensor_places :: "(string \<times> string list) list \<Rightarrow> (string \<times> string) list" where
  "tensor_places shards = concat (map (\<lambda>(s, ts). map (\<lambda>t. (t, s)) ts) shards)"

definition validate_index_tensor_mapping ::
  "(string \<times> string) list \<Rightarrow> (string \<times> string list) list \<Rightarrow> string + unit" where
  "validate_index_tensor_mapping wm shards =
     (let places = tensor_places shards; owner = map_of places in
      on_ok (check (list_all (\<lambda>(t, s). owner t = Some s) places) ''tensor in two shards'') (\<lambda>_.
      on_ok (check (set (map fst wm) \<subseteq> set (map fst places)) ''tensor missing'') (\<lambda>_.
      on_ok (check (set (map fst places) \<subseteq> set (map fst wm)) ''tensor not indexed'') (\<lambda>_.
      check (list_all (\<lambda>(t, s). owner t = Some s) wm) ''tensor in another shard''))))"

section \<open>\<open>validate_model_directory\<close>\<close>

definition max_manifest_files :: nat where "max_manifest_files = 50000"

definition generated_manifest_name :: string where
  "generated_manifest_name = ''openllmops-manifest.json''"

definition tokenizer_payloads :: "string list" where
  "tokenizer_payloads = [''tokenizer.json'', ''tokenizer.model'', ''sentencepiece.bpe.model'', ''spiece.model'', ''vocab.json'']"

definition unsafe_serialization_suffixes :: "string list" where
  "unsafe_serialization_suffixes = [''.bin'', ''.ckpt'', ''.joblib'', ''.pkl'', ''.pickle'', ''.pt'', ''.pth'']"

text \<open>\<open>config.json\<close> and \<open>tokenizer_config.json\<close> ask for no code of their own.\<close>

definition no_remote_code :: "json_obj \<Rightarrow> bool" where
  "no_remote_code kvs \<longleftrightarrow> \<not> json_truthy (jget ''auto_map'' kvs) \<and> jget ''trust_remote_code'' kvs \<noteq> JBool True"

definition model_type_ok :: "json_obj \<Rightarrow> bool" where
  "model_type_ok kvs \<longleftrightarrow> (case str_value (jget ''model_type'' kvs) of None \<Rightarrow> False | Some s \<Rightarrow> strip s \<noteq> [])"

definition read_configs :: "file_tools \<Rightarrow> (string \<times> string) list \<Rightarrow> string + json_obj" where
  "read_configs T tops =
     on_ok (some_or ''config.json'' (map_of tops ''config.json'')) (\<lambda>raw_config.
     on_ok (some_or ''tokenizer_config.json'' (map_of tops ''tokenizer_config.json'')) (\<lambda>raw_tokenizer.
     on_ok (load_json T ''config.json'' raw_config) (\<lambda>config.
     on_ok (load_json T ''tokenizer_config.json'' raw_tokenizer) (\<lambda>tokenizer.
     on_ok (check (model_type_ok config) ''model_type'') (\<lambda>_.
     on_ok (check (no_remote_code config \<and> no_remote_code tokenizer) ''remote code'') (\<lambda>_.
     Inr config))))))"

text \<open>The weight files one after the other, with the parameters counted so far.\<close>

fun read_weights ::
  "file_tools \<Rightarrow> (string \<times> string) list \<Rightarrow> int \<Rightarrow> string list \<Rightarrow> string + (string \<times> safetensors_summary) list" where
  "read_weights T tops sofar [] = Inr []"
| "read_weights T tops sofar (w # ws) =
     on_ok (some_or w (map_of tops w)) (\<lambda>bytes.
     on_ok (validate_safetensors T bytes) (\<lambda>s.
     on_ok (check (sofar + ss_parameters s \<le> max_parameter_count) ''too many parameters'') (\<lambda>_.
     on_ok (read_weights T tops (sofar + ss_parameters s) ws) (\<lambda>rest. Inr ((w, s) # rest)))))"

definition is_safetensors :: "string \<Rightarrow> bool" where
  "is_safetensors s \<longleftrightarrow> (let t = lower s; n = length ''.safetensors'' in n \<le> length t \<and> drop (length t - n) t = ''.safetensors'')"

definition validate_model_files ::
  "file_tools \<Rightarrow> file_entry list \<Rightarrow> string + json_obj \<times> int \<times> string list" where
  "validate_model_files T fs =
     (let names = map (posix \<circ> fst) fs; tops = top_level fs in
      on_ok (check (fs \<noteq> []) ''empty'') (\<lambda>_.
      on_ok (check (length fs \<le> max_manifest_files) ''too many files'') (\<lambda>_.
      on_ok (check (generated_manifest_name \<notin> set names) ''reserved name'') (\<lambda>_.
      on_ok (read_configs T tops) (\<lambda>config.
      let payloads = filter (\<lambda>n. map_of tops n \<noteq> None) tokenizer_payloads in
      on_ok (check (payloads \<noteq> []) ''no tokenizer'') (\<lambda>_.
      on_ok (check (list_all (\<lambda>n. map_of tops n \<noteq> Some []) payloads) ''empty tokenizer'') (\<lambda>_.
      on_ok (check (list_all (\<lambda>f. lower (path_suffix (fst f)) \<notin> set unsafe_serialization_suffixes) fs) ''unsafe file'') (\<lambda>_.
      on_ok (select_weight_files T tops (filter is_safetensors names)) (\<lambda>(ws, wm).
      on_ok (read_weights T tops 0 ws) (\<lambda>summaries.
      on_ok (case wm of
          None \<Rightarrow> Inr ()
        | Some pairs \<Rightarrow> validate_index_tensor_mapping pairs (map (\<lambda>(w, s). (w, ss_names s)) summaries)) (\<lambda>_.
      Inr (config, sum_list (map (ss_parameters \<circ> snd) summaries),
           sort (remdups (concat (map (ss_dtypes \<circ> snd) summaries)))))))))))))))"

record file_digest =
  fd_path :: string
  fd_size :: nat
  fd_sha256 :: string

record model_manifest =
  mm_model_type :: string
  mm_architecture :: "string option"
  mm_size :: nat
  mm_files :: "file_digest list"
  mm_parameters :: int
  mm_dtypes :: "string list"
  mm_checksum :: string
  mm_requested_revision :: "string option"
  mm_resolved_revision :: "string option"

definition digest_of :: "file_tools \<Rightarrow> file_entry \<Rightarrow> file_digest" where
  "digest_of T f = \<lparr>fd_path = posix (fst f), fd_size = length (snd f), fd_sha256 = ft_sha256 T (snd f)\<rparr>"

definition file_digests :: "file_tools \<Rightarrow> file_entry list \<Rightarrow> file_digest list" where
  "file_digests T fs = map (digest_of T) (sort_key (posix \<circ> fst) fs)"

definition digest_json :: "file_digest \<Rightarrow> json" where
  "digest_json d = JObj [(''path'', JStr (fd_path d)), (''size_bytes'', JInt (int (fd_size d))), (''sha256'', JStr (fd_sha256 d))]"

definition directory_checksum :: "file_tools \<Rightarrow> file_digest list \<Rightarrow> string" where
  "directory_checksum T ds = ft_sha256 T (canonical_json (ft_float T) (JArr (map digest_json ds)))"

definition architecture_of :: "file_tools \<Rightarrow> json_obj \<Rightarrow> string option" where
  "architecture_of T config =
     (case jget ''architectures'' config of JArr (a # _) \<Rightarrow> Some (py_str (ft_text T) a) | _ \<Rightarrow> None)"

definition validate_model_directory ::
  "file_tools \<Rightarrow> string option \<Rightarrow> string option \<Rightarrow> file_tree \<Rightarrow> string + model_manifest" where
  "validate_model_directory T requested resolved base =
     on_ok (iter_regular_files base) (\<lambda>fs.
     on_ok (validate_model_files T fs) (\<lambda>(config, parameters, dtypes).
     Inr \<lparr>mm_model_type = py_str (ft_text T) (jget_or (JStr ''unknown'') ''model_type'' config),
          mm_architecture = architecture_of T config,
          mm_size = sum_list (map (length \<circ> snd) fs), mm_files = file_digests T fs, mm_parameters = parameters,
          mm_dtypes = dtypes, mm_checksum = directory_checksum T (file_digests T fs),
          mm_requested_revision = requested, mm_resolved_revision = resolved\<rparr>))"

section \<open>What the control plane reads\<close>

definition max_tree_depth :: nat where "max_tree_depth = 64"

definition safe_component :: "string \<Rightarrow> bool" where
  "safe_component n \<longleftrightarrow> n \<notin> {[], ''.'', ''..''} \<and> CHR 0x5C \<notin> set n \<and> \<not> list_ex (\<lambda>c. code c < 32 \<or> code c = 127) n"

text \<open>\<open>_TreeNode\<close>: a directory, or a file with its bytes.\<close>

type_synonym tree_node = "path \<times> string option"

record tree_scan =
  ts_nodes :: "tree_node list"
  ts_files :: nat
  ts_bytes :: nat

record tree_limits =
  tl_files :: nat          \<comment> \<open>\<open>training_artifact_max_files\<close>\<close>
  tl_bytes :: nat          \<comment> \<open>\<open>training_artifact_max_bytes\<close>\<close>

definition add_file :: "tree_limits \<Rightarrow> path \<Rightarrow> string \<Rightarrow> tree_scan \<Rightarrow> string + tree_scan" where
  "add_file L p bytes st =
     on_ok (check (length (ts_nodes st) + 1 \<le> tl_files L) ''too many nodes'') (\<lambda>_.
     on_ok (check (ts_bytes st + length bytes \<le> tl_bytes L) ''too large'') (\<lambda>_.
     Inr \<lparr>ts_nodes = ts_nodes st @ [(p, Some bytes)], ts_files = ts_files st + 1, ts_bytes = ts_bytes st + length bytes\<rparr>))"

definition add_directory :: "tree_limits \<Rightarrow> path \<Rightarrow> tree_scan \<Rightarrow> string + tree_scan" where
  "add_directory L p st =
     on_ok (check (length (ts_nodes st) + 1 \<le> tl_files L) ''too many nodes'') (\<lambda>_.
     Inr (st\<lparr>ts_nodes := ts_nodes st @ [(p, None)]\<rparr>))"

text \<open>\<open>sorted(os.scandir(directory), key=...)\<close> at every level.\<close>

fun sort_tree :: "file_tree \<Rightarrow> file_tree" where
  "sort_tree (DirNode v cs) = DirNode v (sort_key fst (map (\<lambda>(n, t). (n, sort_tree t)) cs))"
| "sort_tree t = t"

text \<open>\<open>visit\<close> over the children of one directory, which are sorted already.\<close>

fun visit :: "tree_limits \<Rightarrow> nat \<Rightarrow> path \<Rightarrow> (string \<times> file_tree) list \<Rightarrow> tree_scan \<Rightarrow> string + tree_scan" where
  "visit L dev d [] st = Inr st"
| "visit L dev d ((n, child) # cs) st =
     on_ok (check (safe_component n) ''unsafe name'') (\<lambda>_.
     on_ok (case child of
        LinkNode v \<Rightarrow> on_ok (check (v = dev) ''other device'') (\<lambda>_. Inl ''link'')
      | SpecialNode v \<Rightarrow> on_ok (check (v = dev) ''other device'') (\<lambda>_. Inl ''special file'')
      | FileNode v links bytes \<Rightarrow>
          on_ok (check (v = dev) ''other device'') (\<lambda>_.
          on_ok (check (links = 1) ''hard link'') (\<lambda>_. add_file L (d @ [n]) bytes st))
      | DirNode v below \<Rightarrow>
          on_ok (check (v = dev) ''other device'') (\<lambda>_.
          on_ok (add_directory L (d @ [n]) st) (\<lambda>st'.
          on_ok (check (length d + 1 \<le> max_tree_depth) ''too deep'') (\<lambda>_.
          visit L dev (d @ [n]) below st')))) (\<lambda>st'.
     visit L dev d cs st'))"

definition scan_tree :: "tree_limits \<Rightarrow> file_tree \<Rightarrow> string + tree_scan" where
  "scan_tree L base =
     (case sort_tree base of
        DirNode dev cs \<Rightarrow>
          on_ok (visit L dev [] cs \<lparr>ts_nodes = [], ts_files = 0, ts_bytes = 0\<rparr>) (\<lambda>st.
          on_ok (check (ts_files st \<noteq> 0) ''no files'') (\<lambda>_. Inr st))
      | _ \<Rightarrow> Inl ''not a directory'')"

definition unsafe_model_suffixes :: "string list" where
  "unsafe_model_suffixes = unsafe_serialization_suffixes @ [''.py'', ''.so'']"

definition node_files :: "tree_node list \<Rightarrow> file_entry list" where
  "node_files nodes = map (\<lambda>(p, b). (p, the b)) (filter (\<lambda>(p, b). b \<noteq> None) nodes)"

text \<open>\<open>set(weight_map.values())\<close> raises when a value is a list or an object.\<close>

definition control_shards :: "json_obj \<Rightarrow> string + string list" where
  "control_shards kvs =
     on_ok (some_or ''weight_map'' (obj_value (jget ''weight_map'' kvs))) (\<lambda>wm.
     on_ok (check (wm \<noteq> []) ''weight_map'') (\<lambda>_.
     on_ok (check (list_all (\<lambda>(_, v). case v of JArr _ \<Rightarrow> False | JObj _ \<Rightarrow> False | _ \<Rightarrow> True) wm) ''TypeError'') (\<lambda>_.
     on_ok (check (list_all (\<lambda>(_, v). case v of JStr s \<Rightarrow> is_shard s | _ \<Rightarrow> False) wm) ''shard name'') (\<lambda>_.
     Inr (remdups (map (\<lambda>(_, v). the (str_value v)) wm))))))"

definition control_weight_files :: "file_tools \<Rightarrow> (string \<times> string) list \<Rightarrow> string + string list" where
  "control_weight_files T tops =
     (case (map_of tops weight_file, map_of tops index_file) of
        (Some _, Some _) \<Rightarrow> Inl ''single file and index''
      | (Some _, None) \<Rightarrow> Inr [weight_file]
      | (None, None) \<Rightarrow> Inl ''no weights''
      | (None, Some raw) \<Rightarrow>
          on_ok (load_json T index_file raw) (\<lambda>kvs.
          on_ok (control_shards kvs) (\<lambda>shards.
          on_ok (check (set shards = set (filter is_shard (map fst tops))) ''index and shards differ'') (\<lambda>_.
          Inr (sort shards)))))"

definition ends_safetensors :: "string \<Rightarrow> bool" where
  "ends_safetensors s \<longleftrightarrow> (let n = length ''.safetensors'' in n \<le> length s \<and> drop (length s - n) s = ''.safetensors'')"

definition validate_deployable_model :: "file_tools \<Rightarrow> tree_node list \<Rightarrow> string + unit" where
  "validate_deployable_model T nodes =
     (let fs = node_files nodes; tops = top_level fs in
      on_ok (check (list_all (\<lambda>f. lower (path_suffix (fst f)) \<notin> set unsafe_model_suffixes) fs) ''unsafe file'') (\<lambda>_.
      on_ok (read_configs T tops) (\<lambda>_.
      on_ok (check (list_ex (\<lambda>n. map_of tops n \<noteq> None) tokenizer_payloads) ''no tokenizer'') (\<lambda>_.
      on_ok (control_weight_files T tops) (\<lambda>ws.
      on_ok (check (list_all (\<lambda>n. ends_safetensors n \<longrightarrow> n = weight_file \<or> is_shard n) (map fst tops)) ''other weights'') (\<lambda>_.
      on_ok (check_each (\<lambda>w. on_ok (some_or w (map_of tops w)) (control_safetensors T)) ws) (\<lambda>_.
      Inr ())))))))"

text \<open>\<open>_tree_content_fingerprint\<close>: names and bytes, each closed by a zero byte.\<close>

definition tree_content :: "file_entry list \<Rightarrow> string" where
  "tree_content fs = concat (map (\<lambda>(p, bytes). encode_utf8 (posix p) @ [CHR 0x00] @ bytes @ [CHR 0x00]) fs)"

definition tree_content_fingerprint :: "file_tools \<Rightarrow> tree_node list \<Rightarrow> string" where
  "tree_content_fingerprint T nodes = ft_sha256 T (tree_content (node_files nodes))"

end
