(* ===== verification/ModelAcceptance.thy ===== *)
theory ModelAcceptance
  imports ModelFiles
begin

text \<open>
  What the checks of a model directory promise together: the fingerprint of the importer identifies the
  files, its index locates every tensor, and the control plane accepts for training what the importer
  let into the store, up to the conditions that only the control plane has.
\<close>

section \<open>The files and nodes of a tree\<close>

fun tree_nodes :: "path \<Rightarrow> file_tree \<Rightarrow> tree_node list" where
  "tree_nodes p (FileNode _ _ bytes) = [(p, Some bytes)]"
| "tree_nodes p (DirNode _ cs) = (p, None) # concat (map (\<lambda>(n, t). tree_nodes (p @ [n]) t) cs)"
| "tree_nodes p _ = []"

definition nodes_below :: "path \<Rightarrow> (string \<times> file_tree) list \<Rightarrow> tree_node list" where
  "nodes_below p cs = concat (map (\<lambda>(n, t). tree_nodes (p @ [n]) t) cs)"

definition tree_files :: "file_tree \<Rightarrow> file_entry list" where
  "tree_files t = node_files (tree_nodes [] t)"

text \<open>What a file system guarantees: names differ within a directory and contain no separator.\<close>

fun names_ok :: "file_tree \<Rightarrow> bool" where
  "names_ok (DirNode _ cs) \<longleftrightarrow> distinct (map fst cs) \<and> list_all (\<lambda>(n, t). n \<noteq> [] \<and> CHR ''/'' \<notin> set n \<and> names_ok t) cs"
| "names_ok _ = True"

text \<open>What only the control plane asks for: one device, no hard links, no deep directories, plain names.\<close>

fun tidy :: "nat \<Rightarrow> nat \<Rightarrow> file_tree \<Rightarrow> bool" where
  "tidy dev depth (FileNode v links _) \<longleftrightarrow> v = dev \<and> links = 1"
| "tidy dev depth (DirNode v cs) \<longleftrightarrow> v = dev \<and> depth \<le> max_tree_depth
     \<and> list_all (\<lambda>(n, t). safe_component n \<and> tidy dev (depth + 1) t) cs"
| "tidy dev depth _ \<longleftrightarrow> False"

lemma node_files_append [simp]: "node_files (xs @ ys) = node_files xs @ node_files ys"
  by (simp add: node_files_def)

lemma node_files_concat: "node_files (concat xss) = concat (map node_files xss)"
  by (induction xss) (simp_all add: node_files_def)

lemma node_files_simps [simp]:
  "node_files [] = []" "node_files ((p, None) # ns) = node_files ns"
  "node_files ((p, Some b) # ns) = (p, b) # node_files ns"
  by (simp_all add: node_files_def)

lemma nodes_below_simps [simp]:
  "nodes_below p [] = []" "nodes_below p ((n, t) # cs) = tree_nodes (p @ [n]) t @ nodes_below p cs"
  by (simp_all add: nodes_below_def)

lemma tree_nodes_dir: "tree_nodes p (DirNode v cs) = (p, None) # nodes_below p cs"
  by (simp add: nodes_below_def)

lemma mset_concat_map: "mset (concat (map f xs)) = (\<Sum>x \<in># mset xs. mset (f x))"
  by (induction xs) simp_all

lemma tree_nodes_sort: "mset (tree_nodes p (sort_tree t)) = mset (tree_nodes p t)"
proof (induction t arbitrary: p rule: sort_tree.induct)
  case (1 v cs)
  have "mset (nodes_below p (sort_key fst (map (\<lambda>(n, t). (n, sort_tree t)) cs)))
      = (\<Sum>x \<in># mset cs. mset (tree_nodes (p @ [fst x]) (sort_tree (snd x))))"
    by (simp add: nodes_below_def mset_concat_map case_prod_unfold image_mset.compositionality comp_def)
  also have "\<dots> = (\<Sum>x \<in># mset cs. mset (tree_nodes (p @ [fst x]) (snd x)))"
    using 1 by (intro arg_cong [where f = sum_mset] image_mset_cong) (auto simp: case_prod_unfold)
  also have "\<dots> = mset (nodes_below p cs)"
    by (simp add: nodes_below_def mset_concat_map case_prod_unfold)
  finally show ?case by (simp add: tree_nodes_dir del: tree_nodes.simps)
qed simp_all

lemma mset_node_files: "mset ns = mset ms \<Longrightarrow> mset (node_files ns) = mset (node_files ms)"
  by (simp add: node_files_def)

lemma tidy_sort: "tidy dev k (sort_tree t) = tidy dev k t"
  by (induction t arbitrary: k rule: sort_tree.induct) (auto simp: list_all_iff split: prod.splits)

section \<open>The importer's walk\<close>

definition own_file :: "path \<Rightarrow> string \<times> file_tree \<Rightarrow> file_entry list" where
  "own_file d c = (case snd c of FileNode _ _ b \<Rightarrow> [(d @ [fst c], b)] | _ \<Rightarrow> [])"

definition deeper_files :: "path \<Rightarrow> string \<times> file_tree \<Rightarrow> file_entry list" where
  "deeper_files d c = (case snd c of DirNode _ _ \<Rightarrow> node_files (tree_nodes (d @ [fst c]) (snd c)) | _ \<Rightarrow> [])"

lemma split_files:
  "mset (concat (map (own_file d) cs)) + mset (concat (map (deeper_files d) cs)) = mset (node_files (nodes_below d cs))"
proof (induction cs)
  case (Cons c cs)
  obtain n t where c: "c = (n, t)" by (cases c)
  have "node_files (tree_nodes (d @ [n]) t) = own_file d c @ deeper_files d c"
    by (cases t) (simp_all add: c own_file_def deeper_files_def)
  then show ?case using Cons.IH by (simp add: c)
qed simp

lemma plain_files_nodes: "plain_files d cs = Inr fs \<Longrightarrow> fs = concat (map (own_file d) cs)"
  by (induction d cs arbitrary: fs rule: plain_files.induct) (auto simp: check_simps own_file_def)

lemma files_below_nodes: "files_below d cs = Inr gs \<Longrightarrow> mset gs = mset (concat (map (deeper_files d) cs))"
proof (induction d cs arbitrary: gs rule: files_below.induct)
  case (2 d n v cs rest)
  then obtain fs gs1 hs where *: "plain_files (d @ [n]) cs = Inr fs" "files_below (d @ [n]) cs = Inr gs1"
      "files_below d rest = Inr hs" "gs = fs @ gs1 @ hs"
    by (auto simp: files_here_def check_simps)
  have "mset fs + mset gs1 = mset (node_files (nodes_below (d @ [n]) cs))"
    using "2.IH"(1) *(1,2) plain_files_nodes [OF *(1)] split_files [of "d @ [n]" cs] by (simp add: files_here_def)
  moreover have "mset hs = mset (concat (map (deeper_files d) rest))" using "2.IH"(2) *(3) by blast
  moreover have "mset gs = (mset fs + mset gs1) + mset hs" by (simp add: *(4))
  moreover have "deeper_files d (n, DirNode v cs) = node_files (nodes_below (d @ [n]) cs)"
    by (simp add: deeper_files_def nodes_below_def)
  ultimately show ?case by simp
qed (auto simp: deeper_files_def)

lemma iter_regular_files_ok:
  assumes "iter_regular_files t = Inr fs"
  shows "\<exists>v cs. t = DirNode v cs" and "mset fs = mset (tree_files t)"
proof -
  obtain v cs fs1 gs where t: "t = DirNode v cs" and *: "plain_files [] cs = Inr fs1" "files_below [] cs = Inr gs"
      "fs = fs1 @ gs"
    using assms by (cases t) (auto simp: iter_regular_files_def files_here_def check_simps)
  show "\<exists>v cs. t = DirNode v cs" using t by blast
  have "mset fs = mset (node_files (nodes_below [] cs))"
    using plain_files_nodes [OF *(1)] files_below_nodes [OF *(2)] split_files [of "[]" cs] *(3) by simp
  then show "mset fs = mset (tree_files t)" by (simp add: t tree_files_def tree_nodes_dir del: tree_nodes.simps)
qed

section \<open>Paths within a tree differ\<close>

lemma tree_nodes_prefix: "x \<in> set (tree_nodes p t) \<Longrightarrow> \<exists>q. fst x = p @ q"
  by (induction p t rule: tree_nodes.induct) fastforce+

lemma nodes_below_paths: "x \<in> set (nodes_below p cs) \<Longrightarrow> \<exists>n q. n \<in> set (map fst cs) \<and> fst x = p @ n # q"
proof -
  assume "x \<in> set (nodes_below p cs)"
  then obtain n t where "(n, t) \<in> set cs" "x \<in> set (tree_nodes (p @ [n]) t)" by (auto simp: nodes_below_def)
  moreover from this(2) obtain q where "fst x = (p @ [n]) @ q" using tree_nodes_prefix by blast
  ultimately show ?thesis by force
qed

lemma nodes_below_distinct:
  assumes "distinct (map fst cs)" "\<forall>(n, t) \<in> set cs. distinct (map fst (tree_nodes (p @ [n]) t))"
  shows "distinct (map fst (nodes_below p cs))"
  using assms
proof (induction cs)
  case (Cons c cs)
  obtain n t where c: "c = (n, t)" by (cases c)
  have "fst x \<noteq> fst y" if x: "x \<in> set (tree_nodes (p @ [n]) t)" and y: "y \<in> set (nodes_below p cs)" for x y
  proof -
    obtain q where "fst x = (p @ [n]) @ q" using tree_nodes_prefix [OF x] by blast
    moreover obtain m r where "m \<in> set (map fst cs)" "fst y = p @ m # r" using nodes_below_paths [OF y] by blast
    ultimately show ?thesis using Cons.prems(1) c by auto
  qed
  then show ?case using Cons by (fastforce simp: c)
qed simp

lemma node_paths_distinct: "names_ok t \<Longrightarrow> distinct (map fst (tree_nodes p t))"
proof (induction p t rule: tree_nodes.induct)
  case (2 p v cs)
  have "distinct (map fst (nodes_below p cs))"
    using 2 by (intro nodes_below_distinct) (fastforce simp: list_all_iff)+
  moreover have "p \<notin> set (map fst (nodes_below p cs))"
    using nodes_below_paths by fastforce
  ultimately show ?case by (simp add: tree_nodes_dir del: tree_nodes.simps)
qed simp_all

lemma map_fst_node_files: "map fst (node_files ns) = map fst (filter (\<lambda>x. snd x \<noteq> None) ns)"
  by (induction ns) (auto simp: node_files_def split: prod.splits)

lemma file_paths_distinct: "names_ok t \<Longrightarrow> distinct (map fst (tree_files t))"
  unfolding tree_files_def map_fst_node_files
  by (rule distinct_map_filter_key) (rule node_paths_distinct)

lemma node_names_ok:
  assumes "names_ok t" "x \<in> set (tree_nodes p t)" "\<forall>n \<in> set p. n \<noteq> [] \<and> CHR ''/'' \<notin> set n"
  shows "\<forall>n \<in> set (fst x). n \<noteq> [] \<and> CHR ''/'' \<notin> set n"
  using assms
proof (induction p t rule: tree_nodes.induct)
  case (2 p v cs)
  show ?case
  proof (cases "fst x = p")
    case False
    then obtain n t where "(n, t) \<in> set cs" "x \<in> set (tree_nodes (p @ [n]) t)" using 2(3) by auto
    then show ?thesis using 2 by (fastforce simp: list_all_iff)
  qed (use 2 in simp)
qed auto

lemma file_names_ok:
  assumes "names_ok t" "f \<in> set (tree_files t)"
  shows "\<forall>n \<in> set (fst f). n \<noteq> [] \<and> CHR ''/'' \<notin> set n"
proof -
  obtain x where "x \<in> set (tree_nodes [] t)" "fst x = fst f"
    using assms(2) by (auto simp: tree_files_def node_files_def)
  then show ?thesis using node_names_ok [OF assms(1), of x "[]"] by simp
qed


section \<open>The control plane's scan\<close>

definition node_bytes :: "tree_node list \<Rightarrow> nat" where
  "node_bytes ns = sum_list (map (length \<circ> snd) (node_files ns))"

lemma node_bytes_simps [simp]:
  "node_bytes [] = 0" "node_bytes (xs @ ys) = node_bytes xs + node_bytes ys"
  "node_bytes ((p, None) # ns) = node_bytes ns" "node_bytes ((p, Some b) # ns) = length b + node_bytes ns"
  by (simp_all add: node_bytes_def)

definition scan_extends :: "tree_scan \<Rightarrow> tree_node list \<Rightarrow> tree_scan" where
  "scan_extends st ns = \<lparr>ts_nodes = ts_nodes st @ ns, ts_files = ts_files st + length (node_files ns),
     ts_bytes = ts_bytes st + node_bytes ns\<rparr>"

lemma scan_extends_simps [simp]:
  "scan_extends st [] = st" "scan_extends (scan_extends st xs) ys = scan_extends st (xs @ ys)"
  "length (ts_nodes (scan_extends st ns)) = length (ts_nodes st) + length ns"
  "ts_bytes (scan_extends st ns) = ts_bytes st + node_bytes ns"
  by (simp_all add: scan_extends_def)

lemma visit_accepts:
  assumes "list_all (\<lambda>(n, t). safe_component n \<and> tidy dev (length d + 1) t) cs"
    and "length (ts_nodes st) + length (nodes_below d cs) \<le> tl_files L"
    and "ts_bytes st + node_bytes (nodes_below d cs) \<le> tl_bytes L"
  shows "visit L dev d cs st = Inr (scan_extends st (nodes_below d cs))"
  using assms
proof (induction L dev d cs st rule: visit.induct)
  case (2 L dev d n child cs st)
  note prems = "2.prems"
  have "visit L dev d ((n, child) # cs) st = visit L dev d cs (scan_extends st (tree_nodes (d @ [n]) child))"
  proof (cases child)
    case (FileNode v links bytes)
    then have "add_file L (d @ [n]) bytes st = Inr (scan_extends st (tree_nodes (d @ [n]) child))"
      using prems(2,3) by (simp add: add_file_def scan_extends_def)
    then show ?thesis using prems(1) FileNode by simp
  next
    case (DirNode v below)
    let ?st = "scan_extends st [(d @ [n], None)]"
    have dir: "add_directory L (d @ [n]) st = Inr ?st"
      using prems(2) DirNode by (simp add: add_directory_def scan_extends_def)
    have "visit L dev (d @ [n]) below ?st = Inr (scan_extends ?st (nodes_below (d @ [n]) below))"
      using prems DirNode by (intro "2.IH"(1) [OF DirNode])
        (simp_all add: tree_nodes_dir del: tree_nodes.simps)
    then show ?thesis
      using prems(1) DirNode dir by (simp add: tree_nodes_dir del: tree_nodes.simps)
  qed (use prems(1) in simp_all)
  moreover have "visit L dev d cs (scan_extends st (tree_nodes (d @ [n]) child))
      = Inr (scan_extends (scan_extends st (tree_nodes (d @ [n]) child)) (nodes_below d cs))"
    using prems by (intro "2.IH"(2)) simp_all
  ultimately show ?case by simp
qed simp

lemma scan_tree_accepts:
  assumes "t = DirNode dev cs" "tidy dev 0 t" "tree_files t \<noteq> []"
    and "length (tree_nodes [] t) \<le> Suc (tl_files L)" "node_bytes (tree_nodes [] t) \<le> tl_bytes L"
  shows "\<exists>st. scan_tree L t = Inr st \<and> mset (node_files (ts_nodes st)) = mset (tree_files t)
    \<and> ts_files st = length (tree_files t) \<and> ts_bytes st = sum_list (map (length \<circ> snd) (tree_files t))"
proof -
  obtain ds where sorted: "sort_tree t = DirNode dev ds" by (simp add: assms(1))
  have nodes: "mset (tree_nodes [] (sort_tree t)) = mset (tree_nodes [] t)" by (rule tree_nodes_sort)
  then have files: "mset (node_files (nodes_below [] ds)) = mset (tree_files t)"
    using mset_node_files [OF nodes] by (simp add: sorted tree_nodes_dir tree_files_def del: tree_nodes.simps)
  have len: "length (nodes_below [] ds) \<le> tl_files L"
    using mset_eq_length [OF nodes] assms(4) by (simp add: sorted tree_nodes_dir del: tree_nodes.simps)
  have bytes: "node_bytes (nodes_below [] ds) = sum_list (map (length \<circ> snd) (tree_files t))"
    using files unfolding node_bytes_def by (metis mset_map sum_mset_sum_list)
  have "tidy dev 0 (sort_tree t)" using assms(2) by (simp add: tidy_sort)
  then have "visit L dev [] ds \<lparr>ts_nodes = [], ts_files = 0, ts_bytes = 0\<rparr>
      = Inr (scan_extends \<lparr>ts_nodes = [], ts_files = 0, ts_bytes = 0\<rparr> (nodes_below [] ds))"
    using len bytes assms(5) by (intro visit_accepts) (simp_all add: sorted tree_files_def node_bytes_def)
  moreover have "length (node_files (nodes_below [] ds)) = length (tree_files t)" using files by (rule mset_eq_length)
  ultimately show ?thesis
    using files bytes assms(3) by (simp add: scan_tree_def sorted scan_extends_def)
qed


section \<open>Looking files up by name\<close>

lemma top_level_iff:
  assumes "distinct (map fst fs)"
  shows "map_of (top_level fs) n = Some b \<longleftrightarrow> ([n], b) \<in> set fs"
proof -
  have inj: "inj_on (\<lambda>f. hd (fst f)) (set (filter (\<lambda>f. length (fst f) = 1) fs))"
  proof (rule inj_onI)
    fix f g assume *: "f \<in> set (filter (\<lambda>f. length (fst f) = 1) fs)" "g \<in> set (filter (\<lambda>f. length (fst f) = 1) fs)"
      "hd (fst f) = hd (fst g)"
    then have "fst f = fst g" by (cases "fst f"; cases "fst g") auto
    then show "f = g" using * assms by (auto simp: distinct_map inj_on_def)
  qed
  then have "distinct (map fst (top_level fs))"
    using assms by (simp add: top_level_def comp_def distinct_map distinct_map_filter_key)
  then have "map_of (top_level fs) n = Some b \<longleftrightarrow> (n, b) \<in> set (top_level fs)" by simp
  also have "\<dots> \<longleftrightarrow> ([n], b) \<in> set fs"
    by (auto simp: top_level_def length_Suc_conv image_iff intro!: bexI)
  finally show ?thesis .
qed

lemma top_level_names: "n \<in> set (map fst (top_level fs)) \<longleftrightarrow> [n] \<in> set (map fst fs)"
  by (auto simp: top_level_def length_Suc_conv image_iff) force+

lemma option_eqI: "(\<And>b. x = Some b \<longleftrightarrow> y = Some b) \<Longrightarrow> x = y"
  by (cases x; cases y) auto

lemma top_level_added:
  assumes "mset gs = mset (fs @ [([g], m)])" "distinct (map fst gs)" "n \<noteq> g"
  shows "map_of (top_level gs) n = map_of (top_level fs) n"
proof (rule option_eqI)
  have "mset (map fst gs) = mset (map fst (fs @ [([g], m)]))" using assms(1) by (metis mset_map)
  then have "distinct (map fst (fs @ [([g], m)]))" using assms(2) mset_eq_imp_distinct_iff by blast
  then have "distinct (map fst fs)" by simp
  moreover have "set gs = set (fs @ [([g], m)])" using assms(1) by (rule mset_eq_setD)
  ultimately show "map_of (top_level gs) n = Some b \<longleftrightarrow> map_of (top_level fs) n = Some b" for b
    using assms(2,3) by (simp add: top_level_iff)
qed


section \<open>Names of weight files\<close>

lemma strip_prefix_iff: "strip_prefix p s = Some r \<longleftrightarrow> s = p @ r"
  unfolding strip_prefix_def by (auto simp: append_eq_conv_conj) (metis append_take_drop_id)

lemma leading_number_split:
  assumes "leading_number s = Some (n, r)"
  shows "\<exists>ds. s = ds @ r \<and> (\<forall>c \<in> set ds. is_dec c)"
proof -
  have "s = takeWhile is_dec s @ r" using assms by (auto simp: leading_number_def split: option.splits)
  moreover have "\<forall>c \<in> set (takeWhile is_dec s). is_dec c" by (auto dest: set_takeWhileD)
  ultimately show ?thesis by blast
qed

lemma shard_shape:
  assumes "is_shard s"
  shows "\<exists>ds es. s = ''model-'' @ ds @ ''-of-'' @ es @ ''.safetensors'' \<and> (\<forall>c \<in> set ds \<union> set es. is_dec c)"
proof -
  obtain s1 n s2 s3 m s4 where *: "strip_prefix ''model-'' s = Some s1" "leading_number s1 = Some (n, s2)"
      "strip_prefix ''-of-'' s2 = Some s3" "leading_number s3 = Some (m, s4)" "s4 = ''.safetensors''"
    using assms by (auto simp: is_shard_def shard_numbers_def split: bind_splits if_splits)
  obtain ds where ds: "s1 = ds @ s2" "\<forall>c \<in> set ds. is_dec c" using leading_number_split [OF *(2)] by blast
  obtain es where es: "s3 = es @ s4" "\<forall>c \<in> set es. is_dec c" using leading_number_split [OF *(4)] by blast
  show ?thesis
    using * ds es unfolding strip_prefix_iff by (intro exI [of _ ds] exI [of _ es]) auto
qed

lemma separator_no_digit: "\<not> is_dec (CHR ''/'')"
  by code_simp

lemma shard_no_separator: "is_shard s \<Longrightarrow> CHR ''/'' \<notin> set s"
  by (drule shard_shape) (auto dest: bspec [where x = "CHR ''/''"] simp: separator_no_digit)

lemma is_safetensors_suffix: "is_safetensors (x @ ''.safetensors'')"
proof -
  have "lower (x @ ''.safetensors'') = lower x @ ''.safetensors''"
    by (simp add: lower_def lower_char_def)
  then show ?thesis by (simp add: is_safetensors_def Let_def)
qed

lemma shard_is_safetensors: "is_shard s \<Longrightarrow> is_safetensors s"
  using shard_shape is_safetensors_suffix by (metis append_assoc)

lemma ends_is_safetensors:
  assumes "ends_safetensors s" shows "is_safetensors s"
proof -
  have "s = take (length s - length ''.safetensors'') s @ ''.safetensors''"
    using assms unfolding ends_safetensors_def Let_def by (metis append_take_drop_id)
  then show ?thesis using is_safetensors_suffix by metis
qed

lemma posix_no_separator: "CHR ''/'' \<notin> set (posix p) \<Longrightarrow> p \<noteq> [] \<Longrightarrow> p = [posix p]"
  unfolding posix_def by (cases "(CHR ''/'', p)" rule: join_with.cases) auto

lemma not_manifest: "\<not> is_shard generated_manifest_name" "\<not> ends_safetensors generated_manifest_name"
  "weight_file \<noteq> generated_manifest_name" "index_file \<noteq> generated_manifest_name"
  "generated_manifest_name \<notin> set tokenizer_payloads" "generated_manifest_name \<noteq> ''config.json''"
  "generated_manifest_name \<noteq> ''tokenizer_config.json''"
  "lower (path_suffix [generated_manifest_name]) \<notin> set unsafe_model_suffixes"
  "safe_component generated_manifest_name"
  by code_simp+


section \<open>Imported models are deployable\<close>

text \<open>The manifest the importer writes into the staging directory before it is renamed.\<close>

fun with_manifest :: "string \<Rightarrow> file_tree \<Rightarrow> file_tree" where
  "with_manifest body (DirNode v cs) = DirNode v (cs @ [(generated_manifest_name, FileNode v 1 body)])"
| "with_manifest body t = t"

lemma files_with_manifest: "tree_files (with_manifest m (DirNode v cs)) = tree_files (DirNode v cs) @ [([generated_manifest_name], m)]"
  by (simp add: tree_files_def)

lemma read_weights_checked:
  assumes "read_weights T tops sofar ws = Inr ss"
  shows "map fst ss = ws" and "(w, s) \<in> set ss \<Longrightarrow> \<exists>bytes. map_of tops w = Some bytes \<and> validate_safetensors T bytes = Inr s"
  using assms by (induction T tops sofar ws arbitrary: ss rule: read_weights.induct) (auto simp: check_simps)

lemma read_configs_cong:
  "map_of tops ''config.json'' = map_of tops' ''config.json'' \<Longrightarrow>
   map_of tops ''tokenizer_config.json'' = map_of tops' ''tokenizer_config.json'' \<Longrightarrow>
     read_configs T tops = read_configs T tops'"
  by (simp add: read_configs_def)

lemma index_pairs_values:
  assumes "index_pairs kvs = Inr wm"
  shows "\<exists>vs. jget ''weight_map'' kvs = JObj vs \<and> vs \<noteq> [] \<and> vs = map (\<lambda>(t, s). (t, JStr s)) wm"
proof -
  obtain vs where vs: "jget ''weight_map'' kvs = JObj vs" "vs \<noteq> []"
      "check_each (\<lambda>(t, v). on_ok (some_or ''weight_map'' (str_value v)) (\<lambda>s.
       on_ok (check (t \<noteq> [] \<and> s \<noteq> []) ''weight_map'') (\<lambda>_. Inr (t, s)))) vs = Inr wm"
    using assms by (auto simp: index_pairs_def check_simps obj_value_iff)
  from vs(3) have "vs = map (\<lambda>(t, s). (t, JStr s)) wm"
    unfolding check_each_Inr
  proof (induction rule: list_all2_induct)
    case (Cons p vs q wm)
    then show ?case by (cases p; cases "snd p") (auto simp: check_simps)
  qed simp
  with vs show ?thesis by blast
qed

lemma control_shards_accepts:
  assumes "index_pairs kvs = Inr wm" "list_all is_shard (map snd wm)"
  shows "control_shards kvs = Inr (remdups (map snd wm))"
proof -
  obtain vs where vs: "jget ''weight_map'' kvs = JObj vs" "vs \<noteq> []" "vs = map (\<lambda>(t, s). (t, JStr s)) wm"
    using index_pairs_values [OF assms(1)] by blast
  have "map (\<lambda>(_, v). the (str_value v)) vs = map snd wm" by (auto simp: vs(3) case_prod_unfold)
  moreover have "list_all (\<lambda>(_, v). case v of JArr _ \<Rightarrow> False | JObj _ \<Rightarrow> False | _ \<Rightarrow> True) vs"
    by (auto simp: vs(3) list_all_iff)
  moreover have "list_all (\<lambda>(_, v). case v of JStr s \<Rightarrow> is_shard s | _ \<Rightarrow> False) vs"
    using assms(2) by (auto simp: vs(3) list_all_iff)
  ultimately show ?thesis
    using vs(1,2) by (simp add: control_shards_def)
qed

text \<open>What the selection of the importer says about the names, file by file.\<close>

lemma selected_weights:
  assumes sel: "select_weight_files T (top_level fs) (filter is_safetensors (map (posix \<circ> fst) fs)) = Inr (ws, wm)"
    and files: "distinct (map fst fs)" "\<forall>f \<in> set fs. fst f \<noteq> []"
    and gs: "mset gs = mset (fs @ [([generated_manifest_name], m)])" "distinct (map fst gs)"
  shows "\<exists>ws'. control_weight_files T (top_level gs) = Inr ws' \<and> set ws' = set ws"
    and "list_all (\<lambda>n. ends_safetensors n \<longrightarrow> n = weight_file \<or> is_shard n) (map fst (top_level gs))"
proof -
  note same = top_level_added [OF gs]
  have names: "n \<in> set (map fst (top_level gs)) \<longleftrightarrow> n = generated_manifest_name \<or> [n] \<in> set (map fst fs)" for n
    using mset_eq_setD [OF gs(1)] unfolding top_level_names by simp
  have weights: "map_of (top_level gs) weight_file = map_of (top_level fs) weight_file"
      "map_of (top_level gs) index_file = map_of (top_level fs) index_file"
    using same not_manifest(3,4) by simp_all
  have listed: "n \<in> set (filter is_safetensors (map (posix \<circ> fst) fs))" if "[n] \<in> set (map fst fs)" "is_safetensors n" for n
    using that by (force simp: posix_def)
  have ends: "n \<in> set (filter is_safetensors (map (posix \<circ> fst) fs))"
    if "n \<in> set (map fst (top_level gs))" "ends_safetensors n" for n
  proof -
    have "n \<noteq> generated_manifest_name" using that(2) not_manifest(2) by blast
    then have "[n] \<in> set (map fst fs)" using that(1) unfolding names by simp
    then show ?thesis using ends_is_safetensors [OF that(2)] by (rule listed)
  qed
  show "\<exists>ws'. control_weight_files T (top_level gs) = Inr ws' \<and> set ws' = set ws"
    and "list_all (\<lambda>n. ends_safetensors n \<longrightarrow> n = weight_file \<or> is_shard n) (map fst (top_level gs))"
  proof (atomize (full), cases "map_of (top_level fs) weight_file")
    case (Some w)
    then have none: "map_of (top_level fs) index_file = None" and ws: "ws = [weight_file]"
        and only: "set (filter is_safetensors (map (posix \<circ> fst) fs)) \<subseteq> {weight_file}"
      using sel by (auto simp: select_weight_files_def check_simps split: option.splits)
    have "n = weight_file" if "n \<in> set (map fst (top_level gs))" "ends_safetensors n" for n
      using ends [OF that] only by blast
    then show "(\<exists>ws'. control_weight_files T (top_level gs) = Inr ws' \<and> set ws' = set ws)
        \<and> list_all (\<lambda>n. ends_safetensors n \<longrightarrow> n = weight_file \<or> is_shard n) (map fst (top_level gs))"
      using Some none ws weights by (auto simp: control_weight_files_def list_all_iff)
  next
    case None
    then obtain raw kvs pairs where raw: "map_of (top_level fs) index_file = Some raw" "load_json T index_file raw = Inr kvs"
        "index_pairs kvs = Inr pairs"
        and seq: "validate_shard_sequence (sort (remdups (map snd pairs))) = Inr ()"
        and shards: "list_all is_shard (filter is_safetensors (map (posix \<circ> fst) fs))"
        and refs: "set (map snd pairs) = set (filter is_safetensors (map (posix \<circ> fst) fs))"
        and ws: "ws = sort (remdups (map snd pairs))"
      using sel by (auto simp: select_weight_files_def check_simps Let_def split: option.splits)
    have all: "list_all is_shard (map snd pairs)"
      using seq by (simp add: validate_shard_sequence_def check_simps list_all_iff)
    have top: "n \<in> set (filter is_shard (map fst (top_level gs))) \<longleftrightarrow> n \<in> set (map snd pairs)" for n
    proof
      assume "n \<in> set (filter is_shard (map fst (top_level gs)))"
      then have "is_shard n" "[n] \<in> set (map fst fs)" using names not_manifest(1) by auto
      then show "n \<in> set (map snd pairs)" unfolding refs using listed shard_is_safetensors by blast
    next
      assume n: "n \<in> set (map snd pairs)"
      then have shard: "is_shard n" using all by (auto simp: list_all_iff)
      obtain f where f: "f \<in> set fs" "n = posix (fst f)" using n unfolding refs by auto
      then have "fst f = [n]" using posix_no_separator [of "fst f"] shard_no_separator [OF shard] files(2) by auto
      then have "[n] \<in> set (map fst fs)" using f(1) by force
      then show "n \<in> set (filter is_shard (map fst (top_level gs)))" using shard names by auto
    qed
    have "is_shard n" if "n \<in> set (map fst (top_level gs))" "ends_safetensors n" for n
      using ends [OF that] shards unfolding list_all_iff by blast
    moreover have "control_weight_files T (top_level gs) = Inr (sort (remdups (map snd pairs)))"
      using None raw weights control_shards_accepts [OF raw(3) all] top
      by (simp add: control_weight_files_def)
    ultimately show "(\<exists>ws'. control_weight_files T (top_level gs) = Inr ws' \<and> set ws' = set ws)
        \<and> list_all (\<lambda>n. ends_safetensors n \<longrightarrow> n = weight_file \<or> is_shard n) (map fst (top_level gs))"
      using ws by (auto simp: list_all_iff)
  qed
qed


lemma model_files_checked:
  assumes "validate_model_files T fs = Inr r"
  shows "\<exists>config n ws wm ss. read_configs T (top_level fs) = Inr config \<and> fs \<noteq> []
    \<and> n \<in> set tokenizer_payloads \<and> map_of (top_level fs) n \<noteq> None
    \<and> list_all (\<lambda>f. lower (path_suffix (fst f)) \<notin> set unsafe_serialization_suffixes) fs
    \<and> select_weight_files T (top_level fs) (filter is_safetensors (map (posix \<circ> fst) fs)) = Inr (ws, wm)
    \<and> read_weights T (top_level fs) 0 ws = Inr ss
    \<and> (\<forall>pairs. wm = Some pairs \<longrightarrow> validate_index_tensor_mapping pairs (map (\<lambda>(w, s). (w, ss_names s)) ss) = Inr ())"
proof -
  obtain config where c: "fs \<noteq> []" "read_configs T (top_level fs) = Inr config"
      and p: "filter (\<lambda>n. map_of (top_level fs) n \<noteq> None) tokenizer_payloads \<noteq> []"
      and u: "list_all (\<lambda>f. lower (path_suffix (fst f)) \<notin> set unsafe_serialization_suffixes) fs"
      and rest: "\<exists>ws wm ss. select_weight_files T (top_level fs) (filter is_safetensors (map (posix \<circ> fst) fs)) = Inr (ws, wm)
        \<and> read_weights T (top_level fs) 0 ws = Inr ss
        \<and> (case wm of None \<Rightarrow> Inr () | Some pairs \<Rightarrow> validate_index_tensor_mapping pairs (map (\<lambda>(w, s). (w, ss_names s)) ss)) = Inr ()"
    using assms unfolding validate_model_files_def Let_def check_simps case_prod_unfold by (elim exE conjE) (auto)
  obtain n where "n \<in> set tokenizer_payloads" "map_of (top_level fs) n \<noteq> None"
    using p unfolding filter_empty_conv by blast
  with c u rest show ?thesis by (auto split: option.splits)
qed


lemma tree_files_nonempty_paths: "f \<in> set (tree_files (DirNode v cs)) \<Longrightarrow> fst f \<noteq> []"
proof -
  assume "f \<in> set (tree_files (DirNode v cs))"
  then obtain x where "x \<in> set (nodes_below [] cs)" "fst x = fst f"
    by (auto simp: tree_files_def tree_nodes_dir node_files_def simp del: tree_nodes.simps)
  then show ?thesis using nodes_below_paths [of x "[]"] by auto
qed

lemma tidy_with_manifest:
  assumes "tidy dev 0 (DirNode v cs)" shows "tidy dev 0 (with_manifest body (DirNode v cs))"
  using assms not_manifest(9) by simp

lemma nodes_with_manifest:
  "length (tree_nodes [] (with_manifest body (DirNode v cs))) = Suc (length (tree_nodes [] (DirNode v cs)))"
  "node_bytes (tree_nodes [] (with_manifest body (DirNode v cs))) = node_bytes (tree_nodes [] (DirNode v cs)) + length body"
  by simp_all

lemma deployable_checks:
  assumes imported: "validate_model_files T fs = Inr r"
    and files: "distinct (map fst fs)" "\<forall>f \<in> set fs. fst f \<noteq> []"
    and gs: "mset (node_files ns) = mset (fs @ [([generated_manifest_name], body)])" "distinct (map fst (node_files ns))"
    and code: "list_all (\<lambda>f. lower (path_suffix (fst f)) \<notin> {''.py'', ''.so''}) fs"
  shows "validate_deployable_model T ns = Inr ()"
proof -
  let ?gs = "node_files ns"
  obtain config n ws wm ss where *: "read_configs T (top_level fs) = Inr config" "n \<in> set tokenizer_payloads"
      "map_of (top_level fs) n \<noteq> None"
      "list_all (\<lambda>f. lower (path_suffix (fst f)) \<notin> set unsafe_serialization_suffixes) fs"
      "select_weight_files T (top_level fs) (filter is_safetensors (map (posix \<circ> fst) fs)) = Inr (ws, wm)"
      "read_weights T (top_level fs) 0 ws = Inr ss"
    using model_files_checked [OF imported] by blast
  note same = top_level_added [OF gs]
  have configs: "read_configs T (top_level ?gs) = Inr config"
    using *(1) read_configs_cong [of "top_level ?gs" "top_level fs" T] same not_manifest(6,7) by auto
  have "n \<noteq> generated_manifest_name" using *(2) not_manifest(5) by blast
  then have payload: "list_ex (\<lambda>n. map_of (top_level ?gs) n \<noteq> None) tokenizer_payloads"
    unfolding list_ex_iff using *(2,3) same by (intro bexI [of _ n]) simp_all
  have set_gs: "set ?gs = set (fs @ [([generated_manifest_name], body)])" using gs(1) by (rule mset_eq_setD)
  then have unsafe: "list_all (\<lambda>f. lower (path_suffix (fst f)) \<notin> set unsafe_model_suffixes) ?gs"
    using *(4) code not_manifest(8) by (auto simp: list_all_iff unsafe_model_suffixes_def)
  obtain ws' where ws': "control_weight_files T (top_level ?gs) = Inr ws'" "set ws' = set ws"
    using selected_weights(1) [OF *(5) files gs] by blast
  have weight: "on_ok (some_or w (map_of (top_level ?gs) w)) (control_safetensors T) = Inr ()" if "w \<in> set ws" for w
  proof -
    have "w \<in> fst ` set ss" using read_weights_checked(1) [OF *(6)] that by (metis list.set_map)
    then obtain s where "(w, s) \<in> set ss" by force
    then obtain bytes where "map_of (top_level fs) w = Some bytes" "validate_safetensors T bytes = Inr s"
      using read_weights_checked(2) [OF *(6)] by blast
    moreover have "w \<noteq> generated_manifest_name"
    proof -
      have "mset (map fst ?gs) = mset (map fst (fs @ [([generated_manifest_name], body)]))" using gs(1) by (metis mset_map)
      then have "distinct (map fst (fs @ [([generated_manifest_name], body)]))"
        using gs(2) mset_eq_imp_distinct_iff by blast
      then have "[generated_manifest_name] \<notin> set (map fst fs)" by simp
      then show ?thesis using \<open>map_of (top_level fs) w = Some bytes\<close> files(1) by (force simp: top_level_iff)
    qed
    ultimately show ?thesis using same control_accepts_validated by simp
  qed
  have "check_each (\<lambda>w. on_ok (some_or w (map_of (top_level ?gs) w)) (control_safetensors T)) (map (\<lambda>w. w) ws') = Inr (map (\<lambda>_. ()) ws')"
    by (rule check_each_map) (rule weight, simp only: ws'(2))
  then have "check_each (\<lambda>w. on_ok (some_or w (map_of (top_level ?gs) w)) (control_safetensors T)) ws' = Inr (map (\<lambda>_. ()) ws')"
    by (simp only: list.map_ident)
  then show ?thesis
    using configs payload unsafe ws'(1) selected_weights(2) [OF *(5) files gs]
    by (simp add: validate_deployable_model_def Let_def)
qed


text \<open>
  C10. What the importer lets into the store can be trained: when a model passed the importer's
  validation and the importer added its manifest, the control plane's scan of the directory succeeds
  with exactly those files and the deployable-model check accepts it, provided the tree meets the
  conditions only the control plane has: no \<open>.py\<close> or \<open>.so\<close> file, no hard links, one device, plain names,
  at most 64 levels, and the configured limits on nodes and bytes.
\<close>

theorem imported_model_is_deployable:
  assumes imported: "validate_model_directory T requested resolved t = Inr m"
    and tree: "names_ok (with_manifest body t)" "tidy dev 0 t"
    and code: "list_all (\<lambda>f. lower (path_suffix (fst f)) \<notin> {''.py'', ''.so''}) (tree_files t)"
    and room: "length (tree_nodes [] t) \<le> tl_files L" "mm_size m + length body \<le> tl_bytes L"
  shows "\<exists>st. scan_tree L (with_manifest body t) = Inr st \<and> validate_deployable_model T (ts_nodes st) = Inr ()
    \<and> ts_files st = length (mm_files m) + 1 \<and> ts_bytes st = mm_size m + length body"
proof -
  obtain fs r where fs: "iter_regular_files t = Inr fs" and r: "validate_model_files T fs = Inr r"
      and m: "mm_files m = file_digests T fs" "mm_size m = sum_list (map (length \<circ> snd) fs)"
    using imported by (auto simp: validate_model_directory_def check_simps)
  obtain v cs where t: "t = DirNode v cs" using iter_regular_files_ok(1) [OF fs] by blast
  have dev: "v = dev" using tree(2) t by simp
  have files: "mset fs = mset (tree_files t)" by (rule iter_regular_files_ok(2) [OF fs])
  have bytes: "sum_list (map (length \<circ> snd) (tree_files t)) = mm_size m"
    using files unfolding m(2) by (metis mset_map sum_mset_sum_list)
  let ?t = "with_manifest body t"
  have all: "tree_files ?t = tree_files t @ [([generated_manifest_name], body)]"
    by (simp add: t files_with_manifest del: with_manifest.simps)
  have "\<exists>st. scan_tree L ?t = Inr st \<and> mset (node_files (ts_nodes st)) = mset (tree_files ?t)
    \<and> ts_files st = length (tree_files ?t) \<and> ts_bytes st = sum_list (map (length \<circ> snd) (tree_files ?t))"
  proof (rule scan_tree_accepts)
    show "?t = DirNode dev (cs @ [(generated_manifest_name, FileNode v 1 body)])" by (simp add: t dev)
    show "tidy dev 0 ?t" using tree(2) tidy_with_manifest t by blast
    show "tree_files ?t \<noteq> []" by (simp add: all)
    show "length (tree_nodes [] ?t) \<le> Suc (tl_files L)" using room(1) nodes_with_manifest(1) t by simp
    show "node_bytes (tree_nodes [] ?t) \<le> tl_bytes L"
      using room(2) nodes_with_manifest(2) [of body v cs] bytes by (simp add: t tree_files_def node_bytes_def)
  qed
  then obtain st where st: "scan_tree L ?t = Inr st"
      "mset (node_files (ts_nodes st)) = mset (tree_files t @ [([generated_manifest_name], body)])"
      "ts_files st = length (tree_files t) + 1" "ts_bytes st = mm_size m + length body"
    unfolding all using bytes by auto
  have paths: "distinct (map fst (tree_files ?t))" using tree(1) by (rule file_paths_distinct)
  have "mset (map fst (node_files (ts_nodes st))) = mset (map fst (tree_files ?t))" using st(2) unfolding all by (metis mset_map)
  then have gs: "distinct (map fst (node_files (ts_nodes st)))" using paths mset_eq_imp_distinct_iff by blast
  have "mset (map fst fs) = mset (map fst (tree_files t))" using files by (metis mset_map)
  then have fs_distinct: "distinct (map fst fs)" using paths mset_eq_imp_distinct_iff unfolding all by fastforce
  have same: "set fs = set (tree_files t)" using files by (rule mset_eq_setD)
  have "validate_deployable_model T (ts_nodes st) = Inr ()"
  proof (rule deployable_checks [OF r fs_distinct])
    show "\<forall>f \<in> set fs. fst f \<noteq> []" using same tree_files_nonempty_paths t by auto
    show "mset (node_files (ts_nodes st)) = mset (fs @ [([generated_manifest_name], body)])" using st(2) files by simp
    show "list_all (\<lambda>f. lower (path_suffix (fst f)) \<notin> {''.py'', ''.so''}) fs" using code same by (simp add: list_all_iff)
  qed (rule gs)
  moreover have "length (mm_files m) = length (tree_files t)" using mset_eq_length [OF files] by (simp add: m(1) file_digests_def)
  ultimately show ?thesis using st by auto
qed


section \<open>The index of a sharded model\<close>

lemma mapping_checked:
  assumes "validate_index_tensor_mapping wm shards = Inr ()"
  shows "map_of wm t = Some s \<longleftrightarrow> (t, s) \<in> set (tensor_places shards)"
proof -
  let ?places = "tensor_places shards"
  have one: "\<And>t s. (t, s) \<in> set ?places \<Longrightarrow> map_of ?places t = Some s"
    and keys: "fst ` set wm = fst ` set ?places" and right: "\<And>t s. (t, s) \<in> set wm \<Longrightarrow> map_of ?places t = Some s"
    using assms by (auto simp: validate_index_tensor_mapping_def Let_def check_simps list_all_iff)
  show ?thesis
  proof
    assume "map_of wm t = Some s"
    then show "(t, s) \<in> set ?places" using right map_of_SomeD by metis
  next
    assume place: "(t, s) \<in> set ?places"
    then have "t \<in> fst ` set wm" unfolding keys by force
    then obtain s' where s': "map_of wm t = Some s'" by (metis map_of_eq_None_iff option.exhaust)
    then have "map_of ?places t = Some s'" using right map_of_SomeD by metis
    then show "map_of wm t = Some s" using one [OF place] s' by simp
  qed
qed

text \<open>
  C33. The index of an accepted sharded model locates every tensor: it maps a tensor to a file exactly
  when that file is a weight shard of the directory whose header contains the tensor, so no tensor is
  in two shards, none is missing from the index, and no shard is left out.
\<close>

theorem index_locates_every_tensor:
  assumes "validate_model_files T fs = Inr r" and "distinct (map fst fs)" and "\<forall>f \<in> set fs. fst f \<noteq> []"
    and "map_of (top_level fs) index_file = Some raw"
  shows "\<exists>kvs wm. load_json T index_file raw = Inr kvs \<and> index_pairs kvs = Inr wm
    \<and> (\<forall>t s. map_of wm t = Some s \<longleftrightarrow> is_shard s
         \<and> (\<exists>bytes summary. ([s], bytes) \<in> set fs \<and> validate_safetensors T bytes = Inr summary \<and> t \<in> set (ss_names summary)))"
proof -
  obtain ws wm ss where sel: "select_weight_files T (top_level fs) (filter is_safetensors (map (posix \<circ> fst) fs)) = Inr (ws, wm)"
      and read: "read_weights T (top_level fs) 0 ws = Inr ss"
      and mapping: "\<forall>pairs. wm = Some pairs \<longrightarrow> validate_index_tensor_mapping pairs (map (\<lambda>(w, s). (w, ss_names s)) ss) = Inr ()"
    using model_files_checked [OF assms(1)] by blast
  obtain kvs pairs where raw: "load_json T index_file raw = Inr kvs" "index_pairs kvs = Inr pairs" "wm = Some pairs"
      and seq: "validate_shard_sequence (sort (remdups (map snd pairs))) = Inr ()"
      and refs: "set (map snd pairs) = set (filter is_safetensors (map (posix \<circ> fst) fs))"
      and ws: "ws = sort (remdups (map snd pairs))"
    using sel assms(4) by (auto simp: select_weight_files_def check_simps Let_def split: option.splits)
  let ?shards = "map (\<lambda>(w, s). (w, ss_names s)) ss"
  have all: "\<forall>n \<in> set ws. is_shard n"
    using seq by (simp add: ws validate_shard_sequence_def check_simps list_all_iff)
  have names: "fst ` set ss = set ws" using read_weights_checked(1) [OF read] by (metis list.set_map)
  have place: "(t, s) \<in> set (tensor_places ?shards) \<longleftrightarrow> (\<exists>summary. (s, summary) \<in> set ss \<and> t \<in> set (ss_names summary))" for t s
    by (force simp: tensor_places_def)
  have "map_of pairs t = Some s \<longleftrightarrow> is_shard s
      \<and> (\<exists>bytes summary. ([s], bytes) \<in> set fs \<and> validate_safetensors T bytes = Inr summary \<and> t \<in> set (ss_names summary))" for t s
    unfolding mapping_checked [OF mapping [rule_format, OF raw(3)]] place
  proof
    assume "\<exists>summary. (s, summary) \<in> set ss \<and> t \<in> set (ss_names summary)"
    then obtain summary where s: "(s, summary) \<in> set ss" "t \<in> set (ss_names summary)" by blast
    then have "s \<in> fst ` set ss" by force
    then have "is_shard s" using all by (simp only: names)
    then show "is_shard s \<and> (\<exists>bytes summary. ([s], bytes) \<in> set fs \<and> validate_safetensors T bytes = Inr summary \<and> t \<in> set (ss_names summary))"
      using read_weights_checked(2) [OF read s(1)] s(2) top_level_iff [OF assms(2)] by blast
  next
    assume "is_shard s \<and> (\<exists>bytes summary. ([s], bytes) \<in> set fs \<and> validate_safetensors T bytes = Inr summary \<and> t \<in> set (ss_names summary))"
    then obtain bytes summary where *: "is_shard s" "([s], bytes) \<in> set fs" "validate_safetensors T bytes = Inr summary"
        "t \<in> set (ss_names summary)" by blast
    have "posix [s] = s" by (simp add: posix_def)
    then have "s \<in> set (map (posix \<circ> fst) fs)" using *(2) by force
    then have "s \<in> set ws" using refs shard_is_safetensors [OF *(1)] by (simp add: ws)
    then obtain summary' where s': "(s, summary') \<in> set ss" unfolding names [symmetric] by force
    then have "validate_safetensors T bytes = Inr summary'"
      using read_weights_checked(2) [OF read s'] top_level_iff [OF assms(2)] *(2) assms(2)
      by (metis eq_key_imp_eq_value)
    then show "\<exists>summary. (s, summary) \<in> set ss \<and> t \<in> set (ss_names summary)" using *(3,4) s' by auto
  qed
  then show ?thesis using raw by blast
qed

section \<open>The fingerprint of a directory\<close>

lemma posix_inj:
  assumes "posix p = posix q" "p \<noteq> []" "q \<noteq> []" "\<forall>n \<in> set p. CHR ''/'' \<notin> set n" "\<forall>n \<in> set q. CHR ''/'' \<notin> set n"
  shows "p = q"
  using assms unfolding posix_def by (rule join_with_inj)

lemma filter_key_distinct: "distinct (map f xs) \<Longrightarrow> k \<in> set xs \<Longrightarrow> filter (\<lambda>x. f k = f x) xs = [k]"
proof (induction xs)
  case (Cons x xs)
  show ?case
  proof (cases "k = x")
    case True
    then show ?thesis using Cons.prems(1) by (auto simp: filter_empty_conv)
  next
    case False
    then have "k \<in> set xs" using Cons.prems(2) by simp
    then have "f k \<in> f ` set xs" by (rule imageI)
    then have "f k \<noteq> f x" using Cons.prems(1) by auto
    then show ?thesis using Cons \<open>k \<in> set xs\<close> by simp
  qed
qed simp

lemma sort_key_mset:
  assumes "mset xs = mset ys" "distinct (map f xs)"
  shows "sort_key f xs = sort_key f ys"
proof (rule properties_for_sort_key [symmetric])
  show "mset (sort_key f xs) = mset ys" using assms(1) by simp
  have d: "distinct (map f ys)" using assms by (metis mset_map mset_eq_imp_distinct_iff)
  show "filter (\<lambda>x. f k = f x) (sort_key f xs) = filter (\<lambda>x. f k = f x) ys" if "k \<in> set (sort_key f xs)" for k
  proof -
    have "k \<in> set xs" "k \<in> set ys" using that mset_eq_setD [OF assms(1)] by simp_all
    moreover have "distinct (map f (sort_key f xs))" using assms(2) by (metis mset_map mset_eq_imp_distinct_iff mset_sort)
    ultimately show ?thesis using filter_key_distinct d that by metis
  qed
qed simp

lemma posix_distinct:
  assumes "names_ok (DirNode v cs)"
  shows "distinct (map (posix \<circ> fst) (tree_files (DirNode v cs)))"
proof -
  have "inj_on posix (set (map fst (tree_files (DirNode v cs))))"
  proof (rule inj_onI)
    fix p q assume *: "p \<in> set (map fst (tree_files (DirNode v cs)))" "q \<in> set (map fst (tree_files (DirNode v cs)))" "posix p = posix q"
    then show "p = q"
      using file_names_ok [OF assms] tree_files_nonempty_paths by (intro posix_inj) auto
  qed
  then show ?thesis using file_paths_distinct [OF assms] by (simp add: distinct_map comp_inj_on flip: map_map)
qed

lemma listed_path:
  assumes "names_ok t" "\<exists>v cs. t = DirNode v cs" "h \<in> set (tree_files t)"
  shows "fst h \<noteq> []" and "\<forall>n \<in> set (fst h). CHR ''/'' \<notin> set n"
  using assms(2,3) tree_files_nonempty_paths file_names_ok [OF assms(1,3)] by blast+

definition fingerprinted :: "file_tools \<Rightarrow> file_tree \<Rightarrow> string" where
  "fingerprinted T t = canonical_json (ft_float T) (JArr (map digest_json (file_digests T (tree_files t))))"

text \<open>Everything that is hashed to fingerprint a tree.\<close>

definition hashed_texts :: "file_tools \<Rightarrow> file_tree \<Rightarrow> string set" where
  "hashed_texts T t = insert (fingerprinted T t) (snd ` set (tree_files t))"

lemma checksum_of:
  assumes "validate_model_directory T requested resolved t = Inr m" "names_ok t"
  shows "mm_checksum m = ft_sha256 T (fingerprinted T t)" and "\<exists>v cs. t = DirNode v cs"
proof -
  obtain fs where fs: "iter_regular_files t = Inr fs" and m: "mm_checksum m = directory_checksum T (file_digests T fs)"
    using assms(1) by (auto simp: validate_model_directory_def check_simps)
  obtain v cs where t: "t = DirNode v cs" using iter_regular_files_ok(1) [OF fs] by blast
  have "mset (tree_files t) = mset fs" using iter_regular_files_ok(2) [OF fs] by simp
  then have "sort_key (posix \<circ> fst) (tree_files t) = sort_key (posix \<circ> fst) fs"
    by (rule sort_key_mset) (use posix_distinct [of v cs] assms(2) t in simp)
  then show "mm_checksum m = ft_sha256 T (fingerprinted T t)"
    by (simp add: m directory_checksum_def fingerprinted_def file_digests_def)
  show "\<exists>v cs. t = DirNode v cs" using t by blast
qed

lemma digest_json_inj: "canon (digest_json d) = canon (digest_json e) \<Longrightarrow> d = e"
  by (cases d; cases e) (simp add: digest_json_def less_eq_char_def)

lemma digests_inj: "map (canon \<circ> digest_json) ds = map (canon \<circ> digest_json) es \<Longrightarrow> ds = es"
  by (rule map_injective [of "canon \<circ> digest_json"]) (auto intro!: injI dest: digest_json_inj)

lemma same_digest_same_file:
  assumes "names_ok t" "names_ok u" "\<exists>v cs. t = DirNode v cs" "\<exists>v cs. u = DirNode v cs"
    and "inj_on (ft_sha256 T) (hashed_texts T t \<union> hashed_texts T u)"
    and "f \<in> set (tree_files t)" "g \<in> set (tree_files u)" "digest_of T f = digest_of T g"
  shows "f = g"
proof -
  have texts: "snd f \<in> hashed_texts T t \<union> hashed_texts T u" "snd g \<in> hashed_texts T t \<union> hashed_texts T u"
    using assms(6,7) by (auto simp: hashed_texts_def)
  have "snd f = snd g"
    by (rule inj_onD [OF assms(5) _ texts]) (use assms(8) in \<open>simp add: digest_of_def\<close>)
  moreover note path = listed_path [OF assms(1,3,6)] listed_path [OF assms(2,4,7)]
  have "fst f = fst g"
    by (rule posix_inj [OF _ path(1,3,2,4)]) (use assms(8) in \<open>simp add: digest_of_def\<close>)
  ultimately show ?thesis by (simp add: prod_eq_iff)
qed

lemma same_digests_same_files:
  assumes "names_ok t" "names_ok u" "\<exists>v cs. t = DirNode v cs" "\<exists>v cs. u = DirNode v cs"
    and "inj_on (ft_sha256 T) (hashed_texts T t \<union> hashed_texts T u)"
    and "digest_of T ` set (tree_files t) = digest_of T ` set (tree_files u)"
  shows "set (tree_files t) \<subseteq> set (tree_files u)"
proof
  fix f assume f: "f \<in> set (tree_files t)"
  then obtain g where g: "g \<in> set (tree_files u)" "digest_of T f = digest_of T g" using assms(6) by blast
  then show "f \<in> set (tree_files u)" using same_digest_same_file [OF assms(1-5) f g] by simp
qed

text \<open>
  C34. The checksum the importer stores with a model identifies its files: two accepted directories have
  the same checksum exactly when they contain the same files with the same contents, wherever they lie
  and in whatever order they are listed, as long as SHA-256 does not collide on what is hashed.
\<close>

theorem checksum_identifies_the_files:
  assumes "validate_model_directory T q1 r1 t1 = Inr m1" "validate_model_directory T q2 r2 t2 = Inr m2"
    and "names_ok t1" "names_ok t2" and "float_text (ft_float T)"
    and "inj_on (ft_sha256 T) (hashed_texts T t1 \<union> hashed_texts T t2)"
  shows "mm_checksum m1 = mm_checksum m2 \<longleftrightarrow> set (tree_files t1) = set (tree_files t2)"
proof
  obtain v1 cs1 where t1: "t1 = DirNode v1 cs1" using checksum_of(2) [OF assms(1,3)] by blast
  obtain v2 cs2 where t2: "t2 = DirNode v2 cs2" using checksum_of(2) [OF assms(2,4)] by blast
  show "set (tree_files t1) = set (tree_files t2)" if "mm_checksum m1 = mm_checksum m2"
  proof -
    have "fingerprinted T t1 = fingerprinted T t2"
    proof (rule inj_onD [OF assms(6)])
      show "ft_sha256 T (fingerprinted T t1) = ft_sha256 T (fingerprinted T t2)"
        using that checksum_of(1) [OF assms(1,3)] checksum_of(1) [OF assms(2,4)] by simp
    qed (simp_all add: hashed_texts_def)
    then have "map (canon \<circ> digest_json) (file_digests T (tree_files t1)) = map (canon \<circ> digest_json) (file_digests T (tree_files t2))"
      unfolding fingerprinted_def canonical_json_iff [OF assms(5)] by simp
    then have "file_digests T (tree_files t1) = file_digests T (tree_files t2)" by (rule digests_inj)
    then have "set (file_digests T (tree_files t1)) = set (file_digests T (tree_files t2))" by simp
    then have digests: "digest_of T ` set (tree_files t1) = digest_of T ` set (tree_files t2)" by (simp add: file_digests_def)
    have "\<exists>v cs. t1 = DirNode v cs" "\<exists>v cs. t2 = DirNode v cs" using t1 t2 by blast+
    then show ?thesis
      using same_digests_same_files [OF assms(3,4) _ _ assms(6) digests]
        same_digests_same_files [OF assms(4,3) _ _ _ digests [symmetric]] assms(6) by (simp add: Un_commute subset_antisym)
  qed
  show "mm_checksum m1 = mm_checksum m2" if same: "set (tree_files t1) = set (tree_files t2)"
  proof -
    have "distinct (tree_files t1)" "distinct (tree_files t2)"
      using file_paths_distinct assms(3,4) by (auto simp: distinct_map)
    then have "mset (tree_files t1) = mset (tree_files t2)" using same set_eq_iff_mset_eq_distinct by blast
    then have "sort_key (posix \<circ> fst) (tree_files t1) = sort_key (posix \<circ> fst) (tree_files t2)"
      by (rule sort_key_mset) (use posix_distinct [of v1 cs1] assms(3) t1 in simp)
    then show ?thesis
      by (simp add: checksum_of(1) [OF assms(1,3)] checksum_of(1) [OF assms(2,4)] fingerprinted_def file_digests_def)
  qed
qed


section \<open>A small model\<close>

definition demo_model_tools :: file_tools where
  "demo_model_tools = \<lparr>ft_parse = (\<lambda>w.
       if w = ''{}'' then Inr (JObj demo_tensors)
       else if w = ''C'' then Inr (JObj [(''model_type'', JStr ''qwen'')])
       else if w = ''K'' then Inr (JObj [])
       else if w = ''I'' then Inr (JObj [(''weight_map'', JObj [(''a'', JStr ''model-1-of-1.safetensors''), (''b'', JStr ''model-1-of-1.safetensors'')])])
       else Inl ''json''),
     ft_sha256 = id, ft_float = demo_float, ft_text = (\<lambda>_. ''?'')\<rparr>"

text \<open>The same files in two orders, the second with an empty directory, and a sharded model.\<close>

definition demo_config_files :: "(string \<times> file_tree) list" where
  "demo_config_files = [(''config.json'', FileNode 7 1 ''C''), (''tokenizer_config.json'', FileNode 7 1 ''K''),
     (''tokenizer.json'', FileNode 7 1 ''t'')]"

definition demo_model :: file_tree where
  "demo_model = DirNode 7 ((''model.safetensors'', FileNode 7 1 demo_weight) # demo_config_files)"

definition demo_sharded :: file_tree where
  "demo_sharded = DirNode 7 ([(''model-1-of-1.safetensors'', FileNode 7 1 demo_weight),
     (''model.safetensors.index.json'', FileNode 7 1 ''I'')] @ demo_config_files)"

lemma demo_weight_checked:
  "validate_safetensors demo_model_tools demo_weight
     = Inr \<lparr>ss_names = [''b'', ''a''], ss_parameters = 3, ss_dtypes = [''BOOL'', ''U8'']\<rparr>"
  by (simp add: validate_safetensors_def read_header_def loads_unique_def demo_model_tools_def demo_weight_def
    demo_tensors_def header_length_def header_bytes_def data_length_def metadata_key_def read_tensor_def
    shape_value_def offsets_value_def stored_exactly_def dtype_bits_def max_parameter_count_def
    max_safetensors_header_bytes_def tensor_range_def Let_def check_def less_eq_prod_def)

lemma demo_json:
  "load_json demo_model_tools label ''C'' = Inr [(''model_type'', JStr ''qwen'')]"
  "load_json demo_model_tools label ''K'' = Inr []"
  "load_json demo_model_tools label ''I'' =
     Inr [(''weight_map'', JObj [(''a'', JStr ''model-1-of-1.safetensors''), (''b'', JStr ''model-1-of-1.safetensors'')])]"
  by (simp_all add: load_json_def loads_unique_def demo_model_tools_def check_def max_json_metadata_bytes_def)

lemma demo_files:
  "iter_regular_files demo_model = Inr [([''model.safetensors''], demo_weight), ([''config.json''], ''C''),
     ([''tokenizer_config.json''], ''K''), ([''tokenizer.json''], ''t'')]"
  "iter_regular_files demo_sharded = Inr [([''model-1-of-1.safetensors''], demo_weight),
     ([''model.safetensors.index.json''], ''I''), ([''config.json''], ''C''),
     ([''tokenizer_config.json''], ''K''), ([''tokenizer.json''], ''t'')]"
  by code_simp+

lemma demo_configs:
  assumes "map_of tops ''config.json'' = Some ''C''" "map_of tops ''tokenizer_config.json'' = Some ''K''"
  shows "read_configs demo_model_tools tops = Inr [(''model_type'', JStr ''qwen'')]"
proof -
  have "model_type_ok [(''model_type'', JStr ''qwen'')]" "no_remote_code [(''model_type'', JStr ''qwen'')]" "no_remote_code []"
    by code_simp+
  then show ?thesis using assms by (simp add: read_configs_def demo_json)
qed

lemma demo_names:
  "is_safetensors ''model.safetensors''" "is_safetensors ''model-1-of-1.safetensors''"
  "\<not> is_safetensors ''config.json''" "\<not> is_safetensors ''tokenizer_config.json''" "\<not> is_safetensors ''tokenizer.json''"
  "\<not> is_safetensors ''model.safetensors.index.json''"
  "lower (path_suffix [''model.safetensors'']) = ''.safetensors''" "lower (path_suffix [''model-1-of-1.safetensors'']) = ''.safetensors''"
  "lower (path_suffix [''config.json'']) = ''.json''" "lower (path_suffix [''tokenizer_config.json'']) = ''.json''"
  "lower (path_suffix [''tokenizer.json'']) = ''.json''" "lower (path_suffix [''model.safetensors.index.json'']) = ''.json''"
  "shard_numbers ''model-1-of-1.safetensors'' = Some (1, 1)"
  by code_simp+

lemmas demo_checks = validate_model_files_def top_level_def demo_configs max_manifest_files_def posix_def
  generated_manifest_name_def tokenizer_payloads_def demo_names unsafe_serialization_suffixes_def
  select_weight_files_def weight_file_def index_file_def demo_weight_checked max_parameter_count_def check_def Let_def

lemma demo_accepted:
  "validate_model_files demo_model_tools [([''model.safetensors''], demo_weight), ([''config.json''], ''C''),
     ([''tokenizer_config.json''], ''K''), ([''tokenizer.json''], ''t'')]
     = Inr ([(''model_type'', JStr ''qwen'')], 3, [''BOOL'', ''U8''])"
  by (simp add: demo_checks del: set_filter)

lemma demo_sharded_accepted:
  "validate_model_files demo_model_tools [([''model-1-of-1.safetensors''], demo_weight),
     ([''model.safetensors.index.json''], ''I''), ([''config.json''], ''C''),
     ([''tokenizer_config.json''], ''K''), ([''tokenizer.json''], ''t'')]
     = Inr ([(''model_type'', JStr ''qwen'')], 3, [''BOOL'', ''U8''])"
  by (simp add: demo_checks demo_json index_pairs_def validate_shard_sequence_def is_shard_def
    validate_index_tensor_mapping_def tensor_places_def del: set_filter)

lemma demo_imported:
  "\<exists>m. validate_model_directory demo_model_tools None None demo_model = Inr m \<and> mm_size m = 16"
proof -
  have "length demo_weight = 13" by code_simp
  then show ?thesis by (simp add: validate_model_directory_def demo_files demo_accepted)
qed

lemma imported_model_is_deployable_witness:
  "\<exists>st. scan_tree \<lparr>tl_files = 10, tl_bytes = 100\<rparr> (with_manifest ''{}'' demo_model) = Inr st
     \<and> validate_deployable_model demo_model_tools (ts_nodes st) = Inr () \<and> ts_bytes st = 18"
proof -
  obtain m where m: "validate_model_directory demo_model_tools None None demo_model = Inr m" "mm_size m = 16"
    using demo_imported by blast
  have "names_ok (with_manifest ''{}'' demo_model)" "tidy 7 0 demo_model"
      "list_all (\<lambda>f. lower (path_suffix (fst f)) \<notin> {''.py'', ''.so''}) (tree_files demo_model)"
      "length (tree_nodes [] demo_model) \<le> 10"
    by code_simp+
  then show ?thesis
    using imported_model_is_deployable [OF m(1), of "''{}''" 7 "\<lparr>tl_files = 10, tl_bytes = 100\<rparr>"] m(2) by auto
qed

text \<open>The gap the hypothesis on names leaves: a model with a Python file is imported and never deployable.\<close>

lemma python_file_is_imported_but_not_deployable:
  "\<exists>t. (\<exists>r. on_ok (iter_regular_files t) (validate_model_files demo_model_tools) = Inr r)
     \<and> (\<forall>nodes. mset (node_files nodes) = mset (tree_files t) \<longrightarrow> validate_deployable_model demo_model_tools nodes = Inl ''unsafe file'')"
proof -
  define t where "t = DirNode 7 ((''modeling.py'', FileNode 7 1 ''p'') # (''model.safetensors'', FileNode 7 1 demo_weight) # demo_config_files)"
  have walk: "iter_regular_files t = Inr [([''modeling.py''], ''p''), ([''model.safetensors''], demo_weight), ([''config.json''], ''C''),
     ([''tokenizer_config.json''], ''K''), ([''tokenizer.json''], ''t'')]"
    unfolding t_def by code_simp
  have names: "\<not> is_safetensors ''modeling.py''" "lower (path_suffix [''modeling.py'']) = ''.py''" by code_simp+
  have "validate_model_files demo_model_tools [([''modeling.py''], ''p''), ([''model.safetensors''], demo_weight), ([''config.json''], ''C''),
     ([''tokenizer_config.json''], ''K''), ([''tokenizer.json''], ''t'')] = Inr ([(''model_type'', JStr ''qwen'')], 3, [''BOOL'', ''U8''])"
    by (simp add: demo_checks names del: set_filter)
  moreover have "validate_deployable_model demo_model_tools nodes = Inl ''unsafe file''"
    if same: "mset (node_files nodes) = mset (tree_files t)" for nodes
  proof -
    have "([''modeling.py''], ''p'') \<in> set (node_files nodes)"
      using mset_eq_setD [OF same] by (simp add: t_def tree_files_def)
    then show ?thesis
      using names by (force simp: validate_deployable_model_def Let_def list_all_iff check_def unsafe_model_suffixes_def)
  qed
  ultimately show ?thesis using walk by (intro exI [of _ t]) simp
qed

lemma index_locates_every_tensor_witness:
  "\<exists>kvs wm. load_json demo_model_tools index_file ''I'' = Inr kvs \<and> index_pairs kvs = Inr wm
     \<and> map_of wm ''a'' = Some ''model-1-of-1.safetensors'' \<and> map_of wm ''c'' = None"
proof -
  let ?fs = "[([''model-1-of-1.safetensors''], demo_weight), ([''model.safetensors.index.json''], ''I''), ([''config.json''], ''C''),
     ([''tokenizer_config.json''], ''K''), ([''tokenizer.json''], ''t'')]"
  have "map_of (top_level ?fs) index_file = Some ''I''" by code_simp
  then obtain kvs wm where *: "load_json demo_model_tools index_file ''I'' = Inr kvs" "index_pairs kvs = Inr wm"
      and loc: "\<forall>t s. map_of wm t = Some s \<longleftrightarrow> is_shard s
        \<and> (\<exists>bytes summary. ([s], bytes) \<in> set ?fs \<and> validate_safetensors demo_model_tools bytes = Inr summary \<and> t \<in> set (ss_names summary))"
    using index_locates_every_tensor [OF demo_sharded_accepted, of "''I''"] by auto
  have "map_of wm ''a'' = Some ''model-1-of-1.safetensors''"
    unfolding loc [rule_format] by (simp add: is_shard_def demo_names demo_weight_checked)
  moreover have "map_of wm ''c'' \<noteq> Some s" for s
  proof
    assume "map_of wm ''c'' = Some s"
    then have s: "is_shard s" "\<exists>bytes summary. ([s], bytes) \<in> set ?fs \<and> validate_safetensors demo_model_tools bytes = Inr summary \<and> ''c'' \<in> set (ss_names summary)"
      unfolding loc [rule_format] by blast+
    then have "s = ''model-1-of-1.safetensors''" using shard_is_safetensors [OF s(1)] demo_names(3-6) by auto
    then show False using s(2) by (simp add: demo_weight_checked)
  qed
  ultimately show ?thesis using * by (metis option.exhaust)
qed

lemma checksum_identifies_the_files_witness:
  "\<exists>m n. validate_model_directory demo_model_tools None None demo_model = Inr m
     \<and> validate_model_directory demo_model_tools None None demo_sharded = Inr n \<and> mm_checksum m \<noteq> mm_checksum n"
proof -
  obtain m where m: "validate_model_directory demo_model_tools None None demo_model = Inr m" using demo_imported by blast
  obtain n where n: "validate_model_directory demo_model_tools None None demo_sharded = Inr n"
    by (simp add: validate_model_directory_def demo_files demo_sharded_accepted)
  have ok: "names_ok demo_model" "names_ok demo_sharded" by code_simp+
  have "inj_on (ft_sha256 demo_model_tools) A" for A by (simp add: demo_model_tools_def)
  moreover have "float_text (ft_float demo_model_tools)" using demo_float_text by (simp add: demo_model_tools_def)
  moreover have "([''model.safetensors''], demo_weight) \<in> set (tree_files demo_model)"
      "([''model.safetensors''], demo_weight) \<notin> set (tree_files demo_sharded)"
    by (simp_all add: demo_model_def demo_sharded_def demo_config_files_def tree_files_def)
  ultimately show ?thesis
    using checksum_identifies_the_files [OF m n ok] m n by blast
qed

end
