(* ===== verification/TrainingArtifacts.thy ===== *)
theory TrainingArtifacts
  imports ModelAcceptance ControlRoutes
begin

text \<open>
  The outputs of a training as the control plane treats them (\<open>services/training_control.py\<close>): which
  directories of a job may be read at all, what is exported of them, and the publication of the trained
  model into the model store. A directory is read as one \<open>file_tree\<close>; the store is the list of its
  entries, and a publication may be stopped by a failing system call at any point.
\<close>

section \<open>Which artifact\<close>

datatype artifact_kind = CheckpointKind | AdapterKind | MergedKind | FullKind

fun kind_name :: "artifact_kind \<Rightarrow> string" where
  "kind_name CheckpointKind = ''checkpoint''"
| "kind_name AdapterKind = ''adapter''"
| "kind_name MergedKind = ''merged''"
| "kind_name FullKind = ''full''"

text \<open>\<open>CHECKPOINT_NAME\<close> and \<open>ADAPTER_FILE\<close>.\<close>

definition is_checkpoint_name :: "string \<Rightarrow> bool" where
  "is_checkpoint_name s \<longleftrightarrow> (case strip_prefix ''checkpoint-'' s of None \<Rightarrow> False | Some ds \<Rightarrow> ds \<noteq> [] \<and> list_all is_dec ds)"

definition is_adapter_file :: "string \<Rightarrow> bool" where
  "is_adapter_file s \<longleftrightarrow>
     (case strip_prefix ''adapter_model'' s of
        None \<Rightarrow> False
      | Some r \<Rightarrow> r = ''.safetensors'' \<or>
          (case Option.bind (strip_prefix ''-'' r) (\<lambda>r1.
             Option.bind (leading_number r1) (\<lambda>(_, r2).
             Option.bind (strip_prefix ''-of-'' r2) (\<lambda>r3. leading_number r3))) of
             None \<Rightarrow> False
           | Some (_, r4) \<Rightarrow> r4 = ''.safetensors''))"

definition adapter_metadata_files :: "string list" where
  "adapter_metadata_files =
     [''adapter_config.json'', ''adapter_model.safetensors.index.json'', ''tokenizer_config.json'', ''tokenizer.json'',
      ''tokenizer.model'', ''sentencepiece.bpe.model'', ''spiece.model'', ''vocab.json'', ''merges.txt'',
      ''special_tokens_map.json'', ''added_tokens.json'', ''chat_template.jinja'', ''README.md'']"

text \<open>
  The directory of an artifact, as the row names it; None when the row names none. The output
  directory is the one derived from the root and the id of the job.
\<close>

definition artifact_candidate :: "training_job \<Rightarrow> path \<Rightarrow> artifact_kind \<Rightarrow> string + path option" where
  "artifact_candidate job output which =
     on_ok (check (path_of (train_output_dir job) = output) ''output_dir'') (\<lambda>_.
     case which of
       CheckpointKind \<Rightarrow> (case checkpoint_path job of
          None \<Rightarrow> Inr None
        | Some raw \<Rightarrow> (let p = path_of raw in
            on_ok (check (p \<noteq> [] \<and> butlast p = output \<and> is_checkpoint_name (last p)) ''checkpoint_path'') (\<lambda>_. Inr (Some p))))
     | AdapterKind \<Rightarrow> (case adapter_path job of
          None \<Rightarrow> Inr None
        | Some raw \<Rightarrow>
            on_ok (check (algorithm job \<in> {LORA, QLORA} \<and> path_of raw = output) ''adapter_path'') (\<lambda>_. Inr (Some (path_of raw))))
     | MergedKind \<Rightarrow> (case merged_model_path job of
          None \<Rightarrow> Inr None
        | Some raw \<Rightarrow>
            on_ok (check (path_of raw = (if algorithm job = FREEZE then output else output @ [''merged''])) ''merged_model_path'')
              (\<lambda>_. Inr (Some (path_of raw))))
     | FullKind \<Rightarrow> Inr (if job_actual job = J_SUCCEEDED then Some output else None))"

text \<open>
  What is found at a path below the checkpoint root: an error of the path checks, nothing, or a directory.
  Only the full output may be missing.
\<close>

definition artifact_path ::
  "(path \<Rightarrow> string + file_tree option) \<Rightarrow> training_job \<Rightarrow> path \<Rightarrow> artifact_kind \<Rightarrow> string + file_tree option" where
  "artifact_path disk job output which =
     on_ok (artifact_candidate job output which) (\<lambda>candidate.
     case candidate of
       None \<Rightarrow> Inr None
     | Some p \<Rightarrow> on_ok (disk p) (\<lambda>found.
         on_ok (check (found \<noteq> None \<or> which = FullKind) ''artifact missing'') (\<lambda>_. Inr found)))"

section \<open>What is exported\<close>

text \<open>A selection of the scanned nodes, with its counts.\<close>

definition select_nodes :: "tree_node list \<Rightarrow> tree_scan" where
  "select_nodes ns = \<lparr>ts_nodes = ns, ts_files = length (node_files ns), ts_bytes = sum_list (map (length \<circ> snd) (node_files ns))\<rparr>"

definition filter_adapter_tree :: "tree_scan \<Rightarrow> string + tree_scan" where
  "filter_adapter_tree st =
     (let selected = filter (\<lambda>(p, b). b \<noteq> None \<and> length p = 1
            \<and> (hd p \<in> set adapter_metadata_files \<or> is_adapter_file (hd p))) (ts_nodes st);
          names = map (hd \<circ> fst) selected in
      on_ok (check (''adapter_config.json'' \<in> set names \<and> list_ex is_adapter_file names) ''adapter'') (\<lambda>_.
      Inr (select_nodes selected)))"

text \<open>\<open>Path.suffix\<close> lower-cased.\<close>

definition node_suffix :: "tree_node \<Rightarrow> string" where
  "node_suffix n = lower (path_suffix (fst n))"

definition filter_checkpoint_tree :: "tree_scan \<Rightarrow> string + tree_scan" where
  "filter_checkpoint_tree st =
     (let safe_files = filter (\<lambda>n. snd n \<noteq> None \<and> node_suffix n \<notin> set unsafe_serialization_suffixes) (ts_nodes st) in
      on_ok (check (safe_files \<noteq> []) ''checkpoint'') (\<lambda>_.
      let directories = filter (\<lambda>n. snd n = None \<and> list_ex (\<lambda>f. prefix (fst n) (fst f)) safe_files) (ts_nodes st) in
      Inr (select_nodes (sort_key fst (directories @ safe_files)))))"

definition reject_unsafe_export_files :: "tree_scan \<Rightarrow> string + unit" where
  "reject_unsafe_export_files st =
     check (list_all (\<lambda>n. snd n = None \<or> node_suffix n \<notin> set unsafe_model_suffixes) (ts_nodes st)) ''unsafe file''"

definition inspect_training_artifact ::
  "tree_limits \<Rightarrow> (path \<Rightarrow> string + file_tree option) \<Rightarrow> training_job \<Rightarrow> path \<Rightarrow> artifact_kind \<Rightarrow> string + tree_scan option" where
  "inspect_training_artifact L disk job output which =
     on_ok (check (job_actual job \<in> {J_CANCELED, J_SUCCEEDED, J_FAILED}) ''not terminal'') (\<lambda>_.
     on_ok (artifact_path disk job output which) (\<lambda>found.
     case found of
       None \<Rightarrow> Inr None
     | Some t \<Rightarrow>
         on_ok (scan_tree L t) (\<lambda>st.
         case which of
           CheckpointKind \<Rightarrow> on_ok (filter_checkpoint_tree st) (\<lambda>st'. Inr (Some st'))
         | AdapterKind \<Rightarrow> on_ok (filter_adapter_tree st) (\<lambda>st'. Inr (Some st'))
         | _ \<Rightarrow> on_ok (reject_unsafe_export_files st) (\<lambda>_. Inr (Some st)))))"

record artifact_read =
  ar_kind :: artifact_kind
  ar_files :: nat
  ar_bytes :: nat
  ar_archive :: string

text \<open>The response model wants at least one file and one byte.\<close>

definition artifact_read :: "uuid \<Rightarrow> artifact_kind \<Rightarrow> tree_scan \<Rightarrow> string + artifact_read" where
  "artifact_read job_id which st =
     on_ok (check (1 \<le> ts_files st \<and> 1 \<le> ts_bytes st) ''ValidationError'') (\<lambda>_.
     Inr \<lparr>ar_kind = which, ar_files = ts_files st, ar_bytes = ts_bytes st,
          ar_archive = ''training-'' @ uuid_str job_id @ ''-'' @ kind_name which @ ''.tar.gz''\<rparr>)"

definition list_training_artifacts ::
  "tree_limits \<Rightarrow> (path \<Rightarrow> string + file_tree option) \<Rightarrow> training_job \<Rightarrow> path \<Rightarrow> string + artifact_read list" where
  "list_training_artifacts L disk job output =
     on_ok (check_each (\<lambda>which. on_ok (inspect_training_artifact L disk job output which) (\<lambda>found.
       case found of None \<Rightarrow> Inr [] | Some st \<Rightarrow> on_ok (artifact_read (row_id job) which st) (\<lambda>r. Inr [r])))
       [CheckpointKind, AdapterKind, MergedKind, FullKind]) (\<lambda>rs. Inr (concat rs))"

section \<open>Observations of a training\<close>

record training_observation =
  ob_checkpoint :: "string option"
  ob_adapter :: "string option"
  ob_merged :: "string option"

definition validate_observation_paths ::
  "training_job \<Rightarrow> path \<Rightarrow> bool \<Rightarrow> training_observation \<Rightarrow> string + unit" where
  "validate_observation_paths job output require_success ob =
     on_ok (check (path_of (train_output_dir job) = output) ''output_dir'') (\<lambda>_.
     on_ok (check (case ob_checkpoint ob of None \<Rightarrow> True
       | Some raw \<Rightarrow> (let p = path_of raw in p \<noteq> [] \<and> butlast p = output \<and> is_checkpoint_name (last p))) ''checkpoint_path'') (\<lambda>_.
     if algorithm job \<in> {LORA, QLORA} then
       on_ok (check (case ob_adapter ob of None \<Rightarrow> True | Some raw \<Rightarrow> path_of raw = output) ''adapter_path'') (\<lambda>_.
       on_ok (check (case ob_merged ob of None \<Rightarrow> True | Some raw \<Rightarrow> path_of raw = output @ [''merged'']) ''merged_model_path'') (\<lambda>_.
       check (require_success \<longrightarrow> ob_adapter ob \<noteq> None \<and> ob_merged ob \<noteq> None) ''paths missing''))
     else
       on_ok (check (ob_adapter ob = None) ''adapter_path'') (\<lambda>_.
       on_ok (check (case ob_merged ob of None \<Rightarrow> True | Some raw \<Rightarrow> path_of raw = output) ''merged_model_path'') (\<lambda>_.
       check (require_success \<longrightarrow> ob_merged ob \<noteq> None) ''path missing''))))"

definition deployable_artifact ::
  "file_tools \<Rightarrow> tree_scan option \<Rightarrow> string + unit" where
  "deployable_artifact T found =
     (case found of None \<Rightarrow> Inl ''artifact missing'' | Some st \<Rightarrow> validate_deployable_model T (ts_nodes st))"

definition validate_successful_training_artifacts ::
  "file_tools \<Rightarrow> tree_limits \<Rightarrow> (path \<Rightarrow> string + file_tree option) \<Rightarrow> training_job \<Rightarrow> path \<Rightarrow> string + unit" where
  "validate_successful_training_artifacts T L disk job output =
     (let inspect = inspect_training_artifact L disk job output in
      on_ok (check (job_actual job = J_SUCCEEDED) ''not succeeded'') (\<lambda>_.
      on_ok (inspect FullKind) (\<lambda>full.
      on_ok (check (full \<noteq> None) ''output missing'') (\<lambda>_.
      on_ok (if checkpoint_path job = None then Inr None else inspect CheckpointKind) (\<lambda>_.
      on_ok (if algorithm job \<in> {LORA, QLORA}
          then on_ok (inspect AdapterKind) (\<lambda>adapter. check (adapter \<noteq> None) ''adapter missing'') else Inr ()) (\<lambda>_.
      on_ok (inspect MergedKind) (deployable_artifact T)))))))"

section \<open>Copying a tree\<close>

text \<open>A change of the entries of the directory at a path; None when there is no such directory or the change fails.\<close>

type_synonym entries = "(string \<times> file_tree) list"

fun update_at :: "path \<Rightarrow> (entries \<Rightarrow> entries option) \<Rightarrow> entries \<Rightarrow> entries option" where
  "update_at [] g cs = g cs"
| "update_at (n # q) g cs =
     (case map_of cs n of
        Some (DirNode v ds) \<Rightarrow> map_option (\<lambda>ds'. dict_set n (DirNode v ds') cs) (update_at q g ds)
      | _ \<Rightarrow> None)"

text \<open>A new entry (\<open>mkdir\<close>, \<open>O_CREAT | O_EXCL\<close>): it fails when the name is taken.\<close>

definition new_entry :: "string \<Rightarrow> file_tree \<Rightarrow> entries \<Rightarrow> entries option" where
  "new_entry n t cs = (if n \<in> set (map fst cs) then None else Some (cs @ [(n, t)]))"

definition make_node :: "nat \<Rightarrow> tree_node \<Rightarrow> entries \<Rightarrow> entries option" where
  "make_node dev node =
     update_at (butlast (fst node)) (new_entry (last (fst node))
       (case snd node of None \<Rightarrow> DirNode dev [] | Some bytes \<Rightarrow> FileNode dev 1 bytes))"

text \<open>\<open>_copy_tree\<close>: the nodes one after the other; on a failure the nodes copied so far stay (what a broken write
  leaves of the node at hand is not modelled).\<close>

fun copy_nodes :: "nat \<Rightarrow> (nat \<Rightarrow> bool) \<Rightarrow> nat \<Rightarrow> tree_node list \<Rightarrow> entries \<Rightarrow> entries \<times> bool" where
  "copy_nodes dev fails i [] cs = (cs, True)"
| "copy_nodes dev fails i (x # xs) cs =
     (if fails i then (cs, False)
      else (case make_node dev x cs of
          None \<Rightarrow> (cs, False)
        | Some cs' \<Rightarrow> copy_nodes dev fails (i + 1) xs cs'))"

section \<open>Publication\<close>

text \<open>The system calls of a publication that may fail, by the step they belong to.\<close>

datatype publish_call =
    LockCall | InspectFinalCall | TemporaryCall | CopyCall nat | ScanStagingCall
  | FinalExistsCall | RenameCall | SyncCall | CleanupCall

text \<open>
  \<open>_publication_source\<close>: the merged model, then the full output. It goes on after a
  \<open>TrainingControlError\<close>, not after the \<open>TypeError\<close> of an index with unhashable values.
\<close>

definition publication_candidate ::
  "file_tools \<Rightarrow> tree_limits \<Rightarrow> (path \<Rightarrow> string + file_tree option) \<Rightarrow> training_job \<Rightarrow> path \<Rightarrow> artifact_kind
     \<Rightarrow> string + tree_scan option" where
  "publication_candidate T L disk job output which =
     (case inspect_training_artifact L disk job output which of
        Inr (Some st) \<Rightarrow>
          (case validate_deployable_model T (ts_nodes st) of
             Inr _ \<Rightarrow> Inr (Some st)
           | Inl e \<Rightarrow> (if e = ''TypeError'' then Inl e else Inr None))
      | _ \<Rightarrow> Inr None)"

definition publication_source ::
  "file_tools \<Rightarrow> tree_limits \<Rightarrow> (path \<Rightarrow> string + file_tree option) \<Rightarrow> training_job \<Rightarrow> path \<Rightarrow> string + artifact_kind \<times> tree_scan" where
  "publication_source T L disk job output =
     on_ok (publication_candidate T L disk job output MergedKind) (\<lambda>merged.
     case merged of
       Some st \<Rightarrow> Inr (MergedKind, st)
     | None \<Rightarrow>
         on_ok (publication_candidate T L disk job output FullKind) (\<lambda>full.
         case full of Some st \<Rightarrow> Inr (FullKind, st) | None \<Rightarrow> Inl ''no publishable model''))"

definition final_name :: "uuid \<Rightarrow> string" where
  "final_name job_id = ''trained-'' @ uuid_str job_id"

text \<open>The name \<open>mkdtemp\<close> makes of the random suffix it found free.\<close>

definition staging_name :: "uuid \<Rightarrow> string \<Rightarrow> string" where
  "staging_name job_id random = ''.publish-'' @ uuid_str job_id @ ''-'' @ random"

text \<open>The checks a directory of the store passes before the publication refers to it.\<close>

definition verified_copy ::
  "file_tools \<Rightarrow> tree_limits \<Rightarrow> string \<Rightarrow> file_tree \<Rightarrow> string + tree_scan" where
  "verified_copy T L checksum t =
     on_ok (scan_tree L t) (\<lambda>st.
     on_ok (validate_deployable_model T (ts_nodes st)) (\<lambda>_.
     on_ok (check (tree_content_fingerprint T (ts_nodes st) = checksum) ''content differs'') (\<lambda>_. Inr st)))"

text \<open>
  \<open>finally: shutil.rmtree(staging)\<close>. A cleanup that fails leaves the directory and raises its own error.
\<close>

definition remove_staging :: "(publish_call \<Rightarrow> bool) \<Rightarrow> string \<Rightarrow> entries \<Rightarrow> string + published_files \<Rightarrow> entries \<times> (string + published_files)" where
  "remove_staging fails staging cs r =
     (if staging \<notin> set (map fst cs) then (cs, r)
      else if fails CleanupCall then (cs, Inl ''OSError'')
      else (AList.delete staging cs, r))"

definition files_of :: "path \<Rightarrow> string \<Rightarrow> artifact_kind \<Rightarrow> tree_scan \<Rightarrow> string \<Rightarrow> bool \<Rightarrow> published_files" where
  "files_of model_root final which st checksum created =
     \<lparr>pf_path = path_str (model_root @ [final]), pf_artifact_kind = kind_name which, pf_size_bytes = int (ts_bytes st),
      pf_checksum = checksum, pf_created = created\<rparr>"

text \<open>From the copy to the rename, under the lock; \<open>staging\<close> is a fresh name.\<close>

definition stage_model ::
  "file_tools \<Rightarrow> tree_limits \<Rightarrow> (publish_call \<Rightarrow> bool) \<Rightarrow> nat \<Rightarrow> path \<Rightarrow> string \<Rightarrow> string \<Rightarrow> artifact_kind \<Rightarrow> tree_scan \<Rightarrow> string
     \<Rightarrow> entries \<Rightarrow> entries \<times> (string + published_files)" where
  "stage_model T L fails dev model_root staging final which source checksum cs =
     (case copy_nodes dev (fails \<circ> CopyCall) 0 (ts_nodes source) [] of (below, whole) \<Rightarrow>
      let staged = cs @ [(staging, DirNode dev below)] in
      if \<not> whole then remove_staging fails staging staged (Inl ''copy'')
      else if fails ScanStagingCall then remove_staging fails staging staged (Inl ''scan'')
      else (case verified_copy T L checksum (DirNode dev below) of
          Inl e \<Rightarrow> remove_staging fails staging staged (Inl e)
        | Inr st \<Rightarrow>
            if fails FinalExistsCall \<or> final \<in> set (map fst cs) then remove_staging fails staging staged (Inl ''final exists'')
            else if fails RenameCall then remove_staging fails staging staged (Inl ''rename'')
            else
              (cs @ [(final, DirNode dev below)],
               if fails SyncCall then Inl ''OSError''
               else Inr (files_of model_root final which st checksum True))))"

text \<open>\<open>publish_training_model_files\<close>. The store is the list of entries of the model root.\<close>

definition publish_trained_model ::
  "file_tools \<Rightarrow> tree_limits \<Rightarrow> (publish_call \<Rightarrow> bool) \<Rightarrow> (path \<Rightarrow> string + file_tree option) \<Rightarrow> nat \<Rightarrow> path \<Rightarrow> string \<Rightarrow> training_job \<Rightarrow> path
     \<Rightarrow> entries \<Rightarrow> entries \<times> (string + published_files)" where
  "publish_trained_model T L fails disk dev model_root random job output cs =
     (if job_actual job \<noteq> J_SUCCEEDED then (cs, Inl ''not succeeded'')
      else (case publication_source T L disk job output of
          Inl e \<Rightarrow> (cs, Inl e)
        | Inr (which, source) \<Rightarrow>
            let checksum = tree_content_fingerprint T (ts_nodes source); final = final_name (row_id job) in
            if fails LockCall then (cs, Inl ''lock'')
            else if fails InspectFinalCall then (cs, Inl ''final'')
            else (case map_of cs final of
                Some t \<Rightarrow>
                  (cs, on_ok (verified_copy T L checksum t) (\<lambda>st.
                     Inr (files_of model_root final which st checksum False)))
              | None \<Rightarrow>
                  if fails TemporaryCall then (cs, Inl ''OSError'')
                  else stage_model T L fails dev model_root (staging_name (row_id job) random) final which source checksum cs)))"

end
