(* ===== verification/TrainingPublication.thy ===== *)
theory TrainingPublication
  imports TrainingArtifacts
begin

text \<open>
  The publication of a trained model: the copy has the files of its source, whatever fails on the way
  leaves no half-published model, and what is exported stays in the output directory of its job.
\<close>

section \<open>Changes below a path\<close>

lemma update_at_bind: "update_at q (\<lambda>ds. Option.bind (g ds) h) cs = Option.bind (update_at q g cs) (update_at q h)"
proof (induction q g cs rule: update_at.induct)
  case (2 n q g cs)
  show ?case
  proof (cases "map_of cs n")
    case (Some t)
    show ?thesis
    proof (cases t)
      case (DirNode v ds)
      then have IH: "update_at q (\<lambda>ds. Option.bind (g ds) h) ds = Option.bind (update_at q g ds) (update_at q h)"
        using 2 Some by blast
      show ?thesis
        by (cases "update_at q g ds") (simp_all add: Some DirNode IH dict_get_set option.map_comp comp_def)
    qed (simp_all add: Some)
  qed simp
qed simp

lemma update_at_snoc: "update_at (p @ [n]) g cs = update_at p (update_at [n] g) cs"
  by (induction p g cs rule: update_at.induct) (auto split: option.splits file_tree.splits)

lemma dict_set_last: "n \<notin> set (map fst ds) \<Longrightarrow> dict_set n t (ds @ [(n, s)]) = ds @ [(n, t)]"
  by (induction ds) auto

lemma map_of_last: "n \<notin> set (map fst ds) \<Longrightarrow> map_of (ds @ [(n, t)]) n = Some t"
  by (induction ds) auto

definition add_all :: "entries \<Rightarrow> entries \<Rightarrow> entries option" where
  "add_all xs ds = (if distinct (map fst (ds @ xs)) then Some (ds @ xs) else None)"

lemma add_all_Cons: "add_all ((n, t) # xs) = (\<lambda>ds. Option.bind (new_entry n t ds) (add_all xs))"
  by (auto simp: add_all_def new_entry_def fun_eq_iff)

lemma new_entry_dir:
  "g [] = Some ds' \<Longrightarrow> new_entry n (DirNode dev ds') = (\<lambda>ds. Option.bind (new_entry n (DirNode dev []) ds) (update_at [n] g))"
proof -
  assume g: "g [] = Some ds'"
  have "update_at [n] g (ds @ [(n, DirNode dev [])]) = Some (ds @ [(n, DirNode dev ds')])" if "n \<notin> set (map fst ds)" for ds
    unfolding update_at.simps map_of_last [OF that] by (simp add: g dict_set_last [OF that])
  then show ?thesis by (auto simp: new_entry_def fun_eq_iff)
qed

section \<open>The copy of a tree\<close>

text \<open>A tree without links and special files, and the copy of it on another device.\<close>

fun copyable :: "file_tree \<Rightarrow> bool" where
  "copyable (FileNode _ _ _) = True"
| "copyable (DirNode _ cs) = list_all (\<lambda>(_, t). copyable t) cs"
| "copyable _ = False"

fun copy_of :: "nat \<Rightarrow> file_tree \<Rightarrow> file_tree" where
  "copy_of dev (FileNode _ _ bytes) = FileNode dev 1 bytes"
| "copy_of dev (DirNode _ cs) = DirNode dev (map (\<lambda>(n, t). (n, copy_of dev t)) cs)"
| "copy_of dev t = t"

definition copies :: "nat \<Rightarrow> entries \<Rightarrow> entries" where
  "copies dev cs = map (\<lambda>(n, t). (n, copy_of dev t)) cs"

lemma copies_simps [simp]:
  "copies dev [] = []" "copies dev ((n, t) # cs) = (n, copy_of dev t) # copies dev cs"
  "map fst (copies dev cs) = map fst cs"
  by (simp_all add: copies_def case_prod_unfold)

lemma copy_of_dir: "copy_of dev (DirNode v cs) = DirNode dev (copies dev cs)"
  by (simp add: copies_def)

definition copies_tree :: "nat \<Rightarrow> tree_node list \<Rightarrow> path \<Rightarrow> (entries \<Rightarrow> entries option) \<Rightarrow> bool" where
  "copies_tree dev ns p g \<longleftrightarrow> (\<forall>R R' i rest. update_at p g R = Some R'
     \<longrightarrow> copy_nodes dev (\<lambda>_. False) i (ns @ rest) R = copy_nodes dev (\<lambda>_. False) (i + length ns) rest R')"

lemma update_at_same:
  "update_at q g cs = Some cs' \<Longrightarrow> (\<forall>ds ds'. g ds = Some ds' \<longrightarrow> ds' = ds) \<Longrightarrow> cs' = cs"
proof (induction q g cs arbitrary: cs' rule: update_at.induct)
  case (2 n q g cs)
  from "2.prems"(1) obtain v ds z where *: "map_of cs n = Some (DirNode v ds)" "update_at q g ds = Some z"
      "cs' = dict_set n (DirNode v z) cs"
    by (auto split: option.splits file_tree.splits)
  have "z = ds" by (rule "2.IH" [OF *(1) refl *(2) "2.prems"(2)])
  then show ?case using * by (simp add: update_triv)
qed simp

lemma copies_tree_Nil: "copies_tree dev [] p (add_all [])"
  using update_at_same [of p "add_all []"] by (fastforce simp: copies_tree_def add_all_def split: if_splits)

lemma copies_tree_append:
  assumes "copies_tree dev ns p g" "copies_tree dev ms p h" "f = (\<lambda>ds. Option.bind (g ds) h)"
  shows "copies_tree dev (ns @ ms) p f"
  using assms(1,2) unfolding copies_tree_def assms(3) update_at_bind
  by (fastforce simp: bind_eq_Some_conv add.assoc)

lemma copies_tree_node:
  assumes "fst x = p @ [n]" "g = new_entry n (case snd x of None \<Rightarrow> DirNode dev [] | Some b \<Rightarrow> FileNode dev 1 b)"
  shows "copies_tree dev [x] p g"
  by (simp add: copies_tree_def make_node_def assms split: option.splits)

lemma copies_tree_below:
  assumes "\<And>n t. (n, t) \<in> set cs \<Longrightarrow> copies_tree dev (tree_nodes (p @ [n]) t) p (new_entry n (copy_of dev t))"
  shows "copies_tree dev (nodes_below p cs) p (add_all (copies dev cs))"
  using assms
proof (induction cs)
  case Nil
  show ?case by (simp add: copies_tree_Nil)
next
  case (Cons c cs)
  obtain n t where c: "c = (n, t)" by (cases c)
  show ?case
    unfolding c nodes_below_simps copies_simps add_all_Cons
    by (rule copies_tree_append [OF _ _ refl]) (use Cons c in auto)
qed

lemma copies_tree_dir:
  assumes "copies_tree dev (nodes_below (p @ [n]) cs) (p @ [n]) (add_all (copies dev cs))" "distinct (map fst cs)"
  shows "copies_tree dev (tree_nodes (p @ [n]) (DirNode v cs)) p (new_entry n (DirNode dev (copies dev cs)))"
proof -
  have step: "copies_tree dev (nodes_below (p @ [n]) cs) p (update_at [n] (add_all (copies dev cs)))"
    using assms(1) by (simp only: copies_tree_def update_at_snoc [of p n])
  have "add_all (copies dev cs) [] = Some (copies dev cs)"
    using assms(2) by (simp add: add_all_def del: map_map)
  from new_entry_dir [where g = "add_all (copies dev cs)", OF this]
  have "copies_tree dev ([(p @ [n], None)] @ nodes_below (p @ [n]) cs) p (new_entry n (DirNode dev (copies dev cs)))"
    by (intro copies_tree_append [OF copies_tree_node step]) simp_all
  then show ?thesis by (simp only: tree_nodes_dir append.simps)
qed

lemma copies_tree_entry:
  "names_ok t \<Longrightarrow> copyable t \<Longrightarrow> copies_tree dev (tree_nodes (p @ [n]) t) p (new_entry n (copy_of dev t))"
proof (induction t arbitrary: p n rule: copyable.induct)
  case (1 v l b)
  show ?case by (simp, rule copies_tree_node) simp_all
next
  case (2 v cs)
  have "copies_tree dev (nodes_below (p @ [n]) cs) (p @ [n]) (add_all (copies dev cs))"
  proof (rule copies_tree_below)
    fix m u assume m: "(m, u) \<in> set cs"
    then have "names_ok u" "copyable u" using 2(2,3) by (auto simp: list_all_iff)
    then show "copies_tree dev (tree_nodes ((p @ [n]) @ [m]) u) (p @ [n]) (new_entry m (copy_of dev u))"
      using "2.IH" [OF m refl] by blast
  qed
  then show ?case using copies_tree_dir 2(2) by (simp add: copy_of_dir del: tree_nodes.simps copy_of.simps)
qed simp_all

lemma copy_nodes_copies:
  assumes "names_ok (DirNode v cs)" "copyable (DirNode v cs)"
  shows "copy_nodes dev (\<lambda>_. False) 0 (nodes_below [] cs) [] = (copies dev cs, True)"
proof -
  have "copies_tree dev (nodes_below [] cs) [] (add_all (copies dev cs))"
  proof (rule copies_tree_below)
    fix m u assume "(m, u) \<in> set cs"
    then have "names_ok u" "copyable u" using assms by (auto simp: list_all_iff)
    then show "copies_tree dev (tree_nodes ([] @ [m]) u) [] (new_entry m (copy_of dev u))" by (rule copies_tree_entry)
  qed
  moreover have "update_at [] (add_all (copies dev cs)) [] = Some (copies dev cs)"
    using assms(1) by (simp add: add_all_def)
  ultimately have "copy_nodes dev (\<lambda>_. False) 0 (nodes_below [] cs @ []) [] = copy_nodes dev (\<lambda>_. False) (0 + length (nodes_below [] cs)) [] (copies dev cs)"
    unfolding copies_tree_def by blast
  then show ?thesis by simp
qed

section \<open>The scan of a copy\<close>

lemma visit_ok:
  "visit L dev d cs st = Inr st' \<Longrightarrow>
     st' = scan_extends st (nodes_below d cs) \<and> list_all (\<lambda>(_, t). copyable t) cs \<and> visit L dev' d (copies dev' cs) st = Inr st'"
proof (induction L dev d cs st arbitrary: st' rule: visit.induct)
  case (2 L dev d n child cs st)
  show ?case
  proof (cases child)
    case (FileNode v links bytes)
    with "2.prems" obtain st1 where *: "safe_component n" "add_file L (d @ [n]) bytes st = Inr st1" "visit L dev d cs st1 = Inr st'"
      by (auto simp: check_simps)
    have "st1 = scan_extends st [(d @ [n], Some bytes)]"
      using *(2) by (auto simp: add_file_def check_simps scan_extends_def)
    then show ?thesis using "2.IH"(2) [OF *(3)] * FileNode by simp
  next
    case (DirNode v below)
    with "2.prems" obtain st1 st2 where *: "safe_component n" "add_directory L (d @ [n]) st = Inr st1"
        "length d + 1 \<le> max_tree_depth" "visit L dev (d @ [n]) below st1 = Inr st2" "visit L dev d cs st2 = Inr st'"
      by (auto simp: check_simps)
    have "st1 = scan_extends st [(d @ [n], None)]"
      using *(2) by (auto simp: add_directory_def check_simps scan_extends_def)
    then show ?thesis using "2.IH"(1) [OF DirNode *(4)] "2.IH"(2) [OF *(5)] * DirNode
      by (simp add: tree_nodes_dir copy_of_dir del: tree_nodes.simps copy_of.simps)
  qed (use "2.prems" in \<open>auto simp: check_simps\<close>)
qed simp

lemma map_fst_sorted: "map fst (map (\<lambda>(n, t). (n, f t)) cs) = map fst cs"
  by (simp add: case_prod_unfold)

lemma sort_tree_copy: "sort_tree (copy_of dev (sort_tree t)) = copy_of dev (sort_tree t)"
proof (induction t rule: sort_tree.induct)
  case (1 v cs)
  let ?xs = "sort_key fst (map (\<lambda>(n, t). (n, sort_tree t)) cs)"
  have same: "map (\<lambda>(n, t). (n, sort_tree t)) (copies dev ?xs) = copies dev ?xs"
    using 1 by (auto simp: copies_def)
  have "sorted (map fst (copies dev ?xs))" by simp
  then have "sort_key fst (copies dev ?xs) = copies dev ?xs" by (rule sort_key_id_if_sorted)
  then show ?case by (simp add: same copy_of_dir del: copy_of.simps)
qed simp_all

lemma sort_tree_names: "names_ok (sort_tree t) = names_ok t"
proof (induction t rule: sort_tree.induct)
  case (1 v cs)
  let ?xs = "map (\<lambda>(n, t). (n, sort_tree t)) cs"
  have "mset (map fst (sort_key fst ?xs)) = mset (map fst cs)"
    unfolding mset_map mset_sort by (simp add: image_mset.compositionality comp_def case_prod_unfold)
  then have "distinct (map fst (sort_key fst ?xs)) = distinct (map fst cs)" by (rule mset_eq_imp_distinct_iff)
  then show ?case using 1 by (auto simp: list_all_iff)
qed simp_all

lemma scan_tree_copy:
  assumes "scan_tree L t = Inr st"
  shows "\<exists>v cs. sort_tree t = DirNode v cs \<and> ts_nodes st = nodes_below [] cs \<and> copyable (DirNode v cs)
    \<and> scan_tree L (DirNode dev (copies dev cs)) = Inr st"
proof -
  let ?st = "\<lparr>ts_nodes = [], ts_files = 0, ts_bytes = 0\<rparr>"
  obtain v cs where t: "sort_tree t = DirNode v cs" "visit L v [] cs ?st = Inr st" "ts_files st \<noteq> 0"
    using assms by (auto simp: scan_tree_def check_simps split: file_tree.splits)
  have "sort_tree (DirNode dev (copies dev cs)) = DirNode dev (copies dev cs)"
    using sort_tree_copy [of dev t] unfolding t(1) copy_of_dir .
  then show ?thesis
    using visit_ok [OF t(2), of dev] t(1,3) by (simp add: scan_tree_def scan_extends_def)
qed

section \<open>The published model\<close>

lemma publication_candidate_ok:
  assumes "publication_candidate T L disk job output which = Inr (Some st)" "which \<in> {MergedKind, FullKind}"
  shows "(\<exists>p t. disk p = Inr (Some t) \<and> scan_tree L t = Inr st) \<and> validate_deployable_model T (ts_nodes st) = Inr ()"
proof -
  have "inspect_training_artifact L disk job output which = Inr (Some st)" "validate_deployable_model T (ts_nodes st) = Inr ()"
    using assms(1) by (auto simp: publication_candidate_def split: sum.splits option.splits if_splits)
  moreover obtain p t where "disk p = Inr (Some t)" "scan_tree L t = Inr st"
    using calculation(1) assms(2)
    by (auto simp: inspect_training_artifact_def artifact_path_def check_simps split: option.splits)
  ultimately show ?thesis by blast
qed

lemma publication_source_ok:
  assumes "publication_source T L disk job output = Inr (which, source)"
  shows "(\<exists>p t. disk p = Inr (Some t) \<and> scan_tree L t = Inr source) \<and> validate_deployable_model T (ts_nodes source) = Inr ()"
  using assms by (auto simp: publication_source_def check_simps dest: publication_candidate_ok split: option.splits)

lemma stage_model_ok:
  assumes "scan_tree L t = Inr source" "names_ok t" "validate_deployable_model T (ts_nodes source) = Inr ()"
    and "\<forall>c. \<not> fails c" "final \<notin> set (map fst cs)"
  shows "\<exists>u. stage_model T L fails dev model_root staging final which source (tree_content_fingerprint T (ts_nodes source)) cs
      = (cs @ [(final, u)], Inr (files_of model_root final which source (tree_content_fingerprint T (ts_nodes source)) True))
    \<and> scan_tree L u = Inr source"
proof -
  obtain v ds where ds: "sort_tree t = DirNode v ds" "ts_nodes source = nodes_below [] ds" "copyable (DirNode v ds)"
      "scan_tree L (DirNode dev (copies dev ds)) = Inr source"
    using scan_tree_copy [OF assms(1), of dev] by blast
  have "names_ok (DirNode v ds)" using assms(2) sort_tree_names [of t] ds(1) by simp
  note copied = copy_nodes_copies [OF this ds(3), of dev]
  have "fails \<circ> CopyCall = (\<lambda>_. False)" using assms(4) by auto
  moreover have "verified_copy T L (tree_content_fingerprint T (ts_nodes source)) (DirNode dev (copies dev ds)) = Inr source"
    using ds(4) assms(3) by (simp add: verified_copy_def check_simps)
  ultimately show ?thesis
    using assms(4,5) ds copied by (simp add: stage_model_def Let_def)
qed

text \<open>
  C35. A publication that meets no failing system call copies the model: the new directory \<open>trained-<id>\<close>
  scans exactly as the source does (the same nodes, files and bytes, so the same checksum), nothing else in
  the store changes, and publishing once more finds the directory and reports the same model without
  creating anything.
\<close>

theorem publication_copies_the_model:
  assumes "job_actual job = J_SUCCEEDED" "publication_source T L disk job output = Inr (which, source)"
    and "\<And>p t. disk p = Inr (Some t) \<Longrightarrow> names_ok t"
    and "\<forall>c. \<not> fails c" "final_name (row_id job) \<notin> set (map fst cs)"
  shows "\<exists>t r. publish_trained_model T L fails disk dev model_root random job output cs = (cs @ [(final_name (row_id job), t)], Inr r)
     \<and> scan_tree L t = Inr source
     \<and> r = \<lparr>pf_path = path_str (model_root @ [final_name (row_id job)]), pf_artifact_kind = kind_name which,
            pf_size_bytes = int (ts_bytes source), pf_checksum = tree_content_fingerprint T (ts_nodes source), pf_created = True\<rparr>
     \<and> publish_trained_model T L fails disk dev model_root random' job output (cs @ [(final_name (row_id job), t)])
         = (cs @ [(final_name (row_id job), t)], Inr (r\<lparr>pf_created := False\<rparr>))"
proof -
  let ?final = "final_name (row_id job)"
  obtain p t0 where t0: "disk p = Inr (Some t0)" "scan_tree L t0 = Inr source" "validate_deployable_model T (ts_nodes source) = Inr ()"
    using publication_source_ok [OF assms(2)] by blast
  obtain u where u: "stage_model T L fails dev model_root (staging_name (row_id job) random) ?final which source (tree_content_fingerprint T (ts_nodes source)) cs
      = (cs @ [(?final, u)], Inr (files_of model_root ?final which source (tree_content_fingerprint T (ts_nodes source)) True))"
      "scan_tree L u = Inr source"
    using stage_model_ok [OF t0(2) assms(3) [OF t0(1)] t0(3) assms(4,5)] by blast
  have "verified_copy T L (tree_content_fingerprint T (ts_nodes source)) u = Inr source"
    using u(2) t0(3) by (simp add: verified_copy_def check_simps)
  moreover have "map_of cs ?final = None" using assms(5) by (simp add: map_of_eq_None_iff)
  ultimately show ?thesis
    using assms(1,2,4) u map_of_last [OF assms(5), of u]
    by (simp add: publish_trained_model_def Let_def files_of_def)
qed

section \<open>When a call fails\<close>

lemma delete_last: "n \<notin> set (map fst cs) \<Longrightarrow> AList.delete n (cs @ [(n, t)]) = cs"
  by (induction cs) auto

lemma remove_staging_cases:
  assumes "staging \<notin> set (map fst cs)" "remove_staging fails staging (cs @ [(staging, t)]) r = (cs', r')"
  shows "(cs' = cs \<and> r' = r \<or> cs' = cs @ [(staging, t)] \<and> fails CleanupCall \<and> isl r')"
  using assms by (auto simp: remove_staging_def delete_last split: if_splits)

lemma stage_model_cases:
  assumes "staging \<notin> set (map fst cs)"
    and "stage_model T L fails dev model_root staging final which source checksum cs = (cs', r)"
  obtains (nothing) "cs' = cs" "isl r"
    | (left) below where "cs' = cs @ [(staging, DirNode dev below)]" "fails CleanupCall" "isl r"
    | (renamed) t st where "final \<notin> set (map fst cs)" "cs' = cs @ [(final, t)]" "verified_copy T L checksum t = Inr st"
        "r = (if fails SyncCall then Inl ''OSError'' else Inr (files_of model_root final which st checksum True))"
proof -
  obtain below whole where copy: "copy_nodes dev (fails \<circ> CopyCall) 0 (ts_nodes source) [] = (below, whole)"
    by fastforce
  have removed: thesis if "remove_staging fails staging (cs @ [(staging, DirNode dev below)]) (Inl e) = (cs', r)" for e
    using remove_staging_cases [OF assms(1) that]
    by (elim disjE conjE) (rule nothing, simp_all, rule left, simp_all)
  show thesis
    using assms(2) removed renamed [of "DirNode dev below"]
    by (auto simp: stage_model_def copy Let_def split: if_splits sum.splits)
qed

lemma publication_cases:
  assumes "staging_name (row_id job) random \<notin> set (map fst cs)"
    and "publish_trained_model T L fails disk dev model_root random job output cs = (cs', r)"
  obtains (nothing) "cs' = cs" "isl r"
    | (left) below where "cs' = cs @ [(staging_name (row_id job) random, DirNode dev below)]" "fails CleanupCall" "isl r"
    | (there) which source t st where "cs' = cs" "publication_source T L disk job output = Inr (which, source)"
        "map_of cs (final_name (row_id job)) = Some t" "verified_copy T L (tree_content_fingerprint T (ts_nodes source)) t = Inr st"
        "r = Inr (files_of model_root (final_name (row_id job)) which st (tree_content_fingerprint T (ts_nodes source)) False)"
    | (renamed) which source t st where "final_name (row_id job) \<notin> set (map fst cs)" "cs' = cs @ [(final_name (row_id job), t)]"
        "publication_source T L disk job output = Inr (which, source)"
        "verified_copy T L (tree_content_fingerprint T (ts_nodes source)) t = Inr st"
        "r = (if fails SyncCall then Inl ''OSError''
           else Inr (files_of model_root (final_name (row_id job)) which st (tree_content_fingerprint T (ts_nodes source)) True))"
proof (cases "publication_source T L disk job output")
  case (Inl e)
  then have "cs' = cs \<and> isl r" using assms(2) by (auto simp: publish_trained_model_def split: if_splits)
  then show thesis by (elim conjE) (rule nothing)
next
  case (Inr ws)
  obtain which source where ws: "ws = (which, source)" by (cases ws)
  let ?final = "final_name (row_id job)" and ?sum = "tree_content_fingerprint T (ts_nodes source)"
  consider (early) "cs' = cs" "isl r"
    | (found) t st where "cs' = cs" "map_of cs ?final = Some t" "verified_copy T L ?sum t = Inr st"
        "r = Inr (files_of model_root ?final which st ?sum False)"
    | (staged) "stage_model T L fails dev model_root (staging_name (row_id job) random) ?final which source ?sum cs = (cs', r)"
    using assms(2)
    by (cases "map_of cs ?final"; cases "verified_copy T L ?sum (the (map_of cs ?final))")
      (auto simp: publish_trained_model_def Inr ws Let_def split: if_splits)
  then show thesis
  proof cases
    case early then show thesis by (rule nothing)
  next
    case found then show thesis using there Inr ws by blast
  next
    case staged
    from assms(1) this show thesis
    proof (cases rule: stage_model_cases)
      case nothing then show thesis by (rule that(1))
    next
      case (left below) then show thesis by (rule that(2))
    next
      case (renamed t st) then show thesis using that(4) Inr ws by blast
    qed
  qed
qed

lemma publication_result:
  assumes "staging_name (row_id job) random \<notin> set (map fst cs)"
    and "publish_trained_model T L fails disk dev model_root random job output cs = (cs', Inr f)"
  shows "\<exists>t st. pf_path f = path_str (model_root @ [final_name (row_id job)])
    \<and> map_of cs' (final_name (row_id job)) = Some t \<and> scan_tree L t = Inr st
    \<and> validate_deployable_model T (ts_nodes st) = Inr () \<and> pf_size_bytes f = int (ts_bytes st)
    \<and> pf_checksum f = tree_content_fingerprint T (ts_nodes st)"
  using assms
proof (cases rule: publication_cases)
  case (there which source t st)
  then show ?thesis by (auto simp: verified_copy_def check_simps files_of_def)
next
  case (renamed which source t st)
  then show ?thesis using map_of_last [OF renamed(1), of t]
    by (intro exI [of _ t] exI [of _ st]) (auto simp: verified_copy_def check_simps files_of_def split: if_splits)
qed auto

text \<open>
  C8. A publication either happens or does not, whichever system call fails. A directory that is in the
  store is never touched; the new directory appears complete, with the checksum of its source verified on
  the copy, or not at all; what is left of a failure is at most the staging directory, and only when its
  removal fails too. A result always names a directory in the store that passes the checks of a deployable
  model with the size and the checksum of the result.
\<close>

theorem publication_is_atomic:
  assumes "staging_name (row_id job) random \<notin> set (map fst cs)"
    and "publish_trained_model T L fails disk dev model_root random job output cs = (cs', r)"
  shows "(cs' = cs
       \<or> (\<exists>below. cs' = cs @ [(staging_name (row_id job) random, DirNode dev below)] \<and> fails CleanupCall \<and> isl r)
       \<or> (\<exists>t which source st. final_name (row_id job) \<notin> set (map fst cs) \<and> cs' = cs @ [(final_name (row_id job), t)]
            \<and> publication_source T L disk job output = Inr (which, source)
            \<and> scan_tree L t = Inr st \<and> validate_deployable_model T (ts_nodes st) = Inr ()
            \<and> tree_content_fingerprint T (ts_nodes st) = tree_content_fingerprint T (ts_nodes source)))
     \<and> (\<forall>f. r = Inr f \<longrightarrow> (\<exists>t st. pf_path f = path_str (model_root @ [final_name (row_id job)])
            \<and> map_of cs' (final_name (row_id job)) = Some t \<and> scan_tree L t = Inr st
            \<and> validate_deployable_model T (ts_nodes st) = Inr () \<and> pf_size_bytes f = int (ts_bytes st)
            \<and> pf_checksum f = tree_content_fingerprint T (ts_nodes st)))"
proof (rule conjI)
  from assms show "cs' = cs
       \<or> (\<exists>below. cs' = cs @ [(staging_name (row_id job) random, DirNode dev below)] \<and> fails CleanupCall \<and> isl r)
       \<or> (\<exists>t which source st. final_name (row_id job) \<notin> set (map fst cs) \<and> cs' = cs @ [(final_name (row_id job), t)]
            \<and> publication_source T L disk job output = Inr (which, source)
            \<and> scan_tree L t = Inr st \<and> validate_deployable_model T (ts_nodes st) = Inr ()
            \<and> tree_content_fingerprint T (ts_nodes st) = tree_content_fingerprint T (ts_nodes source))"
  proof (cases rule: publication_cases)
    case (renamed which source t st)
    then show ?thesis
      by (intro disjI2 exI [of _ t] exI [of _ which] exI [of _ source] exI [of _ st]) (auto simp: verified_copy_def check_simps)
  qed auto
qed (use publication_result [OF assms(1)] assms(2) in blast)

section \<open>What is exported\<close>

lemma visit_base: "scan_tree L t = Inr st \<Longrightarrow> set (node_files (ts_nodes st)) = set (tree_files t)"
proof -
  assume scan: "scan_tree L t = Inr st"
  then obtain v cs where t: "sort_tree t = DirNode v cs" "ts_nodes st = nodes_below [] cs"
    using scan_tree_copy [OF scan] by blast
  have "mset (node_files (tree_nodes [] (sort_tree t))) = mset (tree_files t)"
    unfolding tree_files_def by (rule mset_node_files) (rule tree_nodes_sort)
  then have "set (node_files (tree_nodes [] (sort_tree t))) = set (tree_files t)" by (rule mset_eq_setD)
  moreover have "tree_nodes [] (sort_tree t) = ([], None) # nodes_below [] cs" unfolding t(1) by (rule tree_nodes_dir)
  ultimately show ?thesis unfolding t(2) by simp
qed

text \<open>The directories of a job that may be read.\<close>

definition readable_directory :: "training_job \<Rightarrow> path \<Rightarrow> artifact_kind \<Rightarrow> path \<Rightarrow> bool" where
  "readable_directory job output which p \<longleftrightarrow>
     (case which of
        CheckpointKind \<Rightarrow> (\<exists>n. p = output @ [n] \<and> is_checkpoint_name n)
      | AdapterKind \<Rightarrow> p = output \<and> algorithm job \<in> {LORA, QLORA}
      | MergedKind \<Rightarrow> p = (if algorithm job = FREEZE then output else output @ [''merged''])
      | FullKind \<Rightarrow> p = output \<and> job_actual job = J_SUCCEEDED)"

lemma artifact_candidate_ok:
  assumes "artifact_candidate job output which = Inr (Some p)"
  shows "path_of (train_output_dir job) = output \<and> readable_directory job output which p"
proof (cases which)
  case CheckpointKind
  then have "p \<noteq> []" "butlast p = output" "is_checkpoint_name (last p)" "path_of (train_output_dir job) = output"
    using assms by (auto simp: artifact_candidate_def check_simps Let_def split: option.splits)
  moreover from this have "p = output @ [last p]" using append_butlast_last_id [of p] by simp
  ultimately show ?thesis unfolding readable_directory_def using CheckpointKind by (simp, intro exI [of _ "last p"]) simp
qed (use assms in \<open>auto simp: artifact_candidate_def readable_directory_def check_simps split: option.splits if_splits\<close>)

lemma last_dot_append: "last_dot (x @ y) i found = last_dot y (i + length x) (last_dot x i found)"
  by (induction x i found rule: last_dot.induct) simp_all

lemma safetensors_suffix: "x \<noteq> [] \<Longrightarrow> path_suffix [x @ ''.safetensors''] = ''.safetensors''"
  by (auto simp: path_suffix_def suffix_at_def last_dot_append is_root_part_def Cons_eq_append_conv append_eq_Cons_conv)

lemma adapter_file_shape:
  assumes "is_adapter_file s" shows "\<exists>x. x \<noteq> [] \<and> s = x @ ''.safetensors''"
proof -
  obtain r where r: "s = ''adapter_model'' @ r"
      "r = ''.safetensors'' \<or> (\<exists>r1 n r2 r3 m. r = ''-'' @ r1 \<and> leading_number r1 = Some (n, r2)
         \<and> r2 = ''-of-'' @ r3 \<and> leading_number r3 = Some (m, ''.safetensors''))"
    using assms by (auto simp: is_adapter_file_def strip_prefix_iff split: option.splits bind_splits if_splits)
  from r(2) have "\<exists>x. r = x @ ''.safetensors''"
  proof (elim disjE exE conjE)
    fix r1 n r2 r3 m
    assume *: "r = ''-'' @ r1" "leading_number r1 = Some (n, r2)" "r2 = ''-of-'' @ r3" "leading_number r3 = Some (m, ''.safetensors'')"
    obtain ds es where "r1 = ds @ r2" "r3 = es @ ''.safetensors''"
      using leading_number_split [OF *(2)] leading_number_split [OF *(4)] by blast
    then have "r = (''-'' @ ds @ ''-of-'' @ es) @ ''.safetensors''" using *(1,3) by simp
    then show ?thesis by blast
  qed auto
  then obtain x where "s = (''adapter_model'' @ x) @ ''.safetensors''" using r(1) by auto
  then show ?thesis by (intro exI [of _ "''adapter_model'' @ x"]) simp
qed

lemma adapter_metadata_safe: "\<forall>n \<in> set adapter_metadata_files. lower (path_suffix [n]) \<notin> set unsafe_serialization_suffixes"
  by code_simp

lemma safetensors_safe: "lower ''.safetensors'' \<notin> set unsafe_serialization_suffixes"
  by code_simp

definition adapter_name :: "path \<Rightarrow> bool" where
  "adapter_name p \<longleftrightarrow> length p = 1 \<and> (hd p \<in> set adapter_metadata_files \<or> is_adapter_file (hd p))"

lemma adapter_name_safe: "adapter_name p \<Longrightarrow> lower (path_suffix p) \<notin> set unsafe_serialization_suffixes"
proof -
  assume p: "adapter_name p"
  then obtain n where n: "p = [n]" by (cases p) (auto simp: adapter_name_def)
  consider "n \<in> set adapter_metadata_files" | "is_adapter_file n" using p n by (auto simp: adapter_name_def)
  then show ?thesis
  proof cases
    case 1 then show ?thesis using adapter_metadata_safe n by blast
  next
    case 2
    then obtain x where "x \<noteq> []" "n = x @ ''.safetensors''" using adapter_file_shape by blast
    then show ?thesis using safetensors_suffix safetensors_safe n by simp
  qed
qed

text \<open>The files of a directory that an artifact of the kind consists of.\<close>

definition exported :: "artifact_kind \<Rightarrow> file_entry \<Rightarrow> bool" where
  "exported which f \<longleftrightarrow>
     (case which of
        CheckpointKind \<Rightarrow> lower (path_suffix (fst f)) \<notin> set unsafe_serialization_suffixes
      | AdapterKind \<Rightarrow> adapter_name (fst f)
      | _ \<Rightarrow> True)"

lemma node_files_filter:
  "node_files (filter (\<lambda>n. snd n \<noteq> None \<and> P (fst n)) ns) = filter (\<lambda>f. P (fst f)) (node_files ns)"
proof (induction ns)
  case (Cons n ns)
  then show ?case by (cases n; cases "snd n") simp_all
qed simp

lemma set_node_files: "set (node_files ns) = {(p, b). (p, Some b) \<in> set ns}"
  by (force simp: node_files_def)

lemma filter_adapter_ok:
  assumes "filter_adapter_tree st = Inr st'"
  shows "st' = select_nodes (ts_nodes st') \<and> set (node_files (ts_nodes st')) = {f \<in> set (node_files (ts_nodes st)). adapter_name (fst f)}"
proof -
  let ?ns = "filter (\<lambda>n. snd n \<noteq> None \<and> adapter_name (fst n)) (ts_nodes st)"
  have same: "(\<lambda>(p, b). b \<noteq> None \<and> length p = 1 \<and> (hd p \<in> set adapter_metadata_files \<or> is_adapter_file (hd p)))
      = (\<lambda>n. snd n \<noteq> None \<and> adapter_name (fst n))"
    by (auto simp: adapter_name_def fun_eq_iff)
  then have "st' = select_nodes ?ns"
    using assms unfolding filter_adapter_tree_def Let_def same on_ok_Inr check_Inr sum.inject by blast
  then show ?thesis by (simp add: select_nodes_def node_files_filter del: not_None_eq)
qed

lemma reject_unsafe_ok:
  assumes "reject_unsafe_export_files st = Inr u" "f \<in> set (node_files (ts_nodes st))"
  shows "lower (path_suffix (fst f)) \<notin> set unsafe_model_suffixes"
proof -
  have "(fst f, Some (snd f)) \<in> set (ts_nodes st)" using assms(2) by (auto simp: set_node_files)
  then show ?thesis
    using assms(1) by (fastforce simp: reject_unsafe_export_files_def check_simps list_all_iff node_suffix_def)
qed

lemma filter_checkpoint_ok:
  assumes "filter_checkpoint_tree st = Inr st'"
  shows "st' = select_nodes (ts_nodes st') \<and> set (node_files (ts_nodes st'))
    = {f \<in> set (node_files (ts_nodes st)). lower (path_suffix (fst f)) \<notin> set unsafe_serialization_suffixes}"
proof -
  obtain ds where st': "st' = select_nodes (sort_key fst (ds @
      filter (\<lambda>n. snd n \<noteq> None \<and> lower (path_suffix (fst n)) \<notin> set unsafe_serialization_suffixes) (ts_nodes st)))"
      and ds: "\<forall>d \<in> set ds. snd d = None"
    using assms unfolding filter_checkpoint_tree_def node_suffix_def by (auto simp: check_simps Let_def)
  show ?thesis using ds unfolding st' by (auto simp: select_nodes_def set_node_files)
qed

lemma scan_counts:
  assumes "scan_tree L t = Inr st" shows "st = select_nodes (ts_nodes st)"
proof -
  obtain v cs where "visit L v [] cs \<lparr>ts_nodes = [], ts_files = 0, ts_bytes = 0\<rparr> = Inr st"
    using assms by (auto simp: scan_tree_def check_simps split: file_tree.splits)
  from visit_ok [OF this, THEN conjunct1] show ?thesis by (simp add: select_nodes_def node_bytes_def scan_extends_def)
qed

text \<open>
  C36. What can be read of a job: only in a final state, only in the directory the job's id gives it (its
  output, \<open>merged\<close> or one \<open>checkpoint-<n>\<close> of it, as the algorithm allows; the raw output only after
  a success), and of that directory exactly the files the kind stands for: never one of a format
  whose loading may run code, for a merged or full model no Python and no shared library either.
\<close>

theorem exports_stay_in_the_output:
  assumes "inspect_training_artifact L disk job output which = Inr (Some st)"
  shows "job_actual job \<in> {J_CANCELED, J_SUCCEEDED, J_FAILED} \<and> path_of (train_output_dir job) = output
    \<and> (\<exists>p t. readable_directory job output which p \<and> disk p = Inr (Some t)
        \<and> set (node_files (ts_nodes st)) = {f \<in> set (tree_files t). exported which f})
    \<and> (\<forall>f \<in> set (node_files (ts_nodes st)). lower (path_suffix (fst f))
        \<notin> set (if which \<in> {MergedKind, FullKind} then unsafe_model_suffixes else unsafe_serialization_suffixes))
    \<and> ts_files st = length (node_files (ts_nodes st)) \<and> ts_bytes st = sum_list (map (length \<circ> snd) (node_files (ts_nodes st)))"
proof -
  obtain p t st0 where *: "job_actual job \<in> {J_CANCELED, J_SUCCEEDED, J_FAILED}"
      "artifact_candidate job output which = Inr (Some p)" "disk p = Inr (Some t)" "scan_tree L t = Inr st0"
      "(case which of CheckpointKind \<Rightarrow> filter_checkpoint_tree st0 | AdapterKind \<Rightarrow> filter_adapter_tree st0
        | _ \<Rightarrow> on_ok (reject_unsafe_export_files st0) (\<lambda>_. Inr st0)) = Inr st"
    using assms by (cases which) (auto simp: inspect_training_artifact_def artifact_path_def check_simps split: option.splits)
  have files: "set (node_files (ts_nodes st0)) = set (tree_files t)" using visit_base *(4) .
  note counts = scan_counts [OF *(4)]
  have "st = select_nodes (ts_nodes st) \<and> set (node_files (ts_nodes st)) = {f \<in> set (tree_files t). exported which f}
      \<and> (\<forall>f \<in> set (node_files (ts_nodes st)). lower (path_suffix (fst f))
        \<notin> set (if which \<in> {MergedKind, FullKind} then unsafe_model_suffixes else unsafe_serialization_suffixes))"
  proof (cases which)
    case CheckpointKind
    then show ?thesis using *(5) filter_checkpoint_ok [of st0 st] by (auto simp: exported_def files)
  next
    case AdapterKind
    then show ?thesis using *(5) filter_adapter_ok [of st0 st] adapter_name_safe by (auto simp: exported_def files)
  qed (use *(5) counts files reject_unsafe_ok [of st0] in \<open>auto simp: exported_def check_simps\<close>)
  note st = this [THEN conjunct1] this [THEN conjunct2, THEN conjunct1] this [THEN conjunct2, THEN conjunct2]
  have "ts_files st = length (node_files (ts_nodes st))" "ts_bytes st = sum_list (map (length \<circ> snd) (node_files (ts_nodes st)))"
    by (subst st(1), simp add: select_nodes_def)+
  with st(2,3) * artifact_candidate_ok [OF *(2)] show ?thesis by blast
qed

section \<open>The registered model\<close>

text \<open>The request handler with the publication as the model has it.\<close>

definition publishing ::
  "file_tools \<Rightarrow> tree_limits \<Rightarrow> (publish_call \<Rightarrow> bool) \<Rightarrow> (path \<Rightarrow> string + file_tree option) \<Rightarrow> nat \<Rightarrow> path \<Rightarrow> string \<Rightarrow> (uuid \<Rightarrow> path)
     \<Rightarrow> entries \<Rightarrow> file_checks \<Rightarrow> file_checks" where
  "publishing T L fails disk dev model_root random output cs F =
     F\<lparr>publish_training_model_files := \<lambda>job.
       snd (publish_trained_model T L fails disk dev model_root random job (output (row_id job)) cs)\<rparr>"

text \<open>
  C37. The row that a publication registers describes what is in the store: after a successful request for a
  job that was not published before, the store holds \<open>trained-<id>\<close>, which passes the checks of a
  deployable model; the asset the job now refers to has the path of that directory, and when the row is new
  it is ready, with the size and the checksum of the files.
\<close>

theorem published_asset_describes_the_store:
  assumes "publish_training_model (publishing T L fails disk dev model_root random output cs F) i new s = Inr (s', a)"
    and "lookup_by row_id i (training_jobs s) = Some t" "published_model_asset_id t = None"
    and "staging_name i random \<notin> set (map fst cs)"
  shows "\<exists>u st. map_of (fst (publish_trained_model T L fails disk dev model_root random t (output i) cs)) (final_name i) = Some u
     \<and> scan_tree L u = Inr st \<and> validate_deployable_model T (ts_nodes st) = Inr ()
     \<and> local_path a = path_str (model_root @ [final_name i])
     \<and> lookup_by row_id i (training_jobs s') = Some (t\<lparr>published_model_asset_id := Some (asset_id a)\<rparr>)
     \<and> (a \<in> set (model_assets s) \<or> asset_status a = ASSET_READY \<and> asset_size_bytes a = Some (int (ts_bytes st))
          \<and> asset_checksum a = Some (''sha256:'' @ tree_content_fingerprint T (ts_nodes st)))"
proof -
  have i: "row_id t = i" using lookup_by_SomeD [OF assms(2)] by blast
  obtain cs' r where pub: "publish_trained_model T L fails disk dev model_root random t (output i) cs = (cs', r)" by fastforce
  have files: "publish_training_model_files (publishing T L fails disk dev model_root random output cs F) t = r"
    by (simp add: publishing_def i pub)
  note request = assms(1) [unfolded publish_training_model_def assms(2) option.case assms(3) files]
  obtain f where f: "r = Inr f" using request by (cases r) (auto split: if_splits)
  have "\<exists>A. s' = link_published (asset_id a) t (s\<lparr>model_assets := A\<rparr>)"
      and a: "local_path a = pf_path f \<and> (a \<in> set (model_assets s) \<or> (\<exists>base. a = published_asset new t base f))"
    using request [unfolded f]
    by (auto simp: published_asset_def Let_def find_Some_iff intro: exI [of _ "model_assets s"] split: option.splits if_splits)
  then have "lookup_by row_id i (training_jobs s') = Some (t\<lparr>published_model_asset_id := Some (asset_id a)\<rparr>)"
    using assms(2) i by (auto simp: link_published_def lookup_by_replace_by)
  moreover obtain u st where "map_of cs' (final_name i) = Some u" "scan_tree L u = Inr st" "validate_deployable_model T (ts_nodes st) = Inr ()"
      "pf_path f = path_str (model_root @ [final_name i])" "pf_size_bytes f = int (ts_bytes st)"
      "pf_checksum f = tree_content_fingerprint T (ts_nodes st)"
    using publication_result [of t random cs, OF _ pub [unfolded f]] assms(4) i by blast
  ultimately show ?thesis using a pub by (intro exI [of _ u] exI [of _ st]) (auto simp: published_asset_def)
qed

section \<open>A small publication\<close>

definition demo_job :: training_job where
  "demo_job = (new_training_job \<lparr>tc_name = ''t'', tc_model_asset_id = 7, tc_dataset_id = 9, tc_stage = CPT,
       tc_algorithm = FREEZE, tc_gpu_ids = [3], tc_template = None, tc_training_config = []\<rparr> ''/out'' 4 30)
     \<lparr>job_actual := J_SUCCEEDED, merged_model_path := Some ''/out''\<rparr>"

definition demo_out :: path where "demo_out = [''/'', ''out'']"

definition demo_disk :: "path \<Rightarrow> string + file_tree option" where
  "demo_disk p = (if p = demo_out then Inr (Some demo_model) else Inr None)"

definition demo_limits :: tree_limits where "demo_limits = \<lparr>tl_files = 10, tl_bytes = 100\<rparr>"

definition demo_scan :: tree_scan where
  "demo_scan = \<lparr>ts_nodes = [([''config.json''], Some ''C''), ([''model.safetensors''], Some demo_weight),
     ([''tokenizer.json''], Some ''t''), ([''tokenizer_config.json''], Some ''K'')], ts_files = 4, ts_bytes = 16\<rparr>"

lemma demo_scanned: "scan_tree demo_limits demo_model = Inr demo_scan"
  by code_simp

lemma demo_exported: "inspect_training_artifact demo_limits demo_disk demo_job demo_out MergedKind = Inr (Some demo_scan)"
proof -
  have "artifact_candidate demo_job demo_out MergedKind = Inr (Some demo_out)" by code_simp
  moreover have "job_actual demo_job = J_SUCCEEDED" by (simp add: demo_job_def)
  moreover have "reject_unsafe_export_files demo_scan = Inr ()" by code_simp
  ultimately show ?thesis
    by (simp add: inspect_training_artifact_def artifact_path_def demo_disk_def demo_scanned check_def)
qed

lemma exports_stay_in_the_output_witness:
  "readable_directory demo_job demo_out MergedKind demo_out
     \<and> set (node_files (ts_nodes demo_scan)) = set (tree_files demo_model)"
proof -
  have "readable_directory demo_job demo_out MergedKind p \<Longrightarrow> p = demo_out" for p
    by (simp add: readable_directory_def demo_job_def new_training_job_def)
  then show ?thesis
    using exports_stay_in_the_output [OF demo_exported] by (auto simp: demo_disk_def exported_def)
qed

lemma demo_deployable: "validate_deployable_model demo_model_tools (ts_nodes demo_scan) = Inr ()"
proof -
  have "control_safetensors demo_model_tools demo_weight = Inr ()"
    using control_accepts_validated [OF demo_weight_checked] by blast
  moreover have "node_files (ts_nodes demo_scan) = [([''config.json''], ''C''), ([''model.safetensors''], demo_weight),
      ([''tokenizer.json''], ''t''), ([''tokenizer_config.json''], ''K'')]"
    by (simp add: demo_scan_def)
  ultimately show ?thesis
    by (simp add: validate_deployable_model_def control_weight_files_def demo_checks unsafe_model_suffixes_def
      ends_safetensors_def is_shard_def del: set_filter)
qed

lemma demo_source: "publication_source demo_model_tools demo_limits demo_disk demo_job demo_out = Inr (MergedKind, demo_scan)"
  by (simp add: publication_source_def publication_candidate_def demo_exported demo_deployable)

lemma demo_disk_names: "demo_disk p = Inr (Some t) \<Longrightarrow> names_ok t"
proof -
  have "names_ok demo_model" by code_simp
  then show "demo_disk p = Inr (Some t) \<Longrightarrow> names_ok t" by (auto simp: demo_disk_def split: if_splits)
qed

lemma publication_copies_the_model_witness:
  "\<exists>t r. publish_trained_model demo_model_tools demo_limits (\<lambda>_. False) demo_disk 8 [''/'', ''models''] ''x'' demo_job demo_out []
      = ([(final_name 4, t)], Inr r) \<and> scan_tree demo_limits t = Inr demo_scan \<and> pf_size_bytes r = 16"
proof -
  have job: "job_actual demo_job = J_SUCCEEDED" "row_id demo_job = 4" by (simp_all add: demo_job_def new_training_job_def)
  have none: "\<forall>c. \<not> (\<lambda>_. False) c" "final_name (row_id demo_job) \<notin> set (map fst [])" by simp_all
  obtain t r where "publish_trained_model demo_model_tools demo_limits (\<lambda>_. False) demo_disk 8 [''/'', ''models''] ''x'' demo_job demo_out []
      = ([] @ [(final_name 4, t)], Inr r)" "scan_tree demo_limits t = Inr demo_scan" "pf_size_bytes r = int (ts_bytes demo_scan)"
    using publication_copies_the_model [OF job(1) demo_source demo_disk_names none, where dev = 8
        and model_root = "[''/'', ''models'']" and random = "''x''"] unfolding job(2) by fastforce
  then show ?thesis by (intro exI [of _ t] exI [of _ r]) (simp add: demo_scan_def)
qed

text \<open>The rename succeeds and the sync of the directory fails: an error, with the complete model in the store.\<close>

definition demo_copy :: entries where
  "demo_copy = [(''config.json'', FileNode 8 1 ''C''), (''model.safetensors'', FileNode 8 1 demo_weight),
     (''tokenizer.json'', FileNode 8 1 ''t''), (''tokenizer_config.json'', FileNode 8 1 ''K'')]"

lemma demo_copied:
  "copy_nodes 8 (\<lambda>_. False) 0 (ts_nodes demo_scan) [] = (demo_copy, True)"
  "scan_tree demo_limits (DirNode 8 demo_copy) = Inr demo_scan"
  by code_simp+

lemma demo_unsynced:
  "publish_trained_model demo_model_tools demo_limits (\<lambda>c. c = SyncCall) demo_disk 8 [''/'', ''models''] ''x'' demo_job demo_out []
     = ([(final_name 4, DirNode 8 demo_copy)], Inl ''OSError'')"
proof -
  have job: "job_actual demo_job = J_SUCCEEDED" "row_id demo_job = 4" by (simp_all add: demo_job_def new_training_job_def)
  have "(\<lambda>c. c = SyncCall) \<circ> CopyCall = (\<lambda>_. False)" by auto
  then show ?thesis
    by (simp add: publish_trained_model_def job demo_source stage_model_def demo_copied verified_copy_def demo_deployable check_def Let_def)
qed

lemma publication_is_atomic_witness:
  "\<exists>t st. [(final_name 4, DirNode 8 demo_copy)] = [(final_name 4, t)] \<and> scan_tree demo_limits t = Inr st
     \<and> validate_deployable_model demo_model_tools (ts_nodes st) = Inr ()
     \<and> tree_content_fingerprint demo_model_tools (ts_nodes st) = tree_content_fingerprint demo_model_tools (ts_nodes demo_scan)"
proof -
  have "row_id demo_job = 4" by (simp add: demo_job_def new_training_job_def)
  then show ?thesis
    using publication_is_atomic [OF _ demo_unsynced] by (auto simp: demo_source)
qed

text \<open>The request that publishes the job, with an empty store.\<close>

definition demo_base :: model_asset where
  "demo_base = \<lparr>asset_id = 7, asset_name = ''base'', source_type = TRAINED, source_uri = None, asset_revision = None,
     local_path = ''/models/base'', asset_kind = BASE, asset_format = ''safetensors'', asset_status = ASSET_READY,
     family = None, parameter_count = None, asset_size_bytes = None, asset_checksum = None, asset_error = None,
     metadata_json = [], deleted_at = None\<rparr>"

definition demo_rows :: db where
  "demo_rows = \<lparr>deployments = [], training_jobs = [demo_job], evaluation_runs = [], gpu_leases = [],
     model_assets = [demo_base], datasets = []\<rparr>"

definition demo_publishing :: file_checks where
  "demo_publishing = publishing demo_model_tools demo_limits (\<lambda>_. False) demo_disk 8 [''/'', ''models''] ''x'' (\<lambda>_. demo_out) []
     \<lparr>derive_training_output_dir = \<lambda>_. Inl ''none'', derive_evaluation_output_dir = \<lambda>_. Inl ''none'',
      publish_training_model_files = \<lambda>_. Inl ''none''\<rparr>"

lemma demo_published:
  "publish_trained_model demo_model_tools demo_limits (\<lambda>_. False) demo_disk 8 [''/'', ''models''] ''x'' demo_job demo_out []
     = ([(final_name 4, DirNode 8 demo_copy)], Inr (files_of [''/'', ''models''] (final_name 4) MergedKind demo_scan
         (tree_content_fingerprint demo_model_tools (ts_nodes demo_scan)) True))"
proof -
  have job: "job_actual demo_job = J_SUCCEEDED" "row_id demo_job = 4" by (simp_all add: demo_job_def new_training_job_def)
  have "(\<lambda>_. False) \<circ> CopyCall = (\<lambda>_. False)" by auto
  then show ?thesis
    by (simp add: publish_trained_model_def job demo_source stage_model_def demo_copied verified_copy_def demo_deployable check_def Let_def)
qed

lemma published_asset_describes_the_store_witness:
  "\<exists>s' a. publish_training_model demo_publishing 4 11 demo_rows = Inr (s', a)
     \<and> local_path a = path_str [''/'', ''models'', final_name 4]"
proof -
  have job: "job_actual demo_job = J_SUCCEEDED" "row_id demo_job = 4" "published_model_asset_id demo_job = None"
      "train_model_asset_id demo_job = 7"
    by (simp_all add: demo_job_def new_training_job_def)
  have find: "lookup_by row_id 4 (training_jobs demo_rows) = Some demo_job"
    by (simp add: demo_rows_def lookup_by_def job)
  have "path_str [''/'', ''models'', final_name 4] \<noteq> ''/models/base''"
    by (simp add: path_str_def is_root_part_def final_name_def)
  then have "\<exists>s' a. publish_training_model demo_publishing 4 11 demo_rows = Inr (s', a)"
    by (simp add: publish_training_model_def find job demo_publishing_def publishing_def demo_published files_of_def
        Let_def) (simp add: demo_rows_def demo_base_def lookup_by_def job Let_def)
  then obtain s' a where published: "publish_training_model demo_publishing 4 11 demo_rows = Inr (s', a)" by blast
  have "staging_name 4 ''x'' \<notin> set (map fst [])" by simp
  from published_asset_describes_the_store [OF published [unfolded demo_publishing_def] find job(3) this]
  have "local_path a = path_str ([''/'', ''models''] @ [final_name 4])" by blast
  then show ?thesis using published by simp
qed

text \<open>
  The fingerprint of a scan does not frame its files: the bytes of a file can imitate the start of another
  one. Two directories with different files have the same content for every hash.
\<close>

lemma tree_content_is_ambiguous:
  "tree_content_fingerprint T [([''a''], Some ([CHR ''x'', CHR 0x00] @ ''b'' @ [CHR 0x00] @ ''y''))]
     = tree_content_fingerprint T [([''a''], Some ''x''), ([''b''], Some ''y'')]"
proof -
  have "encode_utf8 (posix [''a'']) = ''a''" "encode_utf8 (posix [''b'']) = ''b''" by code_simp+
  then show ?thesis by (simp add: tree_content_fingerprint_def tree_content_def)
qed

end
