(* ===== verification/ModelImport.thy ===== *)
theory ModelImport
  imports ModelAcceptance ControlRoutes
begin

text \<open>
  The import of a model: the request and the scan of the inbox (\<open>routes/model_imports.py\<close>,
  \<open>schemas/model_imports.py\<close>, \<open>discovery.py\<close>), the rows and the coordinator
  (\<open>services/model_import_coordinator.py\<close>) and the run of one import
  (\<open>openllmops_model_importer/importer.py\<close>). Requests, the rounds of the coordinator and the threads
  that run an import interleave; a step of \<open>import_step\<close> is what one of them does between two
  points where another may come in.
\<close>

section \<open>Rows and requests\<close>

datatype import_source = IMPORT_HUGGINGFACE | IMPORT_MODELSCOPE | IMPORT_DIRECTORY

datatype import_status =
  I_PENDING | I_TRANSFERRING | I_VALIDATING | I_READY | I_FAILED | I_CANCELING | I_CANCELED

definition active_import_statuses :: "import_status list" where
  "active_import_statuses = [I_TRANSFERRING, I_VALIDATING, I_CANCELING]"

definition finished_import_statuses :: "import_status list" where
  "finished_import_statuses = [I_READY, I_FAILED, I_CANCELED]"

record import_job =
  ij_id :: uuid
  ij_created :: timestamp
  ij_name :: string
  ij_source :: import_source
  ij_repository :: "string option"
  ij_revision :: "string option"
  ij_directory :: "string option"
  ij_kind :: model_kind
  ij_status :: import_status
  ij_completed :: int
  ij_total :: "int option"
  ij_claimed_by :: "string option"
  ij_claimed_at :: "timestamp option"
  ij_cancel_at :: "timestamp option"
  ij_started :: "timestamp option"
  ij_finished :: "timestamp option"
  ij_asset :: "uuid option"
  ij_manifest :: "model_manifest option"
  ij_error :: "string option"

record import_create =
  ic_name :: string
  ic_source :: import_source
  ic_repository :: "string option"
  ic_revision :: "string option"
  ic_directory :: "string option"
  ic_kind :: model_kind

definition length_within :: "nat \<Rightarrow> nat \<Rightarrow> string option \<Rightarrow> bool" where
  "length_within lo hi v \<longleftrightarrow> (case v of None \<Rightarrow> True | Some s \<Rightarrow> lo \<le> length s \<and> length s \<le> hi)"

definition repository_char :: "char \<Rightarrow> bool" where
  "repository_char c \<longleftrightarrow> is_dec c \<or> 65 \<le> code c \<and> code c \<le> 90 \<or> 97 \<le> code c \<and> code c \<le> 122
     \<or> c \<in> {CHR ''_'', CHR ''.'', CHR ''-''}"

definition repository_ok :: "string \<Rightarrow> bool" where
  "repository_ok s \<longleftrightarrow>
     (let a = takeWhile repository_char s; r = dropWhile repository_char s in
      a \<noteq> [] \<and> r \<noteq> [] \<and> hd r = CHR ''/'' \<and> tl r \<noteq> [] \<and> list_all repository_char (tl r))"

definition import_create_ok :: "import_create \<Rightarrow> bool" where
  "import_create_ok p \<longleftrightarrow> name_ok (ic_name p) \<and> length_within 3 512 (ic_repository p)
     \<and> length_within 1 255 (ic_revision p) \<and> length_within 1 255 (ic_directory p)
     \<and> (if ic_source p = IMPORT_DIRECTORY then
          ic_repository p = None \<and> ic_revision p = None
          \<and> (case ic_directory p of None \<Rightarrow> False
             | Some d \<Rightarrow> d \<notin> {''.'', ''..''} \<and> CHR ''/'' \<notin> set d \<and> CHR 0x5C \<notin> set d \<and> take 1 d \<noteq> ''.'')
        else ic_directory p = None
          \<and> (case ic_repository p of None \<Rightarrow> False | Some r \<Rightarrow> repository_ok r))"

text \<open>\<open>scan_inbox\<close>: the entries come sorted by their case-folded names.\<close>

record inbox_candidate =
  ca_name :: string
  ca_files :: nat
  ca_bytes :: nat
  ca_ready :: bool
  ca_reason :: "string option"

definition candidate_of :: "file_tools \<Rightarrow> string \<times> file_tree \<Rightarrow> inbox_candidate" where
  "candidate_of T entry =
     (case snd entry of
        DirNode _ _ \<Rightarrow>
          (case iter_regular_files (snd entry) of
             Inl e \<Rightarrow> \<lparr>ca_name = fst entry, ca_files = 0, ca_bytes = 0, ca_ready = False, ca_reason = Some e\<rparr>
           | Inr fs \<Rightarrow>
               (let size = sum_list (map (length \<circ> snd) fs) in
                case validate_model_files T fs of
                  Inl e \<Rightarrow> \<lparr>ca_name = fst entry, ca_files = length fs, ca_bytes = size, ca_ready = False, ca_reason = Some e\<rparr>
                | Inr _ \<Rightarrow> \<lparr>ca_name = fst entry, ca_files = length fs, ca_bytes = size, ca_ready = True, ca_reason = None\<rparr>))
      | _ \<Rightarrow> \<lparr>ca_name = fst entry, ca_files = 0, ca_bytes = 0, ca_ready = False, ca_reason = Some ''not a directory''\<rparr>)"

definition scan_inbox :: "file_tools \<Rightarrow> nat \<Rightarrow> (string \<times> file_tree) list \<Rightarrow> inbox_candidate list" where
  "scan_inbox T maximum entries = take maximum (map (candidate_of T) (filter (\<lambda>e. take 1 (fst e) \<noteq> ''.'') entries))"

definition validate_controlled_candidate ::
  "file_tools \<Rightarrow> string + (string \<times> file_tree) list \<Rightarrow> string \<Rightarrow> http_error + unit" where
  "validate_controlled_candidate T inbox name =
     (case inbox of
        Inl _ \<Rightarrow> Inl (HttpError 503 ''inbox'')
      | Inr entries \<Rightarrow>
          (case find (\<lambda>c. ca_name c = name) (scan_inbox T 1000 entries) of
             None \<Rightarrow> Inl (HttpError 422 ''no such directory'')
           | Some c \<Rightarrow> if \<not> ca_ready c then Inl (HttpError 422 ''not importable'') else Inr ()))"

definition new_import_job :: "import_create \<Rightarrow> uuid \<Rightarrow> timestamp \<Rightarrow> import_job" where
  "new_import_job p i now =
     \<lparr>ij_id = i, ij_created = now, ij_name = ic_name p, ij_source = ic_source p, ij_repository = ic_repository p,
      ij_revision = ic_revision p, ij_directory = ic_directory p, ij_kind = ic_kind p, ij_status = I_PENDING,
      ij_completed = 0, ij_total = None, ij_claimed_by = None, ij_claimed_at = None, ij_cancel_at = None,
      ij_started = None, ij_finished = None, ij_asset = None, ij_manifest = None, ij_error = None\<rparr>"

section \<open>Secrets\<close>

record secret_file =
  sf_plain :: bool          \<comment> \<open>a regular file and no link\<close>
  sf_mode :: int
  sf_size :: nat
  sf_text :: "string option"   \<comment> \<open>None: not readable as UTF-8\<close>

text \<open>\<open>read_secret_file\<close>: no file configured, a path that does not exist, or a file.\<close>

definition read_secret_file :: "secret_file option option \<Rightarrow> string + string option" where
  "read_secret_file f =
     (case f of
        None \<Rightarrow> Inr None
      | Some None \<Rightarrow> Inl ''token file''
      | Some (Some sf) \<Rightarrow>
          on_ok (check (sf_plain sf) ''token file'') (\<lambda>_.
          on_ok (check (\<not> bit (sf_mode sf) 7 \<and> \<not> bit (sf_mode sf) 4 \<and> \<not> bit (sf_mode sf) 1) ''token file writable'') (\<lambda>_.
          on_ok (check (sf_size sf \<le> 64 * 1024) ''token file size'') (\<lambda>_.
          on_ok (some_or ''token file'' (sf_text sf)) (\<lambda>t.
          let token = strip t in
          on_ok (check (token \<noteq> [] \<and> CHR 0x00 \<notin> set token \<and> CHR 0x0A \<notin> set token \<and> CHR 0x0D \<notin> set token) ''token'') (\<lambda>_.
          Inr (Some token)))))))"

definition online_secret_keys :: "string list" where
  "online_secret_keys = [''HF_TOKEN'', ''HUGGING_FACE_HUB_TOKEN'', ''HF_HUB_DISABLE_IMPLICIT_TOKEN'', ''HF_HOME'',
     ''MODELSCOPE_API_TOKEN'', ''MODELSCOPE_CACHE'', ''MODELSCOPE_CREDENTIALS_PATH'', ''MODELSCOPE_HOME'', ''MS_CACHE_HOME'']"

type_synonym environment = "string \<Rightarrow> string option"

text \<open>\<open>isolated_online_credentials\<close>: the environment inside, and what it is put back to.\<close>

definition without_secrets :: "environment \<Rightarrow> environment" where
  "without_secrets env = (\<lambda>k. if k \<in> set online_secret_keys then None else env k)"

definition isolated_credentials :: "import_source \<Rightarrow> string option \<Rightarrow> string \<Rightarrow> environment \<Rightarrow> environment" where
  "isolated_credentials source token home env =
     (let e = without_secrets env in
      case source of
        IMPORT_HUGGINGFACE \<Rightarrow> e(''HF_HUB_DISABLE_IMPLICIT_TOKEN'' \<mapsto> ''1'', ''HF_HOME'' \<mapsto> home @ ''/huggingface'')
      | IMPORT_MODELSCOPE \<Rightarrow>
          (let e1 = e(''MODELSCOPE_HOME'' \<mapsto> home @ ''/modelscope'', ''MODELSCOPE_CACHE'' \<mapsto> home @ ''/modelscope/cache'',
                     ''MODELSCOPE_CREDENTIALS_PATH'' \<mapsto> home @ ''/modelscope/credentials'') in
           case token of None \<Rightarrow> e1 | Some t \<Rightarrow> if t = [] then e1 else e1(''MODELSCOPE_API_TOKEN'' \<mapsto> t))
      | IMPORT_DIRECTORY \<Rightarrow> e)"

definition restored_environment :: "environment \<Rightarrow> environment \<Rightarrow> environment" where
  "restored_environment previous env =
     (\<lambda>k. if k \<in> set online_secret_keys then previous k else env k)"

text \<open>\<open>str.replace\<close> of a string that is not empty, and \<open>_safe_error\<close>.\<close>

fun replace_all :: "string \<Rightarrow> string \<Rightarrow> string \<Rightarrow> string" where
  "replace_all old new [] = []"
| "replace_all old new (c # cs) =
     (if take (length old) (c # cs) = old then new @ replace_all old new (drop (length old - 1) cs)
      else c # replace_all old new cs)"

definition safe_error :: "string \<Rightarrow> string \<Rightarrow> string option \<Rightarrow> string" where
  "safe_error type_name msg token =
     (let m = (if msg = [] then type_name else msg) in
      take 4000 (case token of None \<Rightarrow> m | Some t \<Rightarrow> if t = [] then m else replace_all t ''[REDACTED]'' m))"

section \<open>The state of the imports\<close>

text \<open>
  The thread of one import: before \<open>_execute\<close> has read the row, before \<open>run\<close>, filling the
  staging directory, validated, renamed into the store, returned, stopped by an exception or by a
  cancellation, and over.
\<close>

datatype task_phase =
    TaskCreated
  | TaskPrepared
  | TaskFetching
  | TaskValidated model_manifest
  | TaskMoved model_manifest
  | TaskReturned model_manifest
  | TaskFailing string
  | TaskCanceling
  | TaskDone

text \<open>
  \<open>_record_progress\<close> runs on the event loop while the thread waits: between its read of the row and its
  commit another session may change the row. \<open>tk_progress\<close> is what it has read and is about to write.
\<close>

record progress_report =
  pr_stage :: string
  pr_completed :: int
  pr_total :: "int option"
  pr_seen :: import_status

record import_task =
  tk_id :: uuid
  tk_token :: "string option"
  tk_cancel :: bool
  tk_phase :: task_phase
  tk_progress :: "progress_report option"

type_synonym directories = "(uuid \<times> file_tree) list"

record import_state =
  im_jobs :: "import_job list"
  im_assets :: "model_asset list"
  im_staging :: directories
  im_homes :: "uuid list"
  im_store :: directories
  im_worker :: string
  im_tasks :: "import_task list"
  im_stopping :: bool

record import_world =
  iw_tools :: file_tools
  iw_store_root :: path
  iw_manifest_text :: "model_manifest \<Rightarrow> string"
  iw_device :: nat
  iw_concurrency :: nat
  iw_claim_timeout :: int

definition job_of :: "import_state \<Rightarrow> uuid \<Rightarrow> import_job option" where
  "job_of s i = lookup_by ij_id i (im_jobs s)"

definition put_job :: "import_job \<Rightarrow> import_state \<Rightarrow> import_state" where
  "put_job j s = s\<lparr>im_jobs := replace_by ij_id j (im_jobs s)\<rparr>"

definition task_of :: "import_state \<Rightarrow> uuid \<Rightarrow> import_task option" where
  "task_of s i = lookup_by tk_id i (im_tasks s)"

definition put_task :: "import_task \<Rightarrow> import_state \<Rightarrow> import_state" where
  "put_task tk s = s\<lparr>im_tasks := replace_by tk_id tk (im_tasks s)\<rparr>"

definition set_phase :: "task_phase \<Rightarrow> import_task \<Rightarrow> import_state \<Rightarrow> import_state" where
  "set_phase ph tk s = put_task (tk\<lparr>tk_phase := ph\<rparr>) s"

definition put_staging :: "uuid \<Rightarrow> file_tree option \<Rightarrow> import_state \<Rightarrow> import_state" where
  "put_staging i t s = s\<lparr>im_staging := (case t of None \<Rightarrow> AList.delete i (im_staging s) | Some u \<Rightarrow> dict_set i u (im_staging s))\<rparr>"

definition put_store :: "uuid \<Rightarrow> file_tree option \<Rightarrow> import_state \<Rightarrow> import_state" where
  "put_store i t s = s\<lparr>im_store := (case t of None \<Rightarrow> AList.delete i (im_store s) | Some u \<Rightarrow> dict_set i u (im_store s))\<rparr>"

definition import_path :: "import_world \<Rightarrow> uuid \<Rightarrow> string" where
  "import_path W i = path_str (iw_store_root W @ [uuid_str i])"

section \<open>Requests\<close>

definition create_model_import ::
  "import_world \<Rightarrow> string + (string \<times> file_tree) list \<Rightarrow> import_create \<Rightarrow> uuid \<Rightarrow> timestamp \<Rightarrow> import_state \<Rightarrow> http_error + import_state" where
  "create_model_import W inbox p i now s =
     (if \<not> import_create_ok p then Inl (HttpError 422 ''invalid body'')
      else on_ok (if ic_source p = IMPORT_DIRECTORY
            then validate_controlled_candidate (iw_tools W) inbox (case ic_directory p of None \<Rightarrow> [] | Some d \<Rightarrow> d) else Inr ()) (\<lambda>_.
        Inr (s\<lparr>im_jobs := im_jobs s @ [new_import_job p i now]\<rparr>)))"

definition cancel_row_of :: "timestamp \<Rightarrow> import_job \<Rightarrow> import_job" where
  "cancel_row_of now j =
     (if ij_status j = I_PENDING then j\<lparr>ij_status := I_CANCELED, ij_cancel_at := Some now, ij_finished := Some now\<rparr>
      else if ij_status j \<in> {I_TRANSFERRING, I_VALIDATING} then j\<lparr>ij_status := I_CANCELING, ij_cancel_at := Some now\<rparr>
      else j)"

definition request_model_import_cancel :: "uuid \<Rightarrow> timestamp \<Rightarrow> import_state \<Rightarrow> http_error + import_state" where
  "request_model_import_cancel i now s =
     (case job_of s i of
        None \<Rightarrow> Inl (HttpError 404 ''model import'')
      | Some j \<Rightarrow> Inr (put_job (cancel_row_of now j) s))"

section \<open>A round of the coordinator\<close>

text \<open>\<open>_signal_canceling_jobs\<close>, \<open>_collect_finished\<close>, \<open>_heartbeat_active_jobs\<close>.\<close>

definition signal_canceling_jobs :: "import_state \<Rightarrow> import_state" where
  "signal_canceling_jobs s =
     s\<lparr>im_tasks := map (\<lambda>tk. case job_of s (tk_id tk) of
         Some j \<Rightarrow> if ij_status j = I_CANCELING then tk\<lparr>tk_cancel := True\<rparr> else tk
       | None \<Rightarrow> tk) (im_tasks s)\<rparr>"

definition collect_finished :: "import_state \<Rightarrow> import_state" where
  "collect_finished s = s\<lparr>im_tasks := filter (\<lambda>tk. tk_phase tk \<noteq> TaskDone) (im_tasks s)\<rparr>"

definition heartbeat_active_jobs :: "timestamp \<Rightarrow> import_state \<Rightarrow> import_state" where
  "heartbeat_active_jobs now s =
     s\<lparr>im_jobs := map (\<lambda>j. if task_of s (ij_id j) \<noteq> None \<and> ij_claimed_by j = Some (im_worker s)
         \<and> ij_status j \<in> set active_import_statuses then j\<lparr>ij_claimed_at := Some now\<rparr> else j) (im_jobs s)\<rparr>"

definition is_stale :: "import_world \<Rightarrow> timestamp \<Rightarrow> string \<Rightarrow> import_job \<Rightarrow> bool" where
  "is_stale W now worker j \<longleftrightarrow> ij_status j \<in> set active_import_statuses
     \<and> (case ij_claimed_at j of None \<Rightarrow> True | Some since \<Rightarrow> since < now - iw_claim_timeout W)
     \<and> ij_claimed_by j \<noteq> Some worker"

text \<open>
  The three directories of a job that recovery removes one after the other. A failing removal leaves a
  directory behind, in whatever state: \<open>fault = Some (k, left)\<close> makes the k-th one fail.
\<close>

definition remove_job_directories :: "(nat \<times> file_tree) option \<Rightarrow> uuid \<Rightarrow> import_state \<Rightarrow> import_state \<times> bool" where
  "remove_job_directories fault i s =
     (let s1 = put_staging i None s; s2 = s1\<lparr>im_homes := filter (\<lambda>h. h \<noteq> i) (im_homes s1)\<rparr> in
      case fault of
        None \<Rightarrow> (put_store i None s2, True)
      | Some (k, left) \<Rightarrow>
          (if k = 0 then (put_staging i (Some left) s, False)
           else if k = 1 then (s1, False)
           else (put_store i (Some left) s2, False)))"

definition finish_job :: "import_status \<Rightarrow> timestamp \<Rightarrow> string option \<Rightarrow> import_job \<Rightarrow> import_job" where
  "finish_job st now e j = j\<lparr>ij_status := st, ij_finished := Some now, ij_error := e\<rparr>"

definition requeue_job :: "import_job \<Rightarrow> import_job" where
  "requeue_job j = j\<lparr>ij_status := I_PENDING, ij_claimed_by := None, ij_claimed_at := None, ij_started := None,
     ij_completed := 0, ij_total := None\<rparr>"

text \<open>One job of \<open>recover_stale_model_imports\<close>.\<close>

definition recover_job :: "import_world \<Rightarrow> timestamp \<Rightarrow> (nat \<times> file_tree) option \<Rightarrow> import_job \<Rightarrow> import_state \<Rightarrow> import_state" where
  "recover_job W now fault j s =
     (case ij_asset j of
        Some a \<Rightarrow>
          (let j1 = finish_job I_READY now None j in
           put_job (case lookup_by asset_id a (im_assets s) of
               None \<Rightarrow> j1
             | Some m \<Rightarrow> (case asset_size_bytes m of None \<Rightarrow> j1 | Some n \<Rightarrow> j1\<lparr>ij_completed := n, ij_total := Some n\<rparr>)) s)
      | None \<Rightarrow>
          (if list_ex (\<lambda>m. local_path m = import_path W (ij_id j)) (im_assets s)
           then put_job (finish_job I_FAILED now (Some ''directory of another asset'') j) s
           else (case remove_job_directories fault (ij_id j) s of
               (s1, False) \<Rightarrow> put_job (finish_job I_FAILED now (Some ''cleanup'') j) s1
             | (s1, True) \<Rightarrow>
                 put_job ((if ij_status j = I_CANCELING then j\<lparr>ij_status := I_CANCELED, ij_finished := Some now\<rparr>
                     else (requeue_job j)\<lparr>ij_finished := None, ij_cancel_at := None\<rparr>)
                   \<lparr>ij_claimed_by := None, ij_claimed_at := None, ij_error := None\<rparr>) s1)))"

definition recover_stale_model_imports ::
  "import_world \<Rightarrow> timestamp \<Rightarrow> (uuid \<Rightarrow> (nat \<times> file_tree) option) \<Rightarrow> import_state \<Rightarrow> import_state" where
  "recover_stale_model_imports W now faults s =
     foldl (\<lambda>s' j. recover_job W now (faults (ij_id j)) j s') s (filter (is_stale W now (im_worker s)) (im_jobs s))"

text \<open>\<open>claim_next_model_import\<close>, and the task \<open>run_once\<close> starts for the job.\<close>

definition pending_head :: "import_job list \<Rightarrow> import_job option" where
  "pending_head js =
     (case sort_key (\<lambda>j. (ij_created j, ij_id j)) (filter (\<lambda>j. ij_status j = I_PENDING) js) of
        [] \<Rightarrow> None
      | j # _ \<Rightarrow> Some j)"

definition claim_job :: "string \<Rightarrow> timestamp \<Rightarrow> import_job \<Rightarrow> import_job" where
  "claim_job worker now j = j\<lparr>ij_status := I_TRANSFERRING, ij_claimed_by := Some worker, ij_claimed_at := Some now,
     ij_started := Some now, ij_error := None\<rparr>"

definition new_task :: "uuid \<Rightarrow> import_task" where
  "new_task i = \<lparr>tk_id = i, tk_token = None, tk_cancel = False, tk_phase = TaskCreated, tk_progress = None\<rparr>"

definition claim_next :: "timestamp \<Rightarrow> import_state \<Rightarrow> import_state option" where
  "claim_next now s =
     (case pending_head (im_jobs s) of
        None \<Rightarrow> None
      | Some j \<Rightarrow> Some ((put_job (claim_job (im_worker s) now j) s)\<lparr>im_tasks := im_tasks s @ [new_task (ij_id j)]\<rparr>))"

fun claim_up_to :: "nat \<Rightarrow> timestamp \<Rightarrow> import_state \<Rightarrow> import_state" where
  "claim_up_to 0 now s = s"
| "claim_up_to (Suc n) now s = (case claim_next now s of None \<Rightarrow> s | Some s' \<Rightarrow> claim_up_to n now s')"

definition run_round :: "import_world \<Rightarrow> timestamp \<Rightarrow> (uuid \<Rightarrow> (nat \<times> file_tree) option) \<Rightarrow> import_state \<Rightarrow> import_state" where
  "run_round W now faults s =
     (let s1 = recover_stale_model_imports W now faults (heartbeat_active_jobs now (collect_finished (signal_canceling_jobs s))) in
      claim_up_to (iw_concurrency W - length (im_tasks s1)) now s1)"

section \<open>The end of an import\<close>

definition opt_str :: "string option \<Rightarrow> json" where
  "opt_str v = (case v of None \<Rightarrow> JNull | Some x \<Rightarrow> JStr x)"

definition manifest_json :: "model_manifest \<Rightarrow> json" where
  "manifest_json m = JObj
     [(''model_type'', JStr (mm_model_type m)), (''architecture'', opt_str (mm_architecture m)),
      (''total_size_bytes'', JInt (int (mm_size m))), (''file_count'', JInt (int (length (mm_files m)))),
      (''files'', JArr (map digest_json (mm_files m))), (''parameter_count'', JInt (mm_parameters m)),
      (''weight_dtypes'', JArr (map JStr (mm_dtypes m))), (''checksum'', JStr (mm_checksum m)),
      (''requested_revision'', opt_str (mm_requested_revision m)), (''resolved_revision'', opt_str (mm_resolved_revision m))]"

fun source_type_of :: "import_source \<Rightarrow> model_source_type" where
  "source_type_of IMPORT_HUGGINGFACE = HUGGINGFACE"
| "source_type_of IMPORT_MODELSCOPE = MODELSCOPE"
| "source_type_of IMPORT_DIRECTORY = MANUAL"

definition import_uri :: "import_job \<Rightarrow> string" where
  "import_uri j =
     (case ij_repository j of
        Some (c # cs) \<Rightarrow> c # cs
      | _ \<Rightarrow> ''inbox://'' @ (case ij_directory j of Some (c # cs) \<Rightarrow> c # cs | _ \<Rightarrow> ''unknown''))"

definition imported_asset :: "import_world \<Rightarrow> uuid \<Rightarrow> import_job \<Rightarrow> model_manifest \<Rightarrow> model_asset" where
  "imported_asset W new j m =
     \<lparr>asset_id = new, asset_name = ij_name j, source_type = source_type_of (ij_source j), source_uri = Some (import_uri j),
      asset_revision = mm_resolved_revision m, local_path = import_path W (ij_id j), asset_kind = ij_kind j,
      asset_format = ''safetensors'', asset_status = ASSET_READY, family = Some (mm_model_type m),
      parameter_count = Some (mm_parameters m), asset_size_bytes = Some (int (mm_size m)),
      asset_checksum = Some (mm_checksum m), asset_error = None,
      metadata_json = [(''import_job_id'', JStr (uuid_str (ij_id j))), (''architecture'', opt_str (mm_architecture m)),
        (''weight_dtypes'', JArr (map JStr (mm_dtypes m))), (''requested_revision'', opt_str (mm_requested_revision m)),
        (''resolved_revision'', opt_str (mm_resolved_revision m)), (''manifest'', manifest_json m)],
      deleted_at = None\<rparr>"

definition is_online :: "import_job \<Rightarrow> bool" where
  "is_online j \<longleftrightarrow> ij_source j \<noteq> IMPORT_DIRECTORY"

text \<open>\<open>_finalize_ready\<close>: one transaction; \<open>local_path\<close> is unique among the assets.\<close>

definition finalize_ready :: "import_world \<Rightarrow> uuid \<Rightarrow> uuid \<Rightarrow> timestamp \<Rightarrow> model_manifest \<Rightarrow> import_state \<Rightarrow> string + import_state" where
  "finalize_ready W i new now m s =
     on_ok (some_or ''job deleted'' (job_of s i)) (\<lambda>j.
     on_ok (check (is_online j \<longrightarrow> mm_requested_revision m = ij_revision j) ''requested revision'') (\<lambda>_.
     on_ok (check (is_online j \<longrightarrow> mm_resolved_revision m \<notin> {None, Some []}) ''resolved revision'') (\<lambda>_.
     on_ok (check (import_path W i \<notin> local_path ` set (im_assets s)) ''IntegrityError'') (\<lambda>_.
     Inr ((put_job (finish_job I_READY now None
             (j\<lparr>ij_asset := Some new, ij_manifest := Some m, ij_completed := int (mm_size m), ij_total := Some (int (mm_size m))\<rparr>)) s)
           \<lparr>im_assets := im_assets s @ [imported_asset W new j m]\<rparr>)))))"

definition mark_failed :: "uuid \<Rightarrow> timestamp \<Rightarrow> string option \<Rightarrow> string \<Rightarrow> import_state \<Rightarrow> import_state" where
  "mark_failed i now token e s =
     (case job_of s i of
        None \<Rightarrow> s
      | Some j \<Rightarrow> put_job (if ij_status j = I_CANCELING then finish_job I_CANCELED now None j
            else finish_job I_FAILED now (Some (safe_error ''Exception'' e token)) j) s)"

definition mark_canceled_or_retry :: "uuid \<Rightarrow> timestamp \<Rightarrow> import_state \<Rightarrow> import_state" where
  "mark_canceled_or_retry i now s =
     (case job_of s i of
        None \<Rightarrow> s
      | Some j \<Rightarrow> put_job (if im_stopping s \<and> ij_status j \<noteq> I_CANCELING then requeue_job j
            else j\<lparr>ij_status := I_CANCELED, ij_finished := Some now\<rparr>) s)"

section \<open>Progress\<close>

definition report_progress :: "import_task \<Rightarrow> string \<Rightarrow> int \<Rightarrow> int option \<Rightarrow> import_state \<Rightarrow> import_state" where
  "report_progress tk stage_name completed amount s =
     (case job_of s (tk_id tk) of
        None \<Rightarrow> s
      | Some j \<Rightarrow> put_task (tk\<lparr>tk_progress := Some \<lparr>pr_stage = stage_name, pr_completed = completed, pr_total = amount,
            pr_seen = ij_status j\<rparr>\<rparr>) s)"

text \<open>The commit writes the status only when it differs from the one that was read.\<close>

definition progress_status :: "progress_report \<Rightarrow> import_status \<Rightarrow> import_status" where
  "progress_status r current =
     (if pr_seen r = I_CANCELING then current
      else (let st = (if pr_stage r \<in> {''validating'', ''ready''} then I_VALIDATING else I_TRANSFERRING) in
            if st = pr_seen r then current else st))"

definition commit_progress :: "import_task \<Rightarrow> progress_report \<Rightarrow> timestamp \<Rightarrow> import_state \<Rightarrow> import_state" where
  "commit_progress tk r now s =
     (let s1 = put_task (tk\<lparr>tk_progress := None\<rparr>) s in
      case job_of s (tk_id tk) of
        None \<Rightarrow> s1
      | Some j \<Rightarrow>
          (if pr_seen r \<in> set finished_import_statuses then s1
           else put_job (j\<lparr>ij_status := progress_status r (ij_status j), ij_completed := max 0 (pr_completed r),
               ij_total := map_option (max 0) (pr_total r), ij_claimed_at := Some now\<rparr>) s1))"

section \<open>The thread of one import\<close>

text \<open>\<open>_execute\<close> up to \<open>run\<close>: the row is read, then the token; an online source gets its own home.\<close>

definition token_for :: "import_job \<Rightarrow> secret_file option option \<Rightarrow> string + string option" where
  "token_for j f = (if is_online j then read_secret_file f else Inr None)"

definition begin_task :: "import_task \<Rightarrow> secret_file option option \<Rightarrow> import_state \<Rightarrow> import_state" where
  "begin_task tk f s =
     (case job_of s (tk_id tk) of
        None \<Rightarrow> set_phase TaskDone tk s
      | Some j \<Rightarrow>
          (let tk1 = (if ij_status j = I_CANCELING then tk\<lparr>tk_cancel := True\<rparr> else tk) in
           case token_for j f of
             Inl e \<Rightarrow> set_phase (TaskFailing e) tk1 s
           | Inr t \<Rightarrow> set_phase TaskPrepared (tk1\<lparr>tk_token := t\<rparr>)
               (if is_online j then s\<lparr>im_homes := tk_id tk # filter (\<lambda>h. h \<noteq> tk_id tk) (im_homes s)\<rparr> else s)))"

definition start_run :: "import_world \<Rightarrow> import_task \<Rightarrow> import_state \<Rightarrow> import_state" where
  "start_run W tk s =
     (if tk_id tk \<in> set (map fst (im_staging s)) \<or> tk_id tk \<in> set (map fst (im_store s))
      then set_phase (TaskFailing ''FileExistsError'') tk s
      else set_phase TaskFetching tk (put_staging (tk_id tk) (Some (DirNode (iw_device W) [])) s))"

text \<open>
  \<open>except ...: shutil.rmtree(staging)\<close>. When the removal fails, what is left stays and its \<open>OSError\<close>
  replaces the exception, a cancellation included.
\<close>

definition abort_run :: "import_task \<Rightarrow> task_phase \<Rightarrow> file_tree option \<Rightarrow> import_state \<Rightarrow> import_state" where
  "abort_run tk ph left s =
     (if tk_id tk \<notin> set (map fst (im_staging s)) then set_phase ph tk s
      else (case left of
          None \<Rightarrow> set_phase ph tk (put_staging (tk_id tk) None s)
        | Some t \<Rightarrow> set_phase (TaskFailing ''OSError'') tk (put_staging (tk_id tk) (Some t) s)))"

definition validate_fetched :: "import_world \<Rightarrow> import_task \<Rightarrow> string option \<Rightarrow> import_state \<Rightarrow> string + model_manifest" where
  "validate_fetched W tk resolved s =
     on_ok (some_or ''job'' (job_of s (tk_id tk))) (\<lambda>j.
     on_ok (some_or ''staging'' (map_of (im_staging s) (tk_id tk))) (\<lambda>t.
     validate_model_directory (iw_tools W) (if is_online j then ij_revision j else None)
       (if is_online j then resolved else None) t))"

text \<open>The manifest is written, synced, and the directory renamed: \<open>os.replace(staging, final)\<close>.\<close>

definition move_to_store :: "import_world \<Rightarrow> import_task \<Rightarrow> model_manifest \<Rightarrow> import_state \<Rightarrow> import_state" where
  "move_to_store W tk m s =
     (case map_of (im_staging s) (tk_id tk) of
        None \<Rightarrow> set_phase (TaskFailing ''FileNotFoundError'') tk s
      | Some t \<Rightarrow> set_phase (TaskMoved m) tk
          (put_store (tk_id tk) (Some (with_manifest (iw_manifest_text W m) t)) (put_staging (tk_id tk) None s)))"

definition finish_task :: "import_world \<Rightarrow> import_task \<Rightarrow> uuid \<Rightarrow> timestamp \<Rightarrow> model_manifest \<Rightarrow> import_state \<Rightarrow> import_state" where
  "finish_task W tk new now m s =
     (case finalize_ready W (tk_id tk) new now m s of
        Inl e \<Rightarrow> set_phase (TaskFailing e) tk s
      | Inr s' \<Rightarrow> set_phase TaskDone tk s')"

section \<open>Steps\<close>

datatype import_event =
    CreateImport "string + (string \<times> file_tree) list" import_create uuid timestamp
  | CancelImport uuid timestamp
  | OtherAssets "model_asset list"
  | SignalCanceling
  | CollectFinished
  | Heartbeat timestamp
  | RecoverStale timestamp "uuid \<Rightarrow> (nat \<times> file_tree) option"
  | ClaimNext timestamp
  | BeginTask uuid "secret_file option option"
  | StartRun uuid
  | FetchFiles uuid file_tree
  | ReportProgress uuid string int "int option"
  | CommitProgress uuid timestamp
  | ValidateFiles uuid "string option"
  | MoveToStore uuid
  | ReturnManifest uuid
  | FailRun uuid string "file_tree option"
  | CancelRun uuid "file_tree option"
  | FinalizeReady uuid uuid timestamp
  | MarkFailed uuid timestamp
  | MarkCanceled uuid timestamp
  | ShutDown
  | Restart string

text \<open>The registry changes otherwise: rows are added and changed, but keep id, path, size and checksum.\<close>

definition same_files :: "model_asset \<Rightarrow> model_asset \<Rightarrow> bool" where
  "same_files a b \<longleftrightarrow> asset_id a = asset_id b \<and> local_path a = local_path b \<and> asset_size_bytes a = asset_size_bytes b
     \<and> asset_checksum a = asset_checksum b"

definition keeps_assets :: "model_asset list \<Rightarrow> model_asset list \<Rightarrow> bool" where
  "keeps_assets as bs \<longleftrightarrow> list_all (\<lambda>a. list_ex (same_files a) bs) as"

text \<open>Where \<open>run\<close> may fail, report its progress, and look at the cancellation.\<close>

fun in_run :: "task_phase \<Rightarrow> bool" where
  "in_run TaskFetching = True"
| "in_run (TaskValidated _) = True"
| "in_run (TaskMoved _) = True"
| "in_run _ = False"

fun reporting :: "task_phase \<Rightarrow> bool" where
  "reporting TaskFetching = True"
| "reporting (TaskMoved _) = True"
| "reporting _ = False"

fun cancelable :: "task_phase \<Rightarrow> bool" where
  "cancelable TaskFetching = True"
| "cancelable (TaskValidated _) = True"
| "cancelable _ = False"

text \<open>A thread goes on only when no progress report of it is under way.\<close>

definition on_task :: "uuid \<Rightarrow> import_state \<Rightarrow> (import_task \<Rightarrow> import_state option) \<Rightarrow> import_state option" where
  "on_task i s act =
     (case task_of s i of
        None \<Rightarrow> None
      | Some tk \<Rightarrow> if tk_progress tk = None then act tk else None)"

fun import_step :: "import_world \<Rightarrow> import_event \<Rightarrow> import_state \<Rightarrow> import_state option" where
  "import_step W (CreateImport inbox p i now) s =
     (if job_of s i \<noteq> None then None
      else (case create_model_import W inbox p i now s of Inl _ \<Rightarrow> None | Inr s' \<Rightarrow> Some s'))"
| "import_step W (CancelImport i now) s = (case request_model_import_cancel i now s of Inl _ \<Rightarrow> None | Inr s' \<Rightarrow> Some s')"
| "import_step W (OtherAssets bs) s = (if keeps_assets (im_assets s) bs then Some (s\<lparr>im_assets := bs\<rparr>) else None)"
| "import_step W SignalCanceling s = Some (signal_canceling_jobs s)"
| "import_step W CollectFinished s = Some (collect_finished s)"
| "import_step W (Heartbeat now) s = Some (heartbeat_active_jobs now s)"
| "import_step W (RecoverStale now faults) s = Some (recover_stale_model_imports W now faults s)"
| "import_step W (ClaimNext now) s =
     (if im_stopping s \<or> iw_concurrency W \<le> length (im_tasks s) then None else claim_next now s)"
| "import_step W (BeginTask i f) s =
     on_task i s (\<lambda>tk. if tk_phase tk = TaskCreated then Some (begin_task tk f s) else None)"
| "import_step W (StartRun i) s =
     on_task i s (\<lambda>tk. if tk_phase tk = TaskPrepared then Some (start_run W tk s) else None)"
| "import_step W (FetchFiles i t) s =
     on_task i s (\<lambda>tk. if tk_phase tk = TaskFetching then Some (put_staging i (Some t) s) else None)"
| "import_step W (ReportProgress i st completed amount) s =
     on_task i s (\<lambda>tk. if reporting (tk_phase tk) then Some (report_progress tk st completed amount s) else None)"
| "import_step W (CommitProgress i now) s =
     (case task_of s i of
        None \<Rightarrow> None
      | Some tk \<Rightarrow> (case tk_progress tk of None \<Rightarrow> None | Some r \<Rightarrow> Some (commit_progress tk r now s)))"
| "import_step W (ValidateFiles i resolved) s =
     on_task i s (\<lambda>tk. if tk_phase tk = TaskFetching
       then (case validate_fetched W tk resolved s of Inl _ \<Rightarrow> None | Inr m \<Rightarrow> Some (set_phase (TaskValidated m) tk s)) else None)"
| "import_step W (MoveToStore i) s =
     on_task i s (\<lambda>tk. case tk_phase tk of TaskValidated m \<Rightarrow> if tk_cancel tk then None else Some (move_to_store W tk m s) | _ \<Rightarrow> None)"
| "import_step W (ReturnManifest i) s =
     on_task i s (\<lambda>tk. case tk_phase tk of TaskMoved m \<Rightarrow> Some (set_phase (TaskReturned m) tk s) | _ \<Rightarrow> None)"
| "import_step W (FailRun i e left) s =
     on_task i s (\<lambda>tk. if in_run (tk_phase tk) then Some (abort_run tk (TaskFailing e) left s) else None)"
| "import_step W (CancelRun i left) s =
     on_task i s (\<lambda>tk. if cancelable (tk_phase tk) \<and> tk_cancel tk then Some (abort_run tk TaskCanceling left s) else None)"
| "import_step W (FinalizeReady i new now) s =
     on_task i s (\<lambda>tk. case tk_phase tk of
         TaskReturned m \<Rightarrow> if new \<in> asset_id ` set (im_assets s) then None else Some (finish_task W tk new now m s)
       | _ \<Rightarrow> None)"
| "import_step W (MarkFailed i now) s =
     on_task i s (\<lambda>tk. case tk_phase tk of
         TaskFailing e \<Rightarrow> Some (set_phase TaskDone tk (mark_failed i now (tk_token tk) e s)) | _ \<Rightarrow> None)"
| "import_step W (MarkCanceled i now) s =
     on_task i s (\<lambda>tk. if tk_phase tk = TaskCanceling then Some (set_phase TaskDone tk (mark_canceled_or_retry i now s)) else None)"
| "import_step W ShutDown s = Some (s\<lparr>im_stopping := True, im_tasks := map (\<lambda>tk. tk\<lparr>tk_cancel := True\<rparr>) (im_tasks s)\<rparr>)"
| "import_step W (Restart worker) s =
     (if Some worker \<in> ij_claimed_by ` set (im_jobs s) then None
      else Some (s\<lparr>im_worker := worker, im_tasks := [], im_stopping := False\<rparr>))"

text \<open>The states that a sequence of events leads to; an event that cannot happen leads nowhere.\<close>

fun import_run :: "import_world \<Rightarrow> import_event list \<Rightarrow> import_state \<Rightarrow> import_state option" where
  "import_run W [] s = Some s"
| "import_run W (ev # evs) s = Option.bind (import_step W ev s) (import_run W evs)"

definition import_start :: "string \<Rightarrow> model_asset list \<Rightarrow> import_state" where
  "import_start worker assets = \<lparr>im_jobs = [], im_assets = assets, im_staging = [], im_homes = [], im_store = [],
     im_worker = worker, im_tasks = [], im_stopping = False\<rparr>"

end
