(* ===== verification/ImportSafety.thy ===== *)
theory ImportSafety
  imports ModelImport
begin

text \<open>
  What holds of the imports in every state that requests, coordinator and threads can reach: a ready import
  names a registered asset whose directory is in the store and validated, a finished one never changes, a
  waiting one has left nothing behind, and recovery leaves no abandoned import.
\<close>

section \<open>Reading a changed state\<close>

named_theorems view_simps

lemma job_of_views [view_simps]:
  "job_of (put_job j s) i = (if ij_id j = i then map_option (\<lambda>_. j) (job_of s i) else job_of s i)"
  "job_of (put_task tk s) i = job_of s i" "job_of (set_phase ph tk s) i = job_of s i"
  "job_of (put_staging k t s) i = job_of s i" "job_of (put_store k t s) i = job_of s i"
  "job_of (s\<lparr>im_assets := as\<rparr>) i = job_of s i" "job_of (s\<lparr>im_homes := hs\<rparr>) i = job_of s i"
  "job_of (s\<lparr>im_tasks := ts\<rparr>) i = job_of s i" "job_of (s\<lparr>im_jobs := js\<rparr>) i = lookup_by ij_id i js"
  "job_of (s\<lparr>im_worker := w\<rparr>) i = job_of s i" "job_of (s\<lparr>im_stopping := b\<rparr>) i = job_of s i"
  by (simp_all add: job_of_def put_job_def put_task_def set_phase_def put_staging_def put_store_def lookup_by_replace_by)

lemma task_of_views [view_simps]:
  "task_of (put_job j s) i = task_of s i"
  "task_of (put_task tk s) i = (if tk_id tk = i then map_option (\<lambda>_. tk) (task_of s i) else task_of s i)"
  "task_of (set_phase ph tk s) i = (if tk_id tk = i then map_option (\<lambda>_. tk\<lparr>tk_phase := ph\<rparr>) (task_of s i) else task_of s i)"
  "task_of (put_staging k t s) i = task_of s i" "task_of (put_store k t s) i = task_of s i"
  "task_of (s\<lparr>im_assets := as\<rparr>) i = task_of s i" "task_of (s\<lparr>im_homes := hs\<rparr>) i = task_of s i"
  "task_of (s\<lparr>im_jobs := js\<rparr>) i = task_of s i" "task_of (s\<lparr>im_tasks := ts\<rparr>) i = lookup_by tk_id i ts"
  "task_of (s\<lparr>im_worker := w\<rparr>) i = task_of s i" "task_of (s\<lparr>im_stopping := b\<rparr>) i = task_of s i"
  by (simp_all add: task_of_def put_job_def put_task_def set_phase_def put_staging_def put_store_def lookup_by_replace_by)

definition staged :: "import_state \<Rightarrow> uuid \<Rightarrow> file_tree option" where
  "staged s i = map_of (im_staging s) i"

definition stored :: "import_state \<Rightarrow> uuid \<Rightarrow> file_tree option" where
  "stored s i = map_of (im_store s) i"

lemma staged_views [view_simps]:
  "staged (put_job j s) i = staged s i" "staged (put_task tk s) i = staged s i" "staged (set_phase ph tk s) i = staged s i"
  "staged (put_staging k t s) i = (if k = i then t else staged s i)" "staged (put_store k t s) i = staged s i"
  "staged (s\<lparr>im_assets := as\<rparr>) i = staged s i" "staged (s\<lparr>im_homes := hs\<rparr>) i = staged s i"
  "staged (s\<lparr>im_jobs := js\<rparr>) i = staged s i" "staged (s\<lparr>im_tasks := ts\<rparr>) i = staged s i"
  "staged (s\<lparr>im_worker := w\<rparr>) i = staged s i" "staged (s\<lparr>im_stopping := b\<rparr>) i = staged s i"
  by (simp_all add: staged_def put_job_def put_task_def set_phase_def put_staging_def put_store_def
      dict_get_set delete_conv' split: option.splits)

lemma stored_views [view_simps]:
  "stored (put_job j s) i = stored s i" "stored (put_task tk s) i = stored s i" "stored (set_phase ph tk s) i = stored s i"
  "stored (put_staging k t s) i = stored s i" "stored (put_store k t s) i = (if k = i then t else stored s i)"
  "stored (s\<lparr>im_assets := as\<rparr>) i = stored s i" "stored (s\<lparr>im_homes := hs\<rparr>) i = stored s i"
  "stored (s\<lparr>im_jobs := js\<rparr>) i = stored s i" "stored (s\<lparr>im_tasks := ts\<rparr>) i = stored s i"
  "stored (s\<lparr>im_worker := w\<rparr>) i = stored s i" "stored (s\<lparr>im_stopping := b\<rparr>) i = stored s i"
  by (simp_all add: stored_def put_job_def put_task_def set_phase_def put_staging_def put_store_def
      dict_get_set delete_conv' split: option.splits)

lemma other_views [view_simps]:
  "im_assets (put_job j s) = im_assets s" "im_assets (put_task tk s) = im_assets s" "im_assets (set_phase ph tk s) = im_assets s"
  "im_assets (put_staging k t s) = im_assets s" "im_assets (put_store k t s) = im_assets s"
  "im_worker (put_job j s) = im_worker s" "im_worker (put_task tk s) = im_worker s" "im_worker (set_phase ph tk s) = im_worker s"
  "im_worker (put_staging k t s) = im_worker s" "im_worker (put_store k t s) = im_worker s"
  "im_stopping (put_job j s) = im_stopping s" "im_stopping (put_task tk s) = im_stopping s" "im_stopping (set_phase ph tk s) = im_stopping s"
  "im_stopping (put_staging k t s) = im_stopping s" "im_stopping (put_store k t s) = im_stopping s"
  by (simp_all add: put_job_def put_task_def set_phase_def put_staging_def put_store_def)

lemma job_of_id: "job_of s i = Some j \<Longrightarrow> ij_id j = i"
  by (auto simp: job_of_def dest: lookup_by_SomeD)

lemma task_of_id: "task_of s i = Some tk \<Longrightarrow> tk_id tk = i"
  by (auto simp: task_of_def dest: lookup_by_SomeD)

section \<open>The invariant\<close>

definition idle :: "import_task \<Rightarrow> bool" where
  "idle tk \<longleftrightarrow> tk_phase tk = TaskDone \<and> tk_progress tk = None"

definition checked_tree :: "import_world \<Rightarrow> model_manifest \<Rightarrow> file_tree \<Rightarrow> bool" where
  "checked_tree W m t \<longleftrightarrow> (\<exists>req res. validate_model_directory (iw_tools W) req res t = Inr m)"

definition kept_tree :: "import_world \<Rightarrow> model_manifest \<Rightarrow> file_tree \<Rightarrow> bool" where
  "kept_tree W m u \<longleftrightarrow> (\<exists>t. u = with_manifest (iw_manifest_text W m) t \<and> checked_tree W m t)"

text \<open>The directories of a running import, by the phase of its thread.\<close>

definition phase_ok :: "import_world \<Rightarrow> import_task \<Rightarrow> file_tree option \<Rightarrow> file_tree option \<Rightarrow> bool" where
  "phase_ok W tk g f \<longleftrightarrow>
     (case tk_phase tk of
        TaskFetching \<Rightarrow> f = None
      | TaskValidated m \<Rightarrow> f = None \<and> (\<exists>t. g = Some t \<and> checked_tree W m t)
      | TaskMoved m \<Rightarrow> g = None \<and> (\<exists>u. f = Some u \<and> kept_tree W m u)
      | TaskReturned m \<Rightarrow> g = None \<and> (\<exists>u. f = Some u \<and> kept_tree W m u)
      | TaskFailing _ \<Rightarrow> True
      | TaskDone \<Rightarrow> False
      | _ \<Rightarrow> g = None \<and> f = None)
     \<and> (case tk_progress tk of None \<Rightarrow> True
        | Some r \<Rightarrow> (tk_phase tk = TaskFetching \<or> (\<exists>m. tk_phase tk = TaskMoved m)) \<and> pr_seen r \<in> set active_import_statuses)"

definition registered :: "import_world \<Rightarrow> model_asset list \<Rightarrow> import_job \<Rightarrow> file_tree option \<Rightarrow> bool" where
  "registered W assets j f \<longleftrightarrow>
     (\<exists>a \<in> set assets. \<exists>m u. ij_asset j = Some (asset_id a) \<and> ij_manifest j = Some m \<and> local_path a = import_path W (ij_id j)
        \<and> asset_size_bytes a = Some (int (mm_size m)) \<and> asset_checksum a = Some (mm_checksum m)
        \<and> f = Some u \<and> kept_tree W m u)"

definition job_ok ::
  "import_world \<Rightarrow> string \<Rightarrow> bool \<Rightarrow> model_asset list \<Rightarrow> import_job \<Rightarrow> import_task option \<Rightarrow> file_tree option \<Rightarrow> file_tree option \<Rightarrow> bool" where
  "job_ok W worker stopping assets j t g f \<longleftrightarrow>
     (ij_asset j \<noteq> None \<longleftrightarrow> ij_status j = I_READY)
     \<and> (case ij_status j of
          I_PENDING \<Rightarrow> g = None \<and> f = None \<and> (\<forall>tk. t = Some tk \<longrightarrow> stopping \<and> idle tk)
        | I_READY \<Rightarrow> registered W assets j f \<and> (\<forall>tk. t = Some tk \<longrightarrow> idle tk)
        | I_FAILED \<Rightarrow> \<forall>tk. t = Some tk \<longrightarrow> idle tk
        | I_CANCELED \<Rightarrow> \<forall>tk. t = Some tk \<longrightarrow> idle tk
        | _ \<Rightarrow> (case t of None \<Rightarrow> ij_claimed_by j \<noteq> Some worker
              | Some tk \<Rightarrow> ij_claimed_by j = Some worker \<and> phase_ok W tk g f))"

definition entry_ok :: "import_world \<Rightarrow> import_state \<Rightarrow> uuid \<Rightarrow> bool" where
  "entry_ok W s i \<longleftrightarrow>
     (case job_of s i of
        None \<Rightarrow> task_of s i = None \<and> staged s i = None \<and> stored s i = None
      | Some j \<Rightarrow> job_ok W (im_worker s) (im_stopping s) (im_assets s) j (task_of s i) (staged s i) (stored s i))"

definition imports_ok :: "import_world \<Rightarrow> import_state \<Rightarrow> bool" where
  "imports_ok W s \<longleftrightarrow> distinct (map ij_id (im_jobs s)) \<and> distinct (map tk_id (im_tasks s)) \<and> (\<forall>i. entry_ok W s i)"

lemma registered_keeps: "registered W as j f \<Longrightarrow> keeps_assets as bs \<Longrightarrow> registered W bs j f"
  by (fastforce simp: registered_def keeps_assets_def list_all_iff list_ex_iff same_files_def)

lemma job_ok_keeps: "job_ok W w b as j t g f \<Longrightarrow> keeps_assets as bs \<Longrightarrow> job_ok W w b bs j t g f"
  by (auto simp: job_ok_def registered_keeps split: import_status.splits)

text \<open>A change at one id.\<close>

lemma imports_ok_change:
  assumes "imports_ok W s" "distinct (map ij_id (im_jobs s'))" "distinct (map tk_id (im_tasks s'))"
    and "\<And>k. k \<noteq> i \<Longrightarrow> job_of s' k = job_of s k \<and> task_of s' k = task_of s k \<and> staged s' k = staged s k \<and> stored s' k = stored s k"
    and "im_worker s' = im_worker s" "im_stopping s' = im_stopping s" "keeps_assets (im_assets s) (im_assets s')"
    and "entry_ok W s' i"
  shows "imports_ok W s'"
proof -
  have "entry_ok W s' k" for k
  proof (cases "k = i")
    case False
    have "entry_ok W s k" using assms(1) by (simp add: imports_ok_def)
    then show ?thesis using assms(4) [OF False] assms(5,6,7) by (auto simp: entry_ok_def job_ok_keeps split: option.splits)
  qed (use assms(8) in simp)
  then show ?thesis using assms(2,3) by (simp add: imports_ok_def)
qed

lemma keeps_assets_refl [simp]: "keeps_assets as as"
  by (auto simp: keeps_assets_def list_all_iff list_ex_iff same_files_def)

lemma keeps_assets_append [simp]: "keeps_assets as (as @ bs)"
  by (auto simp: keeps_assets_def list_all_iff list_ex_iff same_files_def)

lemma id_lists [view_simps]:
  "map ij_id (im_jobs (put_job j s)) = map ij_id (im_jobs s)" "map ij_id (im_jobs (put_task tk s)) = map ij_id (im_jobs s)"
  "map ij_id (im_jobs (set_phase ph tk s)) = map ij_id (im_jobs s)" "map ij_id (im_jobs (put_staging k t s)) = map ij_id (im_jobs s)"
  "map ij_id (im_jobs (put_store k t s)) = map ij_id (im_jobs s)"
  "map tk_id (im_tasks (put_job j s)) = map tk_id (im_tasks s)" "map tk_id (im_tasks (put_task tk s)) = map tk_id (im_tasks s)"
  "map tk_id (im_tasks (set_phase ph tk s)) = map tk_id (im_tasks s)" "map tk_id (im_tasks (put_staging k t s)) = map tk_id (im_tasks s)"
  "map tk_id (im_tasks (put_store k t s)) = map tk_id (im_tasks s)"
  by (simp_all add: put_job_def put_task_def set_phase_def put_staging_def put_store_def map_key_replace_by)

section \<open>The thread keeps the invariant\<close>

lemma running_job:
  assumes "imports_ok W s" "task_of s i = Some tk" "\<not> idle tk"
  obtains j where "job_of s i = Some j" "ij_id j = i" "tk_id tk = i" "ij_status j \<in> set active_import_statuses"
    "ij_claimed_by j = Some (im_worker s)" "ij_asset j = None" "phase_ok W tk (staged s i) (stored s i)"
proof -
  have entry: "entry_ok W s i" using assms(1) by (simp add: imports_ok_def)
  then obtain j where j: "job_of s i = Some j" using assms(2) by (auto simp: entry_ok_def split: option.splits)
  have "job_ok W (im_worker s) (im_stopping s) (im_assets s) j (Some tk) (staged s i) (stored s i)"
    using entry j assms(2) by (simp add: entry_ok_def)
  then show thesis
    using that [of j] j job_of_id [OF j] task_of_id [OF assms(2)] assms(3)
    by (auto simp: job_ok_def active_import_statuses_def split: import_status.splits)
qed

lemma entry_active:
  assumes "job_of s i = Some j" "ij_status j \<in> set active_import_statuses" "ij_asset j = None"
    "ij_claimed_by j = Some (im_worker s)" "task_of s i = Some tk" "phase_ok W tk (staged s i) (stored s i)"
  shows "entry_ok W s i"
  using assms by (auto simp: entry_ok_def job_ok_def active_import_statuses_def)

text \<open>A step of the thread that leaves the row as it is.\<close>

lemma thread_keeps:
  assumes "imports_ok W s" "task_of s i = Some tk" "\<not> idle tk"
    and "\<And>k. job_of s' k = job_of s k" "\<And>k. k \<noteq> i \<Longrightarrow> task_of s' k = task_of s k \<and> staged s' k = staged s k \<and> stored s' k = stored s k"
    and "map ij_id (im_jobs s') = map ij_id (im_jobs s)" "map tk_id (im_tasks s') = map tk_id (im_tasks s)"
    and "im_worker s' = im_worker s" "im_stopping s' = im_stopping s" "im_assets s' = im_assets s"
    and "task_of s' i = Some tk'" "phase_ok W tk' (staged s' i) (stored s' i)"
  shows "imports_ok W s'"
proof -
  obtain j where j: "job_of s i = Some j" "ij_status j \<in> set active_import_statuses" "ij_claimed_by j = Some (im_worker s)" "ij_asset j = None"
    using running_job [OF assms(1-3)] by blast
  have "entry_ok W s' i" using entry_active [of s' i j tk' W] j assms(4,8,11,12) by simp
  then show ?thesis
    using imports_ok_change [OF assms(1), of s' i] assms(1,4-10) by (simp add: imports_ok_def)
qed

lemma set_phase_ok:
  assumes "imports_ok W s" "task_of s i = Some tk" "\<not> idle tk" "phase_ok W (tk\<lparr>tk_phase := ph\<rparr>) (staged s i) (stored s i)"
  shows "imports_ok W (set_phase ph tk s)"
  using assms(4) task_of_id [OF assms(2)] assms(2)
  by (intro thread_keeps [OF assms(1-3), where tk' = "tk\<lparr>tk_phase := ph\<rparr>"]) (auto simp: view_simps)

lemma failing_phase_ok [simp]: "tk_progress tk = None \<Longrightarrow> phase_ok W (tk\<lparr>tk_phase := TaskFailing e\<rparr>) g f"
  by (simp add: phase_ok_def)

lemma begin_task_ok:
  assumes "imports_ok W s" "task_of s i = Some tk" "tk_phase tk = TaskCreated" "tk_progress tk = None"
  shows "imports_ok W (begin_task tk f s)"
proof -
  have run: "\<not> idle tk" using assms(3) by (simp add: idle_def)
  obtain j where j: "job_of s i = Some j" "tk_id tk = i" and ph: "phase_ok W tk (staged s i) (stored s i)"
    using running_job [OF assms(1,2) run] by blast
  have clean: "staged s i = None \<and> stored s i = None" using ph assms(3) by (simp add: phase_ok_def)
  show ?thesis
  proof (cases "token_for j f")
    case (Inl e)
    show ?thesis
      using assms(2,4) j by (intro thread_keeps [OF assms(1,2) run, where tk' = "(if ij_status j = I_CANCELING then tk\<lparr>tk_cancel := True\<rparr> else tk)\<lparr>tk_phase := TaskFailing e\<rparr>"])
        (auto simp: begin_task_def Inl view_simps Let_def)
  next
    case (Inr t)
    show ?thesis
      using assms(2,4) j clean by (intro thread_keeps [OF assms(1,2) run, where tk' = "((if ij_status j = I_CANCELING then tk\<lparr>tk_cancel := True\<rparr> else tk)\<lparr>tk_token := t\<rparr>)\<lparr>tk_phase := TaskPrepared\<rparr>"])
        (auto simp: begin_task_def Inr view_simps Let_def phase_ok_def)
  qed
qed

lemma start_run_ok:
  assumes "imports_ok W s" "task_of s i = Some tk" "tk_phase tk = TaskPrepared" "tk_progress tk = None"
  shows "imports_ok W (start_run W tk s)"
proof -
  have run: "\<not> idle tk" using assms(3) by (simp add: idle_def)
  have id: "tk_id tk = i" by (rule task_of_id [OF assms(2)])
  have ph: "phase_ok W tk (staged s i) (stored s i)" using running_job [OF assms(1,2) run] by blast
  have "imports_ok W (set_phase TaskFetching tk (put_staging i (Some (DirNode (iw_device W) [])) s))"
    using assms(2,3,4) id ph
    by (intro thread_keeps [OF assms(1,2) run, where tk' = "tk\<lparr>tk_phase := TaskFetching\<rparr>"]) (auto simp: view_simps phase_ok_def)
  then show ?thesis
    using set_phase_ok [OF assms(1,2) run] assms(4) id by (simp add: start_run_def)
qed

lemma fetch_ok:
  assumes "imports_ok W s" "task_of s i = Some tk" "tk_phase tk = TaskFetching"
  shows "imports_ok W (put_staging i (Some t) s)"
proof -
  have run: "\<not> idle tk" using assms(3) by (simp add: idle_def)
  have ph: "phase_ok W tk (staged s i) (stored s i)" using running_job [OF assms(1,2) run] by blast
  show ?thesis
    using assms(2,3) ph by (intro thread_keeps [OF assms(1,2) run, where tk' = tk]) (auto simp: view_simps phase_ok_def)
qed

lemma abort_run_ok:
  assumes "imports_ok W s" "task_of s i = Some tk" "in_run (tk_phase tk)" "tk_progress tk = None"
    and "(\<exists>e. ph = TaskFailing e) \<or> ph = TaskCanceling \<and> (\<forall>m. tk_phase tk \<noteq> TaskMoved m)"
  shows "imports_ok W (abort_run tk ph left s)"
proof -
  have run: "\<not> idle tk" using assms(3) by (auto simp: idle_def in_run.simps)
  have id: "tk_id tk = i" by (rule task_of_id [OF assms(2)])
  have old: "phase_ok W tk (staged s i) (stored s i)" using running_job [OF assms(1,2) run] by blast
  have new: "phase_ok W (tk\<lparr>tk_phase := ph\<rparr>) None (stored s i)"
    using old assms(3,4,5) by (auto simp: phase_ok_def in_run.simps split: task_phase.split_asm)
  have "i \<notin> set (map fst (im_staging s)) \<longleftrightarrow> staged s i = None" by (simp add: staged_def map_of_eq_None_iff)
  moreover have "imports_ok W (set_phase ph tk (put_staging i None s))"
    using assms(2) id new by (intro thread_keeps [OF assms(1,2) run, where tk' = "tk\<lparr>tk_phase := ph\<rparr>"]) (auto simp: view_simps)
  moreover have "imports_ok W (set_phase (TaskFailing ''OSError'') tk (put_staging i (Some t) s))" for t
    using assms(2,4) id by (intro thread_keeps [OF assms(1,2) run, where tk' = "tk\<lparr>tk_phase := TaskFailing ''OSError''\<rparr>"]) (auto simp: view_simps)
  moreover have "imports_ok W (set_phase ph tk s)" if "staged s i = None"
    using set_phase_ok [OF assms(1,2) run] new that by simp
  ultimately show ?thesis by (auto simp: abort_run_def id split: option.splits)
qed

lemma validate_ok:
  assumes "imports_ok W s" "task_of s i = Some tk" "tk_phase tk = TaskFetching" "tk_progress tk = None"
    and "validate_fetched W tk resolved s = Inr m"
  shows "imports_ok W (set_phase (TaskValidated m) tk s)"
proof -
  have run: "\<not> idle tk" using assms(3) by (simp add: idle_def)
  have ph: "phase_ok W tk (staged s i) (stored s i)" using running_job [OF assms(1,2) run] by blast
  have "\<exists>t. staged s i = Some t \<and> checked_tree W m t"
    using assms(5) task_of_id [OF assms(2)] by (auto simp: validate_fetched_def check_simps staged_def checked_tree_def)
  then show ?thesis using set_phase_ok [OF assms(1,2) run] ph assms(3,4) by (simp add: phase_ok_def)
qed

lemma move_ok:
  assumes "imports_ok W s" "task_of s i = Some tk" "tk_phase tk = TaskValidated m" "tk_progress tk = None"
  shows "imports_ok W (move_to_store W tk m s)"
proof -
  have run: "\<not> idle tk" using assms(3) by (simp add: idle_def)
  have id: "tk_id tk = i" by (rule task_of_id [OF assms(2)])
  have ph: "phase_ok W tk (staged s i) (stored s i)" using running_job [OF assms(1,2) run] by blast
  then obtain t where t: "staged s i = Some t" "checked_tree W m t" using assms(3) by (auto simp: phase_ok_def)
  have "imports_ok W (set_phase (TaskMoved m) tk (put_store i (Some (with_manifest (iw_manifest_text W m) t)) (put_staging i None s)))"
    using assms(2,4) id t
    by (intro thread_keeps [OF assms(1,2) run, where tk' = "tk\<lparr>tk_phase := TaskMoved m\<rparr>"]) (auto simp: view_simps phase_ok_def kept_tree_def)
  then show ?thesis using t(1) id by (simp add: move_to_store_def staged_def)
qed

lemma return_ok:
  assumes "imports_ok W s" "task_of s i = Some tk" "tk_phase tk = TaskMoved m" "tk_progress tk = None"
  shows "imports_ok W (set_phase (TaskReturned m) tk s)"
proof -
  have run: "\<not> idle tk" using assms(3) by (simp add: idle_def)
  have "phase_ok W tk (staged s i) (stored s i)" using running_job [OF assms(1,2) run] by blast
  then show ?thesis using set_phase_ok [OF assms(1,2) run] assms(3,4) by (simp add: phase_ok_def)
qed

text \<open>A step that ends the thread writes the row of its job and nothing else.\<close>

lemma end_task_ok:
  assumes "imports_ok W s" "task_of s i = Some tk" "tk_progress tk = None" "job_of s i = Some j" "ij_id j' = i"
    and "job_ok W (im_worker s) (im_stopping s) as j' (Some (tk\<lparr>tk_phase := TaskDone\<rparr>)) (staged s i) (stored s i)"
    and "keeps_assets (im_assets s) as"
  shows "imports_ok W (set_phase TaskDone tk ((put_job j' s)\<lparr>im_assets := as\<rparr>))"
proof -
  have id: "tk_id tk = i" by (rule task_of_id [OF assms(2)])
  let ?s = "set_phase TaskDone tk ((put_job j' s)\<lparr>im_assets := as\<rparr>)"
  have lists: "map ij_id (im_jobs ?s) = map ij_id (im_jobs s)" "map tk_id (im_tasks ?s) = map tk_id (im_tasks s)"
    by (simp_all add: set_phase_def put_task_def put_job_def map_key_replace_by)
  have "entry_ok W ?s i" using assms(2,4,5,6) id by (simp add: entry_ok_def view_simps)
  then show ?thesis
    using assms(1,4,5,7) id unfolding imports_ok_def [of W s]
    by (intro imports_ok_change [OF assms(1), of _ i]) (auto simp: view_simps lists)
qed

lemma mark_failed_ok:
  assumes "imports_ok W s" "task_of s i = Some tk" "tk_phase tk = TaskFailing e" "tk_progress tk = None"
  shows "imports_ok W (set_phase TaskDone tk (mark_failed i now token e s))"
proof -
  have run: "\<not> idle tk" using assms(3) by (simp add: idle_def)
  obtain j where j: "job_of s i = Some j" "ij_id j = i" "ij_asset j = None" using running_job [OF assms(1,2) run] by blast
  define j' where "j' = (if ij_status j = I_CANCELING then finish_job I_CANCELED now None j
      else finish_job I_FAILED now (Some (safe_error ''Exception'' e token)) j)"
  have "mark_failed i now token e s = (put_job j' s)\<lparr>im_assets := im_assets s\<rparr>"
    by (simp add: mark_failed_def j j'_def put_job_def)
  moreover have "imports_ok W (set_phase TaskDone tk ((put_job j' s)\<lparr>im_assets := im_assets s\<rparr>))"
    using j assms(4) by (intro end_task_ok [OF assms(1,2,4) j(1)]) (auto simp: j'_def finish_job_def job_ok_def idle_def)
  ultimately show ?thesis by simp
qed

lemma mark_canceled_ok:
  assumes "imports_ok W s" "task_of s i = Some tk" "tk_phase tk = TaskCanceling" "tk_progress tk = None"
  shows "imports_ok W (set_phase TaskDone tk (mark_canceled_or_retry i now s))"
proof -
  have run: "\<not> idle tk" using assms(3) by (simp add: idle_def)
  obtain j where j: "job_of s i = Some j" "ij_id j = i" "ij_asset j = None" "phase_ok W tk (staged s i) (stored s i)"
    using running_job [OF assms(1,2) run] by blast
  define j' where "j' = (if im_stopping s \<and> ij_status j \<noteq> I_CANCELING then requeue_job j
      else j\<lparr>ij_status := I_CANCELED, ij_finished := Some now\<rparr>)"
  have "mark_canceled_or_retry i now s = (put_job j' s)\<lparr>im_assets := im_assets s\<rparr>"
    by (simp add: mark_canceled_or_retry_def j j'_def put_job_def)
  moreover have "staged s i = None \<and> stored s i = None" using j(4) assms(3) by (simp add: phase_ok_def)
  then have "imports_ok W (set_phase TaskDone tk ((put_job j' s)\<lparr>im_assets := im_assets s\<rparr>))"
    using j assms(4) by (intro end_task_ok [OF assms(1,2,4) j(1)]) (auto simp: j'_def requeue_job_def job_ok_def idle_def)
  ultimately show ?thesis by simp
qed

lemma finish_task_ok:
  assumes "imports_ok W s" "task_of s i = Some tk" "tk_phase tk = TaskReturned m" "tk_progress tk = None"
  shows "imports_ok W (finish_task W tk new now m s)"
proof -
  have run: "\<not> idle tk" using assms(3) by (simp add: idle_def)
  have id: "tk_id tk = i" by (rule task_of_id [OF assms(2)])
  obtain j where j: "job_of s i = Some j" "ij_id j = i" "phase_ok W tk (staged s i) (stored s i)"
    using running_job [OF assms(1,2) run] by blast
  obtain u where u: "stored s i = Some u" "kept_tree W m u" using j(3) assms(3) by (auto simp: phase_ok_def)
  show ?thesis
  proof (cases "finalize_ready W i new now m s")
    case (Inl e)
    then show ?thesis using set_phase_ok [OF assms(1,2) run] assms(4) by (simp add: finish_task_def id)
  next
    case (Inr s')
    define j' where "j' = finish_job I_READY now None
      (j\<lparr>ij_asset := Some new, ij_manifest := Some m, ij_completed := int (mm_size m), ij_total := Some (int (mm_size m))\<rparr>)"
    have s': "s' = (put_job j' s)\<lparr>im_assets := im_assets s @ [imported_asset W new j m]\<rparr>"
      using Inr by (auto simp: finalize_ready_def check_simps j(1) j'_def)
    have "registered W (im_assets s @ [imported_asset W new j m]) j' (Some u)"
      using u by (auto simp: registered_def j'_def finish_job_def imported_asset_def)
    then have "job_ok W (im_worker s) (im_stopping s) (im_assets s @ [imported_asset W new j m]) j'
        (Some (tk\<lparr>tk_phase := TaskDone\<rparr>)) (staged s i) (stored s i)"
      using u assms(4) by (simp add: job_ok_def j'_def finish_job_def idle_def)
    then show ?thesis
      using end_task_ok [OF assms(1,2,4) j(1), of j'] j(2) by (simp add: finish_task_def id Inr s' j'_def finish_job_def)
  qed
qed

section \<open>Progress keeps the invariant\<close>

lemma report_progress_ok:
  assumes "imports_ok W s" "task_of s i = Some tk" "tk_phase tk = TaskFetching \<or> (\<exists>m. tk_phase tk = TaskMoved m)"
  shows "imports_ok W (report_progress tk st completed amount s)"
proof -
  have run: "\<not> idle tk" using assms(3) by (auto simp: idle_def)
  have id: "tk_id tk = i" by (rule task_of_id [OF assms(2)])
  obtain j where j: "job_of s i = Some j" "ij_status j \<in> set active_import_statuses" "phase_ok W tk (staged s i) (stored s i)"
    using running_job [OF assms(1,2) run] by blast
  let ?tk = "tk\<lparr>tk_progress := Some \<lparr>pr_stage = st, pr_completed = completed, pr_total = amount, pr_seen = ij_status j\<rparr>\<rparr>"
  have "imports_ok W (put_task ?tk s)"
    using assms(2,3) id j by (intro thread_keeps [OF assms(1,2) run, where tk' = ?tk]) (auto simp: view_simps phase_ok_def)
  then show ?thesis by (simp add: report_progress_def id j(1))
qed

lemma progress_status_active:
  "pr_seen r \<in> set active_import_statuses \<Longrightarrow> st \<in> set active_import_statuses \<Longrightarrow> progress_status r st \<in> set active_import_statuses"
  by (auto simp: progress_status_def active_import_statuses_def Let_def)

lemma commit_progress_ok:
  assumes "imports_ok W s" "task_of s i = Some tk" "tk_progress tk = Some r"
  shows "imports_ok W (commit_progress tk r now s)"
proof -
  have run: "\<not> idle tk" using assms(3) by (simp add: idle_def)
  have id: "tk_id tk = i" by (rule task_of_id [OF assms(2)])
  obtain j where j: "job_of s i = Some j" "ij_id j = i" "ij_status j \<in> set active_import_statuses" "ij_asset j = None"
      "ij_claimed_by j = Some (im_worker s)" "phase_ok W tk (staged s i) (stored s i)"
    using running_job [OF assms(1,2) run] by blast
  have seen: "pr_seen r \<in> set active_import_statuses" using j(6) assms(3) by (simp add: phase_ok_def)
  let ?j = "j\<lparr>ij_status := progress_status r (ij_status j), ij_completed := max 0 (pr_completed r),
     ij_total := map_option (max 0) (pr_total r), ij_claimed_at := Some now\<rparr>" and ?tk = "tk\<lparr>tk_progress := None\<rparr>"
  have "commit_progress tk r now s = put_job ?j (put_task ?tk s)"
    using seen by (auto simp: commit_progress_def id j(1) active_import_statuses_def finished_import_statuses_def)
  moreover have "entry_ok W (put_job ?j (put_task ?tk s)) i"
    using j assms(2) id progress_status_active [OF seen j(3)]
    by (intro entry_active [where j = ?j and tk = ?tk]) (auto simp: view_simps phase_ok_def assms(3))
  then have "imports_ok W (put_job ?j (put_task ?tk s))"
    using assms(1) id j(2) unfolding imports_ok_def [of W s]
    by (intro imports_ok_change [OF assms(1), of _ i]) (auto simp: view_simps)
  ultimately show ?thesis by simp
qed

lemma on_task_Some: "on_task i s act = Some s' \<longleftrightarrow> (\<exists>tk. task_of s i = Some tk \<and> tk_progress tk = None \<and> act tk = Some s')"
  by (auto simp: on_task_def split: option.splits if_splits)

lemma thread_stepD:
  "import_step W (MoveToStore i) s = Some s' \<Longrightarrow>
     \<exists>tk m. task_of s i = Some tk \<and> tk_progress tk = None \<and> tk_phase tk = TaskValidated m \<and> \<not> tk_cancel tk \<and> s' = move_to_store W tk m s"
  "import_step W (ReturnManifest i) s = Some s' \<Longrightarrow>
     \<exists>tk m. task_of s i = Some tk \<and> tk_progress tk = None \<and> tk_phase tk = TaskMoved m \<and> s' = set_phase (TaskReturned m) tk s"
  "import_step W (FinalizeReady i new now) s = Some s' \<Longrightarrow>
     \<exists>tk m. task_of s i = Some tk \<and> tk_progress tk = None \<and> tk_phase tk = TaskReturned m \<and> s' = finish_task W tk new now m s"
  "import_step W (MarkFailed i now) s = Some s' \<Longrightarrow>
     \<exists>tk e. task_of s i = Some tk \<and> tk_progress tk = None \<and> tk_phase tk = TaskFailing e
       \<and> s' = set_phase TaskDone tk (mark_failed i now (tk_token tk) e s)"
  unfolding import_step.simps on_task_Some
  by (elim exE conjE, rename_tac tk, case_tac "tk_phase tk"; simp split: if_split_asm)+

fun is_thread_event :: "import_event \<Rightarrow> bool" where
  "is_thread_event (CreateImport _ _ _ _) = False"
| "is_thread_event (CancelImport _ _) = False"
| "is_thread_event (OtherAssets _) = False"
| "is_thread_event SignalCanceling = False"
| "is_thread_event CollectFinished = False"
| "is_thread_event (Heartbeat _) = False"
| "is_thread_event (RecoverStale _ _) = False"
| "is_thread_event (ClaimNext _) = False"
| "is_thread_event ShutDown = False"
| "is_thread_event (Restart _) = False"
| "is_thread_event _ = True"

lemma thread_event_ok:
  assumes "imports_ok W s" "import_step W ev s = Some s'" "is_thread_event ev"
  shows "imports_ok W s'"
proof -
  note [simp] = on_task_Some
  show ?thesis
  proof (cases ev)
    case BeginTask then show ?thesis using assms(2) begin_task_ok [OF assms(1)] by (auto split: if_splits)
  next
    case StartRun then show ?thesis using assms(2) start_run_ok [OF assms(1)] by (auto split: if_splits)
  next
    case FetchFiles then show ?thesis using assms(2) fetch_ok [OF assms(1)] by (auto split: if_splits)
  next
    case ReportProgress then show ?thesis
      using assms(2) report_progress_ok [OF assms(1)] by (auto split: if_splits elim!: reporting.elims)
  next
    case CommitProgress then show ?thesis using assms(2) commit_progress_ok [OF assms(1)] by (auto split: option.splits)
  next
    case ValidateFiles then show ?thesis using assms(2) validate_ok [OF assms(1)] by (auto split: if_splits sum.splits)
  next
    case MoveToStore then show ?thesis using assms(2) move_ok [OF assms(1)] by (auto simp del: import_step.simps dest!: thread_stepD)
  next
    case ReturnManifest then show ?thesis using assms(2) return_ok [OF assms(1)] by (auto simp del: import_step.simps dest!: thread_stepD)
  next
    case FailRun then show ?thesis using assms(2) abort_run_ok [OF assms(1)] by (auto split: if_splits)
  next
    case CancelRun then show ?thesis
      using assms(2) abort_run_ok [OF assms(1), where ph = TaskCanceling] by (auto split: if_splits elim!: cancelable.elims)
  next
    case FinalizeReady then show ?thesis using assms(2) finish_task_ok [OF assms(1)] by (auto simp del: import_step.simps dest!: thread_stepD)
  next
    case MarkFailed then show ?thesis using assms(2) mark_failed_ok [OF assms(1)] by (auto simp del: import_step.simps dest!: thread_stepD)
  next
    case MarkCanceled then show ?thesis using assms(2) mark_canceled_ok [OF assms(1)] by (auto split: if_splits)
  qed (use assms(3) in simp_all)
qed

section \<open>Requests and rounds keep the invariant\<close>

text \<open>A change of the row only, of a job that no thread is at work on or that stays active.\<close>

lemma put_job_ok:
  assumes "imports_ok W s" "job_of s i = Some j" "ij_id j' = i"
    and "job_ok W (im_worker s) (im_stopping s) (im_assets s) j' (task_of s i) (staged s i) (stored s i)"
  shows "imports_ok W (put_job j' s)"
  using assms unfolding imports_ok_def [of W s]
  by (intro imports_ok_change [OF assms(1), of _ i]) (auto simp: view_simps entry_ok_def)

lemma entry_job: "imports_ok W s \<Longrightarrow> job_of s i = Some j \<Longrightarrow>
    job_ok W (im_worker s) (im_stopping s) (im_assets s) j (task_of s i) (staged s i) (stored s i)"
  by (drule conjunct2 [OF conjunct2 [OF imports_ok_def [THEN iffD1]]], drule spec [of _ i]) (simp add: entry_ok_def)

lemma create_import_ok:
  assumes "imports_ok W s" "job_of s i = None" "create_model_import W inbox p i now s = Inr s'"
  shows "imports_ok W s'"
proof -
  have s': "s' = s\<lparr>im_jobs := im_jobs s @ [new_import_job p i now]\<rparr>"
    using assms(3) by (auto simp: create_model_import_def check_simps split: if_splits)
  have "entry_ok W s i" using assms(1) by (simp add: imports_ok_def)
  then have none: "task_of s i = None" "staged s i = None" "stored s i = None" using assms(2) by (simp_all add: entry_ok_def)
  have job: "job_of s' k = (if k = i then Some (new_import_job p i now) else job_of s k)" for k
    using assms(2) by (auto simp: s' job_of_def lookup_by_append lookup_by_single new_import_job_def split: option.splits)
  have "i \<notin> set (map ij_id (im_jobs s))" using assms(2) by (auto simp: job_of_def lookup_by_None_iff)
  moreover have "entry_ok W s' i"
    using none by (simp add: entry_ok_def job) (simp add: s' view_simps job_ok_def new_import_job_def)
  moreover have "\<And>k. k \<noteq> i \<Longrightarrow> job_of s' k = job_of s k \<and> task_of s' k = task_of s k \<and> staged s' k = staged s k \<and> stored s' k = stored s k"
    by (simp add: job) (simp add: s' view_simps)
  ultimately show ?thesis
    using assms(1) unfolding imports_ok_def [of W s]
    by (intro imports_ok_change [OF assms(1), of s' i]) (auto simp: s' new_import_job_def)
qed

lemma cancel_import_ok:
  assumes "imports_ok W s" "request_model_import_cancel i now s = Inr s'"
  shows "imports_ok W s'"
proof -
  obtain j where j: "job_of s i = Some j" "s' = put_job (cancel_row_of now j) s"
    using assms(2) by (auto simp: request_model_import_cancel_def split: option.splits)
  have "job_ok W (im_worker s) (im_stopping s) (im_assets s) (cancel_row_of now j) (task_of s i) (staged s i) (stored s i)"
    using entry_job [OF assms(1) j(1)] by (auto simp: job_ok_def cancel_row_of_def registered_def split: import_status.splits option.splits)
  then show ?thesis
    using put_job_ok [OF assms(1) j(1)] job_of_id [OF j(1)] j(2) by (auto simp: cancel_row_of_def)
qed

text \<open>Changes of several tasks or rows at once.\<close>

lemma imports_ok_pointwise:
  assumes "imports_ok W s" "distinct (map ij_id (im_jobs s'))" "distinct (map tk_id (im_tasks s'))" "\<And>i. entry_ok W s i \<Longrightarrow> entry_ok W s' i"
  shows "imports_ok W s'"
  using assms by (simp add: imports_ok_def)

lemma phase_ok_cancel [simp]: "phase_ok W (tk\<lparr>tk_cancel := b\<rparr>) g f = phase_ok W tk g f"
  by (cases tk) (simp only: phase_ok_def import_task.simps import_task.update_convs)

lemma idle_cancel [simp]: "idle (tk\<lparr>tk_cancel := b\<rparr>) = idle tk"
  by (simp add: idle_def)

definition only_cancel :: "import_task \<Rightarrow> import_task \<Rightarrow> bool" where
  "only_cancel tk tk' \<longleftrightarrow> (\<exists>b. tk' = tk\<lparr>tk_cancel := b\<rparr>)"

lemma only_cancel_simps: "only_cancel tk tk" "only_cancel tk (tk\<lparr>tk_cancel := b\<rparr>)"
  unfolding only_cancel_def by (rule exI [of _ "tk_cancel tk"], simp) blast

lemma job_ok_only_cancel: "job_ok W w b as j t g f \<Longrightarrow> rel_option only_cancel t t' \<Longrightarrow> job_ok W w b as j t' g f"
  by (auto simp: job_ok_def only_cancel_def option_rel_Some1 option_rel_Some2 elim!: option.rel_cases split: import_status.splits)

lemma signals_ok:
  assumes "imports_ok W s" "s' = s\<lparr>im_tasks := map f (im_tasks s)\<rparr>" "\<And>tk. only_cancel tk (f tk)"
  shows "imports_ok W s'"
proof (rule imports_ok_pointwise [OF assms(1)])
  have id: "tk_id (f tk) = tk_id tk" for tk using assms(3) [of tk] by (auto simp: only_cancel_def)
  show "distinct (map ij_id (im_jobs s'))" using assms(1) by (simp add: imports_ok_def assms(2))
  have "map tk_id (im_tasks s') = map tk_id (im_tasks s)" by (simp add: assms(2) id)
  then show "distinct (map tk_id (im_tasks s'))" using assms(1) by (simp add: imports_ok_def)
  have task: "task_of s' i = map_option f (task_of s i)" for i by (simp add: assms(2) task_of_def lookup_by_map id)
  then have rel: "rel_option only_cancel (task_of s i) (task_of s' i)" for i using assms(3) by (cases "task_of s i") auto
  show "entry_ok W s' i" if "entry_ok W s i" for i
    using that job_ok_only_cancel [OF _ rel] task by (auto simp: entry_ok_def assms(2) view_simps split: option.splits)
qed

lemma filter_lookup: "distinct (map key xs) \<Longrightarrow>
    lookup_by key k (filter P xs) = (case lookup_by key k xs of None \<Rightarrow> None | Some x \<Rightarrow> if P x then Some x else None)"
proof (induction xs)
  case (Cons a xs)
  show ?case
  proof (cases "key a = k")
    case True
    then have "lookup_by key k xs = None" using Cons.prems by (fastforce simp: lookup_by_None_iff image_iff)
    then show ?thesis using Cons True by (simp add: lookup_by_def)
  next
    case False
    then show ?thesis using Cons by (simp add: lookup_by_def)
  qed
qed (simp add: lookup_by_def)

lemma job_ok_claimed_at: "job_ok W w b as (j\<lparr>ij_claimed_at := x\<rparr>) t g h = job_ok W w b as j t g h"
  by (cases j; cases t) (auto simp: job_ok_def registered_def split: import_status.splits)

lemma collect_ok:
  assumes "imports_ok W s" shows "imports_ok W (collect_finished s)"
proof (rule imports_ok_pointwise [OF assms])
  have dist: "distinct (map tk_id (im_tasks s))" using assms by (simp add: imports_ok_def)
  show "distinct (map ij_id (im_jobs (collect_finished s)))" using assms by (simp add: imports_ok_def collect_finished_def)
  show "distinct (map tk_id (im_tasks (collect_finished s)))"
    using dist by (simp add: collect_finished_def distinct_map_filter)
  have task: "task_of (collect_finished s) i = (case task_of s i of None \<Rightarrow> None | Some tk \<Rightarrow> if tk_phase tk \<noteq> TaskDone then Some tk else None)" for i
    unfolding collect_finished_def by (simp add: view_simps filter_lookup [OF dist] flip: task_of_def)
  have same: "job_of (collect_finished s) i = job_of s i" "staged (collect_finished s) i = staged s i"
      "stored (collect_finished s) i = stored s i" "im_worker (collect_finished s) = im_worker s"
      "im_stopping (collect_finished s) = im_stopping s" "im_assets (collect_finished s) = im_assets s" for i
    by (simp_all add: collect_finished_def view_simps)
  show "entry_ok W (collect_finished s) i" if "entry_ok W s i" for i
    using that by (cases "job_of s i"; cases "task_of s i")
      (auto simp: entry_ok_def task same job_ok_def phase_ok_def idle_def split: import_status.splits)
qed

lemma heartbeat_ok:
  assumes "imports_ok W s" shows "imports_ok W (heartbeat_active_jobs now s)"
proof (rule imports_ok_pointwise [OF assms])
  let ?f = "\<lambda>j. if task_of s (ij_id j) \<noteq> None \<and> ij_claimed_by j = Some (im_worker s)
     \<and> ij_status j \<in> set active_import_statuses then j\<lparr>ij_claimed_at := Some now\<rparr> else j"
  have job: "job_of (heartbeat_active_jobs now s) i = map_option ?f (job_of s i)" for i
    unfolding heartbeat_active_jobs_def job_of_def by (simp add: lookup_by_map)
  have "map ij_id (im_jobs (heartbeat_active_jobs now s)) = map ij_id (im_jobs s)" by (simp add: heartbeat_active_jobs_def)
  then show "distinct (map ij_id (im_jobs (heartbeat_active_jobs now s)))" using assms by (simp add: imports_ok_def)
  show "distinct (map tk_id (im_tasks (heartbeat_active_jobs now s)))" using assms by (simp add: imports_ok_def heartbeat_active_jobs_def)
  have same: "task_of (heartbeat_active_jobs now s) i = task_of s i" "staged (heartbeat_active_jobs now s) i = staged s i"
      "stored (heartbeat_active_jobs now s) i = stored s i" "im_worker (heartbeat_active_jobs now s) = im_worker s"
      "im_stopping (heartbeat_active_jobs now s) = im_stopping s" "im_assets (heartbeat_active_jobs now s) = im_assets s" for i
    by (simp_all add: heartbeat_active_jobs_def view_simps)
  show "entry_ok W (heartbeat_active_jobs now s) i" if "entry_ok W s i" for i
    using that by (cases "job_of s i") (simp_all add: entry_ok_def job job_ok_claimed_at same)
qed

section \<open>Recovery\<close>

lemma removed_views [view_simps]:
  "job_of (fst (remove_job_directories fault i s)) k = job_of s k"
  "task_of (fst (remove_job_directories fault i s)) k = task_of s k"
  "k \<noteq> i \<Longrightarrow> staged (fst (remove_job_directories fault i s)) k = staged s k"
  "k \<noteq> i \<Longrightarrow> stored (fst (remove_job_directories fault i s)) k = stored s k"
  "im_worker (fst (remove_job_directories fault i s)) = im_worker s"
  "im_stopping (fst (remove_job_directories fault i s)) = im_stopping s"
  "im_assets (fst (remove_job_directories fault i s)) = im_assets s"
  "map ij_id (im_jobs (fst (remove_job_directories fault i s))) = map ij_id (im_jobs s)"
  "map tk_id (im_tasks (fst (remove_job_directories fault i s))) = map tk_id (im_tasks s)"
  by (auto simp: remove_job_directories_def Let_def view_simps split: option.splits)

lemma removed_ok:
  "snd (remove_job_directories fault i s) \<Longrightarrow>
     staged (fst (remove_job_directories fault i s)) i = None \<and> stored (fst (remove_job_directories fault i s)) i = None"
  "snd (remove_job_directories fault i s) \<longleftrightarrow> fault = None"
  by (auto simp: remove_job_directories_def Let_def view_simps split: option.splits if_splits)

definition recovered_row :: "timestamp \<Rightarrow> import_job \<Rightarrow> import_job" where
  "recovered_row now j =
     ((if ij_status j = I_CANCELING then j\<lparr>ij_status := I_CANCELED, ij_finished := Some now\<rparr>
       else (requeue_job j)\<lparr>ij_finished := None, ij_cancel_at := None\<rparr>)
      \<lparr>ij_claimed_by := None, ij_claimed_at := None, ij_error := None\<rparr>)"

text \<open>The row a recovery writes and whether it has removed the directories.\<close>

definition recovery_of :: "import_world \<Rightarrow> timestamp \<Rightarrow> (nat \<times> file_tree) option \<Rightarrow> model_asset list \<Rightarrow> import_job \<Rightarrow> import_job \<times> bool" where
  "recovery_of W now fault assets j =
     (if list_ex (\<lambda>m. local_path m = import_path W (ij_id j)) assets
      then (finish_job I_FAILED now (Some ''directory of another asset'') j, False)
      else if fault = None then (recovered_row now j, True)
      else (finish_job I_FAILED now (Some ''cleanup'') j, False))"

lemma recover_job_unfold:
  assumes "ij_asset j = None"
  shows "recover_job W now fault j s = put_job (fst (recovery_of W now fault (im_assets s) j))
    (if list_ex (\<lambda>m. local_path m = import_path W (ij_id j)) (im_assets s) then s else fst (remove_job_directories fault (ij_id j) s))"
proof -
  obtain s1 ok where rm: "remove_job_directories fault (ij_id j) s = (s1, ok)" by fastforce
  have "ok \<longleftrightarrow> fault = None" using removed_ok(2) [of fault "ij_id j" s] rm by simp
  then show ?thesis
    using assms rm by (cases ok) (auto simp: recover_job_def recovery_of_def recovered_row_def)
qed

lemma recovery_id: "ij_id (fst (recovery_of W now fault assets j)) = ij_id j"
  by (simp add: recovery_of_def finish_job_def recovered_row_def requeue_job_def)

lemma recover_job_ok:
  fixes fault
  assumes "imports_ok W s" "job_of s i = Some j" "is_stale W now (im_worker s) j"
  defines "s' \<equiv> recover_job W now fault j s"
  shows "imports_ok W s'"
    and "\<And>k. k \<noteq> i \<Longrightarrow> job_of s' k = job_of s k \<and> staged s' k = staged s k \<and> stored s' k = stored s k"
    and "job_of s' i = Some (fst (recovery_of W now fault (im_assets s) j))"
    and "snd (recovery_of W now fault (im_assets s) j) \<Longrightarrow> staged s' i = None \<and> stored s' i = None"
    and "im_worker s' = im_worker s" "im_assets s' = im_assets s"
proof -
  have id: "ij_id j = i" by (rule job_of_id [OF assms(2)])
  have entry: "job_ok W (im_worker s) (im_stopping s) (im_assets s) j (task_of s i) (staged s i) (stored s i)"
    by (rule entry_job [OF assms(1,2)])
  have active: "ij_status j \<in> set active_import_statuses" "ij_claimed_by j \<noteq> Some (im_worker s)"
    using assms(3) by (simp_all add: is_stale_def)
  then have idle: "task_of s i = None" "ij_asset j = None"
    using entry by (auto simp: job_ok_def active_import_statuses_def split: import_status.splits option.splits)
  note s' = recover_job_unfold [OF idle(2), of W now fault s, folded s'_def]
  show view: "\<And>k. k \<noteq> i \<Longrightarrow> job_of s' k = job_of s k \<and> staged s' k = staged s k \<and> stored s' k = stored s k"
    by (simp add: s' view_simps recovery_id id)
  show job: "job_of s' i = Some (fst (recovery_of W now fault (im_assets s) j))"
    by (simp add: s' view_simps recovery_id id assms(2))
  show dirs: "staged s' i = None \<and> stored s' i = None" if "snd (recovery_of W now fault (im_assets s) j)"
    using that removed_ok [of fault i s] by (auto simp: s' view_simps recovery_of_def id split: if_splits)
  show "im_worker s' = im_worker s" "im_assets s' = im_assets s" by (simp_all add: s' view_simps)
  have "entry_ok W s' i"
    using dirs idle by (auto simp: entry_ok_def job)
      (auto simp: s' view_simps job_ok_def recovery_of_def finish_job_def recovered_row_def requeue_job_def split: if_splits)
  then show "imports_ok W s'"
    using assms(1) view unfolding imports_ok_def [of W s]
    by (intro imports_ok_change [OF assms(1), of _ i]) (auto simp: s' view_simps)
qed

lemma recover_all:
  fixes faults
  assumes "imports_ok W s" "distinct (map ij_id js)"
    and "\<forall>j \<in> set js. job_of s (ij_id j) = Some j \<and> is_stale W now (im_worker s) j"
  defines "s' \<equiv> foldl (\<lambda>t j. recover_job W now (faults (ij_id j)) j t) s js"
  shows "imports_ok W s'
    \<and> (\<forall>k. k \<notin> set (map ij_id js) \<longrightarrow> job_of s' k = job_of s k \<and> staged s' k = staged s k \<and> stored s' k = stored s k)
    \<and> (\<forall>j \<in> set js. job_of s' (ij_id j) = Some (fst (recovery_of W now (faults (ij_id j)) (im_assets s) j))
         \<and> (snd (recovery_of W now (faults (ij_id j)) (im_assets s) j) \<longrightarrow> staged s' (ij_id j) = None \<and> stored s' (ij_id j) = None))"
  using assms(1-3) unfolding s'_def
proof (induction js arbitrary: s)
  case (Cons j js)
  let ?s = "recover_job W now (faults (ij_id j)) j s"
  have j: "job_of s (ij_id j) = Some j" "is_stale W now (im_worker s) j" using Cons.prems(3) by simp_all
  note one = recover_job_ok [OF Cons.prems(1) j]
  have rest: "\<forall>k \<in> set js. job_of ?s (ij_id k) = Some k \<and> is_stale W now (im_worker ?s) k"
  proof
    fix k assume that: "k \<in> set js"
    have "ij_id k \<noteq> ij_id j"
    proof
      assume eq: "ij_id k = ij_id j"
      have "ij_id j \<in> ij_id ` set js" unfolding eq [symmetric] using that by (rule imageI)
      then show False using Cons.prems(2) by simp
    qed
    then show "job_of ?s (ij_id k) = Some k \<and> is_stale W now (im_worker ?s) k" using one(2,5) Cons.prems(3) that by simp
  qed
  have "ij_id j \<notin> set (map ij_id js)" using Cons.prems(2) by simp
  moreover note IH = Cons.IH [OF one(1) _ rest]
  ultimately show ?case using Cons.prems(2) one(2-4,6) by simp
qed simp

lemma stale_list:
  assumes "imports_ok W s"
  shows "distinct (map ij_id (filter (is_stale W now w) (im_jobs s)))"
    and "j \<in> set (filter (is_stale W now w) (im_jobs s)) \<longleftrightarrow> job_of s (ij_id j) = Some j \<and> is_stale W now w j"
  using assms lookup_by_Some_iff [of ij_id "im_jobs s"]
  by (auto simp: imports_ok_def distinct_map_filter job_of_def keyed_def)

text \<open>The same for the jobs that one recovery finds.\<close>

lemma recover_stale:
  fixes faults and now :: timestamp
  assumes "imports_ok W s"
  defines "s' \<equiv> recover_stale_model_imports W now faults s"
  shows "imports_ok W s'"
    and "\<not> (\<exists>j. job_of s k = Some j \<and> is_stale W now (im_worker s) j) \<Longrightarrow>
      job_of s' k = job_of s k \<and> staged s' k = staged s k \<and> stored s' k = stored s k"
    and "job_of s k = Some j \<Longrightarrow> is_stale W now (im_worker s) j \<Longrightarrow>
      job_of s' k = Some (fst (recovery_of W now (faults k) (im_assets s) j))
      \<and> (snd (recovery_of W now (faults k) (im_assets s) j) \<longrightarrow> staged s' k = None \<and> stored s' k = None)"
proof -
  let ?js = "filter (is_stale W now (im_worker s)) (im_jobs s)"
  note stale = stale_list [OF assms(1), where now = now and w = "im_worker s"]
  have each: "\<forall>j \<in> set ?js. job_of s (ij_id j) = Some j \<and> is_stale W now (im_worker s) j"
    using stale(2) by blast
  note all = recover_all [OF assms(1) stale(1) each, of faults, folded recover_stale_model_imports_def, folded s'_def]
  show "imports_ok W s'" using all by blast
  show "job_of s' k = job_of s k \<and> staged s' k = staged s k \<and> stored s' k = stored s k"
    if none: "\<not> (\<exists>j. job_of s k = Some j \<and> is_stale W now (im_worker s) j)"
  proof -
    have "k \<notin> set (map ij_id ?js)"
    proof
      assume "k \<in> set (map ij_id ?js)"
      then obtain j where "j \<in> set ?js" "ij_id j = k" by auto
      then show False using none each by blast
    qed
    then show ?thesis using all by blast
  qed
  show "job_of s' k = Some (fst (recovery_of W now (faults k) (im_assets s) j))
      \<and> (snd (recovery_of W now (faults k) (im_assets s) j) \<longrightarrow> staged s' k = None \<and> stored s' k = None)"
    if "job_of s k = Some j" "is_stale W now (im_worker s) j"
  proof -
    have id: "ij_id j = k" by (rule job_of_id [OF that(1)])
    then have "j \<in> set ?js" using stale(2) [of j] that by simp
    from bspec [OF all [THEN conjunct2, THEN conjunct2] this] show ?thesis unfolding id .
  qed
qed

section \<open>Claims and restarts\<close>

lemma pending_head_Some:
  "pending_head js = Some j \<Longrightarrow> j \<in> set js \<and> ij_status j = I_PENDING
     \<and> (\<forall>k \<in> set js. ij_status k = I_PENDING \<longrightarrow> (ij_created j, ij_id j) \<le> (ij_created k, ij_id k))"
proof -
  let ?key = "\<lambda>j. (ij_created j, ij_id j)"
  assume "pending_head js = Some j"
  then obtain rest where rest: "sort_key ?key (filter (\<lambda>j. ij_status j = I_PENDING) js) = j # rest"
    by (auto simp: pending_head_def split: list.splits)
  have sorted: "sorted (map ?key (j # rest))" using sorted_sort_key [of ?key] rest by metis
  have set: "set (j # rest) = {k \<in> set js. ij_status k = I_PENDING}" using set_sort [of ?key] rest by (metis set_filter)
  have "?key j \<le> ?key k" if k: "k \<in> set js" "ij_status k = I_PENDING" for k
  proof -
    have "k \<in> set (j # rest)" using k set by blast
    then show ?thesis using sorted by auto
  qed
  moreover have "j \<in> {k \<in> set js. ij_status k = I_PENDING}" using set by auto
  ultimately show ?thesis by blast
qed

lemma claim_ok:
  assumes "imports_ok W s" "\<not> im_stopping s" "claim_next now s = Some s'"
  shows "imports_ok W s'"
proof -
  obtain j where j: "pending_head (im_jobs s) = Some j"
      and s': "s' = (put_job (claim_job (im_worker s) now j) s)\<lparr>im_tasks := im_tasks s @ [new_task (ij_id j)]\<rparr>"
    using assms(3) by (auto simp: claim_next_def split: option.splits)
  have "keyed ij_id (im_jobs s)" using assms(1) by (simp add: imports_ok_def keyed_def)
  then have job: "job_of s (ij_id j) = Some j" and pend: "ij_status j = I_PENDING"
    using pending_head_Some [OF j] by (simp_all add: job_of_def lookup_by_Some_iff)
  have clean: "task_of s (ij_id j) = None" "staged s (ij_id j) = None" "stored s (ij_id j) = None" "ij_asset j = None"
    using entry_job [OF assms(1) job] assms(2) pend by (auto simp: job_ok_def)
  have task: "task_of s' k = (if k = ij_id j then Some (new_task (ij_id j)) else task_of s k)" for k
    using clean(1) by (auto simp: s' task_of_def lookup_by_append lookup_by_single new_task_def split: option.splits)
  have row: "job_of s' k = (if k = ij_id j then Some (claim_job (im_worker s) now j) else job_of s k)" for k
    using job by (simp add: s' view_simps claim_job_def)
  have same: "staged s' k = staged s k" "stored s' k = stored s k" "im_worker s' = im_worker s" "im_stopping s' = im_stopping s"
      "im_assets s' = im_assets s" for k
    by (simp_all add: s' view_simps)
  have "entry_ok W s' (ij_id j)"
    using clean by (intro entry_active [where j = "claim_job (im_worker s) now j" and tk = "new_task (ij_id j)"])
      (simp_all add: task row same claim_job_def active_import_statuses_def phase_ok_def new_task_def)
  moreover have "ij_id j \<notin> set (map tk_id (im_tasks s))" using clean(1) by (auto simp: task_of_def lookup_by_None_iff)
  ultimately show ?thesis
    using assms(1) unfolding imports_ok_def [of W s]
    by (intro imports_ok_change [OF assms(1), of _ "ij_id j"]) (simp_all add: task row same, simp_all add: s' view_simps new_task_def)
qed

lemma stopping_ok:
  assumes "imports_ok W s" shows "imports_ok W (s\<lparr>im_stopping := True\<rparr>)"
proof (rule imports_ok_pointwise [OF assms])
  have stop: "job_ok W w b as j t g f \<Longrightarrow> job_ok W w True as j t g f" for w b as j t g f
    by (auto simp: job_ok_def split: import_status.splits)
  show "entry_ok W (s\<lparr>im_stopping := True\<rparr>) i" if "entry_ok W s i" for i
    using that by (cases "job_of s i") (simp_all add: entry_ok_def view_simps stop)
qed (use assms in \<open>simp_all add: imports_ok_def\<close>)

lemma shutdown_ok:
  assumes "imports_ok W s"
  shows "imports_ok W (s\<lparr>im_stopping := True, im_tasks := map (\<lambda>tk. tk\<lparr>tk_cancel := True\<rparr>) (im_tasks s)\<rparr>)"
proof -
  let ?s = "s\<lparr>im_tasks := map (\<lambda>tk. tk\<lparr>tk_cancel := True\<rparr>) (im_tasks s)\<rparr>"
  have "imports_ok W ?s" by (rule signals_ok [OF assms refl]) (rule only_cancel_simps)
  then have "imports_ok W (?s\<lparr>im_stopping := True\<rparr>)" by (rule stopping_ok)
  moreover have "?s\<lparr>im_stopping := True\<rparr> = s\<lparr>im_stopping := True, im_tasks := map (\<lambda>tk. tk\<lparr>tk_cancel := True\<rparr>) (im_tasks s)\<rparr>"
    by (cases s) simp
  ultimately show ?thesis by (simp only:)
qed

lemma restart_ok:
  assumes "imports_ok W s" "Some worker \<notin> ij_claimed_by ` set (im_jobs s)"
  shows "imports_ok W (s\<lparr>im_worker := worker, im_tasks := [], im_stopping := False\<rparr>)"
proof (rule imports_ok_pointwise [OF assms(1)])
  let ?s = "s\<lparr>im_worker := worker, im_tasks := [], im_stopping := False\<rparr>"
  have none: "task_of ?s i = None" for i by (simp add: view_simps lookup_by_def)
  show "entry_ok W ?s i" if "entry_ok W s i" for i
  proof (cases "job_of s i")
    case (Some j)
    then have "j \<in> set (im_jobs s)" by (auto simp: job_of_def dest: lookup_by_SomeD)
    then have "ij_claimed_by j \<noteq> Some worker" using assms(2) by (metis imageI)
    then show ?thesis using that Some none
      by (auto simp: entry_ok_def view_simps job_ok_def lookup_by_def split: import_status.splits)
  next
    case None
    then show ?thesis using that by (simp add: entry_ok_def view_simps lookup_by_def)
  qed
qed (use assms(1) in \<open>simp_all add: imports_ok_def\<close>)

lemma other_assets_ok:
  assumes "imports_ok W s" "keeps_assets (im_assets s) bs" shows "imports_ok W (s\<lparr>im_assets := bs\<rparr>)"
proof (rule imports_ok_pointwise [OF assms(1)])
  show "entry_ok W (s\<lparr>im_assets := bs\<rparr>) i" if "entry_ok W s i" for i
    using that by (cases "job_of s i") (simp_all add: entry_ok_def view_simps job_ok_keeps [OF _ assms(2)])
qed (use assms(1) in \<open>simp_all add: imports_ok_def\<close>)

theorem import_step_ok:
  assumes "imports_ok W s" "import_step W ev s = Some s'" shows "imports_ok W s'"
proof -
  note ok = create_import_ok [OF assms(1)] cancel_import_ok [OF assms(1)] other_assets_ok [OF assms(1)] collect_ok [OF assms(1)]
    heartbeat_ok [OF assms(1)] recover_stale(1) [OF assms(1)] claim_ok [OF assms(1)] shutdown_ok [OF assms(1)] restart_ok [OF assms(1)]
    thread_event_ok [OF assms]
  have "imports_ok W (signal_canceling_jobs s)"
    unfolding signal_canceling_jobs_def
    by (rule signals_ok [OF assms(1) refl]) (simp add: only_cancel_simps split: option.split)
  then show ?thesis using assms(2) ok by (cases ev) (auto split: if_splits sum.splits)
qed

lemma import_start_ok: "imports_ok W (import_start worker assets)"
  by (auto simp: imports_ok_def entry_ok_def import_start_def job_of_def task_of_def staged_def stored_def lookup_by_def)

lemma import_run_ok: "import_run W evs s = Some s' \<Longrightarrow> imports_ok W s \<Longrightarrow> imports_ok W s'"
  by (induction evs arbitrary: s) (auto simp: bind_eq_Some_conv intro: import_step_ok)

section \<open>What was finished stays\<close>

text \<open>A thread changes the row and the directory of its own job only, and a finished job has no thread.\<close>

lemma thread_event_frame:
  assumes "imports_ok W s" "import_step W ev s = Some s'" "is_thread_event ev" "job_of s i = Some j" "ij_status j \<in> set finished_import_statuses"
  shows "job_of s' i = job_of s i \<and> stored s' i = stored s i"
proof -
  have idle: "idle tk" if "task_of s i = Some tk" for tk
    using entry_job [OF assms(1,4)] assms(5) that by (auto simp: job_ok_def finished_import_statuses_def split: import_status.splits)
  have other: "k \<noteq> i" if "task_of s k = Some tk" "\<not> idle tk" for k tk using idle that by auto
  note [simp] = on_task_Some view_simps and [dest] = task_of_id job_of_id
  note defs = finish_job_def requeue_job_def
  show ?thesis
  proof (cases ev)
    case BeginTask then show ?thesis using assms(2) by (auto simp: begin_task_def Let_def split: if_splits sum.splits option.splits)
  next
    case StartRun then show ?thesis using assms(2) by (auto simp: start_run_def split: if_splits)
  next
    case FetchFiles then show ?thesis using assms(2) by (auto split: if_splits)
  next
    case ReportProgress then show ?thesis using assms(2) by (auto simp: report_progress_def split: if_splits option.splits)
  next
    case (CommitProgress k now)
    then obtain tk r where tk: "task_of s k = Some tk" "tk_progress tk = Some r" "s' = commit_progress tk r now s"
      using assms(2) by (auto split: option.splits)
    have "k \<noteq> i" using other [OF tk(1)] tk(2) by (simp add: idle_def)
    then show ?thesis using task_of_id [OF tk(1)] by (auto simp: tk(3) commit_progress_def Let_def split: option.splits)
  next
    case ValidateFiles then show ?thesis using assms(2) by (auto split: if_splits sum.splits)
  next
    case (MoveToStore k)
    then obtain tk m where tk: "task_of s k = Some tk" "tk_phase tk = TaskValidated m" "s' = move_to_store W tk m s"
      using thread_stepD(1) assms(2) by blast
    have "k \<noteq> i" using other [OF tk(1)] tk(2) by (simp add: idle_def)
    then show ?thesis using task_of_id [OF tk(1)] by (auto simp: tk(3) move_to_store_def split: option.splits)
  next
    case (ReturnManifest k)
    then obtain tk m where "s' = set_phase (TaskReturned m) tk s" using thread_stepD(2) assms(2) by blast
    then show ?thesis by simp
  next
    case FailRun then show ?thesis using assms(2) by (auto simp: abort_run_def split: if_splits option.splits)
  next
    case CancelRun then show ?thesis using assms(2) by (auto simp: abort_run_def split: if_splits option.splits)
  next
    case (FinalizeReady k new now)
    then obtain tk m where tk: "task_of s k = Some tk" "tk_phase tk = TaskReturned m" "s' = finish_task W tk new now m s"
      using thread_stepD(3) assms(2) by blast
    have "k \<noteq> i" using other [OF tk(1)] tk(2) by (simp add: idle_def)
    then show ?thesis using task_of_id [OF tk(1)]
      by (auto simp: tk(3) finish_task_def finalize_ready_def check_simps defs split: sum.splits)
  next
    case (MarkFailed k now)
    then obtain tk e where tk: "task_of s k = Some tk" "tk_phase tk = TaskFailing e"
        "s' = set_phase TaskDone tk (mark_failed k now (tk_token tk) e s)"
      using thread_stepD(4) assms(2) by blast
    have "k \<noteq> i" using other [OF tk(1)] tk(2) by (simp add: idle_def)
    then show ?thesis by (auto simp: tk(3) mark_failed_def defs split: option.splits)
  next
    case (MarkCanceled k now) then show ?thesis
      using assms(2) other [of k] by (auto simp: mark_canceled_or_retry_def defs idle_def split: if_splits option.splits)
  qed (use assms(3) in simp_all)
qed

lemma finished_stays:
  assumes "imports_ok W s" "import_step W ev s = Some s'" "job_of s i = Some j" "ij_status j \<in> set finished_import_statuses"
  shows "job_of s' i = Some j \<and> stored s' i = stored s i"
proof -
  have thread: "is_thread_event ev \<Longrightarrow> ?thesis" using thread_event_frame [OF assms(1,2) _ assms(3,4)] assms(3) by simp
  have inactive: "ij_status j \<notin> set active_import_statuses" "ij_status j \<noteq> I_PENDING"
    using assms(4) by (auto simp: finished_import_statuses_def active_import_statuses_def)
  show ?thesis
  proof (cases ev)
    case (CreateImport inbox p k now)
    then have "k \<noteq> i" "s' = s\<lparr>im_jobs := im_jobs s @ [new_import_job p k now]\<rparr>"
      using assms(2,3) by (auto simp: create_model_import_def check_simps split: sum.splits if_splits)
    then show ?thesis using assms(3) by (auto simp: job_of_def stored_def lookup_by_append)
  next
    case (CancelImport k now)
    then obtain jk where jk: "job_of s k = Some jk" "s' = put_job (cancel_row_of now jk) s"
      using assms(2) by (auto simp: request_model_import_cancel_def split: sum.splits option.splits)
    show ?thesis
    proof (cases "k = i")
      case True
      then have same: "jk = j" using jk(1) assms(3) by simp
      have "ij_status j \<notin> {I_TRANSFERRING, I_VALIDATING}" using inactive(1) by (auto simp: active_import_statuses_def)
      then have "cancel_row_of now j = j" using inactive(2) unfolding cancel_row_of_def by (simp only: if_False)
      then have "s' = put_job j s" using jk(2) unfolding same by (simp only:)
      then show ?thesis using assms(3) job_of_id [OF assms(3)] by (simp add: view_simps)
    next
      case False
      then show ?thesis using jk assms(3) job_of_id [OF jk(1)] by (auto simp: view_simps cancel_row_of_def)
    qed
  next
    case (RecoverStale now faults)
    have "\<not> (\<exists>j. job_of s i = Some j \<and> is_stale W now (im_worker s) j)"
      using assms(3) inactive(1) by (simp add: is_stale_def)
    from recover_stale(2) [OF assms(1) this] show ?thesis using assms(2,3) RecoverStale by auto
  next
    case (ClaimNext now)
    then obtain jk where jk: "pending_head (im_jobs s) = Some jk"
        and s': "s' = (put_job (claim_job (im_worker s) now jk) s)\<lparr>im_tasks := im_tasks s @ [new_task (ij_id jk)]\<rparr>"
      using assms(2) by (auto simp: claim_next_def split: option.splits if_splits)
    have "keyed ij_id (im_jobs s)" using assms(1) by (simp add: imports_ok_def keyed_def)
    then have "job_of s (ij_id jk) = Some jk" "ij_status jk = I_PENDING"
      using pending_head_Some [OF jk] by (simp_all add: job_of_def lookup_by_Some_iff)
    then have "ij_id jk \<noteq> i" using assms(3) inactive(2) by auto
    then show ?thesis using assms(3) by (simp add: s' view_simps claim_job_def)
  next
    case (Heartbeat now)
    then show ?thesis using assms(2,3) inactive by (auto simp: heartbeat_active_jobs_def job_of_def stored_def lookup_by_map)
  qed (use assms(2,3) thread in \<open>auto simp: signal_canceling_jobs_def collect_finished_def view_simps simp del: import_step.simps(9-21) split: if_splits\<close>)
qed

lemma finished_stays_run:
  "import_run W evs s = Some s' \<Longrightarrow> imports_ok W s \<Longrightarrow> job_of s i = Some j \<Longrightarrow> ij_status j \<in> set finished_import_statuses \<Longrightarrow>
     job_of s' i = Some j \<and> stored s' i = stored s i"
proof (induction evs arbitrary: s)
  case (Cons ev evs)
  then obtain t where t: "import_step W ev s = Some t" "import_run W evs t = Some s'" by (auto simp: bind_eq_Some_conv)
  have one: "job_of t i = Some j" "stored t i = stored s i" using finished_stays [OF Cons.prems(2) t(1) Cons.prems(3,4)] by simp_all
  show ?case using Cons.IH [OF t(2) import_step_ok [OF Cons.prems(2) t(1)] one(1) Cons.prems(4)] one(2) by simp
qed simp

end
