(* ===== verification/ImportHistory.thy ===== *)
theory ImportHistory
  imports ImportSafety
begin

text \<open>
  The promises of the import of models, over every sequence of requests, rounds of the coordinator, steps
  of its threads and restarts: what is ready is in the store, what is finished stays, a claimed import
  starts clean, recovery abandons nothing, and the access token stays out of the error messages.
\<close>

section \<open>Ready and finished imports\<close>

lemma run_ok: "import_run W evs (import_start worker assets) = Some s \<Longrightarrow> imports_ok W s"
  by (erule import_run_ok) (rule import_start_ok)

lemma job_of_member: "imports_ok W s \<Longrightarrow> job_of s i = Some j \<longleftrightarrow> j \<in> set (im_jobs s) \<and> ij_id j = i"
  by (simp add: imports_ok_def job_of_def keyed_def lookup_by_Some_iff)

text \<open>
  C11. After any history an import that is ready refers to a registered asset, and the store holds, under
  the id of the import, a directory that passed \<open>validate_model_directory\<close> together with its manifest;
  path, size and checksum of the asset are those of that directory.
\<close>

theorem ready_imports_are_in_the_store:
  assumes "import_run W evs (import_start worker assets) = Some s" "j \<in> set (im_jobs s)" "ij_status j = I_READY"
  shows "\<exists>a \<in> set (im_assets s). \<exists>m t req res. ij_asset j = Some (asset_id a) \<and> ij_manifest j = Some m
     \<and> local_path a = import_path W (ij_id j)
     \<and> map_of (im_store s) (ij_id j) = Some (with_manifest (iw_manifest_text W m) t)
     \<and> validate_model_directory (iw_tools W) req res t = Inr m
     \<and> asset_size_bytes a = Some (int (mm_size m)) \<and> asset_checksum a = Some (mm_checksum m)"
proof -
  have "job_of s (ij_id j) = Some j" using job_of_member [OF run_ok [OF assms(1)]] assms(2) by blast
  from entry_job [OF run_ok [OF assms(1)] this] have "registered W (im_assets s) j (stored s (ij_id j))"
    using assms(3) by (simp add: job_ok_def)
  then show ?thesis unfolding registered_def kept_tree_def checked_tree_def stored_def by fast
qed


section \<open>Claims and recovery\<close>

text \<open>An uninterrupted \<open>run_once\<close> is a sequence of the steps.\<close>

lemma import_run_append: "import_run W (xs @ ys) s = Option.bind (import_run W xs s) (import_run W ys)"
  by (induction xs arbitrary: s) (auto simp: bind_assoc intro: bind_option_cong)

lemma claim_up_to_run:
  "length (im_tasks s) + n \<le> iw_concurrency W \<Longrightarrow> \<not> im_stopping s \<Longrightarrow>
     \<exists>evs. import_run W evs s = Some (claim_up_to n now s)"
proof (induction n now s rule: claim_up_to.induct)
  case (1 now s)
  show ?case by (rule exI [of _ "[]"]) simp
next
  case (2 n now s)
  show ?case
  proof (cases "claim_next now s")
    case None
    then show ?thesis by (intro exI [of _ "[]"]) simp
  next
    case (Some t)
    then have t: "length (im_tasks t) = Suc (length (im_tasks s))" "im_stopping t = im_stopping s"
      by (auto simp: claim_next_def put_job_def split: option.splits)
    obtain evs where "import_run W evs t = Some (claim_up_to n now t)" using 2 Some t by auto
    then show ?thesis using Some 2(2,3) by (intro exI [of _ "ClaimNext now # evs"]) simp
  qed
qed

lemma recover_keeps_tasks:
  "im_tasks (recover_stale_model_imports W now faults s) = im_tasks s \<and> im_stopping (recover_stale_model_imports W now faults s) = im_stopping s"
proof -
  have one: "im_tasks (recover_job W now fault j t) = im_tasks t \<and> im_stopping (recover_job W now fault j t) = im_stopping t" for fault j t
    by (auto simp: recover_job_def remove_job_directories_def put_job_def put_staging_def put_store_def Let_def split: option.splits)
  have "im_tasks (foldl (\<lambda>t j. recover_job W now (faults (ij_id j)) j t) s js) = im_tasks s
      \<and> im_stopping (foldl (\<lambda>t j. recover_job W now (faults (ij_id j)) j t) s js) = im_stopping s" for js
    by (induction js arbitrary: s) (simp_all add: one)
  then show ?thesis by (simp add: recover_stale_model_imports_def)
qed

lemma round_is_a_run:
  assumes "\<not> im_stopping s" "length (im_tasks s) \<le> iw_concurrency W"
  shows "\<exists>evs. import_run W evs s = Some (run_round W now faults s)"
proof -
  let ?t = "recover_stale_model_imports W now faults (heartbeat_active_jobs now (collect_finished (signal_canceling_jobs s)))"
  have steps: "import_run W [SignalCanceling, CollectFinished, Heartbeat now, RecoverStale now faults] s = Some ?t" by simp
  have t: "im_tasks ?t = filter (\<lambda>tk. tk_phase tk \<noteq> TaskDone) (im_tasks (signal_canceling_jobs s))" "im_stopping ?t = im_stopping s"
    by (simp_all add: recover_keeps_tasks) (simp_all add: heartbeat_active_jobs_def collect_finished_def signal_canceling_jobs_def)
  have "length (im_tasks (signal_canceling_jobs s)) = length (im_tasks s)" by (simp add: signal_canceling_jobs_def)
  then have "length (im_tasks (signal_canceling_jobs s)) \<le> iw_concurrency W" using assms(2) by simp
  then have "length (im_tasks ?t) \<le> iw_concurrency W" unfolding t by (rule order_trans [OF length_filter_le])
  moreover have "\<not> im_stopping ?t" unfolding t by (rule assms(1))
  ultimately obtain evs where "import_run W evs ?t = Some (claim_up_to (iw_concurrency W - length (im_tasks ?t)) now ?t)"
    using claim_up_to_run [of ?t "iw_concurrency W - length (im_tasks ?t)" W now] by auto
  then show ?thesis using steps
    by (intro exI [of _ "[SignalCanceling, CollectFinished, Heartbeat now, RecoverStale now faults] @ evs"])
      (simp only: import_run_append bind.bind_lunit run_round_def Let_def)
qed


lemma recovered_is_settled: "\<not> is_stale W now w (fst (recovery_of W now None as j))"
  by (simp add: recovery_of_def finish_job_def recovered_row_def requeue_job_def is_stale_def active_import_statuses_def)

text \<open>What recovery without a fault makes of one import.\<close>

lemma recovered_import:
  assumes "imports_ok W s" "s' = recover_stale_model_imports W now (\<lambda>_. None) s" "job_of s i = Some j"
  shows "\<exists>j'. job_of s' i = Some j' \<and> ij_id j' = i \<and> \<not> is_stale W now (im_worker s) j'
    \<and> (if \<not> is_stale W now (im_worker s) j
       then j' = j \<and> staged s' i = staged s i \<and> stored s' i = stored s i
       else if import_path W i \<in> local_path ` set (im_assets s) then ij_status j' = I_FAILED
       else ij_status j' = (if ij_status j = I_CANCELING then I_CANCELED else I_PENDING)
         \<and> staged s' i = None \<and> stored s' i = None)"
proof (cases "is_stale W now (im_worker s) j")
  case True
  note rec = recover_stale [OF assms(1), where now = now and faults = "\<lambda>_. None", folded assms(2)]
  have path: "list_ex (\<lambda>m. local_path m = p) as \<longleftrightarrow> p \<in> local_path ` set as" for p as
    by (auto simp: list_ex_iff)
  have i: "ij_id j = i" by (rule job_of_id [OF assms(3)])
  from rec(3) [OF assms(3) True] recovered_is_settled [of W now "im_worker s" "im_assets s" j] show ?thesis
    using True i by (auto simp: recovery_id)
      (auto simp: recovery_of_def path finish_job_def recovered_row_def requeue_job_def split: if_splits)
next
  case False
  note rec = recover_stale [OF assms(1), where now = now and faults = "\<lambda>_. None", folded assms(2)]
  have "\<not> (\<exists>k. job_of s i = Some k \<and> is_stale W now (im_worker s) k)" using False assms(3) by simp
  from rec(2) [OF this] show ?thesis using False assms(3) job_of_id [OF assms(3)] by simp
qed


section \<open>Secrets\<close>

lemma prefix_replace_all:
  assumes "\<exists>b r. new = b # r \<and> b \<notin> set p" "prefix p (replace_all old new m)"
  shows "prefix p m"
  using assms
proof (induction old new m arbitrary: p rule: replace_all.induct)
  case (2 old new c cs)
  show ?case
  proof (cases p)
    case (Cons a as)
    have "take (length old) (c # cs) \<noteq> old" using 2(3,4) Cons by auto
    then show ?thesis using 2(2) [of as] 2(3,4) Cons by auto
  qed simp
qed simp

lemma sublist_take: "sublist t (take n x) \<Longrightarrow> sublist t x"
  by (metis append_take_drop_id sublist_append_rightI sublist_order.order.trans)

lemma replaced_is_gone:
  assumes "t \<noteq> []" "CHR ''['' \<notin> set t" "CHR '']'' \<notin> set t" "\<not> sublist t ''REDACTED''"
  shows "\<not> sublist t (replace_all t ''[REDACTED]'' m)"
  using assms
proof (induction t "''[REDACTED]''" m rule: replace_all.induct)
  case (2 old c cs)
  show ?case
  proof (cases "take (length old) (c # cs) = old")
    case True
    let ?rest = "replace_all old ''[REDACTED]'' (drop (length old - 1) cs)"
    have rest: "\<not> sublist old ?rest" using 2(1) [OF True] 2(3-6) by simp
    have opened: "\<not> sublist old ''[REDACTED''"
    proof
      assume "sublist old ''[REDACTED''"
      then consider "prefix old ''[REDACTED''" | "sublist old ''REDACTED''"
        unfolding sublist_Cons_right [of _ "CHR ''[''" "''REDACTED''"] by blast
      then show False using 2(3,4,6) by cases (cases old, auto)+
    qed
    have "\<not> sublist old (''[REDACTED'' @ '']'' @ ?rest)"
    proof
      assume "sublist old (''[REDACTED'' @ '']'' @ ?rest)"
      then consider "sublist old ''[REDACTED''" | "sublist old ('']'' @ ?rest)"
        | xs ys where "old = xs @ ys" "suffix xs ''[REDACTED''" "prefix ys ('']'' @ ?rest)"
        unfolding sublist_append by blast
      then show False
      proof cases
        case 1 then show False using opened by simp
      next
        case 2
        then have "prefix old ('']'' @ ?rest)" using rest by (simp add: sublist_Cons_right)
        then show False using \<open>old \<noteq> []\<close> \<open>CHR '']'' \<notin> set old\<close> by (cases old) auto
      next
        case (3 xs ys)
        then have "ys = []" using \<open>CHR '']'' \<notin> set old\<close> by (cases ys) auto
        then have "suffix old ''[REDACTED''" using 3 by simp
        then have "sublist old ''[REDACTED''" by (rule suffix_imp_sublist)
        then show False using opened by simp
      qed
    qed
    then show ?thesis using True by simp
  next
    case False
    let ?rest = "replace_all old ''[REDACTED]'' cs"
    have rest: "\<not> sublist old ?rest" using 2(2) [OF False] 2(3-6) by simp
    have "\<not> prefix old (c # ?rest)"
    proof
      assume pre: "prefix old (c # ?rest)"
      then obtain as where as: "old = c # as" "prefix as ?rest" using 2(3) by (cases old) auto
      have "prefix as cs" using prefix_replace_all [OF _ as(2)] as(1) 2(4) by auto
      then have "prefix old (c # cs)" using as(1) by simp
      then show False using False by (auto simp: prefix_def)
    qed
    then show ?thesis using rest False by (simp add: sublist_Cons_right)
  qed
qed simp

text \<open>
  C40. The access token stays out of the error messages: whatever the message of an exception is, the text
  that is stored for a failed import does not contain the token and has at most 4000 characters, for every
  token without square brackets that is not a part of the word put in its place.
\<close>

theorem token_stays_out_of_errors:
  assumes "t \<noteq> []" "CHR ''['' \<notin> set t" "CHR '']'' \<notin> set t" "\<not> sublist t ''REDACTED''"
  shows "\<not> sublist t (safe_error type_name msg (Some t)) \<and> length (safe_error type_name msg (Some t)) \<le> 4000"
  using replaced_is_gone [OF assms] assms(1) sublist_take by (auto simp: safe_error_def Let_def)

lemma token_stays_out_of_errors_witness:
  "\<not> sublist ''hf_x'' (safe_error ''E'' ''401 for hf_hf_xx'' (Some ''hf_x''))"
proof -
  have "\<not> sublist ''hf_x'' ''REDACTED''" by code_simp
  then show ?thesis using token_stays_out_of_errors [of "''hf_x''" "''E''" "''401 for hf_hf_xx''"] by simp
qed

text \<open>Inside, no inherited secret is visible; after it, the environment is as it was.\<close>

lemma credentials_are_isolated:
  "k \<in> set online_secret_keys \<Longrightarrow> isolated_credentials source token home env k = isolated_credentials source token home env' k"
  by (cases source) (auto simp: isolated_credentials_def without_secrets_def Let_def split: option.split)

lemma environment_is_restored:
  "(\<And>k. k \<notin> set online_secret_keys \<Longrightarrow> env' k = isolated_credentials source token home env k)
     \<Longrightarrow> restored_environment env env' = env"
  by (cases source) (auto simp: restored_environment_def isolated_credentials_def without_secrets_def Let_def
      online_secret_keys_def fun_eq_iff split: option.splits)

text \<open>What the inbox shows as importable is what an import of it accepts.\<close>

lemma ready_candidates_validate:
  "ca_ready (candidate_of T (n, t)) \<longleftrightarrow> (\<exists>m. validate_model_directory T req res t = Inr m)"
proof (cases t)
  case (DirNode v cs)
  then show ?thesis
    by (cases "iter_regular_files t"; cases "validate_model_files T (projr (iter_regular_files t))")
      (auto simp: candidate_of_def validate_model_directory_def Let_def)
qed (auto simp: candidate_of_def validate_model_directory_def iter_regular_files_def)

section \<open>A small history\<close>

definition demo_imports :: import_world where
  "demo_imports = \<lparr>iw_tools = demo_model_tools, iw_store_root = [''/'', ''models''], iw_manifest_text = (\<lambda>_. ''{}''),
     iw_device = 7, iw_concurrency = 1, iw_claim_timeout = 120\<rparr>"

definition demo_create :: import_create where
  "demo_create = \<lparr>ic_name = ''m'', ic_source = IMPORT_HUGGINGFACE, ic_repository = Some ''a/b'', ic_revision = None,
     ic_directory = None, ic_kind = BASE\<rparr>"

text \<open>
  An import is claimed and fetches its files; it reports that it validates them. Between the read and the
  commit of that report it is canceled.
\<close>

definition demo_events :: "import_event list" where
  "demo_events = [CreateImport (Inr []) demo_create 5 10, ClaimNext 11, BeginTask 5 None, StartRun 5, FetchFiles 5 demo_model,
     ReportProgress 5 ''validating'' 1 None, CancelImport 5 20, CommitProgress 5 21]"

definition demo_import_row :: import_job where
  "demo_import_row = (claim_job ''w'' 11 (new_import_job demo_create 5 10))
     \<lparr>ij_status := I_VALIDATING, ij_completed := 1, ij_claimed_at := Some 21, ij_cancel_at := Some 20\<rparr>"

definition demo_fetched :: import_state where
  "demo_fetched = \<lparr>im_jobs = [demo_import_row], im_assets = [], im_staging = [(5, demo_model)], im_homes = [5], im_store = [],
     im_worker = ''w'', im_tasks = [\<lparr>tk_id = 5, tk_token = None, tk_cancel = False, tk_phase = TaskFetching, tk_progress = None\<rparr>],
     im_stopping = False\<rparr>"

lemma demo_fetched_run: "import_run demo_imports demo_events (import_start ''w'' []) = Some demo_fetched"
  by code_simp

definition demo_manifest :: model_manifest where
  "demo_manifest = projr (validate_model_directory demo_model_tools None (Some ''c'') demo_model)"

lemma demo_manifest_ok:
  "validate_model_directory demo_model_tools None (Some ''c'') demo_model = Inr demo_manifest"
  "mm_requested_revision demo_manifest = None" "mm_resolved_revision demo_manifest = Some ''c''"
  by (simp_all add: demo_manifest_def validate_model_directory_def demo_files demo_accepted)

definition demo_ready_row :: import_job where
  "demo_ready_row = finish_job I_READY 30 None (demo_import_row\<lparr>ij_asset := Some 77, ij_manifest := Some demo_manifest,
     ij_completed := int (mm_size demo_manifest), ij_total := Some (int (mm_size demo_manifest))\<rparr>)"

definition demo_ready :: import_state where
  "demo_ready = \<lparr>im_jobs = [demo_ready_row], im_assets = [imported_asset demo_imports 77 demo_import_row demo_manifest],
     im_staging = [], im_homes = [5], im_store = [(5, with_manifest ''{}'' demo_model)], im_worker = ''w'',
     im_tasks = [\<lparr>tk_id = 5, tk_token = None, tk_cancel = False, tk_phase = TaskDone, tk_progress = None\<rparr>], im_stopping = False\<rparr>"

definition demo_events_end :: "import_event list" where
  "demo_events_end = [ValidateFiles 5 (Some ''c''), MoveToStore 5, ReturnManifest 5, FinalizeReady 5 77 30]"

lemma demo_row:
  "ij_id demo_import_row = 5" "ij_revision demo_import_row = None" "is_online demo_import_row" "ij_status demo_import_row = I_VALIDATING"
  by (simp_all add: demo_import_row_def claim_job_def new_import_job_def demo_create_def is_online_def)

lemma demo_world:
  "iw_tools demo_imports = demo_model_tools" "iw_manifest_text demo_imports = (\<lambda>_. ''{}'')"
  by (simp_all add: demo_imports_def)

lemma demo_ready_run: "import_run demo_imports demo_events_end demo_fetched = Some demo_ready"
  by (simp add: demo_events_end_def demo_fetched_def on_task_def task_of_def job_of_def lookup_by_def demo_row demo_world
      validate_fetched_def demo_manifest_ok set_phase_def put_task_def replace_by_def move_to_store_def put_store_def put_staging_def
      finish_task_def finalize_ready_def check_def put_job_def finish_job_def demo_ready_def demo_ready_row_def)

lemma demo_history: "import_run demo_imports (demo_events @ demo_events_end) (import_start ''w'' []) = Some demo_ready"
  by (simp add: import_run_append demo_fetched_run demo_ready_run)

lemma demo_ready_row_simps:
  "ij_status demo_ready_row = I_READY" "ij_id demo_ready_row = 5" "ij_asset demo_ready_row = Some 77" "ij_cancel_at demo_ready_row = Some 20"
  by (simp_all add: demo_ready_row_def finish_job_def demo_import_row_def claim_job_def new_import_job_def)

lemma ready_imports_are_in_the_store_witness:
  "\<exists>a \<in> set (im_assets demo_ready). asset_id a = 77 \<and> local_path a = import_path demo_imports 5"
proof -
  have "demo_ready_row \<in> set (im_jobs demo_ready)" by (simp add: demo_ready_def)
  from ready_imports_are_in_the_store [OF demo_history this demo_ready_row_simps(1)] demo_ready_row_simps
  show ?thesis by auto
qed




section \<open>What the code does not exclude\<close>

text \<open>The cancellation that came in while a report was being written is lost: the import becomes ready.\<close>

lemma cancellation_may_be_lost:
  "\<exists>s j. import_run demo_imports (demo_events @ demo_events_end) (import_start ''w'' []) = Some s
     \<and> j \<in> set (im_jobs s) \<and> ij_cancel_at j = Some 20 \<and> ij_status j = I_READY"
  using demo_history demo_ready_row_simps by (intro exI [of _ demo_ready] exI [of _ demo_ready_row]) (simp add: demo_ready_def)

text \<open>
  A failure after the rename (the sync of the store, the last progress report) leaves the directory of a
  failed import in the store; no later event removes it.
\<close>

lemma failed_import_may_keep_its_directory:
  "\<exists>evs s. import_run demo_imports evs (import_start ''w'' []) = Some s \<and> im_assets s = []
     \<and> (\<exists>j \<in> set (im_jobs s). ij_id j = 5 \<and> ij_status j = I_FAILED) \<and> map_of (im_store s) 5 \<noteq> None"
proof -
  let ?evs = "[ValidateFiles 5 (Some ''c''), MoveToStore 5, FailRun 5 ''TimeoutError'' None, MarkFailed 5 30]"
  have "\<exists>s. import_run demo_imports ?evs demo_fetched = Some s \<and> im_assets s = []
     \<and> (\<exists>j \<in> set (im_jobs s). ij_id j = 5 \<and> ij_status j = I_FAILED) \<and> map_of (im_store s) 5 \<noteq> None"
    by (simp add: demo_fetched_def on_task_def task_of_def job_of_def lookup_by_def demo_row demo_world
      validate_fetched_def demo_manifest_ok set_phase_def put_task_def replace_by_def move_to_store_def put_store_def put_staging_def
      abort_run_def mark_failed_def put_job_def finish_job_def)
  then show ?thesis using demo_fetched_run import_run_append [of demo_imports demo_events ?evs] by (intro exI [of _ "demo_events @ ?evs"]) simp
qed

end
